(* ===== verification/Prelude.thy ===== *)
theory Prelude
  imports Main "HOL-Library.Sublist" "HOL-Library.State_Monad"
begin

text \<open>
  Shared material of the development: the theorem collections the component proofs draw on,
  the functions of Go's \<^verbatim>\<open>strings\<close> package the program uses, durations, and the way a Go
  function that returns \<^verbatim>\<open>(T, error)\<close> and may touch the outside world is written here.

  A Go string is a byte list (\<^typ>\<open>string\<close>).  \<^verbatim>\<open>strings.ToLower\<close> and
  \<^verbatim>\<open>strings.EqualFold\<close> are modelled on the ASCII letters; bytes above 127 are kept as they
  are, so the two are exact on ASCII text, which is what repository names, header names and log
  keys of this program are.
\<close>

named_theorems getter_simps \<open>accessor methods of the domain objects\<close>
named_theorems ctor_splits \<open>case analysis rules of the validating constructors\<close>
named_theorems op_defs \<open>definitions of the world operations, for unfolding a handler\<close>
named_theorems frame_simps \<open>which part of the world an operation leaves alone\<close>
named_theorems key_simps \<open>cache key families are injective and disjoint\<close>

section \<open>Results and effects\<close>

text \<open>
  \<^verbatim>\<open>(T, error)\<close> is a sum: \<open>Inl\<close> carries a non-nil error, \<open>Inr\<close> the value of a nil error.
  An effectful function is a state transformer of \<open>HOL-Library.State_Monad\<close>.  The combinators
  below are the two ways the code continues after a call: return on error, or look at both.
\<close>

definition lift_result :: "'e + 'a \<Rightarrow> ('s, 'e + 'a) state" where
  "lift_result r = State_Monad.return r"

definition try_bind :: "('s, 'e + 'a) state \<Rightarrow> ('a \<Rightarrow> ('s, 'e + 'b) state) \<Rightarrow> ('s, 'e + 'b) state" where
  "try_bind m f = State (\<lambda>s. case run_state m s of
     (Inl e, s') \<Rightarrow> (Inl e, s')
   | (Inr a, s') \<Rightarrow> run_state (f a) s')"

lemma run_lift_result [simp]: "run_state (lift_result r) s = (r, s)"
  by (simp add: lift_result_def)

lemma run_bindE:
  assumes "run_state (State_Monad.bind m f) s = (r, s')"
  obtains a t where "run_state m s = (a, t)" "run_state (f a) t = (r, s')"
  using assms by (cases "run_state m s") simp

lemma run_try_bind:
  "run_state (try_bind m f) s = (case run_state m s of
     (Inl e, s') \<Rightarrow> (Inl e, s')
   | (Inr a, s') \<Rightarrow> run_state (f a) s')"
  by (simp add: try_bind_def)

definition map_error :: "('e \<Rightarrow> 'e) \<Rightarrow> ('s, 'e + 'a) state \<Rightarrow> ('s, 'e + 'a) state" where
  "map_error g m = State (\<lambda>s. case run_state m s of
     (Inl e, s') \<Rightarrow> (Inl (g e), s')
   | (Inr a, s') \<Rightarrow> (Inr a, s'))"

lemma run_map_error:
  "run_state (map_error g m) s = (case run_state m s of
     (Inl e, s') \<Rightarrow> (Inl (g e), s')
   | (Inr a, s') \<Rightarrow> (Inr a, s'))"
  by (simp add: map_error_def)

text \<open>A property of the state that a computation keeps, whatever it returns.\<close>

definition keeps :: "('s \<Rightarrow> bool) \<Rightarrow> ('s, 'a) state \<Rightarrow> bool" where
  "keeps P m \<longleftrightarrow> (\<forall>s r s'. P s \<longrightarrow> run_state m s = (r, s') \<longrightarrow> P s')"

lemma keepsI: "(\<And>s r s'. P s \<Longrightarrow> run_state m s = (r, s') \<Longrightarrow> P s') \<Longrightarrow> keeps P m"
  by (auto simp: keeps_def)

lemma keepsD: "keeps P m \<Longrightarrow> P s \<Longrightarrow> run_state m s = (r, s') \<Longrightarrow> P s'"
  by (auto simp: keeps_def)

lemma keeps_return [simp, intro]: "keeps P (State_Monad.return x)"
  by (auto simp: keeps_def)

lemma keeps_lift_result [simp, intro]: "keeps P (lift_result r)"
  by (auto simp: keeps_def)

lemma keeps_bind [intro]:
  assumes "keeps P m" and "\<And>x. keeps P (f x)"
  shows "keeps P (State_Monad.bind m f)"
proof (rule keepsI)
  fix s r s'
  assume "P s" and run: "run_state (State_Monad.bind m f) s = (r, s')"
  obtain a s1 where m: "run_state m s = (a, s1)" by fastforce
  with run have "run_state (f a) s1 = (r, s')" by simp
  moreover from assms(1) \<open>P s\<close> m have "P s1" by (rule keepsD)
  ultimately show "P s'" using assms(2) keepsD by metis
qed

lemma keeps_try_bind [intro]:
  assumes "keeps P m" and "\<And>x. keeps P (f x)"
  shows "keeps P (try_bind m f)"
proof (rule keepsI)
  fix s r s'
  assume "P s" and run: "run_state (try_bind m f) s = (r, s')"
  obtain a s1 where m: "run_state m s = (a, s1)" by fastforce
  from assms(1) \<open>P s\<close> m have P1: "P s1" by (rule keepsD)
  show "P s'"
  proof (cases a)
    case (Inl e)
    with run m P1 show ?thesis by (simp add: run_try_bind)
  next
    case (Inr x)
    with run m have "run_state (f x) s1 = (r, s')" by (simp add: run_try_bind)
    with assms(2) P1 show ?thesis by (rule keepsD)
  qed
qed

lemma keeps_map_error [intro]:
  assumes "keeps P m"
  shows "keeps P (map_error g m)"
proof (rule keepsI)
  fix s r s'
  assume "P s" and run: "run_state (map_error g m) s = (r, s')"
  obtain a s1 where m: "run_state m s = (a, s1)" by fastforce
  from assms \<open>P s\<close> m have "P s1" by (rule keepsD)
  with run m show "P s'" by (cases a) (simp_all add: run_map_error)
qed

text \<open>A relation between the state before and after: the frame of a computation.\<close>

definition frames :: "('s \<Rightarrow> 's \<Rightarrow> bool) \<Rightarrow> ('s, 'a) state \<Rightarrow> bool" where
  "frames R m \<longleftrightarrow> (\<forall>s r s'. run_state m s = (r, s') \<longrightarrow> R s s')"

lemma framesI: "(\<And>s r s'. run_state m s = (r, s') \<Longrightarrow> R s s') \<Longrightarrow> frames R m"
  by (auto simp: frames_def)

lemma framesD: "frames R m \<Longrightarrow> run_state m s = (r, s') \<Longrightarrow> R s s'"
  by (auto simp: frames_def)

lemma frames_return [intro]: "reflp R \<Longrightarrow> frames R (State_Monad.return x)"
  by (auto simp: frames_def reflp_def)

lemma frames_lift_result [intro]: "reflp R \<Longrightarrow> frames R (lift_result r)"
  by (auto simp: frames_def reflp_def)

lemma frames_bind [intro]:
  assumes "transp R" and "frames R m" and "\<And>x. frames R (f x)"
  shows "frames R (State_Monad.bind m f)"
proof (rule framesI)
  fix s r s'
  assume run: "run_state (State_Monad.bind m f) s = (r, s')"
  obtain a s1 where m: "run_state m s = (a, s1)" by fastforce
  with run have "run_state (f a) s1 = (r, s')" by simp
  with assms(3) have "R s1 s'" by (rule framesD)
  moreover from assms(2) m have "R s s1" by (rule framesD)
  ultimately show "R s s'" using assms(1) by (blast dest: transpD)
qed

lemma frames_try_bind [intro]:
  assumes "transp R" and "frames R m" and "\<And>x. frames R (f x)"
  shows "frames R (try_bind m f)"
proof (rule framesI)
  fix s r s'
  assume run: "run_state (try_bind m f) s = (r, s')"
  obtain a s1 where m: "run_state m s = (a, s1)" by fastforce
  from assms(2) m have R1: "R s s1" by (rule framesD)
  show "R s s'"
  proof (cases a)
    case (Inl e)
    with run m R1 show ?thesis by (simp add: run_try_bind)
  next
    case (Inr x)
    with run m have "run_state (f x) s1 = (r, s')" by (simp add: run_try_bind)
    with assms(3) have "R s1 s'" by (rule framesD)
    with R1 assms(1) show ?thesis by (blast dest: transpD)
  qed
qed

lemma frames_map_error [intro]:
  assumes "frames R m"
  shows "frames R (map_error g m)"
proof (rule framesI)
  fix s r s'
  assume run: "run_state (map_error g m) s = (r, s')"
  obtain a s1 where m: "run_state m s = (a, s1)" by fastforce
  from assms m have "R s s1" by (rule framesD)
  with run m show "R s s'" by (cases a) (simp_all add: run_map_error)
qed

section \<open>Durations and instants\<close>

text \<open>\<^verbatim>\<open>time.Duration\<close> counts nanoseconds; an instant is nanoseconds since the epoch.\<close>

type_synonym duration = int
type_synonym instant = int

definition Second :: duration where "Second = 1000000000"
definition Minute :: duration where "Minute = 60 * Second"
definition Hour :: duration where "Hour = 60 * Minute"

section \<open>Go's \<^verbatim>\<open>int64\<close>\<close>

text \<open>
  The program never does arithmetic on its \<^verbatim>\<open>int64\<close> values: it compares and copies them.
  They are integers here, and the places where a value enters (JSON decoding) check the range.
\<close>

definition int64_range :: "int \<Rightarrow> bool" where
  "int64_range i \<longleftrightarrow> - (2 ^ 63) \<le> i \<and> i < 2 ^ 63"

section \<open>The \<^verbatim>\<open>strings\<close> package\<close>

fun strings_Split :: "string \<Rightarrow> char \<Rightarrow> string list" where
  "strings_Split [] c = [[]]"
| "strings_Split (x # xs) c =
     (if x = c then [] # strings_Split xs c
      else (case strings_Split xs c of [] \<Rightarrow> [[x]] | p # ps \<Rightarrow> (x # p) # ps))"

fun strings_Join :: "string list \<Rightarrow> string \<Rightarrow> string" where
  "strings_Join [] sep = []"
| "strings_Join [p] sep = p"
| "strings_Join (p # q # ps) sep = p @ sep @ strings_Join (q # ps) sep"

lemma strings_Split_nonempty [simp]: "strings_Split s c \<noteq> []"
  by (induction s) (auto split: list.splits)

lemma strings_Split_no_sep: "c \<notin> set s \<Longrightarrow> strings_Split s c = [s]"
  by (induction s) auto

lemma strings_Split_append_sep:
  "c \<notin> set s \<Longrightarrow> strings_Split (s @ c # t) c = s # strings_Split t c"
  by (induction s) auto

lemma strings_Split_parts: "p \<in> set (strings_Split s c) \<Longrightarrow> c \<notin> set p"
proof (induction s arbitrary: p)
  case (Cons x xs)
  then show ?case by (cases "strings_Split xs c") (auto split: if_splits)
qed auto

lemma strings_Join_Split: "strings_Join (strings_Split s c) [c] = s"
proof (induction s)
  case (Cons x xs)
  show ?case
  proof (cases "strings_Split xs c")
    case Nil
    then show ?thesis by simp
  next
    case (Cons p ps)
    with Cons.IH show ?thesis by (cases ps) auto
  qed
qed simp

definition strings_TrimPrefix :: "string \<Rightarrow> string \<Rightarrow> string" where
  "strings_TrimPrefix s p = (if prefix p s then drop (length p) s else s)"

definition strings_TrimSuffix :: "string \<Rightarrow> string \<Rightarrow> string" where
  "strings_TrimSuffix s p = (if suffix p s then take (length s - length p) s else s)"

definition strings_Contains :: "string \<Rightarrow> string \<Rightarrow> bool" where
  "strings_Contains s t = sublist t s"

definition ascii_lower :: "char \<Rightarrow> char" where
  "ascii_lower c = (let n = (of_char c :: nat) in if 65 \<le> n \<and> n \<le> 90 then char_of (n + 32) else c)"

definition strings_ToLower :: "string \<Rightarrow> string" where
  "strings_ToLower s = map ascii_lower s"

definition strings_EqualFold :: "string \<Rightarrow> string \<Rightarrow> bool" where
  "strings_EqualFold s t \<longleftrightarrow> strings_ToLower s = strings_ToLower t"

lemma strings_EqualFold_refl [simp]: "strings_EqualFold s s"
  by (simp add: strings_EqualFold_def)

lemma strings_EqualFold_sym: "strings_EqualFold s t \<Longrightarrow> strings_EqualFold t s"
  by (simp add: strings_EqualFold_def)

lemma strings_EqualFold_trans:
  "strings_EqualFold s t \<Longrightarrow> strings_EqualFold t u \<Longrightarrow> strings_EqualFold s u"
  by (simp add: strings_EqualFold_def)

lemma strings_EqualFold_length: "strings_EqualFold s t \<Longrightarrow> length s = length t"
  unfolding strings_EqualFold_def strings_ToLower_def by (metis length_map)

definition is_space :: "char \<Rightarrow> bool" where
  "is_space c \<longleftrightarrow> c \<in> {CHR '' '', CHR 0x09, CHR 0x0A, CHR 0x0B, CHR 0x0C, CHR 0x0D}"

definition strings_TrimSpace :: "string \<Rightarrow> string" where
  "strings_TrimSpace s = rev (dropWhile is_space (rev (dropWhile is_space s)))"

end
