(* ===== verification/Errors.thy ===== *)
theory Errors
  imports Prelude
begin

text \<open>
  Error values.  Go's sentinel errors are package variables compared by identity, so each is a
  constructor, grouped by the package that declares it; two packages may use the same name
  (\<open>domain_error.ErrNotFound\<close> is not \<open>infrastructure.ErrNotFound\<close>).  Wrapping with
  \<^verbatim>\<open>fmt.Errorf("...%w", err)\<close> is \<open>Wrap\<close>; where the format has a second argument under \<^verbatim>\<open>%v\<close>, only
  the \<^verbatim>\<open>%w\<close> operand stays in the chain, as in Go.  The text of a wrapped error is only logged and
  is left out; an error built from text alone is \<open>Plain\<close> with a short gloss of that text.
  \<open>Panic\<close> stands for a run-time panic where the model of an operation has no other result.
\<close>

section \<open>Sentinels, by package\<close>

datatype (plugins only: code size) domain_error =
  ErrNotFound
| ErrEmptySub
| ErrInvalidProviderType
| ErrAccessPolicyNotFound
| ErrInvalidRepositoryIdentifier
| ErrAuthorizationDenied
| ErrInvalidAccessPolicyID
| ErrEmptyAllowedRedirectURIs
| ErrInvalidRedirectURIFormat
| ErrInvalidAllowedRepositoryFormat
| ErrInvalidHashAlgorithm
| ErrInvalidOIDFormat
| ErrInvalidOperation
| ErrInvalidRepositoryIdentifierFormat
| ErrInvalidShellType
| ErrInvalidSize
| ErrInvalidStorageKey

datatype (plugins only: code size) usecase_error =
  UErrInvalidOperation
| UErrNoObjects
| UErrInvalidOID
| UErrInvalidSize
| UErrObjectNotFound
| UErrSizeMismatch
| UErrS3URLGeneration
| UErrMetadataCache
| UErrAuthenticationFailed
| UErrInvalidState
| UErrSessionCreationFailed
| UErrSessionNotFound
| UErrInvalidSessionData
| UErrInvalidRepository
| UErrInvalidRedirectURI
| UErrStateSaveFailed
| UErrCodeExchangeFailed
| UErrUserInfoFailed
| UErrUserInfoCreationFailed
| UErrRepositoryAccessDenied
| UErrRepositoryAccessCheckFailed
| UErrAccessDenied
| UErrInvalidHashAlgorithm
| UErrInvalidCode
| UErrGitHubOIDCNotConfigured
| UErrCacheMiss
| UErrNotUploaded
| UErrHealthCheckFailed

datatype s3_error = S3ErrInvalidOID | S3ErrInvalidHashAlgo

datatype redis_error = RedisErrNilUserInfo | RedisErrNilGitHubUserInfo | RedisErrCacheMiss

datatype oidc_error =
  OErrInvalidToken
| OErrExpiredToken
| OErrInvalidIssuer
| OErrInvalidAudience
| OErrJWKSFetchFailed
| OErrKeyIDNotFound
| OErrMissingKeyID
| OErrInvalidRepository
| OErrExponentOutOfRange

datatype middleware_error = MErrRepositoryMismatch | MErrInvalidRepositoryPath

text \<open>
  Errors of the driver libraries and the standard library that the code tells apart
  (\<^verbatim>\<open>pgx.ErrNoRows\<close>, \<^verbatim>\<open>context.DeadlineExceeded\<close>, the S3 \<^verbatim>\<open>NotFound\<close> API error, the JWT library's
  expiry error) and all others, with their text.
\<close>

datatype extern_error =
  PgxErrNoRows
| ContextDeadlineExceeded
| S3NotFound
| JwtErrTokenExpired
| OtherExtern string

datatype storage_operation = OperationPut | OperationGet | OperationHead

text \<open>
  The texts of responses, one constructor per text of the source; \<open>Messages\<close> has their UTF-8
  bytes.  \<open>MsgText\<close> is any other text.
\<close>

datatype (plugins only: code size) message =
  MsgMetadataFetchFailed
| MsgInvalidStorageKeyParameter
| MsgInvalidHashAlgorithm
| MsgInvalidHashAlgorithmObject
| MsgMetadataCreateFailed
| MsgMetadataSaveFailed
| MsgSizeConflict
| MsgObjectMissing
| MsgNotUploadedYet
| MsgAcceptHeader
| MsgContentTypeHeader
| MsgInvalidRepositoryIdentifier
| MsgBodyParseFailed
| MsgBodyTooLarge
| MsgNoAuthInfo
| MsgNoPermission
| MsgInvalidOperation
| MsgNoObjects
| MsgInvalidOID
| MsgInvalidSize
| MsgAccessDenied
| MsgInternalError
| MsgGatewayTimeout
| MsgStorageError
| MsgVerifyBodyParseFailed
| MsgOidRequired
| MsgSizePositive
| MsgOidFormat
| MsgObjectNotFound
| MsgSizeMismatch
| MsgUnauthorized
| MsgForbidden
| MsgInvalidRepositoryPath
| MsgHostNotAllowed
| MsgRepositoryParamMissing
| MsgRepositoryParamInvalid
| MsgShellParamInvalid
| MsgAuthURLFailed
| MsgCodeParamMissing
| MsgStateParamMissing
| MsgAuthSessionInvalid
| MsgRepositoryNoAccess
| MsgAuthFailed
| MsgUserInfoFailed
| MsgAuthProcessFailed
| MsgSessionParamMissing
| MsgHostParamMissing
| MsgText string

section \<open>Error values\<close>

datatype (plugins only: code size) gerror =
  Domain domain_error
| Usecase usecase_error
| S3 s3_error
| Redis redis_error
| Oidc oidc_error
| Middleware middleware_error
| InfraErrNotFound
| Extern extern_error
| Plain string
| Panic string
| Wrap gerror
| StorageError storage_operation gerror
| AppError nat message "gerror option"
| HTTPError nat "message option"

text \<open>
  \<^verbatim>\<open>errors.Is(err, target)\<close> for a sentinel target: the error or one it wraps is the target.
  \<^verbatim>\<open>*StorageError\<close> unwraps to its cause and its own \<^verbatim>\<open>Is\<close> method only matches another
  \<^verbatim>\<open>*StorageError\<close>; \<^verbatim>\<open>*AppError\<close> has no \<^verbatim>\<open>Unwrap\<close>, so the chain stops there.
\<close>

primrec errors_Is :: "gerror \<Rightarrow> gerror \<Rightarrow> bool" where
  "errors_Is (Domain e) t = (Domain e = t)"
| "errors_Is (Usecase e) t = (Usecase e = t)"
| "errors_Is (S3 e) t = (S3 e = t)"
| "errors_Is (Redis e) t = (Redis e = t)"
| "errors_Is (Oidc e) t = (Oidc e = t)"
| "errors_Is (Middleware e) t = (Middleware e = t)"
| "errors_Is InfraErrNotFound t = (InfraErrNotFound = t)"
| "errors_Is (Extern e) t = (Extern e = t)"
| "errors_Is (Plain s) t = False"
| "errors_Is (Panic s) t = False"
| "errors_Is (Wrap e) t = errors_Is e t"
| "errors_Is (StorageError op e) t = errors_Is e t"
| "errors_Is (AppError c m e) t = False"
| "errors_Is (HTTPError c m) t = False"

definition NewStorageError :: "storage_operation \<Rightarrow> gerror \<Rightarrow> gerror" where
  "NewStorageError operation err = StorageError operation err"

text \<open>\<^verbatim>\<open>errors.As(err, &storageErr)\<close>: some error of the chain is a \<^verbatim>\<open>*StorageError\<close>.\<close>

primrec errors_As_StorageError :: "gerror \<Rightarrow> bool" where
  "errors_As_StorageError (Domain e) = False"
| "errors_As_StorageError (Usecase e) = False"
| "errors_As_StorageError (S3 e) = False"
| "errors_As_StorageError (Redis e) = False"
| "errors_As_StorageError (Oidc e) = False"
| "errors_As_StorageError (Middleware e) = False"
| "errors_As_StorageError InfraErrNotFound = False"
| "errors_As_StorageError (Extern e) = False"
| "errors_As_StorageError (Plain s) = False"
| "errors_As_StorageError (Panic s) = False"
| "errors_As_StorageError (Wrap e) = errors_As_StorageError e"
| "errors_As_StorageError (StorageError op e) = True"
| "errors_As_StorageError (AppError c m e) = False"
| "errors_As_StorageError (HTTPError c m) = False"

definition IsStorageError :: "gerror option \<Rightarrow> bool" where
  "IsStorageError err = (case err of None \<Rightarrow> False | Some e \<Rightarrow> errors_As_StorageError e)"

lemma errors_Is_refl_sentinel [simp]:
  "errors_Is (Domain d) (Domain d)" "errors_Is (Usecase u) (Usecase u)"
  by simp_all

lemma errors_Is_unique_domain:
  "errors_Is e (Domain a) \<Longrightarrow> errors_Is e (Domain b) \<Longrightarrow> a = b"
  by (induction e) auto

lemma errors_Is_unique_usecase:
  "errors_Is e (Usecase a) \<Longrightarrow> errors_Is e (Usecase b) \<Longrightarrow> a = b"
  by (induction e) auto

lemma errors_Is_packages_apart: "errors_Is e (Usecase a) \<Longrightarrow> \<not> errors_Is e (Domain b)"
  by (induction e) auto

section \<open>Errors an external call may report\<close>

text \<open>
  A call to Postgres, Redis or the object store can fail for reasons the program does not
  control.  Such a failure is a timeout of the request's context or a driver error; it is never
  one of the answers the driver uses to report a missing row or key, so a failure has a type of
  its own and is injected into \<^typ>\<open>gerror\<close> here.
\<close>

datatype ext_failure = Timeout | DriverError string

primrec ext_gerror :: "ext_failure \<Rightarrow> gerror" where
  "ext_gerror Timeout = Extern ContextDeadlineExceeded"
| "ext_gerror (DriverError s) = Extern (OtherExtern s)"

lemma ext_gerror_not_sentinel [simp]:
  "\<not> errors_Is (ext_gerror f) (Domain d)" "\<not> errors_Is (ext_gerror f) (Usecase u)"
  "\<not> errors_Is (ext_gerror f) (Extern PgxErrNoRows)" "\<not> errors_Is (ext_gerror f) (Extern S3NotFound)"
  "\<not> errors_Is (ext_gerror f) (Redis r)" "\<not> errors_Is (ext_gerror f) InfraErrNotFound"
  by (cases f; simp)+

lemma ext_gerror_neq [simp]:
  "ext_gerror f \<noteq> Domain d" "ext_gerror f \<noteq> Redis r" "ext_gerror f \<noteq> Extern PgxErrNoRows"
  "ext_gerror f \<noteq> Extern S3NotFound"
  by (cases f; simp)+

end
