(* ===== verification/Domain.thy ===== *)
theory Domain
  imports Errors
begin

text \<open>
  The value objects and entities of \<^verbatim>\<open>internal/domain\<close>.  A Go struct around one string is a
  datatype with one constructor (its zero value is the constructor at the empty string); a
  struct with several fields is a record, whose selectors are the accessor methods.  A pointer
  that may be nil is an option.  Constructors that validate return a sum.
\<close>

section \<open>Identifiers, sizes, keys\<close>

datatype OID = OID string

primrec OID_String :: "OID \<Rightarrow> string" where
  "OID_String (OID value) = value"

definition hex_chars :: string where
  "hex_chars = ''0123456789abcdefABCDEF''"

text \<open>\<^verbatim>\<open>^[a-fA-F0-9]{64}$\<close>: exactly 64 hexadecimal digits, with no trailing newline in Go.\<close>

definition oidPattern :: "string \<Rightarrow> bool" where
  "oidPattern s \<longleftrightarrow> length s = 64 \<and> list_all (\<lambda>c. c \<in> set hex_chars) s"

definition NewOID :: "string \<Rightarrow> gerror + OID" where
  "NewOID value = (if \<not> oidPattern value then Inl (Domain ErrInvalidOIDFormat) else Inr (OID value))"

datatype Size = Size int

primrec Size_Int64 :: "Size \<Rightarrow> int" where
  "Size_Int64 (Size value) = value"

definition NewSize :: "int \<Rightarrow> gerror + Size" where
  "NewSize value = (if value < 0 then Inl (Domain ErrInvalidSize) else Inr (Size value))"

datatype HashAlgorithm = HashAlgorithm string

primrec HashAlgorithm_String :: "HashAlgorithm \<Rightarrow> string" where
  "HashAlgorithm_String (HashAlgorithm value) = value"

definition allowedHashAlgorithms :: "string list" where
  "allowedHashAlgorithms = [''sha256'']"

definition defaultHashAlgorithm :: string where
  "defaultHashAlgorithm = ''sha256''"

definition NewHashAlgorithm :: "string \<Rightarrow> gerror + HashAlgorithm" where
  "NewHashAlgorithm value =
     (if value = [] then Inr (HashAlgorithm defaultHashAlgorithm)
      else if value \<notin> set allowedHashAlgorithms then Inl (Domain ErrInvalidHashAlgorithm)
      else Inr (HashAlgorithm value))"

datatype StorageKey = StorageKey string

primrec StorageKey_String :: "StorageKey \<Rightarrow> string" where
  "StorageKey_String (StorageKey value) = value"

definition NewStorageKey :: "string \<Rightarrow> gerror + StorageKey" where
  "NewStorageKey value =
     (if value = [] then Inl (Domain ErrInvalidStorageKey) else Inr (StorageKey value))"

datatype AccessPolicyID = AccessPolicyID int

primrec AccessPolicyID_Int64 :: "AccessPolicyID \<Rightarrow> int" where
  "AccessPolicyID_Int64 (AccessPolicyID value) = value"

definition NewAccessPolicyID :: "int \<Rightarrow> gerror + AccessPolicyID" where
  "NewAccessPolicyID value =
     (if value < 0 then Inl (Domain ErrInvalidAccessPolicyID) else Inr (AccessPolicyID value))"

section \<open>Enumerations held as strings\<close>

datatype Operation = Operation string

primrec Operation_String :: "Operation \<Rightarrow> string" where
  "Operation_String (Operation value) = value"

definition OperationDownload :: Operation where "OperationDownload = Operation ''download''"

definition OperationUpload :: Operation where "OperationUpload = Operation ''upload''"

definition ParseOperation :: "string \<Rightarrow> gerror + Operation" where
  "ParseOperation s =
     (if s = Operation_String OperationDownload then Inr OperationDownload
      else if s = Operation_String OperationUpload then Inr OperationUpload
      else Inl (Domain ErrInvalidOperation))"

definition Operation_IsZero :: "Operation \<Rightarrow> bool" where
  "Operation_IsZero oper \<longleftrightarrow> Operation_String oper = []"

datatype ShellType = ShellType string

primrec ShellType_String :: "ShellType \<Rightarrow> string" where
  "ShellType_String (ShellType value) = value"

definition ShellTypeBash :: ShellType where "ShellTypeBash = ShellType ''bash''"

definition ShellTypeZsh :: ShellType where "ShellTypeZsh = ShellType ''zsh''"

definition ShellTypePowerShell :: ShellType where "ShellTypePowerShell = ShellType ''powershell''"

definition ParseShellType :: "string \<Rightarrow> gerror + ShellType" where
  "ParseShellType s =
     (if s = [] \<or> s = ShellType_String ShellTypeBash then Inr ShellTypeBash
      else if s = ShellType_String ShellTypeZsh then Inr ShellTypeZsh
      else if s = ShellType_String ShellTypePowerShell then Inr ShellTypePowerShell
      else Inl (Wrap (Domain ErrInvalidShellType)))"

definition ShellType_IsZero :: "ShellType \<Rightarrow> bool" where
  "ShellType_IsZero s \<longleftrightarrow> ShellType_String s = []"

datatype ProviderType = ProviderType string

primrec ProviderType_String :: "ProviderType \<Rightarrow> string" where
  "ProviderType_String (ProviderType value) = value"

definition ProviderTypeGitHub :: ProviderType where "ProviderTypeGitHub = ProviderType ''github''"

definition validProviderTypes :: "string \<Rightarrow> ProviderType option" where
  "validProviderTypes = map_of [(''github'', ProviderTypeGitHub)]"

definition NewProviderType :: "string \<Rightarrow> gerror + ProviderType" where
  "NewProviderType s = (case validProviderTypes s of
     None \<Rightarrow> Inl (Domain ErrInvalidProviderType)
   | Some pt \<Rightarrow> Inr pt)"

section \<open>Repositories\<close>

record RepositoryIdentifier =
  ri_owner :: string
  ri_name :: string

definition NewRepositoryIdentifier :: "string \<Rightarrow> gerror + RepositoryIdentifier" where
  "NewRepositoryIdentifier fullName =
     (case strings_Split fullName (CHR ''/'') of
        [owner, name] \<Rightarrow>
          if owner = [] \<or> name = [] then Inl (Domain ErrInvalidRepositoryIdentifierFormat)
          else Inr \<lparr>ri_owner = owner, ri_name = name\<rparr>
      | _ \<Rightarrow> Inl (Domain ErrInvalidRepositoryIdentifierFormat))"

definition FullName :: "RepositoryIdentifier \<Rightarrow> string" where
  "FullName ri = ri_owner ri @ ''/'' @ ri_name ri"

fun RepositoryIdentifier_Equals :: "RepositoryIdentifier option \<Rightarrow> RepositoryIdentifier option \<Rightarrow> bool" where
  "RepositoryIdentifier_Equals None other = (other = None)"
| "RepositoryIdentifier_Equals (Some ri) None = False"
| "RepositoryIdentifier_Equals (Some ri) (Some other) =
     (ri_owner ri = ri_owner other \<and> ri_name ri = ri_name other)"

fun RepositoryIdentifier_EqualsFold :: "RepositoryIdentifier option \<Rightarrow> RepositoryIdentifier option \<Rightarrow> bool" where
  "RepositoryIdentifier_EqualsFold None other = (other = None)"
| "RepositoryIdentifier_EqualsFold (Some ri) None = False"
| "RepositoryIdentifier_EqualsFold (Some ri) (Some other) =
     (strings_EqualFold (ri_owner ri) (ri_owner other) \<and> strings_EqualFold (ri_name ri) (ri_name other))"

record AllowedRepository =
  ar_identifier :: RepositoryIdentifier

definition NewAllowedRepositoryFromString :: "string \<Rightarrow> gerror + AllowedRepository" where
  "NewAllowedRepositoryFromString fullName =
     (case NewRepositoryIdentifier fullName of
        Inl err \<Rightarrow> Inl (Domain ErrInvalidAllowedRepositoryFormat)
      | Inr identifier \<Rightarrow> Inr \<lparr>ar_identifier = identifier\<rparr>)"

definition NewAllowedRepository :: "string \<Rightarrow> string \<Rightarrow> gerror + AllowedRepository" where
  "NewAllowedRepository owner repo =
     (if owner = [] \<or> repo = [] then Inl (Domain ErrInvalidAllowedRepositoryFormat)
      else (case NewRepositoryIdentifier (owner @ ''/'' @ repo) of
        Inl err \<Rightarrow> Inl (Domain ErrInvalidAllowedRepositoryFormat)
      | Inr identifier \<Rightarrow> Inr \<lparr>ar_identifier = identifier\<rparr>))"

definition AllowedRepository_Owner :: "AllowedRepository \<Rightarrow> string" where
  [getter_simps]: "AllowedRepository_Owner ar = ri_owner (ar_identifier ar)"

definition AllowedRepository_Repo :: "AllowedRepository \<Rightarrow> string" where
  [getter_simps]: "AllowedRepository_Repo ar = ri_name (ar_identifier ar)"

definition AllowedRepository_String :: "AllowedRepository \<Rightarrow> string" where
  [getter_simps]: "AllowedRepository_String ar = FullName (ar_identifier ar)"

fun AllowedRepository_Equals :: "AllowedRepository option \<Rightarrow> AllowedRepository option \<Rightarrow> bool" where
  "AllowedRepository_Equals None other = (other = None)"
| "AllowedRepository_Equals (Some ar) None = False"
| "AllowedRepository_Equals (Some ar) (Some other) =
     RepositoryIdentifier_Equals (Some (ar_identifier ar)) (Some (ar_identifier other))"

record RepositoryPermissions =
  rp_admin :: bool
  rp_push :: bool
  rp_pull :: bool
  rp_maintain :: bool
  rp_triage :: bool

definition NewRepositoryPermissions :: "bool \<Rightarrow> bool \<Rightarrow> bool \<Rightarrow> bool \<Rightarrow> bool \<Rightarrow> RepositoryPermissions" where
  "NewRepositoryPermissions admin push pull maintain triage =
     \<lparr>rp_admin = admin, rp_push = push, rp_pull = pull, rp_maintain = maintain, rp_triage = triage\<rparr>"

definition CanUpload :: "RepositoryPermissions \<Rightarrow> bool" where
  "CanUpload p \<longleftrightarrow> rp_push p \<or> rp_admin p \<or> rp_maintain p"

definition CanDownload :: "RepositoryPermissions \<Rightarrow> bool" where
  "CanDownload p \<longleftrightarrow> rp_pull p \<or> rp_push p \<or> rp_admin p \<or> rp_maintain p \<or> rp_triage p"

section \<open>Rights\<close>

text \<open>Permissions are ordered by what they allow; whoever may do more may do what others may.\<close>

instantiation RepositoryPermissions_ext :: (order) order
begin

definition less_eq_RepositoryPermissions_ext :: "'a RepositoryPermissions_scheme \<Rightarrow> 'a RepositoryPermissions_scheme \<Rightarrow> bool" where
  "less_eq_RepositoryPermissions_ext p q \<longleftrightarrow> rp_admin p \<le> rp_admin q \<and> rp_push p \<le> rp_push q \<and> rp_pull p \<le> rp_pull q \<and>
     rp_maintain p \<le> rp_maintain q \<and> rp_triage p \<le> rp_triage q \<and>
     RepositoryPermissions.more p \<le> RepositoryPermissions.more q"

definition less_RepositoryPermissions_ext :: "'a RepositoryPermissions_scheme \<Rightarrow> 'a RepositoryPermissions_scheme \<Rightarrow> bool" where
  "less_RepositoryPermissions_ext p q \<longleftrightarrow> p \<le> q \<and> \<not> q \<le> p"

instance
proof
  fix p q r :: "('a::order) RepositoryPermissions_scheme"
  show "p < q \<longleftrightarrow> p \<le> q \<and> \<not> q \<le> p" by (rule less_RepositoryPermissions_ext_def)
  show "p \<le> p" by (simp add: less_eq_RepositoryPermissions_ext_def)
  show "p \<le> r" if "p \<le> q" "q \<le> r"
    using that unfolding less_eq_RepositoryPermissions_ext_def by (meson order_trans)
  show "p = q" if "p \<le> q" "q \<le> p"
    using that unfolding less_eq_RepositoryPermissions_ext_def by (intro RepositoryPermissions.equality antisym) simp_all
qed

end

lemma CanUpload_mono: "p \<le> q \<Longrightarrow> CanUpload p \<Longrightarrow> CanUpload q"
  by (auto simp: less_eq_RepositoryPermissions_ext_def CanUpload_def)

lemma CanDownload_mono: "p \<le> q \<Longrightarrow> CanDownload p \<Longrightarrow> CanDownload q"
  by (auto simp: less_eq_RepositoryPermissions_ext_def CanDownload_def)

lemma all_rights: "p \<le> NewRepositoryPermissions True True True True True"
  by (simp add: less_eq_RepositoryPermissions_ext_def NewRepositoryPermissions_def)

lemma no_rights: "NewRepositoryPermissions False False False False False \<le> p"
  by (simp add: less_eq_RepositoryPermissions_ext_def NewRepositoryPermissions_def)

section \<open>LFS objects and access policies\<close>

record LFSObject =
  lo_oid :: OID
  lo_size :: Size
  lo_hashAlgo :: HashAlgorithm
  lo_storageKey :: StorageKey
  lo_uploaded :: bool
  lo_createdAt :: instant
  lo_updatedAt :: instant

text \<open>\<^verbatim>\<open>ctxtime.Now(ctx)\<close> is the argument \<open>now\<close>.\<close>

definition NewLFSObject :: "instant \<Rightarrow> OID \<Rightarrow> Size \<Rightarrow> HashAlgorithm \<Rightarrow> string \<Rightarrow> gerror + LFSObject" where
  "NewLFSObject now oid sz hashAlgo storageKey =
     (case NewStorageKey storageKey of
        Inl err \<Rightarrow> Inl err
      | Inr sk \<Rightarrow> Inr \<lparr>lo_oid = oid, lo_size = sz, lo_hashAlgo = hashAlgo, lo_storageKey = sk,
          lo_uploaded = False, lo_createdAt = now, lo_updatedAt = now\<rparr>)"

definition ReconstructLFSObject ::
  "OID \<Rightarrow> Size \<Rightarrow> string \<Rightarrow> string \<Rightarrow> bool \<Rightarrow> instant \<Rightarrow> instant \<Rightarrow> gerror + LFSObject" where
  "ReconstructLFSObject oid sz hashAlgo storageKey uploaded createdAt updatedAt =
     (case NewHashAlgorithm hashAlgo of
        Inl err \<Rightarrow> Inl err
      | Inr hashAlgorithm \<Rightarrow>
        (case NewStorageKey storageKey of
           Inl err \<Rightarrow> Inl err
         | Inr sk \<Rightarrow> Inr \<lparr>lo_oid = oid, lo_size = sz, lo_hashAlgo = hashAlgorithm, lo_storageKey = sk,
             lo_uploaded = uploaded, lo_createdAt = createdAt, lo_updatedAt = updatedAt\<rparr>))"

definition MarkAsUploaded :: "instant \<Rightarrow> LFSObject \<Rightarrow> LFSObject" where
  "MarkAsUploaded now obj = obj\<lparr>lo_uploaded := True, lo_updatedAt := now\<rparr>"

definition GetStorageKey :: "LFSObject \<Rightarrow> string" where
  [getter_simps]: "GetStorageKey obj = StorageKey_String (lo_storageKey obj)"

definition LFSObject_HashAlgo :: "LFSObject \<Rightarrow> string" where
  [getter_simps]: "LFSObject_HashAlgo obj = HashAlgorithm_String (lo_hashAlgo obj)"

record AccessPolicy =
  ap_id :: AccessPolicyID
  ap_oid :: OID
  ap_repository :: "RepositoryIdentifier option"
  ap_createdAt :: instant

definition NewAccessPolicy ::
  "AccessPolicyID \<Rightarrow> OID \<Rightarrow> RepositoryIdentifier option \<Rightarrow> instant \<Rightarrow> AccessPolicy" where
  "NewAccessPolicy pid oid repository createdAt =
     \<lparr>ap_id = pid, ap_oid = oid, ap_repository = repository, ap_createdAt = createdAt\<rparr>"

section \<open>Users and sign-in\<close>

record UserInfo =
  ui_sub :: string
  ui_email :: string
  ui_name :: string
  ui_provider :: ProviderType
  ui_repository :: "RepositoryIdentifier option"
  ui_ref :: string
  ui_permissions :: "RepositoryPermissions option"

definition NewUserInfo ::
  "string \<Rightarrow> string \<Rightarrow> string \<Rightarrow> ProviderType \<Rightarrow> RepositoryIdentifier option \<Rightarrow> string \<Rightarrow> gerror + UserInfo" where
  "NewUserInfo sub email name provider repository ref =
     (if sub = [] then Inl (Domain ErrEmptySub)
      else Inr \<lparr>ui_sub = sub, ui_email = email, ui_name = name, ui_provider = provider,
        ui_repository = repository, ui_ref = ref, ui_permissions = None\<rparr>)"

definition SetPermissions :: "RepositoryPermissions option \<Rightarrow> UserInfo \<Rightarrow> UserInfo" where
  "SetPermissions permissions u = u\<lparr>ui_permissions := permissions\<rparr>"

record GitHubUserInfo =
  gh_sub :: string
  gh_repository :: string
  gh_ref :: string
  gh_actor :: string

definition NewGitHubUserInfo :: "string \<Rightarrow> string \<Rightarrow> string \<Rightarrow> string \<Rightarrow> GitHubUserInfo" where
  "NewGitHubUserInfo sub repository ref actor =
     \<lparr>gh_sub = sub, gh_repository = repository, gh_ref = ref, gh_actor = actor\<rparr>"

definition ToUserInfo :: "GitHubUserInfo \<Rightarrow> gerror + UserInfo" where
  "ToUserInfo g =
     (case NewRepositoryIdentifier (gh_repository g) of
        Inl err \<Rightarrow> Inl err
      | Inr repo \<Rightarrow> NewUserInfo (gh_sub g) [] (gh_actor g) ProviderTypeGitHub (Some repo) (gh_ref g))"

record OAuthState =
  os_repository :: string
  os_redirectURI :: string
  os_shell :: ShellType

definition NewOAuthState :: "string \<Rightarrow> string \<Rightarrow> ShellType \<Rightarrow> OAuthState" where
  "NewOAuthState repository redirectURI shell =
     \<lparr>os_repository = repository, os_redirectURI = redirectURI, os_shell = shell\<rparr>"

record Token =
  tk_accessToken :: string
  tk_refreshToken :: string
  tk_idToken :: string
  tk_expiresAt :: instant

definition NewToken :: "string \<Rightarrow> string \<Rightarrow> string \<Rightarrow> instant \<Rightarrow> Token" where
  "NewToken accessToken refreshToken idToken expiresAt =
     \<lparr>tk_accessToken = accessToken, tk_refreshToken = refreshToken, tk_idToken = idToken, tk_expiresAt = expiresAt\<rparr>"

record AllowedRedirectURIs =
  au_uris :: "string list"

definition AllowedRedirectURIs_Contains :: "AllowedRedirectURIs \<Rightarrow> string \<Rightarrow> bool" where
  "AllowedRedirectURIs_Contains a uri = list_ex (\<lambda>allowedURI. uri = allowedURI) (au_uris a)"

text \<open>\<^verbatim>\<open>fmt.Sprintf\<close> of the two here-documents; a line break of the raw string is \<open>CHR 0x0A\<close>.\<close>

definition credential_lines :: "string \<Rightarrow> string \<Rightarrow> string" where
  "credential_lines host sessionID =
     ''protocol=https'' @ [CHR 0x0A] @ ''host='' @ host @ [CHR 0x0A] @
     ''username=x-session'' @ [CHR 0x0A] @ ''password='' @ sessionID @ [CHR 0x0A]"

definition NewCredentialCommand :: "ShellType \<Rightarrow> string \<Rightarrow> string \<Rightarrow> string" where
  "NewCredentialCommand shellType host sessionID =
     (if shellType = ShellTypePowerShell
      then ''@'' @ [CHR 0x22, CHR 0x0A] @ credential_lines host sessionID @
        [CHR 0x22] @ ''@ | git credential approve''
      else ''git credential approve <<EOF'' @ [CHR 0x0A] @ credential_lines host sessionID @ ''EOF'')"

section \<open>Facts about the domain\<close>

lemma NewOID_Inr: "NewOID s = Inr oid \<longleftrightarrow> oidPattern s \<and> oid = OID s"
  by (auto simp: NewOID_def)

lemma NewOID_Inl: "NewOID s = Inl e \<longleftrightarrow> \<not> oidPattern s \<and> e = Domain ErrInvalidOIDFormat"
  by (auto simp: NewOID_def)

lemma NewOID_String: "NewOID s = Inr oid \<Longrightarrow> OID_String oid = s"
  by (simp add: NewOID_Inr)

lemma NewSize_Inr: "NewSize i = Inr n \<longleftrightarrow> 0 \<le> i \<and> n = Size i"
  by (auto simp: NewSize_def)

lemma NewSize_Inl: "NewSize i = Inl e \<longleftrightarrow> i < 0 \<and> e = Domain domain_error.ErrInvalidSize"
  by (auto simp: NewSize_def)

lemma NewStorageKey_Inr: "NewStorageKey s = Inr k \<longleftrightarrow> s \<noteq> [] \<and> k = StorageKey s"
  by (auto simp: NewStorageKey_def)

lemma NewHashAlgorithm_Inr:
  "NewHashAlgorithm s = Inr h \<longleftrightarrow> (s = [] \<or> s = ''sha256'') \<and> h = HashAlgorithm ''sha256''"
  by (auto simp: NewHashAlgorithm_def allowedHashAlgorithms_def defaultHashAlgorithm_def)

text \<open>The errors of the validating constructors are never \<^verbatim>\<open>domain.ErrNotFound\<close>.\<close>

lemma ctor_error_kinds:
  "NewOID s = Inl e \<Longrightarrow> e = Domain ErrInvalidOIDFormat"
  "NewSize i = Inl e \<Longrightarrow> e = Domain domain_error.ErrInvalidSize"
  "NewHashAlgorithm s = Inl e \<Longrightarrow> e = Domain ErrInvalidHashAlgorithm"
  "NewStorageKey s = Inl e \<Longrightarrow> e = Domain ErrInvalidStorageKey"
  by (auto simp: NewOID_def NewSize_def NewHashAlgorithm_def NewStorageKey_def split: if_splits)

lemma ReconstructLFSObject_Inr:
  "ReconstructLFSObject oid sz h k u c d = Inr obj \<longleftrightarrow>
     (h = [] \<or> h = ''sha256'') \<and> k \<noteq> [] \<and>
     obj = \<lparr>lo_oid = oid, lo_size = sz, lo_hashAlgo = HashAlgorithm ''sha256'', lo_storageKey = StorageKey k,
       lo_uploaded = u, lo_createdAt = c, lo_updatedAt = d\<rparr>"
  by (auto simp: ReconstructLFSObject_def NewHashAlgorithm_Inr NewStorageKey_Inr split: sum.splits)
    (auto simp: NewHashAlgorithm_def NewStorageKey_def allowedHashAlgorithms_def split: if_splits)

lemma ReconstructLFSObject_Inl:
  "ReconstructLFSObject oid sz h k u c d = Inl e \<Longrightarrow>
     e = Domain ErrInvalidHashAlgorithm \<or> e = Domain ErrInvalidStorageKey"
  by (auto simp: ReconstructLFSObject_def split: sum.splits dest: ctor_error_kinds)

lemma NewLFSObject_Inr:
  "NewLFSObject now oid sz h k = Inr obj \<longleftrightarrow> k \<noteq> [] \<and>
     obj = \<lparr>lo_oid = oid, lo_size = sz, lo_hashAlgo = h, lo_storageKey = StorageKey k,
       lo_uploaded = False, lo_createdAt = now, lo_updatedAt = now\<rparr>"
  by (auto simp: NewLFSObject_def NewStorageKey_Inr split: sum.splits)
    (auto simp: NewStorageKey_def split: if_splits)

text \<open>What parsing a repository name accepts: two non-empty parts around one slash.\<close>

definition valid_repository :: "RepositoryIdentifier \<Rightarrow> bool" where
  "valid_repository ri \<longleftrightarrow> ri_owner ri \<noteq> [] \<and> ri_name ri \<noteq> [] \<and>
     CHR ''/'' \<notin> set (ri_owner ri) \<and> CHR ''/'' \<notin> set (ri_name ri)"

lemma NewRepositoryIdentifier_FullName:
  "valid_repository ri \<Longrightarrow> NewRepositoryIdentifier (FullName ri) = Inr ri"
  by (simp add: valid_repository_def NewRepositoryIdentifier_def FullName_def
      strings_Split_append_sep strings_Split_no_sep)

lemma NewRepositoryIdentifier_Inr:
  "NewRepositoryIdentifier s = Inr ri \<longleftrightarrow> valid_repository ri \<and> s = FullName ri"
proof
  assume ok: "NewRepositoryIdentifier s = Inr ri"
  then obtain owner name where sp: "strings_Split s (CHR ''/'') = [owner, name]"
    and ne: "owner \<noteq> []" "name \<noteq> []" and ri: "ri = \<lparr>ri_owner = owner, ri_name = name\<rparr>"
    by (auto simp: NewRepositoryIdentifier_def split: list.splits if_splits)
  have "CHR ''/'' \<notin> set owner" "CHR ''/'' \<notin> set name"
    using strings_Split_parts [of _ s "CHR ''/''"] sp by auto
  moreover have "s = owner @ ''/'' @ name"
    using strings_Join_Split [of s "CHR ''/''"] sp by simp
  ultimately show "valid_repository ri \<and> s = FullName ri"
    using ne ri by (simp add: valid_repository_def FullName_def)
next
  assume "valid_repository ri \<and> s = FullName ri"
  then show "NewRepositoryIdentifier s = Inr ri" by (simp add: NewRepositoryIdentifier_FullName)
qed

lemma NewRepositoryIdentifier_Inl:
  "NewRepositoryIdentifier s = Inl e \<Longrightarrow> e = Domain ErrInvalidRepositoryIdentifierFormat"
  by (auto simp: NewRepositoryIdentifier_def split: list.splits if_splits)

lemma FullName_inj:
  assumes "valid_repository a" "valid_repository b" "FullName a = FullName b"
  shows "a = b"
  using assms NewRepositoryIdentifier_FullName by (metis sum.inject(2))

lemma RepositoryIdentifier_Equals_iff [simp]: "RepositoryIdentifier_Equals a b \<longleftrightarrow> a = b"
  by (cases "(a, b)" rule: RepositoryIdentifier_Equals.cases) auto

lemma EqualsFold_refl [simp]: "RepositoryIdentifier_EqualsFold a a"
  by (cases a) auto

lemma CanUpload_CanDownload: "CanUpload p \<Longrightarrow> CanDownload p"
  by (auto simp: CanUpload_def CanDownload_def)

lemma Operation_distinct [simp]: "OperationUpload \<noteq> OperationDownload" "OperationDownload \<noteq> OperationUpload"
  by (simp_all add: OperationUpload_def OperationDownload_def)

lemma ParseOperation_Inr:
  "ParseOperation s = Inr oper \<longleftrightarrow> (s = ''download'' \<and> oper = OperationDownload) \<or> (s = ''upload'' \<and> oper = OperationUpload)"
  by (auto simp: ParseOperation_def OperationUpload_def OperationDownload_def)

lemma NewUserInfo_Inr:
  "NewUserInfo sub email name provider repository ref = Inr u \<longleftrightarrow> sub \<noteq> [] \<and>
     u = \<lparr>ui_sub = sub, ui_email = email, ui_name = name, ui_provider = provider,
        ui_repository = repository, ui_ref = ref, ui_permissions = None\<rparr>"
  by (auto simp: NewUserInfo_def)

end
