(* ===== verification/Json.thy ===== *)
theory Json
  imports Errors
begin

text \<open>
  \<^verbatim>\<open>encoding/json\<close> as the program uses it: a document, and decoding a document into a struct by
  its field tags.  A document is its syntax tree; printing and scanning the text are not
  modelled, so a text is identified with its tree.  An integer literal is \<open>JInt\<close>, any other
  number literal \<open>JReal\<close> with its text.  The RFC 3339 text in which a \<^verbatim>\<open>time.Time\<close> is written
  is kept as \<open>JTime\<close>.
\<close>

datatype json =
  JNull
| JBool bool
| JInt int
| JReal string
| JString string
| JTime instant
| JArray "json list"
| JObject "(string \<times> json) list"

section \<open>Decoding into a struct\<close>

text \<open>
  A struct is described by its tags, each with the update that decodes a value into the field.
  A member whose key has no field is skipped; a key matches a tag exactly, or else ignoring
  case; later members overwrite earlier ones; \<^verbatim>\<open>null\<close> leaves a scalar field alone; a value of the
  wrong type makes the whole decoding fail (\<open>None\<close>).
\<close>

type_synonym 's field = "string \<times> (json \<Rightarrow> 's \<Rightarrow> 's option)"

definition field_for :: "'s field list \<Rightarrow> string \<Rightarrow> (json \<Rightarrow> 's \<Rightarrow> 's option) option" where
  "field_for fields k = (case map_of fields k of
     Some f \<Rightarrow> Some f
   | None \<Rightarrow> map_option snd (List.find (\<lambda>(t, f). strings_EqualFold t k) fields))"

fun decode_members :: "'s field list \<Rightarrow> (string \<times> json) list \<Rightarrow> 's \<Rightarrow> 's option" where
  "decode_members fields [] s = Some s"
| "decode_members fields ((k, v) # ms) s =
     (case field_for fields k of
        None \<Rightarrow> decode_members fields ms s
      | Some f \<Rightarrow> (case f v s of None \<Rightarrow> None | Some s' \<Rightarrow> decode_members fields ms s'))"

definition decode_struct :: "'s field list \<Rightarrow> 's \<Rightarrow> json \<Rightarrow> 's option" where
  "decode_struct fields zero j = (case j of
     JNull \<Rightarrow> Some zero
   | JObject ms \<Rightarrow> decode_members fields ms zero
   | _ \<Rightarrow> None)"

definition into_string :: "(string \<Rightarrow> 's \<Rightarrow> 's) \<Rightarrow> json \<Rightarrow> 's \<Rightarrow> 's option" where
  "into_string upd j s = (case j of JString v \<Rightarrow> Some (upd v s) | JNull \<Rightarrow> Some s | _ \<Rightarrow> None)"

definition into_int64 :: "(int \<Rightarrow> 's \<Rightarrow> 's) \<Rightarrow> json \<Rightarrow> 's \<Rightarrow> 's option" where
  "into_int64 upd j s = (case j of
     JInt v \<Rightarrow> if int64_range v then Some (upd v s) else None | JNull \<Rightarrow> Some s | _ \<Rightarrow> None)"

definition into_bool :: "(bool \<Rightarrow> 's \<Rightarrow> 's) \<Rightarrow> json \<Rightarrow> 's \<Rightarrow> 's option" where
  "into_bool upd j s = (case j of JBool v \<Rightarrow> Some (upd v s) | JNull \<Rightarrow> Some s | _ \<Rightarrow> None)"

definition into_time :: "(instant \<Rightarrow> 's \<Rightarrow> 's) \<Rightarrow> json \<Rightarrow> 's \<Rightarrow> 's option" where
  "into_time upd j s = (case j of JTime v \<Rightarrow> Some (upd v s) | JNull \<Rightarrow> Some s | _ \<Rightarrow> None)"

fun decode_list :: "(json \<Rightarrow> 'a option) \<Rightarrow> json list \<Rightarrow> 'a list option" where
  "decode_list d [] = Some []"
| "decode_list d (j # js) = (case d j of
     None \<Rightarrow> None
   | Some a \<Rightarrow> (case decode_list d js of None \<Rightarrow> None | Some as \<Rightarrow> Some (a # as)))"

definition into_array :: "(json \<Rightarrow> 'a option) \<Rightarrow> ('a list \<Rightarrow> 's \<Rightarrow> 's) \<Rightarrow> json \<Rightarrow> 's \<Rightarrow> 's option" where
  "into_array d upd j s = (case j of
     JArray js \<Rightarrow> map_option (\<lambda>as. upd as s) (decode_list d js)
   | JNull \<Rightarrow> Some (upd [] s)
   | _ \<Rightarrow> None)"

definition into_pointer :: "(json \<Rightarrow> 'a option) \<Rightarrow> ('a option \<Rightarrow> 's \<Rightarrow> 's) \<Rightarrow> json \<Rightarrow> 's \<Rightarrow> 's option" where
  "into_pointer d upd j s = (case j of
     JNull \<Rightarrow> Some (upd None s)
   | _ \<Rightarrow> map_option (\<lambda>a. upd (Some a) s) (d j))"

definition decode_string :: "json \<Rightarrow> string option" where
  "decode_string j = (case j of JString v \<Rightarrow> Some v | JNull \<Rightarrow> Some [] | _ \<Rightarrow> None)"

section \<open>Encoding a struct\<close>

text \<open>A member under \<^verbatim>\<open>omitempty\<close> is dropped when its value is the zero of its type.\<close>

definition omit_string :: "string \<Rightarrow> string \<Rightarrow> (string \<times> json) list" where
  "omit_string k v = (if v = [] then [] else [(k, JString v)])"

definition omit_bool :: "string \<Rightarrow> bool \<Rightarrow> (string \<times> json) list" where
  "omit_bool k v = (if v then [(k, JBool True)] else [])"

definition omit_int :: "string \<Rightarrow> int \<Rightarrow> (string \<times> json) list" where
  "omit_int k v = (if v = 0 then [] else [(k, JInt v)])"

definition omit_pointer :: "string \<Rightarrow> json option \<Rightarrow> (string \<times> json) list" where
  "omit_pointer k v = (case v of None \<Rightarrow> [] | Some j \<Rightarrow> [(k, j)])"

section \<open>Laws\<close>

lemma decode_members_append:
  "decode_members fields (ms @ ns) s =
     (case decode_members fields ms s of None \<Rightarrow> None | Some s' \<Rightarrow> decode_members fields ns s')"
  by (induction fields ms s rule: decode_members.induct) (auto split: option.splits)

lemma field_for_exact: "map_of fields k = Some f \<Longrightarrow> field_for fields k = Some f"
  by (simp add: field_for_def)

lemma decode_list_map: "(\<And>a. a \<in> set as \<Longrightarrow> d (e a) = Some a) \<Longrightarrow> decode_list d (map e as) = Some as"
  by (induction as) auto

lemmas into_defs = into_string_def into_int64_def into_bool_def into_time_def into_array_def into_pointer_def

end
