(* ===== verification/Batch_Api.thy ===== *)
theory Batch_Api
  imports Domain Json Messages "HOL-Library.List_Lexorder" "HOL-Library.Char_ord"
begin

text \<open>
  The data of the Git LFS batch API: \<^verbatim>\<open>usecase/batch_request.go\<close>, \<^verbatim>\<open>usecase/batch_response.go\<close>
  and \<^verbatim>\<open>handler/dto/batch_request_dto.go\<close>, with their JSON forms.  A response object and its
  parts round-trip through JSON.  A Go map from string to string is an association list with
  increasing keys, the order in which \<^verbatim>\<open>encoding/json\<close> writes it.
\<close>

section \<open>Requests\<close>

record RequestObject =
  ro_oid :: string
  ro_size :: int

definition NewRequestObject :: "string \<Rightarrow> int \<Rightarrow> RequestObject" where
  "NewRequestObject oid sz = \<lparr>ro_oid = oid, ro_size = sz\<rparr>"

record RefInfo =
  rf_name :: string

definition NewRefInfo :: "string \<Rightarrow> RefInfo" where
  "NewRefInfo name = \<lparr>rf_name = name\<rparr>"

record BatchRequest =
  br_operation :: Operation
  br_objects :: "RequestObject list"
  br_transfers :: "string list"
  br_ref :: "RefInfo option"
  br_hashAlgo :: string
  br_repository :: "RepositoryIdentifier option"

definition NewBatchRequest ::
  "Operation \<Rightarrow> RequestObject list \<Rightarrow> string list \<Rightarrow> RefInfo option \<Rightarrow> string \<Rightarrow>
     RepositoryIdentifier option \<Rightarrow> BatchRequest" where
  "NewBatchRequest operation objects transfers ref hashAlgo repository =
     \<lparr>br_operation = operation, br_objects = objects, br_transfers = transfers, br_ref = ref,
      br_hashAlgo = hashAlgo, br_repository = repository\<rparr>"

definition WithRepository :: "RepositoryIdentifier option \<Rightarrow> BatchRequest \<Rightarrow> BatchRequest" where
  "WithRepository repo r = r\<lparr>br_repository := repo\<rparr>"

fun validate_objects :: "RequestObject list \<Rightarrow> gerror option" where
  "validate_objects [] = None"
| "validate_objects (obj # objs) = (case NewOID (ro_oid obj) of
     Inl err \<Rightarrow> Some (Usecase UErrInvalidOID)
   | Inr oid \<Rightarrow> (case NewSize (ro_size obj) of
       Inl err \<Rightarrow> Some (Usecase UErrInvalidSize)
     | Inr sz \<Rightarrow> validate_objects objs))"

definition BatchRequest_Validate :: "BatchRequest \<Rightarrow> gerror option" where
  "BatchRequest_Validate r =
     (if br_operation r \<noteq> OperationUpload \<and> br_operation r \<noteq> OperationDownload
      then Some (Usecase UErrInvalidOperation)
      else if length (br_objects r) = 0 then Some (Usecase UErrNoObjects)
      else (case validate_objects (br_objects r) of
        Some err \<Rightarrow> Some err
      | None \<Rightarrow> (case NewHashAlgorithm (br_hashAlgo r) of
          Inl err \<Rightarrow> Some (Usecase UErrInvalidHashAlgorithm)
        | Inr h \<Rightarrow> None)))"

lemma validate_objects_None:
  "validate_objects objs = None \<longleftrightarrow> (\<forall>obj \<in> set objs. oidPattern (ro_oid obj) \<and> 0 \<le> ro_size obj)"
  by (induction objs) (auto simp: NewOID_def NewSize_def)

text \<open>Exactly the requests that pass.\<close>

lemma BatchRequest_Validate_None:
  "BatchRequest_Validate r = None \<longleftrightarrow>
     br_operation r \<in> {OperationUpload, OperationDownload} \<and> br_objects r \<noteq> [] \<and>
     (\<forall>obj \<in> set (br_objects r). oidPattern (ro_oid obj) \<and> 0 \<le> ro_size obj) \<and>
     (br_hashAlgo r = [] \<or> br_hashAlgo r = ''sha256'')"
proof (cases "validate_objects (br_objects r)")
  case None
  then have "\<forall>obj \<in> set (br_objects r). oidPattern (ro_oid obj) \<and> 0 \<le> ro_size obj"
    by (simp add: validate_objects_None)
  with None show ?thesis
    by (auto simp: BatchRequest_Validate_def NewHashAlgorithm_def allowedHashAlgorithms_def)
next
  case (Some e)
  then have "\<not> (\<forall>obj \<in> set (br_objects r). oidPattern (ro_oid obj) \<and> 0 \<le> ro_size obj)"
    using validate_objects_None [of "br_objects r"] by simp
  with Some show ?thesis by (simp add: BatchRequest_Validate_def)
qed

section \<open>The request document\<close>

record RequestObjectDTO =
  rd_OID :: string
  rd_Size :: int

record RefInfoDTO =
  fd_Name :: string

record BatchRequestDTO =
  bd_Operation :: string
  bd_Objects :: "RequestObjectDTO list"
  bd_Transfers :: "string list"
  bd_Ref :: "RefInfoDTO option"
  bd_HashAlgo :: string

definition RequestObjectDTO_tags :: "RequestObjectDTO field list" where
  "RequestObjectDTO_tags = [(''oid'', into_string (\<lambda>v s. s\<lparr>rd_OID := v\<rparr>)),
     (''size'', into_int64 (\<lambda>v s. s\<lparr>rd_Size := v\<rparr>))]"

definition RefInfoDTO_tags :: "RefInfoDTO field list" where
  "RefInfoDTO_tags = [(''name'', into_string (\<lambda>v s. s\<lparr>fd_Name := v\<rparr>))]"

definition BatchRequestDTO_tags :: "BatchRequestDTO field list" where
  "BatchRequestDTO_tags =
    [(''operation'', into_string (\<lambda>v s. s\<lparr>bd_Operation := v\<rparr>)),
     (''objects'', into_array (decode_struct RequestObjectDTO_tags \<lparr>rd_OID = [], rd_Size = 0\<rparr>)
        (\<lambda>v s. s\<lparr>bd_Objects := v\<rparr>)),
     (''transfers'', into_array decode_string (\<lambda>v s. s\<lparr>bd_Transfers := v\<rparr>)),
     (''ref'', into_pointer (decode_struct RefInfoDTO_tags \<lparr>fd_Name = []\<rparr>) (\<lambda>v s. s\<lparr>bd_Ref := v\<rparr>)),
     (''hash_algo'', into_string (\<lambda>v s. s\<lparr>bd_HashAlgo := v\<rparr>))]"

definition decode_BatchRequestDTO :: "json \<Rightarrow> BatchRequestDTO option" where
  "decode_BatchRequestDTO = decode_struct BatchRequestDTO_tags
     \<lparr>bd_Operation = [], bd_Objects = [], bd_Transfers = [], bd_Ref = None, bd_HashAlgo = []\<rparr>"

definition ToBatchRequest :: "RepositoryIdentifier option \<Rightarrow> BatchRequestDTO \<Rightarrow> gerror + BatchRequest" where
  "ToBatchRequest repo d = (case ParseOperation (bd_Operation d) of
     Inl err \<Rightarrow> Inl err
   | Inr oper \<Rightarrow> Inr (NewBatchRequest oper
       (map (\<lambda>obj. NewRequestObject (rd_OID obj) (rd_Size obj)) (bd_Objects d))
       (bd_Transfers d) (map_option (\<lambda>r. NewRefInfo (fd_Name r)) (bd_Ref d)) (bd_HashAlgo d) repo))"

lemma ToBatchRequest_Inr:
  "ToBatchRequest repo d = Inr r \<Longrightarrow> br_repository r = repo \<and>
     map ro_oid (br_objects r) = map rd_OID (bd_Objects d) \<and>
     map ro_size (br_objects r) = map rd_Size (bd_Objects d) \<and>
     bd_Operation d = Operation_String (br_operation r)"
  by (auto simp: ToBatchRequest_def NewBatchRequest_def NewRequestObject_def ParseOperation_Inr
      OperationUpload_def OperationDownload_def split: sum.splits)

section \<open>Responses\<close>

type_synonym header_map = "(string \<times> string) list"

definition header_put :: "string \<Rightarrow> string \<Rightarrow> header_map \<Rightarrow> header_map" where
  "header_put k v h = insort_key fst (k, v) (filter (\<lambda>p. fst p \<noteq> k) h)"

record Action =
  ac_href :: string
  ac_header :: header_map
  ac_expiresIn :: int

definition NewAction :: "string \<Rightarrow> header_map \<Rightarrow> int \<Rightarrow> Action" where
  "NewAction href header expiresIn = \<lparr>ac_href = href, ac_header = header, ac_expiresIn = expiresIn\<rparr>"

record Actions =
  as_upload :: "Action option"
  as_download :: "Action option"

definition NewActions :: "Action option \<Rightarrow> Action option \<Rightarrow> Actions" where
  "NewActions upload download = \<lparr>as_upload = upload, as_download = download\<rparr>"

record ObjectError =
  oe_code :: int
  oe_message :: string

definition NewObjectError :: "int \<Rightarrow> string \<Rightarrow> ObjectError" where
  "NewObjectError code msg = \<lparr>oe_code = code, oe_message = msg\<rparr>"

record ResponseObject =
  rs_oid :: string
  rs_size :: int
  rs_authenticated :: bool
  rs_actions :: "Actions option"
  rs_error :: "ObjectError option"

definition NewResponseObject ::
  "string \<Rightarrow> int \<Rightarrow> bool \<Rightarrow> Actions option \<Rightarrow> ObjectError option \<Rightarrow> ResponseObject" where
  "NewResponseObject oid sz authenticated actions objectError =
     \<lparr>rs_oid = oid, rs_size = sz, rs_authenticated = authenticated, rs_actions = actions, rs_error = objectError\<rparr>"

record BatchResponse =
  bs_transfer :: string
  bs_objects :: "ResponseObject list"
  bs_hashAlgo :: string

definition NewBatchResponse :: "string \<Rightarrow> ResponseObject list \<Rightarrow> string \<Rightarrow> BatchResponse" where
  "NewBatchResponse transfer objects hashAlgo =
     \<lparr>bs_transfer = transfer, bs_objects = objects, bs_hashAlgo = hashAlgo\<rparr>"

section \<open>The response document\<close>

text \<open>The JSON structs mirror the values field by field, so encoding goes straight to the
  document and decoding straight from it.\<close>

definition header_json :: "header_map \<Rightarrow> json" where
  "header_json h = JObject (map (\<lambda>(k, v). (k, JString v)) h)"

fun decode_header :: "(string \<times> json) list \<Rightarrow> header_map \<Rightarrow> header_map option" where
  "decode_header [] h = Some h"
| "decode_header ((k, j) # ms) h = (case decode_string j of
     None \<Rightarrow> None
   | Some v \<Rightarrow> decode_header ms (header_put k v h))"

definition into_header :: "(header_map \<Rightarrow> 's \<Rightarrow> 's) \<Rightarrow> json \<Rightarrow> 's \<Rightarrow> 's option" where
  "into_header upd j s = (case j of
     JNull \<Rightarrow> Some (upd [] s)
   | JObject ms \<Rightarrow> map_option (\<lambda>h. upd h s) (decode_header ms [])
   | _ \<Rightarrow> None)"

definition Action_json :: "Action \<Rightarrow> json" where
  "Action_json a = JObject ([(''href'', JString (ac_href a))] @
     (if ac_header a = [] then [] else [(''header'', header_json (ac_header a))]) @
     omit_int ''expires_in'' (ac_expiresIn a))"

definition Action_tags :: "Action field list" where
  "Action_tags = [(''href'', into_string (\<lambda>v s. s\<lparr>ac_href := v\<rparr>)),
     (''header'', into_header (\<lambda>v s. s\<lparr>ac_header := v\<rparr>)),
     (''expires_in'', into_int64 (\<lambda>v s. s\<lparr>ac_expiresIn := v\<rparr>))]"

definition decode_Action :: "json \<Rightarrow> Action option" where
  "decode_Action = decode_struct Action_tags \<lparr>ac_href = [], ac_header = [], ac_expiresIn = 0\<rparr>"

definition Actions_json :: "Actions \<Rightarrow> json" where
  "Actions_json a = JObject (omit_pointer ''upload'' (map_option Action_json (as_upload a)) @
     omit_pointer ''download'' (map_option Action_json (as_download a)))"

definition Actions_tags :: "Actions field list" where
  "Actions_tags = [(''upload'', into_pointer decode_Action (\<lambda>v s. s\<lparr>as_upload := v\<rparr>)),
     (''download'', into_pointer decode_Action (\<lambda>v s. s\<lparr>as_download := v\<rparr>))]"

definition decode_Actions :: "json \<Rightarrow> Actions option" where
  "decode_Actions = decode_struct Actions_tags \<lparr>as_upload = None, as_download = None\<rparr>"

definition ObjectError_json :: "ObjectError \<Rightarrow> json" where
  "ObjectError_json e = JObject [(''code'', JInt (oe_code e)), (''message'', JString (oe_message e))]"

definition ObjectError_tags :: "ObjectError field list" where
  "ObjectError_tags = [(''code'', into_int64 (\<lambda>v s. s\<lparr>oe_code := v\<rparr>)),
     (''message'', into_string (\<lambda>v s. s\<lparr>oe_message := v\<rparr>))]"

definition decode_ObjectError :: "json \<Rightarrow> ObjectError option" where
  "decode_ObjectError = decode_struct ObjectError_tags \<lparr>oe_code = 0, oe_message = []\<rparr>"

definition ResponseObject_json :: "ResponseObject \<Rightarrow> json" where
  "ResponseObject_json r = JObject ([(''oid'', JString (rs_oid r)), (''size'', JInt (rs_size r)),
      (''authenticated'', JBool (rs_authenticated r))] @
     omit_pointer ''actions'' (map_option Actions_json (rs_actions r)) @
     omit_pointer ''error'' (map_option ObjectError_json (rs_error r)))"

definition ResponseObject_tags :: "ResponseObject field list" where
  "ResponseObject_tags = [(''oid'', into_string (\<lambda>v s. s\<lparr>rs_oid := v\<rparr>)),
     (''size'', into_int64 (\<lambda>v s. s\<lparr>rs_size := v\<rparr>)),
     (''authenticated'', into_bool (\<lambda>v s. s\<lparr>rs_authenticated := v\<rparr>)),
     (''actions'', into_pointer decode_Actions (\<lambda>v s. s\<lparr>rs_actions := v\<rparr>)),
     (''error'', into_pointer decode_ObjectError (\<lambda>v s. s\<lparr>rs_error := v\<rparr>))]"

definition decode_ResponseObject :: "json \<Rightarrow> ResponseObject option" where
  "decode_ResponseObject = decode_struct ResponseObject_tags
     \<lparr>rs_oid = [], rs_size = 0, rs_authenticated = False, rs_actions = None, rs_error = None\<rparr>"

definition BatchResponse_json :: "BatchResponse \<Rightarrow> json" where
  "BatchResponse_json r = JObject ([(''transfer'', JString (bs_transfer r)),
      (''objects'', JArray (map ResponseObject_json (bs_objects r)))] @
     omit_string ''hash_algo'' (bs_hashAlgo r))"

definition BatchResponse_tags :: "BatchResponse field list" where
  "BatchResponse_tags = [(''transfer'', into_string (\<lambda>v s. s\<lparr>bs_transfer := v\<rparr>)),
     (''objects'', into_array decode_ResponseObject (\<lambda>v s. s\<lparr>bs_objects := v\<rparr>)),
     (''hash_algo'', into_string (\<lambda>v s. s\<lparr>bs_hashAlgo := v\<rparr>))]"

definition decode_BatchResponse :: "json \<Rightarrow> BatchResponse option" where
  "decode_BatchResponse = decode_struct BatchResponse_tags \<lparr>bs_transfer = [], bs_objects = [], bs_hashAlgo = []\<rparr>"

section \<open>Round trips\<close>

definition wf_header :: "header_map \<Rightarrow> bool" where
  "wf_header h \<longleftrightarrow> sorted (map fst h) \<and> distinct (map fst h)"

definition wf_action :: "Action \<Rightarrow> bool" where
  "wf_action a \<longleftrightarrow> wf_header (ac_header a) \<and> int64_range (ac_expiresIn a)"

definition wf_actions :: "Actions \<Rightarrow> bool" where
  "wf_actions a \<longleftrightarrow> (\<forall>u. as_upload a = Some u \<longrightarrow> wf_action u) \<and> (\<forall>d. as_download a = Some d \<longrightarrow> wf_action d)"

definition wf_response_object :: "ResponseObject \<Rightarrow> bool" where
  "wf_response_object r \<longleftrightarrow> int64_range (rs_size r) \<and> (\<forall>a. rs_actions r = Some a \<longrightarrow> wf_actions a) \<and>
     (\<forall>e. rs_error r = Some e \<longrightarrow> int64_range (oe_code e))"

lemma header_put_last:
  assumes "\<forall>p \<in> set h. fst p < k"
  shows "header_put k v h = h @ [(k, v)]"
proof -
  have "filter (\<lambda>p. fst p \<noteq> k) h = h" using assms by (auto simp: filter_id_conv)
  moreover have "insort_key fst (k, v) h = h @ [(k, v)]" using assms by (induction h) auto
  ultimately show ?thesis by (simp add: header_put_def)
qed

lemma decode_header_append:
  assumes "sorted (map fst (g @ h))" and "distinct (map fst (g @ h))"
  shows "decode_header (map (\<lambda>(k, v). (k, JString v)) h) g = Some (g @ h)"
  using assms
proof (induction h arbitrary: g)
  case (Cons p h)
  obtain k v where p: "p = (k, v)" by fastforce
  from Cons.prems p have "\<forall>q \<in> set g. fst q < k"
    by (auto simp: sorted_append less_le image_iff)
  then have "header_put k v g = g @ [(k, v)]" by (rule header_put_last)
  with Cons.IH [of "g @ [(k, v)]"] Cons.prems p show ?case by (simp add: decode_string_def)
qed simp

lemma Action_field_for:
  "field_for Action_tags ''href'' = Some (into_string (\<lambda>v s. s\<lparr>ac_href := v\<rparr>))"
  "field_for Action_tags ''header'' = Some (into_header (\<lambda>v s. s\<lparr>ac_header := v\<rparr>))"
  "field_for Action_tags ''expires_in'' = Some (into_int64 (\<lambda>v s. s\<lparr>ac_expiresIn := v\<rparr>))"
  by (simp_all add: field_for_def Action_tags_def)

lemma decode_omit_pointer:
  "field_for tags k = Some (into_pointer d upd) \<Longrightarrow> (\<And>a. enc a \<noteq> JNull) \<Longrightarrow>
     decode_members tags (omit_pointer k (map_option enc p)) s =
       (case p of None \<Rightarrow> Some s | Some a \<Rightarrow> map_option (\<lambda>b. upd (Some b) s) (d (enc a)))"
  by (cases p) (auto simp: omit_pointer_def into_pointer_def split: json.splits option.splits)

lemma Action_roundtrip: "wf_action a \<Longrightarrow> decode_Action (Action_json a) = Some a"
  using decode_header_append [of "[]" "ac_header a"]
  by (cases a) (auto simp: decode_Action_def decode_struct_def Action_json_def decode_members_append Action_field_for
      wf_action_def wf_header_def into_string_def into_header_def into_int64_def header_json_def omit_int_def)

lemma Actions_field_for:
  "field_for Actions_tags ''upload'' = Some (into_pointer decode_Action (\<lambda>v s. s\<lparr>as_upload := v\<rparr>))"
  "field_for Actions_tags ''download'' = Some (into_pointer decode_Action (\<lambda>v s. s\<lparr>as_download := v\<rparr>))"
  by (simp_all add: field_for_def Actions_tags_def)

lemma Action_json_object [simp]: "Action_json a \<noteq> JNull" "Actions_json b \<noteq> JNull" "ObjectError_json e \<noteq> JNull"
  by (simp_all add: Action_json_def Actions_json_def ObjectError_json_def)

lemma Actions_roundtrip: "wf_actions a \<Longrightarrow> decode_Actions (Actions_json a) = Some a"
  by (cases a) (auto simp: decode_Actions_def decode_struct_def Actions_json_def decode_members_append
      Actions_field_for decode_omit_pointer Action_roundtrip wf_actions_def split: option.splits)

lemma ObjectError_roundtrip: "int64_range (oe_code e) \<Longrightarrow> decode_ObjectError (ObjectError_json e) = Some e"
  by (cases e) (simp add: decode_ObjectError_def decode_struct_def ObjectError_json_def ObjectError_tags_def
      field_for_def into_string_def into_int64_def)

lemma ResponseObject_field_for:
  "field_for ResponseObject_tags ''oid'' = Some (into_string (\<lambda>v s. s\<lparr>rs_oid := v\<rparr>))"
  "field_for ResponseObject_tags ''size'' = Some (into_int64 (\<lambda>v s. s\<lparr>rs_size := v\<rparr>))"
  "field_for ResponseObject_tags ''authenticated'' = Some (into_bool (\<lambda>v s. s\<lparr>rs_authenticated := v\<rparr>))"
  "field_for ResponseObject_tags ''actions'' = Some (into_pointer decode_Actions (\<lambda>v s. s\<lparr>rs_actions := v\<rparr>))"
  "field_for ResponseObject_tags ''error'' = Some (into_pointer decode_ObjectError (\<lambda>v s. s\<lparr>rs_error := v\<rparr>))"
  by (simp_all add: field_for_def ResponseObject_tags_def)

lemma ResponseObject_roundtrip:
  "wf_response_object r \<Longrightarrow> decode_ResponseObject (ResponseObject_json r) = Some r"
  by (cases r) (auto simp: decode_ResponseObject_def decode_struct_def ResponseObject_json_def decode_members_append
      ResponseObject_field_for decode_omit_pointer Actions_roundtrip ObjectError_roundtrip wf_response_object_def
      into_string_def into_int64_def into_bool_def split: option.splits)

lemma decode_ResponseObjects:
  "(\<forall>r \<in> set rs. wf_response_object r) \<Longrightarrow> decode_list decode_ResponseObject (map ResponseObject_json rs) = Some rs"
  by (rule decode_list_map) (simp add: ResponseObject_roundtrip)

lemma BatchResponse_field_for:
  "field_for BatchResponse_tags ''transfer'' = Some (into_string (\<lambda>v s. s\<lparr>bs_transfer := v\<rparr>))"
  "field_for BatchResponse_tags ''objects'' = Some (into_array decode_ResponseObject (\<lambda>v s. s\<lparr>bs_objects := v\<rparr>))"
  "field_for BatchResponse_tags ''hash_algo'' = Some (into_string (\<lambda>v s. s\<lparr>bs_hashAlgo := v\<rparr>))"
  by (simp_all add: field_for_def BatchResponse_tags_def)

lemma BatchResponse_decoded:
  "(\<forall>o' \<in> set (bs_objects r). wf_response_object o') \<Longrightarrow> decode_BatchResponse (BatchResponse_json r) = Some r"
  by (cases r) (simp add: decode_BatchResponse_def decode_struct_def BatchResponse_json_def decode_members_append
      BatchResponse_field_for into_string_def into_array_def decode_ResponseObjects omit_string_def)

end
