(* ===== verification/Net.thy ===== *)
theory Net
  imports Prelude "HOL-Library.List_Lexorder" "HOL-Library.Char_ord"
begin

text \<open>
  The parts of Go's standard library that the handlers and the GitHub client use on text:
  \<^verbatim>\<open>strconv.FormatInt\<close>, \<^verbatim>\<open>url.QueryEscape\<close> and \<^verbatim>\<open>url.Values.Encode\<close>, \<^verbatim>\<open>html.EscapeString\<close>,
  base64 decoding, big-endian integers, \<^verbatim>\<open>strings.SplitN\<close> and \<^verbatim>\<open>mime.ParseMediaType\<close>.
\<close>

section \<open>Numbers\<close>

fun nat_digits :: "nat \<Rightarrow> string" where
  "nat_digits n = (if n < 10 then [char_of (48 + n)] else nat_digits (n div 10) @ [char_of (48 + n mod 10)])"

declare nat_digits.simps [simp del]

definition FormatInt :: "int \<Rightarrow> string" where
  "FormatInt i = (if i < 0 then CHR ''-'' # nat_digits (nat (- i)) else nat_digits (nat i))"

lemma nat_digits_nonempty [simp]: "nat_digits n \<noteq> []"
  by (subst nat_digits.simps) simp

lemma FormatInt_nonempty [simp]: "FormatInt i \<noteq> []"
  by (simp add: FormatInt_def)

definition big_Int :: "string \<Rightarrow> nat" where
  "big_Int bytes = foldl (\<lambda>n c. 256 * n + of_char c) 0 bytes"

lemma char_range: "(of_char c :: nat) < 256"
  using mod_less_divisor [of 256 "of_char c :: nat"] by (simp only: of_char_mod_256)

section \<open>URL escaping\<close>

definition hex_digit :: "nat \<Rightarrow> char" where
  "hex_digit n = (if n < 10 then char_of (48 + n) else char_of (55 + n))"

definition unreserved :: "char \<Rightarrow> bool" where
  "unreserved c \<longleftrightarrow> c \<in> set ''ABCDEFGHIJKLMNOPQRSTUVWXYZabcdefghijklmnopqrstuvwxyz0123456789-_.~''"

definition escape_char :: "char \<Rightarrow> string" where
  "escape_char c = (if unreserved c then [c] else if c = CHR '' '' then [CHR ''+'']
     else [CHR ''%'', hex_digit (of_char c div 16), hex_digit (of_char c mod 16)])"

definition QueryEscape :: "string \<Rightarrow> string" where
  "QueryEscape s = concat (map escape_char s)"

text \<open>The values of this program hold one value per key, set in a list with increasing keys.\<close>

definition Values_Set :: "string \<Rightarrow> string \<Rightarrow> (string \<times> string) list \<Rightarrow> (string \<times> string) list" where
  "Values_Set k v vs = insort_key fst (k, v) (filter (\<lambda>p. fst p \<noteq> k) vs)"

definition Values_Encode :: "(string \<times> string) list \<Rightarrow> string" where
  "Values_Encode vs = strings_Join (map (\<lambda>(k, v). QueryEscape k @ ''='' @ QueryEscape v) vs) ''&''"

text \<open>A URL that \<^verbatim>\<open>http.NewRequest\<close> accepts after a well-formed scheme and host: no control
  bytes, and every percent sign of path and fragment starts an escape.\<close>

definition is_hex_digit :: "char \<Rightarrow> bool" where
  "is_hex_digit c \<longleftrightarrow> c \<in> set ''0123456789abcdefABCDEF''"

fun escapes_ok :: "string \<Rightarrow> bool" where
  "escapes_ok [] = True"
| "escapes_ok (c # cs) = (if c = CHR ''%'' then (case cs of
     a # b # rest \<Rightarrow> is_hex_digit a \<and> is_hex_digit b \<and> escapes_ok rest
   | _ \<Rightarrow> False) else escapes_ok cs)"

definition request_url_ok :: "string \<Rightarrow> bool" where
  "request_url_ok url \<longleftrightarrow> list_all (\<lambda>c. 32 \<le> (of_char c :: nat) \<and> (of_char c :: nat) \<noteq> 127) url \<and>
     escapes_ok (takeWhile (\<lambda>c. c \<noteq> CHR ''?'') (takeWhile (\<lambda>c. c \<noteq> CHR ''#'') url)) \<and>
     escapes_ok (drop 1 (dropWhile (\<lambda>c. c \<noteq> CHR ''#'') url))"

section \<open>HTML escaping\<close>

definition html_escape_char :: "char \<Rightarrow> string" where
  "html_escape_char c =
     (if c = CHR ''&'' then ''&amp;''
      else if c = CHR 0x27 then ''&#39;''
      else if c = CHR ''<'' then ''&lt;''
      else if c = CHR ''>'' then ''&gt;''
      else if c = CHR 0x22 then ''&#34;''
      else [c])"

definition html_EscapeString :: "string \<Rightarrow> string" where
  "html_EscapeString s = concat (map html_escape_char s)"

lemma html_EscapeString_safe:
  "CHR ''<'' \<notin> set (html_EscapeString s) \<and> CHR ''>'' \<notin> set (html_EscapeString s) \<and>
     CHR 0x22 \<notin> set (html_EscapeString s) \<and> CHR 0x27 \<notin> set (html_EscapeString s)"
  by (induction s) (auto simp: html_EscapeString_def html_escape_char_def)

section \<open>Splitting\<close>

text \<open>\<^verbatim>\<open>strings.SplitN(s, sep, 2)\<close> for a one-byte separator.\<close>

definition strings_SplitN2 :: "string \<Rightarrow> char \<Rightarrow> string list" where
  "strings_SplitN2 s c = (if c \<in> set s
     then [takeWhile (\<lambda>x. x \<noteq> c) s, drop 1 (dropWhile (\<lambda>x. x \<noteq> c) s)] else [s])"

lemma strings_SplitN2_first:
  assumes "c \<notin> set a"
  shows "strings_SplitN2 (a @ c # b) c = [a, b]"
proof -
  from assms have "takeWhile (\<lambda>x. x \<noteq> c) (a @ c # b) = a" and "dropWhile (\<lambda>x. x \<noteq> c) (a @ c # b) = c # b"
    by (induction a) auto
  then show ?thesis by (simp add: strings_SplitN2_def)
qed

section \<open>Base64\<close>

definition std_alphabet :: string where
  "std_alphabet = ''ABCDEFGHIJKLMNOPQRSTUVWXYZabcdefghijklmnopqrstuvwxyz0123456789+/''"

definition url_alphabet :: string where
  "url_alphabet = ''ABCDEFGHIJKLMNOPQRSTUVWXYZabcdefghijklmnopqrstuvwxyz0123456789-_''"

fun index_of :: "char \<Rightarrow> string \<Rightarrow> nat option" where
  "index_of c [] = None"
| "index_of c (x # xs) = (if c = x then Some 0 else map_option Suc (index_of c xs))"

definition three_bytes :: "nat \<Rightarrow> nat \<Rightarrow> nat \<Rightarrow> nat \<Rightarrow> string" where
  "three_bytes a b c d = [char_of (4 * a + b div 16), char_of (16 * (b mod 16) + c div 4), char_of (64 * (c mod 4) + d)]"

fun base64_groups :: "string \<Rightarrow> bool \<Rightarrow> string \<Rightarrow> string option" where
  "base64_groups alphabet padded [] = Some []"
| "base64_groups alphabet padded [a] = None"
| "base64_groups alphabet padded [a, b] = (if padded then None
     else (case (index_of a alphabet, index_of b alphabet) of
       (Some i, Some j) \<Rightarrow> Some (take 1 (three_bytes i j 0 0)) | _ \<Rightarrow> None))"
| "base64_groups alphabet padded [a, b, c] = (if padded then None
     else (case (index_of a alphabet, index_of b alphabet, index_of c alphabet) of
       (Some i, Some j, Some k) \<Rightarrow> Some (take 2 (three_bytes i j k 0)) | _ \<Rightarrow> None))"
| "base64_groups alphabet padded (a # b # c # d # rest) =
     (if padded \<and> rest = [] \<and> d = CHR ''='' then
        (if c = CHR ''='' then base64_groups alphabet False [a, b] else base64_groups alphabet False [a, b, c])
      else (case (index_of a alphabet, index_of b alphabet, index_of c alphabet, index_of d alphabet) of
        (Some i, Some j, Some k, Some l) \<Rightarrow>
          map_option (\<lambda>bytes. three_bytes i j k l @ bytes) (base64_groups alphabet padded rest)
      | _ \<Rightarrow> None))"

text \<open>Go's decoder skips line breaks wherever they stand.\<close>

definition skip_newlines :: "string \<Rightarrow> string" where
  "skip_newlines s = filter (\<lambda>c. c \<noteq> CHR 0x0A \<and> c \<noteq> CHR 0x0D) s"

definition StdEncoding_DecodeString :: "string \<Rightarrow> string option" where
  "StdEncoding_DecodeString s = base64_groups std_alphabet True (skip_newlines s)"

definition RawURLEncoding_DecodeString :: "string \<Rightarrow> string option" where
  "RawURLEncoding_DecodeString s = base64_groups url_alphabet False (skip_newlines s)"

section \<open>Media types\<close>

definition is_token_char :: "char \<Rightarrow> bool" where
  "is_token_char c \<longleftrightarrow> 32 < (of_char c :: nat) \<and> (of_char c :: nat) < 127 \<and>
     c \<notin> set (''()<>@,;:/[]?='' @ [CHR 0x5C, CHR 0x22])"

definition is_tspecial :: "char \<Rightarrow> bool" where
  "is_tspecial c \<longleftrightarrow> c \<in> set (''()<>@,;:/[]?='' @ [CHR 0x5C, CHR 0x22])"

definition consumeToken :: "string \<Rightarrow> string \<times> string" where
  "consumeToken v = (takeWhile is_token_char v, dropWhile is_token_char v)"

text \<open>The quoted string after its opening quote; \<open>None\<close> when it does not end or holds a line break.\<close>

fun quoted_string :: "string \<Rightarrow> (string \<times> string) option" where
  "quoted_string [] = None"
| "quoted_string (r # v) =
     (if r = CHR 0x22 then Some ([], v)
      else if r = CHR 0x5C \<and> v \<noteq> [] \<and> is_tspecial (hd v)
      then map_option (\<lambda>(s, rest). (hd v # s, rest)) (quoted_string (tl v))
      else if r = CHR 0x0D \<or> r = CHR 0x0A then None
      else map_option (\<lambda>(s, rest). (r # s, rest)) (quoted_string v))"

definition consumeValue :: "string \<Rightarrow> string \<times> string" where
  "consumeValue v = (case v of
     [] \<Rightarrow> ([], [])
   | c # cs \<Rightarrow> if c \<noteq> CHR 0x22 then consumeToken v
       else (case quoted_string cs of None \<Rightarrow> ([], v) | Some p \<Rightarrow> p))"

definition trim_left :: "string \<Rightarrow> string" where
  "trim_left v = dropWhile is_space v"

text \<open>A parameter \<^verbatim>\<open>; name = value\<close>, or \<open>None\<close> where the source returns an empty name.\<close>

definition consumeMediaParam :: "string \<Rightarrow> (string \<times> string \<times> string) option" where
  "consumeMediaParam v = (case trim_left v of
     [] \<Rightarrow> None
   | c # rest \<Rightarrow> if c \<noteq> CHR '';'' then None
       else (let (param, rest) = consumeToken (trim_left rest); param = strings_ToLower param in
         if param = [] then None
         else (case trim_left rest of
           [] \<Rightarrow> None
         | e # rest \<Rightarrow> if e \<noteq> CHR ''='' then None
             else (let rest = trim_left rest; (value, rest2) = consumeValue rest in
               if value = [] \<and> rest2 = rest then None else Some (param, value, rest2)))))"

lemma trim_left_length: "length (trim_left v) \<le> length v"
  by (simp add: trim_left_def length_dropWhile_le)

lemma quoted_string_length: "quoted_string v = Some (s, rest) \<Longrightarrow> length rest \<le> length v"
proof (induction v arbitrary: s rest rule: quoted_string.induct)
  case (2 r v)
  consider (quote) "r = CHR 0x22"
    | (escape) "r \<noteq> CHR 0x22" "r = CHR 0x5C \<and> v \<noteq> [] \<and> is_tspecial (hd v)"
    | (plain) "r \<noteq> CHR 0x22" "\<not> (r = CHR 0x5C \<and> v \<noteq> [] \<and> is_tspecial (hd v))" by blast
  then show ?case
  proof cases
    case quote
    with 2(3) show ?thesis by simp
  next
    case escape
    with 2(3) obtain t where "quoted_string (tl v) = Some (t, rest)" by auto
    from 2(1) [OF escape this] show ?thesis by simp
  next
    case plain
    with 2(3) have line: "\<not> (r = CHR 0x0D \<or> r = CHR 0x0A)" by (simp split: if_splits)
    with plain 2(3) obtain t where "quoted_string v = Some (t, rest)" by (auto split: if_splits)
    from 2(2) [OF plain line this] show ?thesis by simp
  qed
qed simp

lemma consumeValue_length: "consumeValue v = (s, rest) \<Longrightarrow> length rest \<le> length v"
proof (cases v)
  case (Cons c cs)
  assume "consumeValue v = (s, rest)"
  with Cons show ?thesis
    using quoted_string_length [of cs s rest] length_dropWhile_le [of is_token_char "c # cs"]
    by (auto simp: consumeValue_def consumeToken_def split: if_splits option.splits prod.splits)
qed (simp add: consumeValue_def)

lemma consumeMediaParam_shorter:
  assumes "consumeMediaParam v = Some (param, val, rest)"
  shows "length rest < length v"
proof -
  from assms obtain r1 r2 where r1: "trim_left v = CHR '';'' # r1"
    and r2: "trim_left (snd (consumeToken (trim_left r1))) = CHR ''='' # r2"
    and r3: "consumeValue (trim_left r2) = (val, rest)"
    by (auto simp: consumeMediaParam_def Let_def split: list.splits if_splits prod.splits)
  have "length rest \<le> length r2" using consumeValue_length [OF r3] trim_left_length [of r2] by simp
  moreover have "length r2 < length (snd (consumeToken (trim_left r1)))"
    using r2 trim_left_length [of "snd (consumeToken (trim_left r1))"] by simp
  moreover have "length (snd (consumeToken (trim_left r1))) \<le> length r1"
    using length_dropWhile_le [of is_token_char "trim_left r1"] trim_left_length [of r1] by (simp add: consumeToken_def)
  moreover have "length r1 < length v" using r1 trim_left_length [of v] by simp
  ultimately show ?thesis by simp
qed

text \<open>The loop over the parameters: true when all of them parse and no name comes twice with
  different values.\<close>

function media_params_ok :: "(string \<times> string) list \<Rightarrow> string \<Rightarrow> bool" where
  "media_params_ok seen v =
     (if trim_left v = [] then True
      else (case consumeMediaParam (trim_left v) of
        None \<Rightarrow> strings_TrimSpace (trim_left v) = '';''
      | Some (key, value, rest) \<Rightarrow>
          (case map_of seen key of
             Some old \<Rightarrow> if old \<noteq> value then False else media_params_ok seen rest
           | None \<Rightarrow> media_params_ok ((key, value) # seen) rest)))"
  by pat_completeness auto
termination
proof (relation "measure (\<lambda>(seen, v). length v)")
  fix seen v p key q val rest a
  assume "consumeMediaParam (trim_left v) = Some p" "(key, q) = p" "(val, rest) = q"
  then have "length rest < length (trim_left v)" by (auto dest: consumeMediaParam_shorter)
  then have "length rest < length v" using trim_left_length [of v] by simp
  then show "((seen, rest), seen, v) \<in> measure (\<lambda>(seen, v). length v)"
    and "(((key, val) # seen, rest), seen, v) \<in> measure (\<lambda>(seen, v). length v)" by simp_all
qed simp

declare media_params_ok.simps [simp del]

definition media_type_ok :: "string \<Rightarrow> bool" where
  "media_type_ok s = (let (typ, rest) = consumeToken s in
     typ \<noteq> [] \<and> (rest = [] \<or> (hd rest = CHR ''/'' \<and>
       (let (subtype, rest2) = consumeToken (tl rest) in subtype \<noteq> [] \<and> rest2 = []))))"

text \<open>The media type, or \<open>None\<close> for an error.\<close>

definition ParseMediaType :: "string \<Rightarrow> string option" where
  "ParseMediaType v =
     (let base = takeWhile (\<lambda>c. c \<noteq> CHR '';'') v; mediatype = strings_TrimSpace (strings_ToLower base) in
      if \<not> media_type_ok mediatype then None
      else if media_params_ok [] (drop (length base) v) then Some mediatype else None)"

end
