(* ===== verification/World.thy ===== *)
theory World
  imports Json Domain
begin

text \<open>
  The state outside the process, and calls to it.  One record holds the tables of
  \<^verbatim>\<open>migrations/\<close>, the Redis keyspace with expiry times, the object store's bucket, the clock, the
  source of UUIDs, and the schedule of failures.  \<open>w_redirectURI\<close> is the one mutable field the process
  shares between requests: \<^verbatim>\<open>redirectURI\<close> of the OAuth token exchanger.  \<open>w_calls\<close> counts the HTTP
  requests sent to GitHub, so that the remote side may answer each of them differently.

  Every call to an external system takes one entry of the failure schedule: the call goes
  through, or it is lost (an error and no effect), or it takes effect but its answer is lost (an
  error all the same).  An exhausted schedule means no more failures.  A theorem about all
  worlds is therefore a theorem about every pattern of outages.
\<close>

section \<open>Rows, values, the record\<close>

record LFSObjectRow =
  lr_OID :: string
  lr_Size :: int
  lr_HashAlgo :: string
  lr_StorageKey :: string
  lr_Uploaded :: bool
  lr_CreatedAt :: instant
  lr_UpdatedAt :: instant

record AccessPolicyRow =
  pr_ID :: int
  pr_LfsObjectOid :: string
  pr_Repository :: string
  pr_CreatedAt :: instant

record RepositoryAllowlistRow =
  al_ID :: int
  al_Repository :: string
  al_CreatedAt :: instant

text \<open>A Redis value is a text, or a JSON document (identified with its tree).\<close>

datatype redis_value = RText string | RDoc json

datatype fault = NoFault | Lost ext_failure | Unacked ext_failure

record world =
  w_objects :: "string \<Rightarrow> LFSObjectRow option"
  w_policies :: "string \<Rightarrow> AccessPolicyRow option"
  w_policy_seq :: int
  w_allowlist :: "RepositoryAllowlistRow list"
  w_allowlist_seq :: int
  w_redis :: "string \<Rightarrow> (redis_value \<times> instant option) option"
  w_storage :: "string \<Rightarrow> string option"
  w_now :: instant
  w_uuid :: "nat \<Rightarrow> string"
  w_uuid_next :: nat
  w_redirectURI :: string
  w_calls :: nat
  w_faults :: "fault list"

type_synonym 'a io = "(world, gerror + 'a) state"

section \<open>External calls\<close>

definition external :: "(world \<Rightarrow> (gerror + 'a) \<times> world) \<Rightarrow> 'a io" where
  "external f = State (\<lambda>w. case w_faults w of
     [] \<Rightarrow> f w
   | NoFault # fs \<Rightarrow> f (w\<lparr>w_faults := fs\<rparr>)
   | Lost e # fs \<Rightarrow> (Inl (ext_gerror e), w\<lparr>w_faults := fs\<rparr>)
   | Unacked e # fs \<Rightarrow> (Inl (ext_gerror e), snd (f (w\<lparr>w_faults := fs\<rparr>))))"

definition get_now :: "instant io" where
  "get_now = State (\<lambda>w. (Inr (w_now w), w))"

lemma run_get_now [simp]: "run_state get_now w = (Inr (w_now w), w)"
  by (simp add: get_now_def)

text \<open>\<^verbatim>\<open>uuid.New().String()\<close>: the next string of the source.\<close>

definition new_uuid :: "string io" where
  "new_uuid = State (\<lambda>w. (Inr (w_uuid w (w_uuid_next w)), w\<lparr>w_uuid_next := Suc (w_uuid_next w)\<rparr>))"

lemma run_new_uuid [simp]:
  "run_state new_uuid w = (Inr (w_uuid w (w_uuid_next w)), w\<lparr>w_uuid_next := Suc (w_uuid_next w)\<rparr>)"
  by (simp add: new_uuid_def)

text \<open>
  The outcome of one external call, for reasoning: it ran on a world that differs in the
  schedule only, or it reported a failure.
\<close>

lemma external_cases [consumes 1, case_names ran lost unacked]:
  assumes "run_state (external f) w = (r, w')"
  obtains (ran) fs where "f (w\<lparr>w_faults := fs\<rparr>) = (r, w')"
  | (lost) e fs where "r = Inl (ext_gerror e)" "w' = w\<lparr>w_faults := fs\<rparr>"
  | (unacked) e fs where "r = Inl (ext_gerror e)" "w' = snd (f (w\<lparr>w_faults := fs\<rparr>))"
proof (cases "w_faults w")
  case Nil
  then have "w\<lparr>w_faults := []\<rparr> = w" by (cases w) simp
  moreover have "f w = (r, w')" using Nil assms by (simp add: external_def)
  ultimately have "f (w\<lparr>w_faults := []\<rparr>) = (r, w')" by metis
  then show thesis by (rule ran)
next
  case (Cons x fs)
  show thesis
  proof (cases x)
    case NoFault
    with Cons assms show thesis by (intro ran) (simp add: external_def)
  next
    case (Lost e)
    with Cons assms show thesis by (intro lost) (auto simp: external_def)
  next
    case (Unacked e)
    with Cons assms show thesis by (intro unacked) (auto simp: external_def)
  qed
qed

text \<open>A write that cannot be refused, and a read.\<close>

lemma external_write:
  assumes "run_state (external (\<lambda>w. (Inr x, g w))) w = (r, w')"
  shows "\<exists>fs. (r = Inr x \<or> (\<exists>f. r = Inl (ext_gerror f))) \<and>
    (r \<noteq> Inr x \<and> w' = w\<lparr>w_faults := fs\<rparr> \<or> w' = g (w\<lparr>w_faults := fs\<rparr>))"
  using assms by (cases rule: external_cases) auto

lemma external_attempt:
  assumes "run_state (external (\<lambda>w. if P w then (Inl e, w) else (Inr x, g w))) w = (r, w')"
    and "\<And>fs. P (w\<lparr>w_faults := fs\<rparr>) = P w"
  shows "\<exists>fs. r \<noteq> Inr x \<and> w' = w\<lparr>w_faults := fs\<rparr> \<or> \<not> P w \<and> w' = g (w\<lparr>w_faults := fs\<rparr>)"
  using assms(1) by (cases rule: external_cases) (auto simp: assms(2) split: if_splits)

lemma external_take:
  assumes "run_state (external (\<lambda>w. case h w of None \<Rightarrow> (Inl e, w) | Some v \<Rightarrow> (Inr v, g w))) w = (r, w')"
    and "\<And>fs. h (w\<lparr>w_faults := fs\<rparr>) = h w"
  shows "\<exists>fs. (\<exists>v. r = Inr v \<and> h w = Some v \<and> w' = g (w\<lparr>w_faults := fs\<rparr>)) \<or>
    (r = Inl e \<and> h w = None \<and> w' = w\<lparr>w_faults := fs\<rparr>) \<or>
    (\<exists>f. r = Inl (ext_gerror f) \<and> (w' = w\<lparr>w_faults := fs\<rparr> \<or> w' = g (w\<lparr>w_faults := fs\<rparr>)))"
  using assms(1) by (cases rule: external_cases) (auto simp: assms(2) split: option.splits)

lemma run_external_ok: "w_faults w = [] \<Longrightarrow> run_state (external f) w = f w"
  by (simp add: external_def)

lemma external_keeps:
  assumes "\<And>w. P w \<Longrightarrow> P (snd (f w))" and "\<And>w fs. P (w\<lparr>w_faults := fs\<rparr>) = P w"
  shows "keeps P (external f)"
proof (rule keepsI)
  fix w r w'
  assume "P w" and "run_state (external f) w = (r, w')"
  from this(2) show "P w'"
  proof (cases rule: external_cases)
    case (ran fs)
    with assms(1) [of "w\<lparr>w_faults := fs\<rparr>"] assms(2) \<open>P w\<close> show ?thesis by simp
  next
    case (lost e fs)
    with assms(2) \<open>P w\<close> show ?thesis by simp
  next
    case (unacked e fs)
    with assms(1) [of "w\<lparr>w_faults := fs\<rparr>"] assms(2) \<open>P w\<close> show ?thesis by simp
  qed
qed

lemma external_frames:
  assumes "\<And>w. R w (snd (f w))" and "\<And>w fs v. R (w\<lparr>w_faults := fs\<rparr>) v = R w v"
    and "reflp R"
  shows "frames R (external f)"
proof (rule framesI)
  fix w r w'
  assume "run_state (external f) w = (r, w')"
  then show "R w w'"
  proof (cases rule: external_cases)
    case (ran fs)
    with assms(1) [of "w\<lparr>w_faults := fs\<rparr>"] assms(2) show ?thesis by simp
  next
    case (lost e fs)
    have "R (w\<lparr>w_faults := fs\<rparr>) (w\<lparr>w_faults := fs\<rparr>)" using assms(3) by (simp add: reflp_def)
    with lost assms(2) show ?thesis by simp
  next
    case (unacked e fs)
    with assms(1) [of "w\<lparr>w_faults := fs\<rparr>"] assms(2) show ?thesis by simp
  qed
qed

end
