(* ===== verification/Http.thy ===== *)
theory Http
  imports Batch_Api Messages Net World
begin

text \<open>
  Requests, responses and errors of the HTTP layer: the parts of \<^verbatim>\<open>net/http\<close> and echo's context
  that the handlers use, \<^verbatim>\<open>handler/response/types.go\<close>, \<^verbatim>\<open>handler/lfs_common.go\<close>,
  \<^verbatim>\<open>handler/common\<close> and \<^verbatim>\<open>middleware/error_handler.go\<close>.

  A body carries the bytes it delivers, whether it then ends in an error, and its JSON reading:
  the tree of its first \<open>n\<close> bytes, and that of the first value of the stream.  A reply is what a handler leaves behind: a
  committed response, possibly with an error returned all the same, or only an error.
\<close>

section \<open>Requests and responses\<close>

record body =
  bd_bytes :: string
  bd_fails :: bool
  bd_json :: "nat \<Rightarrow> json option"
  bd_first :: "json option"

record request =
  rq_path :: string
  rq_host :: string
  rq_tls :: bool
  rq_header :: "string \<Rightarrow> string"
  rq_param :: "string \<Rightarrow> string"
  rq_query :: "string \<Rightarrow> string"
  rq_cookie :: "string \<Rightarrow> string option"
  rq_body :: body

record cookie =
  ck_Name :: string
  ck_Value :: string
  ck_Path :: string
  ck_HttpOnly :: bool
  ck_Secure :: bool
  ck_SameSiteLax :: bool
  ck_MaxAge :: int

datatype content = NoContent | JSONContent json | HTMLContent string | Octets string

record response =
  hp_status :: nat
  hp_headers :: header_map
  hp_cookies :: "cookie list"
  hp_content :: content

datatype reply = Replied response "gerror option" | Failed gerror

text \<open>\<^verbatim>\<open>c.JSON\<close> sets its content type only when the handler has not set one.\<close>

definition write_content_type :: "string \<Rightarrow> header_map \<Rightarrow> header_map" where
  "write_content_type v h = (if map_of h ''Content-Type'' \<in> {None, Some []} then header_put ''Content-Type'' v h else h)"

definition c_JSON :: "header_map \<Rightarrow> nat \<Rightarrow> json \<Rightarrow> response" where
  "c_JSON h code j = \<lparr>hp_status = code, hp_headers = write_content_type ''application/json'' h,
     hp_cookies = [], hp_content = JSONContent j\<rparr>"

text \<open>\<^verbatim>\<open>io.ReadAll(io.LimitReader(body, n))\<close>: a read error behind the limit is not seen.\<close>

definition read_limited :: "nat \<Rightarrow> body \<Rightarrow> string option" where
  "read_limited n b = (if length (bd_bytes b) < n \<and> bd_fails b then None else Some (take n (bd_bytes b)))"

section \<open>LFS conventions\<close>

definition GitLFSContentType :: string where
  "GitLFSContentType = ''application/vnd.git-lfs+json''"

record LFSErrorResponse =
  le_Message :: string

definition LFSErrorResponse_json :: "LFSErrorResponse \<Rightarrow> json" where
  "LFSErrorResponse_json r = JObject [(''message'', JString (le_Message r))]"

definition SendLFSError :: "nat \<Rightarrow> message \<Rightarrow> response" where
  "SendLFSError statusCode msg =
     (let h = header_put ''Content-Type'' GitLFSContentType [];
          h = (if statusCode = 401
               then header_put ''LFS-Authenticate''
                 (''Basic realm='' @ [CHR 0x22] @ ''Git LFS'' @ [CHR 0x22]) h
               else h)
      in c_JSON h statusCode (LFSErrorResponse_json \<lparr>le_Message = message_text msg\<rparr>))"

definition ValidateLFSHeaders :: "request \<Rightarrow> message option" where
  "ValidateLFSHeaders c =
     (let accept = rq_header c ''Accept''; contentType = rq_header c ''Content-Type'' in
      if ParseMediaType accept \<noteq> Some GitLFSContentType then Some MsgAcceptHeader
      else if ParseMediaType contentType \<noteq> Some GitLFSContentType then Some MsgContentTypeHeader
      else None)"

definition ExtractRepositoryIdentifier :: "request \<Rightarrow> gerror + RepositoryIdentifier" where
  "ExtractRepositoryIdentifier c =
     (let owner = rq_param c ''owner''; repo = rq_param c ''repo''; fullName = owner @ ''/'' @ repo
      in NewRepositoryIdentifier fullName)"

definition LFSSessionCookieName :: string where "LFSSessionCookieName = ''lfs_session''"
definition LFSSessionMaxAge :: int where "LFSSessionMaxAge = 86400"

section \<open>Errors on the way out\<close>

definition NewAppError :: "nat \<Rightarrow> message \<Rightarrow> gerror option \<Rightarrow> gerror" where
  "NewAppError statusCode msg err = AppError statusCode msg err"

text \<open>\<^verbatim>\<open>errors.As\<close> for \<^verbatim>\<open>*AppError\<close> and \<^verbatim>\<open>*echo.HTTPError\<close>.\<close>

primrec unwrap_to :: "(gerror \<Rightarrow> 'a option) \<Rightarrow> gerror \<Rightarrow> 'a option" where
  "unwrap_to f (Domain e) = f (Domain e)"
| "unwrap_to f (Usecase e) = f (Usecase e)"
| "unwrap_to f (S3 e) = f (S3 e)"
| "unwrap_to f (Redis e) = f (Redis e)"
| "unwrap_to f (Oidc e) = f (Oidc e)"
| "unwrap_to f (Middleware e) = f (Middleware e)"
| "unwrap_to f InfraErrNotFound = f InfraErrNotFound"
| "unwrap_to f (Extern e) = f (Extern e)"
| "unwrap_to f (Plain s) = f (Plain s)"
| "unwrap_to f (Panic s) = f (Panic s)"
| "unwrap_to f (Wrap e) = (case f (Wrap e) of Some a \<Rightarrow> Some a | None \<Rightarrow> unwrap_to f e)"
| "unwrap_to f (StorageError op e) = (case f (StorageError op e) of Some a \<Rightarrow> Some a | None \<Rightarrow> unwrap_to f e)"
| "unwrap_to f (AppError c m e) = f (AppError c m e)"
| "unwrap_to f (HTTPError c m) = f (HTTPError c m)"

definition as_AppError :: "gerror \<Rightarrow> (nat \<times> message) option" where
  "as_AppError e = (case e of AppError c m x \<Rightarrow> Some (c, m) | _ \<Rightarrow> None)"

definition as_HTTPError :: "gerror \<Rightarrow> (nat \<times> message option) option" where
  "as_HTTPError e = (case e of HTTPError c m \<Rightarrow> Some (c, m) | _ \<Rightarrow> None)"

definition error_status :: "gerror \<Rightarrow> nat \<times> message" where
  "error_status err = (case unwrap_to as_AppError err of
     Some (statusCode, msg) \<Rightarrow> (statusCode, msg)
   | None \<Rightarrow> (case unwrap_to as_HTTPError err of
       Some (code, Some msg) \<Rightarrow> (code, msg)
     | Some (code, None) \<Rightarrow> (code, MsgInternalError)
     | None \<Rightarrow> (500, MsgInternalError)))"

text \<open>The error handler writes nothing over a committed response.  Its logging is left out.\<close>

definition CustomHTTPErrorHandler :: "request \<Rightarrow> response option \<Rightarrow> gerror \<Rightarrow> response" where
  "CustomHTTPErrorHandler c committed err = (case committed of
     Some r \<Rightarrow> r
   | None \<Rightarrow> (let (statusCode, msg) = error_status err in
       if prefix ''/auth/'' (rq_path c)
       then c_JSON [] statusCode (JObject [(''error'', JString (message_text msg))])
       else (let h = header_put ''Content-Type'' GitLFSContentType []
             in \<lparr>hp_status = statusCode, hp_headers = write_content_type GitLFSContentType h, hp_cookies = [],
                hp_content = JSONContent (LFSErrorResponse_json \<lparr>le_Message = message_text msg\<rparr>)\<rparr>)))"

text \<open>What the client gets: \<^verbatim>\<open>middleware.Recover\<close> turns a panic into an error, and every error
  reaches the error handler.\<close>

definition final_response :: "request \<Rightarrow> reply \<Rightarrow> response" where
  "final_response c r = (case r of
     Replied resp None \<Rightarrow> resp
   | Replied resp (Some err) \<Rightarrow> CustomHTTPErrorHandler c (Some resp) err
   | Failed err \<Rightarrow> CustomHTTPErrorHandler c None err)"

lemma SendLFSError_simps [simp]:
  "hp_status (SendLFSError code m) = code" "hp_cookies (SendLFSError code m) = []"
  by (simp_all add: SendLFSError_def c_JSON_def Let_def)

lemma map_of_filter_key: "map_of (filter (\<lambda>p. fst p \<noteq> k) h) j = (if j = k then None else map_of h j)"
  by (induction h) auto

lemma map_of_insort_key:
  "k \<notin> fst ` set h \<Longrightarrow> map_of (insort_key fst (k, v) h) j = (if j = k then Some v else map_of h j)"
  by (induction h) (auto simp: image_iff)

lemma map_of_header_put [simp]: "map_of (header_put k v h) j = (if j = k then Some v else map_of h j)"
  by (subst header_put_def, subst map_of_insort_key) (auto simp: map_of_filter_key)

text \<open>Every LFS error names its content type, and a 401 says how to authenticate.\<close>

lemma SendLFSError_headers:
  "map_of (hp_headers (SendLFSError code m)) ''Content-Type'' = Some GitLFSContentType"
  "(map_of (hp_headers (SendLFSError code m)) ''LFS-Authenticate'' \<noteq> None) = (code = 401)"
  by (auto simp: SendLFSError_def c_JSON_def Let_def write_content_type_def GitLFSContentType_def)

lemma final_response_Replied [simp]: "final_response c (Replied r e) = r"
  by (cases e) (simp_all add: final_response_def CustomHTTPErrorHandler_def)

lemma error_status_simps [simp]:
  "error_status (AppError code m x) = (code, m)"
  "error_status (HTTPError code (Some m)) = (code, m)"
  "error_status (Panic s) = (500, MsgInternalError)"
  "error_status (Plain s) = (500, MsgInternalError)"
  "error_status (Usecase ue) = (500, MsgInternalError)"
  by (simp_all add: error_status_def as_AppError_def as_HTTPError_def)

lemma final_response_Failed [simp]:
  "hp_status (final_response c (Failed err)) = fst (error_status err)"
  by (simp add: final_response_def CustomHTTPErrorHandler_def c_JSON_def split: prod.splits)

end
