(* ===== verification/Ports.thy ===== *)
theory Ports
  imports World
begin

text \<open>
  The interfaces of \<^verbatim>\<open>internal/domain\<close> and \<^verbatim>\<open>internal/usecase\<close> behind which the storage
  implementations sit.  A Go interface value is a record of operations; the use cases take such
  records, as their Go structs hold interface fields, and \<^verbatim>\<open>main\<close> fills them in.

  What a client may rely on is stated by locales: the laws of a metadata repository, of an
  access policy repository, and of an object store.  The implementations interpret them.
\<close>

section \<open>Interface records\<close>

record LFSObjectRepository =
  repo_FindByOID :: "OID \<Rightarrow> LFSObject io"
  repo_Save :: "LFSObject \<Rightarrow> unit io"
  repo_Update :: "LFSObject \<Rightarrow> unit io"
  repo_ExistsByOID :: "OID \<Rightarrow> bool io"

record AccessPolicyRepository =
  policy_FindByOID :: "OID \<Rightarrow> AccessPolicy option io"
  policy_Save :: "AccessPolicy \<Rightarrow> unit io"
  policy_Delete :: "OID \<Rightarrow> unit io"

record RepositoryAllowlistRepository =
  allowlist_IsAllowed :: "AllowedRepository option \<Rightarrow> bool io"
  allowlist_Add :: "AllowedRepository option \<Rightarrow> unit io"
  allowlist_Remove :: "AllowedRepository option \<Rightarrow> unit io"
  allowlist_List :: "AllowedRepository list io"

record ObjectStorage =
  storage_PutObject :: "string \<Rightarrow> string \<Rightarrow> int \<Rightarrow> unit io"
  storage_GetObject :: "string \<Rightarrow> string io"

section \<open>The stored state a client reasons about\<close>

text \<open>
  A row is well formed when the validating constructors accept it.  \<open>stored\<close> reads an
  object from the metadata table: the state both repository implementations stand for.
\<close>

definition wf_row :: "LFSObjectRow \<Rightarrow> bool" where
  "wf_row row \<longleftrightarrow> oidPattern (lr_OID row) \<and> 0 \<le> lr_Size row \<and> lr_HashAlgo row = ''sha256'' \<and>
     lr_StorageKey row \<noteq> []"

definition wf_objects :: "world \<Rightarrow> bool" where
  "wf_objects w \<longleftrightarrow> (\<forall>k row. w_objects w k = Some row \<longrightarrow> lr_OID row = k \<and> wf_row row)"

definition row_object :: "LFSObjectRow \<Rightarrow> LFSObject" where
  "row_object row = \<lparr>lo_oid = OID (lr_OID row), lo_size = Size (lr_Size row),
     lo_hashAlgo = HashAlgorithm (lr_HashAlgo row), lo_storageKey = StorageKey (lr_StorageKey row),
     lo_uploaded = lr_Uploaded row, lo_createdAt = lr_CreatedAt row, lo_updatedAt = lr_UpdatedAt row\<rparr>"

definition stored :: "world \<Rightarrow> OID \<Rightarrow> LFSObject option" where
  "stored w oid = map_option row_object (w_objects w (OID_String oid))"

definition wf_object :: "LFSObject \<Rightarrow> bool" where
  "wf_object obj \<longleftrightarrow> oidPattern (OID_String (lo_oid obj)) \<and> 0 \<le> Size_Int64 (lo_size obj) \<and>
     lo_hashAlgo obj = HashAlgorithm ''sha256'' \<and> StorageKey_String (lo_storageKey obj) \<noteq> []"

text \<open>The fields no operation of the program changes after an object is created.\<close>

definition same_object :: "LFSObject \<Rightarrow> LFSObject \<Rightarrow> bool" where
  "same_object a b \<longleftrightarrow> lo_oid a = lo_oid b \<and> lo_size a = lo_size b \<and>
     lo_hashAlgo a = lo_hashAlgo b \<and> lo_storageKey a = lo_storageKey b"

text \<open>Equal up to the timestamps, which the database rounds to microseconds.\<close>

definition same_state :: "LFSObject \<Rightarrow> LFSObject \<Rightarrow> bool" where
  "same_state a b \<longleftrightarrow> same_object a b \<and> lo_uploaded a = lo_uploaded b"

text \<open>\<open>obj\<close> is a copy of the stored object that may only be ahead of or behind it in the
  uploaded flag and the timestamps.\<close>

definition behind :: "world \<Rightarrow> LFSObject \<Rightarrow> bool" where
  "behind w obj \<longleftrightarrow> (\<exists>d. stored w (lo_oid obj) = Some d \<and> same_object obj d \<and>
     (lo_uploaded obj \<longrightarrow> lo_uploaded d))"

definition ahead :: "world \<Rightarrow> LFSObject \<Rightarrow> bool" where
  "ahead w obj \<longleftrightarrow> (\<exists>d. stored w (lo_oid obj) = Some d \<and> same_object obj d \<and>
     (lo_uploaded d \<longrightarrow> lo_uploaded obj))"

text \<open>What no metadata operation touches.\<close>

definition same_elsewhere :: "world \<Rightarrow> world \<Rightarrow> bool" where
  "same_elsewhere w w' \<longleftrightarrow> w_policies w' = w_policies w \<and> w_policy_seq w' = w_policy_seq w \<and>
     w_allowlist w' = w_allowlist w \<and> w_allowlist_seq w' = w_allowlist_seq w \<and>
     w_storage w' = w_storage w \<and> w_now w' = w_now w \<and> w_uuid w' = w_uuid w \<and>
     w_uuid_next w' = w_uuid_next w \<and> w_redirectURI w' = w_redirectURI w \<and> w_calls w' = w_calls w"

lemma same_elsewhere_refl [simp]: "same_elsewhere w w"
  by (simp add: same_elsewhere_def)

lemma same_elsewhere_trans [trans]:
  "same_elsewhere u v \<Longrightarrow> same_elsewhere v w \<Longrightarrow> same_elsewhere u w"
  by (simp add: same_elsewhere_def)

lemma reflp_same_elsewhere [simp, intro]: "reflp same_elsewhere"
  by (simp add: reflp_def)

lemma transp_same_elsewhere [simp, intro]: "transp same_elsewhere"
  by (rule transpI) (rule same_elsewhere_trans)

definition same_tables :: "world \<Rightarrow> world \<Rightarrow> bool" where
  "same_tables w w' \<longleftrightarrow> w_objects w' = w_objects w \<and> same_elsewhere w w'"

lemma same_tables_refl [simp]: "same_tables w w"
  by (simp add: same_tables_def)

lemma same_tables_trans [trans]: "same_tables u v \<Longrightarrow> same_tables v w \<Longrightarrow> same_tables u w"
  by (auto simp: same_tables_def intro: same_elsewhere_trans)

lemma reflp_same_tables [simp, intro]: "reflp same_tables"
  by (simp add: reflp_def)

lemma transp_same_tables [simp, intro]: "transp same_tables"
  by (rule transpI) (rule same_tables_trans)

text \<open>How the metadata table may move: an insertion of a new object, or an update that keeps
  the identity of an object and never takes the uploaded flag back.\<close>

definition table_step :: "OID \<Rightarrow> world \<Rightarrow> world \<Rightarrow> bool" where
  "table_step oid w w' \<longleftrightarrow> (\<forall>k. k \<noteq> oid \<longrightarrow> stored w' k = stored w k) \<and>
     (\<forall>d. stored w oid = Some d \<longrightarrow>
        (\<exists>d'. stored w' oid = Some d' \<and> same_object d' d \<and> (lo_uploaded d \<longrightarrow> lo_uploaded d')))"

lemma same_object_refl [simp]: "same_object a a"
  by (simp add: same_object_def)

lemma same_state_refl [simp]: "same_state a a"
  by (simp add: same_state_def)

lemma same_object_sym: "same_object a b \<Longrightarrow> same_object b a"
  by (simp add: same_object_def)

lemma same_object_trans: "same_object a b \<Longrightarrow> same_object b c \<Longrightarrow> same_object a c"
  by (simp add: same_object_def)

lemma same_object_MarkAsUploaded [simp]: "same_object (MarkAsUploaded now obj) obj"
  by (simp add: same_object_def MarkAsUploaded_def)

lemma table_step_refl [simp]: "table_step oid w w"
  by (auto simp: table_step_def)

lemma table_step_kept:
  assumes "table_step oid u v" and "stored u oid = Some d"
  obtains d' where "stored v oid = Some d'" "same_object d' d" "lo_uploaded d \<longrightarrow> lo_uploaded d'"
  using assms by (auto simp: table_step_def)

lemma table_step_other: "table_step oid u v \<Longrightarrow> k \<noteq> oid \<Longrightarrow> stored v k = stored u k"
  by (simp add: table_step_def)

lemma table_stepI:
  assumes "\<And>k. k \<noteq> oid \<Longrightarrow> stored w' k = stored w k"
    and "\<And>d. stored w oid = Some d \<Longrightarrow>
      \<exists>d'. stored w' oid = Some d' \<and> same_object d' d \<and> (lo_uploaded d \<longrightarrow> lo_uploaded d')"
  shows "table_step oid w w'"
  using assms by (simp add: table_step_def)

lemma table_step_trans [trans]:
  assumes uv: "table_step oid u v" and vw: "table_step oid v w"
  shows "table_step oid u w"
proof (rule table_stepI)
  fix k assume "k \<noteq> oid"
  then show "stored w k = stored u k" using uv vw by (simp add: table_step_other)
next
  fix d assume "stored u oid = Some d"
  with uv obtain d' where d': "stored v oid = Some d'" "same_object d' d" "lo_uploaded d \<longrightarrow> lo_uploaded d'"
    by (rule table_step_kept)
  from vw d'(1) obtain d'' where "stored w oid = Some d''" "same_object d'' d'" "lo_uploaded d' \<longrightarrow> lo_uploaded d''"
    by (rule table_step_kept)
  with d' show "\<exists>d'. stored w oid = Some d' \<and> same_object d' d \<and> (lo_uploaded d \<longrightarrow> lo_uploaded d')"
    by (auto intro: same_object_trans)
qed

lemma stored_faults [simp]: "stored (w\<lparr>w_faults := fs\<rparr>) = stored w"
  by (rule ext) (simp add: stored_def)

lemma same_tables_stored: "same_tables w w' \<Longrightarrow> stored w' = stored w"
  by (rule ext) (simp add: same_tables_def stored_def)

lemma same_tables_wf: "same_tables w w' \<Longrightarrow> wf_objects w' = wf_objects w"
  by (simp add: same_tables_def wf_objects_def)

lemma table_step_cong:
  "(\<And>k. stored w' k = stored w k) \<Longrightarrow> table_step oid w w'"
  by (auto simp: table_step_def)

lemma wf_objects_faults [simp]: "wf_objects (w\<lparr>w_faults := fs\<rparr>) = wf_objects w"
  by (simp add: wf_objects_def)

lemma same_elsewhere_faults [simp]:
  "same_elsewhere w (w'\<lparr>w_faults := fs\<rparr>) = same_elsewhere w w'"
  "same_elsewhere (w\<lparr>w_faults := fs\<rparr>) w' = same_elsewhere w w'"
  by (simp_all add: same_elsewhere_def)

lemma table_step_faults [simp]:
  "table_step oid w (w'\<lparr>w_faults := fs\<rparr>) = table_step oid w w'"
  "table_step oid (w\<lparr>w_faults := fs\<rparr>) w' = table_step oid w w'"
  by (simp_all add: table_step_def)

lemma OID_String_inject [simp]: "OID_String a = OID_String b \<longleftrightarrow> a = b"
  by (cases a; cases b) simp

lemma same_tables_faults [simp]:
  "same_tables w (w'\<lparr>w_faults := fs\<rparr>) = same_tables w w'"
  "same_tables (w\<lparr>w_faults := fs\<rparr>) w' = same_tables w w'"
  by (simp_all add: same_tables_def)

text \<open>How one write moves the table: not at all, or the object's entry becomes the object.\<close>

definition table_write :: "LFSObject \<Rightarrow> world \<Rightarrow> world \<Rightarrow> bool" where
  "table_write obj w w' \<longleftrightarrow> stored w' = stored w \<or>
     (\<exists>d. same_state d obj \<and> stored w' = (stored w)(lo_oid obj \<mapsto> d))"

lemma table_write_stored: "table_write obj w v \<Longrightarrow> stored w' = stored v \<Longrightarrow> table_write obj w w'"
  by (simp add: table_write_def)

lemma table_write_new:
  assumes "table_write obj w w'" and "stored w (lo_oid obj) \<noteq> None \<longrightarrow> stored w' = stored w"
  shows "table_step (lo_oid obj) w w'"
  using assms by (auto simp: table_write_def table_step_def)

lemma table_write_ahead:
  assumes "table_write obj w w'" and "ahead w obj"
  shows "table_step (lo_oid obj) w w'"
  using assms by (auto simp: table_write_def table_step_def ahead_def same_state_def same_object_def)

section \<open>The metadata repository contract\<close>

text \<open>
  \<open>good\<close> is the implementation's invariant.  A found object is a copy of the stored one that
  is at most behind; an object reported missing is missing; \<^verbatim>\<open>Save\<close> and \<^verbatim>\<open>Update\<close> leave the table
  alone or write the object, and have written it when they report success.
\<close>

locale lfs_object_repository =
  fixes repo :: LFSObjectRepository and good :: "world \<Rightarrow> bool"
  assumes good_wf: "good w \<Longrightarrow> wf_objects w"
    and find_state: "good w \<Longrightarrow> run_state (repo_FindByOID repo oid) w = (r, w') \<Longrightarrow>
      good w' \<and> same_elsewhere w w' \<and> stored w' = stored w"
    and find_sound: "good w \<Longrightarrow> run_state (repo_FindByOID repo oid) w = (Inr obj, w') \<Longrightarrow>
      lo_oid obj = oid \<and> behind w obj"
    and find_missing: "good w \<Longrightarrow> run_state (repo_FindByOID repo oid) w = (Inl e, w') \<Longrightarrow>
      errors_Is e (Domain ErrNotFound) \<Longrightarrow> stored w oid = None"
    and save_state: "good w \<Longrightarrow> wf_object obj \<Longrightarrow> run_state (repo_Save repo obj) w = (ru, w') \<Longrightarrow>
      good w' \<and> same_elsewhere w w' \<and> table_write obj w w' \<and>
      (stored w (lo_oid obj) \<noteq> None \<longrightarrow> stored w' = stored w)"
    and save_done: "good w \<Longrightarrow> wf_object obj \<Longrightarrow> run_state (repo_Save repo obj) w = (Inr (), w') \<Longrightarrow>
      stored w (lo_oid obj) = None \<and>
      (\<exists>d. stored w' (lo_oid obj) = Some d \<and> same_state d obj)"
    and update_state: "good w \<Longrightarrow> ahead w obj \<Longrightarrow> run_state (repo_Update repo obj) w = (ru, w') \<Longrightarrow>
      good w' \<and> same_elsewhere w w' \<and> table_write obj w w'"
    and update_done: "good w \<Longrightarrow> ahead w obj \<Longrightarrow> run_state (repo_Update repo obj) w = (Inr (), w') \<Longrightarrow>
      \<exists>d. stored w' (lo_oid obj) = Some d \<and> same_state d obj"
begin

lemma stored_wf:
  assumes "good w" and "stored w oid = Some d"
  shows "wf_object d" and "lo_oid d = oid"
proof -
  from assms(2) obtain row where row: "w_objects w (OID_String oid) = Some row" and d: "d = row_object row"
    by (auto simp: stored_def)
  from good_wf [OF assms(1)] row have "lr_OID row = OID_String oid" "wf_row row"
    by (auto simp: wf_objects_def)
  then show "wf_object d" "lo_oid d = oid"
    by (cases oid; simp add: d row_object_def wf_object_def wf_row_def)+
qed

lemma found_wf:
  assumes "good w" and "run_state (repo_FindByOID repo oid) w = (Inr obj, w')"
  shows "wf_object obj"
proof -
  from find_sound [OF assms] obtain d where d: "stored w (lo_oid obj) = Some d" "same_object obj d"
    by (auto simp: behind_def)
  from stored_wf(1) [OF assms(1) d(1)] d(2) show ?thesis by (simp add: wf_object_def same_object_def)
qed

lemma found_marked_ahead:
  assumes "good w" and "run_state (repo_FindByOID repo oid) w = (Inr obj, w')"
  shows "ahead w' (MarkAsUploaded now obj)"
proof -
  from find_sound [OF assms] obtain d where d: "stored w (lo_oid obj) = Some d" "same_object obj d"
    by (auto simp: behind_def)
  moreover from find_state [OF assms] have "stored w' = stored w" by simp
  ultimately show ?thesis
    by (auto simp: ahead_def MarkAsUploaded_def same_object_def)
qed

end

section \<open>The access policy repository contract\<close>

text \<open>The repository that owns an object, read from the policy table.\<close>

definition owner_of :: "world \<Rightarrow> OID \<Rightarrow> RepositoryIdentifier option" where
  "owner_of w oid = (case w_policies w (OID_String oid) of
     None \<Rightarrow> None
   | Some row \<Rightarrow> (case NewRepositoryIdentifier (pr_Repository row) of Inl e \<Rightarrow> None | Inr ri \<Rightarrow> Some ri))"

definition wf_policy_row :: "AccessPolicyRow \<Rightarrow> bool" where
  "wf_policy_row row \<longleftrightarrow> oidPattern (pr_LfsObjectOid row) \<and> 0 \<le> pr_ID row \<and>
     (\<exists>ri. valid_repository ri \<and> pr_Repository row = FullName ri)"

text \<open>Well-formed rows under their own key, each for an object of the metadata table (the
  foreign key).\<close>

definition wf_policies :: "world \<Rightarrow> bool" where
  "wf_policies w \<longleftrightarrow> 0 \<le> w_policy_seq w \<and>
     (\<forall>k row. w_policies w k = Some row \<longrightarrow>
        pr_LfsObjectOid row = k \<and> wf_policy_row row \<and> w_objects w k \<noteq> None)"

text \<open>What no policy operation touches.\<close>

definition same_metadata :: "world \<Rightarrow> world \<Rightarrow> bool" where
  "same_metadata w w' \<longleftrightarrow> w_objects w' = w_objects w \<and> w_allowlist w' = w_allowlist w \<and>
     w_allowlist_seq w' = w_allowlist_seq w \<and> w_redis w' = w_redis w \<and> w_storage w' = w_storage w \<and>
     w_now w' = w_now w \<and> w_uuid w' = w_uuid w \<and> w_uuid_next w' = w_uuid_next w \<and>
     w_redirectURI w' = w_redirectURI w \<and> w_calls w' = w_calls w"

lemma same_metadata_refl [simp]: "same_metadata w w"
  by (simp add: same_metadata_def)

lemma same_metadata_trans [trans]: "same_metadata u v \<Longrightarrow> same_metadata v w \<Longrightarrow> same_metadata u w"
  by (simp add: same_metadata_def)

lemma same_metadata_faults [simp]:
  "same_metadata w (w'\<lparr>w_faults := fs\<rparr>) = same_metadata w w'"
  "same_metadata (w\<lparr>w_faults := fs\<rparr>) w' = same_metadata w w'"
  by (simp_all add: same_metadata_def)

lemma wf_policies_faults [simp]: "wf_policies (w\<lparr>w_faults := fs\<rparr>) = wf_policies w"
  by (simp add: wf_policies_def)

lemma same_metadata_stored: "same_metadata w w' \<Longrightarrow> stored w' = stored w"
  by (rule ext) (simp add: same_metadata_def stored_def)

lemma same_elsewhere_owner: "same_elsewhere w w' \<Longrightarrow> owner_of w' = owner_of w"
  by (rule ext) (simp add: same_elsewhere_def owner_of_def)

lemma owner_faults [simp]: "owner_of (w\<lparr>w_faults := fs\<rparr>) = owner_of w"
  by (rule ext) (simp add: owner_of_def)

lemma owner_valid: "owner_of w oid = Some ri \<Longrightarrow> valid_repository ri"
  by (auto simp: owner_of_def NewRepositoryIdentifier_Inr split: option.splits sum.splits)

text \<open>
  A policy found is the owner's; one reported missing is missing; \<^verbatim>\<open>Save\<close> sets the owner or does
  nothing, and has set it when it reports success.
\<close>

locale access_policy_repository =
  fixes repo :: AccessPolicyRepository and good :: "world \<Rightarrow> bool"
  assumes pfind_state: "good w \<Longrightarrow> run_state (policy_FindByOID repo oid) w = (rf, w') \<Longrightarrow>
      good w' \<and> same_metadata w w' \<and> owner_of w' = owner_of w"
    and pfind_sound: "good w \<Longrightarrow> run_state (policy_FindByOID repo oid) w = (Inr (Some p), w') \<Longrightarrow>
      ap_repository p = owner_of w oid \<and> owner_of w oid \<noteq> None"
    and pfind_nil: "good w \<Longrightarrow> run_state (policy_FindByOID repo oid) w = (Inr None, w') \<Longrightarrow>
      owner_of w oid = None"
    and pfind_missing: "good w \<Longrightarrow> run_state (policy_FindByOID repo oid) w = (Inl e, w') \<Longrightarrow>
      errors_Is e (Domain ErrAccessPolicyNotFound) \<Longrightarrow> owner_of w oid = None"
    and psave_state: "good w \<Longrightarrow> ap_repository p = Some ri \<Longrightarrow> valid_repository ri \<Longrightarrow>
      oidPattern (OID_String (ap_oid p)) \<Longrightarrow> run_state (policy_Save repo p) w = (ru, w') \<Longrightarrow>
      good w' \<and> same_metadata w w' \<and> (owner_of w' = owner_of w \<or> owner_of w' = (owner_of w)(ap_oid p \<mapsto> ri))"
    and psave_done: "good w \<Longrightarrow> ap_repository p = Some ri \<Longrightarrow> valid_repository ri \<Longrightarrow>
      oidPattern (OID_String (ap_oid p)) \<Longrightarrow> run_state (policy_Save repo p) w = (Inr (), w') \<Longrightarrow>
      owner_of w' = (owner_of w)(ap_oid p \<mapsto> ri)"

section \<open>Caches\<close>

text \<open>
  \<^verbatim>\<open>usecase.CacheClient\<close>, at the Go type it is used with, and the narrower client of the
  allowlist cache.  \<open>peek w k\<close> is the value a reader would get for \<open>k\<close> now.  A cache promises
  little: a value read is the one held, and a write either leaves an entry as it was, stores the
  value, or leaves no readable entry; no cache operation moves the tables.
\<close>

record 'v CacheClient =
  cache_Exists :: "string \<Rightarrow> bool io"
  cache_Set :: "string \<Rightarrow> redis_value \<Rightarrow> duration \<Rightarrow> unit io"
  cache_GetJSON :: "string \<Rightarrow> 'v io"
  cache_SetJSON :: "string \<Rightarrow> 'v \<Rightarrow> duration \<Rightarrow> unit io"
  cache_Delete :: "string \<Rightarrow> unit io"

record AllowlistCacheClient =
  racl_Get :: "string \<Rightarrow> redis_value io"
  racl_Set :: "string \<Rightarrow> redis_value \<Rightarrow> duration \<Rightarrow> unit io"
  racl_Delete :: "string \<Rightarrow> unit io"

locale cache_client =
  fixes cache :: "'v CacheClient" and peek :: "world \<Rightarrow> string \<Rightarrow> 'v option"
  assumes get_state: "run_state (cache_GetJSON cache k) w = (rg, w') \<Longrightarrow> same_tables w w' \<and> peek w' = peek w"
    and get_hit: "run_state (cache_GetJSON cache k) w = (Inr v, w') \<Longrightarrow> peek w k = Some v"
    and set_state: "0 < ttl \<Longrightarrow> run_state (cache_SetJSON cache k v ttl) w = (ru, w') \<Longrightarrow>
      same_tables w w' \<and> (\<forall>j. j \<noteq> k \<longrightarrow> peek w' j = peek w j) \<and> peek w' k \<in> {peek w k, Some v, None}"
    and delete_state: "run_state (cache_Delete cache k) w = (ru, w') \<Longrightarrow>
      same_tables w w' \<and> (\<forall>j. j \<noteq> k \<longrightarrow> peek w' j = peek w j) \<and> peek w' k \<in> {peek w k, None}"
    and delete_done: "run_state (cache_Delete cache k) w = (Inr (), w') \<Longrightarrow> peek w' k = None"

section \<open>Sessions and sign-in states\<close>

record SessionStore =
  store_CreateSession :: "UserInfo option \<Rightarrow> duration \<Rightarrow> string io"
  store_GetSession :: "string \<Rightarrow> UserInfo io"
  store_DeleteSession :: "string \<Rightarrow> unit io"

record OAuthStateStore =
  store_SaveState :: "string \<Rightarrow> OAuthState \<Rightarrow> duration \<Rightarrow> unit io"
  store_GetAndDeleteState :: "string \<Rightarrow> OAuthState io"

text \<open>What a session keeps of a user: permissions that grant nothing are not told apart from no
  permissions.\<close>

definition grants_something :: "RepositoryPermissions \<Rightarrow> bool" where
  "grants_something p \<longleftrightarrow> rp_admin p \<or> rp_push p \<or> rp_pull p \<or> rp_maintain p \<or> rp_triage p"

definition session_view :: "UserInfo \<Rightarrow> UserInfo" where
  "session_view u = u\<lparr>ui_permissions :=
     (case ui_permissions u of None \<Rightarrow> None | Some p \<Rightarrow> if grants_something p then Some p else None)\<rparr>"

definition wf_user :: "UserInfo \<Rightarrow> bool" where
  "wf_user u \<longleftrightarrow> ui_sub u \<noteq> [] \<and> ui_provider u = ProviderTypeGitHub \<and>
     (case ui_repository u of None \<Rightarrow> True | Some ri \<Rightarrow> valid_repository ri)"

lemma grants_something_CanDownload: "CanDownload p \<Longrightarrow> grants_something p"
  by (auto simp: CanDownload_def grants_something_def)

locale session_store =
  fixes store :: SessionStore and session :: "world \<Rightarrow> string \<Rightarrow> UserInfo option"
  assumes create_tables: "run_state (store_CreateSession store ou ttl) w = (rs, w') \<Longrightarrow>
      w_objects w' = w_objects w \<and> w_policies w' = w_policies w \<and> w_storage w' = w_storage w"
    and create_fresh: "run_state (store_CreateSession store ou ttl) w = (Inr sid, w') \<Longrightarrow>
      sid = w_uuid w (w_uuid_next w)"
    and create_done: "wf_user u \<Longrightarrow> 0 < ttl \<Longrightarrow>
      run_state (store_CreateSession store (Some u) ttl) w = (Inr sid, w') \<Longrightarrow>
      session w' sid = Some (session_view u)"
    and session_get_state: "run_state (store_GetSession store sid) w = (rg, w') \<Longrightarrow>
      same_tables w w' \<and> session w' = session w"
    and session_get_sound: "run_state (store_GetSession store sid) w = (Inr u, w') \<Longrightarrow> session w sid = Some u"
    and session_delete_done: "run_state (store_DeleteSession store sid) w = (Inr (), w') \<Longrightarrow> session w' sid = None"
begin

text \<open>A deleted session no longer authenticates.\<close>

lemma deleted_session_gone:
  assumes "run_state (store_DeleteSession store sid) w = (Inr (), w1)"
    and "run_state (store_GetSession store sid) w1 = (rg, w2)"
  shows "\<exists>e. rg = Inl e"
  using session_delete_done [OF assms(1)] session_get_sound [of sid w1 _ w2] assms(2) by (cases rg) auto

end

text \<open>The shells a state can carry: one of the parsed ones, or none.\<close>

definition wf_oauth_state :: "OAuthState \<Rightarrow> bool" where
  "wf_oauth_state d \<longleftrightarrow> os_shell d \<in> {ShellType [], ShellTypeBash, ShellTypeZsh, ShellTypePowerShell}"

text \<open>\<open>pending w st\<close> is what a state string would be exchanged for now; taking it uses it up.\<close>

locale oauth_state_store =
  fixes store :: OAuthStateStore and pending :: "world \<Rightarrow> string \<Rightarrow> OAuthState option"
  assumes save_pending: "wf_oauth_state d \<Longrightarrow> 0 < ttl \<Longrightarrow> run_state (store_SaveState store st d ttl) w = (ru, w') \<Longrightarrow>
      same_tables w w' \<and> (pending w' = pending w \<or> pending w' = (pending w)(st \<mapsto> d))"
    and save_pending_done: "wf_oauth_state d \<Longrightarrow> 0 < ttl \<Longrightarrow>
      run_state (store_SaveState store st d ttl) w = (Inr (), w') \<Longrightarrow> pending w' st = Some d"
    and take_pending: "run_state (store_GetAndDeleteState store st) w = (rt, w') \<Longrightarrow>
      same_tables w w' \<and> (pending w' = pending w \<or> pending w' = (pending w)(st := None))"
    and take_done: "run_state (store_GetAndDeleteState store st) w = (Inr d, w') \<Longrightarrow>
      pending w st = Some d \<and> pending w' st = None"
begin

text \<open>A state is exchanged at most once: whatever happens in between that does not save the same
  state string again, a second exchange fails.\<close>

lemma no_replay:
  assumes "run_state (store_GetAndDeleteState store st) w = (Inr d, w1)"
    and "pending w2 st = pending w1 st"
    and "run_state (store_GetAndDeleteState store st) w2 = (rt, w3)"
  shows "\<exists>e. rt = Inl e"
  using take_done [OF assms(1)] take_done [of st w2 _ w3] assms(2,3) by (cases rt) auto

end

section \<open>The object store contract\<close>

text \<open>A store touches one key at a time, takes a body only at its announced length, and gives back
  what is under the key.\<close>

locale object_storage =
  fixes storage :: ObjectStorage
  assumes put_state: "run_state (storage_PutObject storage key body len) w = (ru, w') \<Longrightarrow>
      \<exists>fs. w' = w\<lparr>w_faults := fs\<rparr> \<or>
        int (length body) = len \<and> w' = w\<lparr>w_faults := fs, w_storage := (w_storage w)(key \<mapsto> body)\<rparr>"
    and put_done: "run_state (storage_PutObject storage key body len) w = (Inr (), w') \<Longrightarrow>
      int (length body) = len \<and> w_storage w' key = Some body"
    and object_get_state: "run_state (storage_GetObject storage key) w = (rg, w') \<Longrightarrow> \<exists>fs. w' = w\<lparr>w_faults := fs\<rparr>"
    and object_get_sound: "run_state (storage_GetObject storage key) w = (Inr s, w') \<Longrightarrow> w_storage w key = Some s"
begin

lemma put_tables:
  assumes "run_state (storage_PutObject storage key body len) w = (ru, w')"
  shows "w_objects w' = w_objects w \<and> w_policies w' = w_policies w \<and> w_redis w' = w_redis w \<and>
    w_now w' = w_now w \<and> w_policy_seq w' = w_policy_seq w \<and> (\<forall>k. k \<noteq> key \<longrightarrow> w_storage w' k = w_storage w k)"
  using put_state [OF assms] by auto

end

end
