(* ===== verification/Postgres.thy ===== *)
theory Postgres
  imports Ports "HOL-Library.List_Lexorder" "HOL-Library.Char_ord"
begin

text \<open>
  \<^verbatim>\<open>internal/infrastructure/postgres\<close>: the SQL statements of the three DAOs as operations on the
  tables of \<^verbatim>\<open>migrations/\<close> (primary keys, the foreign key of the policy table, the lengths of the
  \<^verbatim>\<open>VARCHAR\<close> columns, serial numbers, microsecond timestamps), the DAOs, and the repositories over
  them.  \<^verbatim>\<open>ORDER BY\<close> is byte order, the C collation.  The section ends with the metadata
  repository as an interpretation of the contract of \<open>Ports\<close>.
\<close>

section \<open>SQL statements\<close>

definition pg_timestamp :: "instant \<Rightarrow> instant" where
  "pg_timestamp t = 1000 * (t div 1000)"

definition pg_error :: "string \<Rightarrow> gerror" where
  "pg_error sqlstate = Extern (OtherExtern sqlstate)"

definition sql_select_object :: "string \<Rightarrow> LFSObjectRow io" where
  "sql_select_object oid = external (\<lambda>w. case w_objects w oid of
     None \<Rightarrow> (Inl (Extern PgxErrNoRows), w)
   | Some row \<Rightarrow> (Inr row, w))"

definition insert_object :: "LFSObjectRow \<Rightarrow> world \<Rightarrow> (gerror + unit) \<times> world" where
  "insert_object row w =
     (if 64 < length (lr_OID row) \<or> 16 < length (lr_HashAlgo row) then (Inl (pg_error ''22001''), w)
      else if w_objects w (lr_OID row) \<noteq> None then (Inl (pg_error ''23505''), w)
      else (Inr (), w\<lparr>w_objects := (w_objects w)(lr_OID row \<mapsto>
        row\<lparr>lr_CreatedAt := pg_timestamp (lr_CreatedAt row), lr_UpdatedAt := pg_timestamp (lr_UpdatedAt row)\<rparr>)\<rparr>))"

definition sql_insert_object :: "LFSObjectRow \<Rightarrow> unit io" where
  "sql_insert_object row = external (insert_object row)"

text \<open>The result of an \<^verbatim>\<open>UPDATE\<close> or \<^verbatim>\<open>DELETE\<close> is the number of rows affected.\<close>

definition update_object :: "LFSObjectRow \<Rightarrow> world \<Rightarrow> (gerror + nat) \<times> world" where
  "update_object row w = (case w_objects w (lr_OID row) of
     None \<Rightarrow> (Inr 0, w)
   | Some old \<Rightarrow>
      (if 16 < length (lr_HashAlgo row) then (Inl (pg_error ''22001''), w)
       else (Inr 1, w\<lparr>w_objects := (w_objects w)(lr_OID row \<mapsto>
         old\<lparr>lr_Size := lr_Size row, lr_HashAlgo := lr_HashAlgo row, lr_StorageKey := lr_StorageKey row,
           lr_Uploaded := lr_Uploaded row, lr_UpdatedAt := pg_timestamp (lr_UpdatedAt row)\<rparr>)\<rparr>)))"

definition sql_update_object :: "LFSObjectRow \<Rightarrow> nat io" where
  "sql_update_object row = external (update_object row)"

definition sql_object_exists :: "string \<Rightarrow> bool io" where
  "sql_object_exists oid = external (\<lambda>w. (Inr (w_objects w oid \<noteq> None), w))"

definition sql_select_policy :: "string \<Rightarrow> AccessPolicyRow io" where
  "sql_select_policy oid = external (\<lambda>w. case w_policies w oid of
     None \<Rightarrow> (Inl (Extern PgxErrNoRows), w)
   | Some row \<Rightarrow> (Inr row, w))"

text \<open>\<^verbatim>\<open>INSERT ... ON CONFLICT (lfs_object_oid) DO UPDATE SET repository\<close>: the conflicting row
  keeps its id and creation time.\<close>

definition upsert_policy :: "AccessPolicyRow \<Rightarrow> world \<Rightarrow> (gerror + unit) \<times> world" where
  "upsert_policy row w =
     (if 64 < length (pr_LfsObjectOid row) \<or> 255 < length (pr_Repository row) then (Inl (pg_error ''22001''), w)
      else (case w_policies w (pr_LfsObjectOid row) of
        Some old \<Rightarrow> (Inr (), w\<lparr>w_policies := (w_policies w)(pr_LfsObjectOid row \<mapsto>
            old\<lparr>pr_Repository := pr_Repository row\<rparr>), w_policy_seq := w_policy_seq w + 1\<rparr>)
      | None \<Rightarrow>
          (if w_objects w (pr_LfsObjectOid row) = None
           then (Inl (pg_error ''23503''), w\<lparr>w_policy_seq := w_policy_seq w + 1\<rparr>)
           else (Inr (), w\<lparr>w_policies := (w_policies w)(pr_LfsObjectOid row \<mapsto>
             \<lparr>pr_ID = w_policy_seq w + 1, pr_LfsObjectOid = pr_LfsObjectOid row,
               pr_Repository = pr_Repository row, pr_CreatedAt = pg_timestamp (pr_CreatedAt row)\<rparr>),
             w_policy_seq := w_policy_seq w + 1\<rparr>))))"

definition sql_upsert_policy :: "AccessPolicyRow \<Rightarrow> unit io" where
  "sql_upsert_policy row = external (upsert_policy row)"

definition sql_delete_policy :: "string \<Rightarrow> nat io" where
  "sql_delete_policy oid = external (\<lambda>w. case w_policies w oid of
     None \<Rightarrow> (Inr 0, w)
   | Some row \<Rightarrow> (Inr 1, w\<lparr>w_policies := (w_policies w)(oid := None)\<rparr>))"

definition sql_allowlist_exists :: "string \<Rightarrow> bool io" where
  "sql_allowlist_exists repository = external (\<lambda>w.
     (Inr (list_ex (\<lambda>row. al_Repository row = repository) (w_allowlist w)), w))"

definition insert_allowlist :: "string \<Rightarrow> world \<Rightarrow> (gerror + unit) \<times> world" where
  "insert_allowlist repository w =
     (if 255 < length repository then (Inl (pg_error ''22001''), w)
      else if list_ex (\<lambda>row. al_Repository row = repository) (w_allowlist w)
      then (Inr (), w\<lparr>w_allowlist_seq := w_allowlist_seq w + 1\<rparr>)
      else (Inr (), w\<lparr>w_allowlist := w_allowlist w @
          [\<lparr>al_ID = w_allowlist_seq w + 1, al_Repository = repository, al_CreatedAt = pg_timestamp (w_now w)\<rparr>],
        w_allowlist_seq := w_allowlist_seq w + 1\<rparr>))"

definition sql_insert_allowlist :: "string \<Rightarrow> unit io" where
  "sql_insert_allowlist repository = external (insert_allowlist repository)"

definition sql_delete_allowlist :: "string \<Rightarrow> nat io" where
  "sql_delete_allowlist repository = external (\<lambda>w.
     (Inr (length (filter (\<lambda>row. al_Repository row = repository) (w_allowlist w))),
      w\<lparr>w_allowlist := filter (\<lambda>row. al_Repository row \<noteq> repository) (w_allowlist w)\<rparr>))"

definition sql_select_allowlist :: "string list io" where
  "sql_select_allowlist = external (\<lambda>w. (Inr (sort (map al_Repository (w_allowlist w))), w))"

section \<open>DAOs\<close>

definition LFSObjectDAO_FindByOID :: "string \<Rightarrow> LFSObjectRow io" where
  "LFSObjectDAO_FindByOID oid = do {
     r \<leftarrow> sql_select_object oid;
     case r of
       Inl err \<Rightarrow>
         if errors_Is err (Extern PgxErrNoRows) then lift_result (Inl (Extern PgxErrNoRows))
         else lift_result (Inl err)
     | Inr row \<Rightarrow> lift_result (Inr row)
   }"

definition LFSObjectDAO_Insert :: "LFSObjectRow \<Rightarrow> unit io" where
  "LFSObjectDAO_Insert row = sql_insert_object row"

definition LFSObjectDAO_Update :: "LFSObjectRow \<Rightarrow> unit io" where
  "LFSObjectDAO_Update row = do {
     r \<leftarrow> sql_update_object row;
     case r of
       Inl err \<Rightarrow> lift_result (Inl err)
     | Inr affected \<Rightarrow>
         if affected = 0 then lift_result (Inl (Extern PgxErrNoRows)) else lift_result (Inr ())
   }"

definition LFSObjectDAO_Exists :: "string \<Rightarrow> bool io" where
  "LFSObjectDAO_Exists oid = sql_object_exists oid"

definition AccessPolicyDAO_FindByOID :: "string \<Rightarrow> AccessPolicyRow io" where
  "AccessPolicyDAO_FindByOID oid = do {
     r \<leftarrow> sql_select_policy oid;
     case r of
       Inl err \<Rightarrow>
         if errors_Is err (Extern PgxErrNoRows) then lift_result (Inl (Extern PgxErrNoRows))
         else lift_result (Inl err)
     | Inr row \<Rightarrow> lift_result (Inr row)
   }"

definition AccessPolicyDAO_Upsert :: "AccessPolicyRow \<Rightarrow> unit io" where
  "AccessPolicyDAO_Upsert row = sql_upsert_policy row"

definition AccessPolicyDAO_Delete :: "string \<Rightarrow> unit io" where
  "AccessPolicyDAO_Delete oid = do {
     r \<leftarrow> sql_delete_policy oid;
     case r of
       Inl err \<Rightarrow> lift_result (Inl err)
     | Inr affected \<Rightarrow>
         if affected = 0 then lift_result (Inl (Extern PgxErrNoRows)) else lift_result (Inr ())
   }"

definition RepositoryAllowlistDAO_Exists :: "string \<Rightarrow> bool io" where
  "RepositoryAllowlistDAO_Exists repository = sql_allowlist_exists repository"

definition RepositoryAllowlistDAO_Insert :: "string \<Rightarrow> unit io" where
  "RepositoryAllowlistDAO_Insert repository = sql_insert_allowlist repository"

definition RepositoryAllowlistDAO_Delete :: "string \<Rightarrow> unit io" where
  "RepositoryAllowlistDAO_Delete repository = do {
     r \<leftarrow> sql_delete_allowlist repository;
     case r of
       Inl err \<Rightarrow> lift_result (Inl err)
     | Inr affected \<Rightarrow>
         if affected = 0 then lift_result (Inl (Extern PgxErrNoRows)) else lift_result (Inr ())
   }"

definition RepositoryAllowlistDAO_FindAll :: "string list io" where
  "RepositoryAllowlistDAO_FindAll = sql_select_allowlist"

section \<open>Repositories\<close>

definition rowToDomain :: "LFSObjectRow \<Rightarrow> gerror + LFSObject" where
  "rowToDomain row = (case NewOID (lr_OID row) of
     Inl err \<Rightarrow> Inl err
   | Inr oid \<Rightarrow> (case NewSize (lr_Size row) of
       Inl err \<Rightarrow> Inl err
     | Inr sz \<Rightarrow> ReconstructLFSObject oid sz (lr_HashAlgo row) (lr_StorageKey row) (lr_Uploaded row)
         (lr_CreatedAt row) (lr_UpdatedAt row)))"

definition domainToRow :: "LFSObject \<Rightarrow> LFSObjectRow" where
  "domainToRow obj = \<lparr>lr_OID = OID_String (lo_oid obj), lr_Size = Size_Int64 (lo_size obj),
     lr_HashAlgo = LFSObject_HashAlgo obj, lr_StorageKey = GetStorageKey obj,
     lr_Uploaded = lo_uploaded obj, lr_CreatedAt = lo_createdAt obj, lr_UpdatedAt = lo_updatedAt obj\<rparr>"

definition pg_FindByOID :: "OID \<Rightarrow> LFSObject io" where
  "pg_FindByOID oid = do {
     r \<leftarrow> LFSObjectDAO_FindByOID (OID_String oid);
     case r of
       Inl err \<Rightarrow>
         if errors_Is err (Extern PgxErrNoRows) then lift_result (Inl (Domain ErrNotFound))
         else lift_result (Inl err)
     | Inr row \<Rightarrow> lift_result (rowToDomain row)
   }"

definition pg_Save :: "LFSObject \<Rightarrow> unit io" where
  "pg_Save obj = LFSObjectDAO_Insert (domainToRow obj)"

definition pg_Update :: "LFSObject \<Rightarrow> unit io" where
  "pg_Update obj = do {
     r \<leftarrow> LFSObjectDAO_Update (domainToRow obj);
     case r of
       Inl err \<Rightarrow>
         if errors_Is err (Extern PgxErrNoRows) then lift_result (Inl (Domain ErrNotFound))
         else lift_result (Inl err)
     | Inr u \<Rightarrow> lift_result (Inr ())
   }"

definition pg_ExistsByOID :: "OID \<Rightarrow> bool io" where
  "pg_ExistsByOID oid = LFSObjectDAO_Exists (OID_String oid)"

definition NewLFSObjectRepository :: LFSObjectRepository where
  "NewLFSObjectRepository = \<lparr>repo_FindByOID = pg_FindByOID, repo_Save = pg_Save,
     repo_Update = pg_Update, repo_ExistsByOID = pg_ExistsByOID\<rparr>"

definition rowToAccessPolicy :: "AccessPolicyRow \<Rightarrow> gerror + AccessPolicy" where
  "rowToAccessPolicy row = (case NewAccessPolicyID (pr_ID row) of
     Inl err \<Rightarrow> Inl err
   | Inr policyID \<Rightarrow> (case NewOID (pr_LfsObjectOid row) of
       Inl err \<Rightarrow> Inl err
     | Inr oid \<Rightarrow> (case NewRepositoryIdentifier (pr_Repository row) of
         Inl err \<Rightarrow> Inl err
       | Inr repo \<Rightarrow> Inr (NewAccessPolicy policyID oid (Some repo) (pr_CreatedAt row)))))"

text \<open>\<^verbatim>\<open>FullName\<close> on a nil repository is a nil dereference.\<close>

definition accessPolicyToRow :: "AccessPolicy \<Rightarrow> gerror + AccessPolicyRow" where
  "accessPolicyToRow policy = (case ap_repository policy of
     None \<Rightarrow> Inl (Panic ''nil RepositoryIdentifier'')
   | Some repo \<Rightarrow> Inr \<lparr>pr_ID = AccessPolicyID_Int64 (ap_id policy),
       pr_LfsObjectOid = OID_String (ap_oid policy), pr_Repository = FullName repo,
       pr_CreatedAt = ap_createdAt policy\<rparr>)"

definition pg_policy_FindByOID :: "OID \<Rightarrow> AccessPolicy option io" where
  "pg_policy_FindByOID oid = do {
     r \<leftarrow> AccessPolicyDAO_FindByOID (OID_String oid);
     case r of
       Inl err \<Rightarrow>
         if errors_Is err (Extern PgxErrNoRows) then lift_result (Inl (Domain ErrAccessPolicyNotFound))
         else lift_result (Inl err)
     | Inr row \<Rightarrow> lift_result (case rowToAccessPolicy row of Inl err \<Rightarrow> Inl err | Inr p \<Rightarrow> Inr (Some p))
   }"

definition pg_policy_Save :: "AccessPolicy \<Rightarrow> unit io" where
  "pg_policy_Save policy = (case accessPolicyToRow policy of
     Inl panic \<Rightarrow> lift_result (Inl panic)
   | Inr row \<Rightarrow> AccessPolicyDAO_Upsert row)"

definition pg_policy_Delete :: "OID \<Rightarrow> unit io" where
  "pg_policy_Delete oid = do {
     r \<leftarrow> AccessPolicyDAO_Delete (OID_String oid);
     case r of
       Inl err \<Rightarrow>
         if errors_Is err (Extern PgxErrNoRows) then lift_result (Inl (Domain ErrAccessPolicyNotFound))
         else lift_result (Inl err)
     | Inr u \<Rightarrow> lift_result (Inr ())
   }"

definition NewAccessPolicyRepository :: AccessPolicyRepository where
  "NewAccessPolicyRepository = \<lparr>policy_FindByOID = pg_policy_FindByOID, policy_Save = pg_policy_Save,
     policy_Delete = pg_policy_Delete\<rparr>"

definition pg_IsAllowed :: "AllowedRepository option \<Rightarrow> bool io" where
  "pg_IsAllowed repository = (case repository of
     None \<Rightarrow> lift_result (Inl (Plain ''repository is nil''))
   | Some r \<Rightarrow> RepositoryAllowlistDAO_Exists (AllowedRepository_String r))"

definition pg_Add :: "AllowedRepository option \<Rightarrow> unit io" where
  "pg_Add repository = (case repository of
     None \<Rightarrow> lift_result (Inl (Plain ''repository is nil''))
   | Some r \<Rightarrow> RepositoryAllowlistDAO_Insert (AllowedRepository_String r))"

definition pg_Remove :: "AllowedRepository option \<Rightarrow> unit io" where
  "pg_Remove repository = (case repository of
     None \<Rightarrow> lift_result (Inl (Plain ''repository is nil''))
   | Some rp \<Rightarrow> do {
       r \<leftarrow> RepositoryAllowlistDAO_Delete (AllowedRepository_String rp);
       case r of
         Inl err \<Rightarrow>
           if errors_Is err (Extern PgxErrNoRows) then lift_result (Inl InfraErrNotFound)
           else lift_result (Inl err)
       | Inr u \<Rightarrow> lift_result (Inr ())
     })"

fun parse_allowed :: "string list \<Rightarrow> gerror + AllowedRepository list" where
  "parse_allowed [] = Inr []"
| "parse_allowed (repoStr # rest) = (case NewAllowedRepositoryFromString repoStr of
     Inl err \<Rightarrow> Inl err
   | Inr repo \<Rightarrow> (case parse_allowed rest of Inl err \<Rightarrow> Inl err | Inr repos \<Rightarrow> Inr (repo # repos)))"

definition pg_List :: "AllowedRepository list io" where
  "pg_List = do {
     r \<leftarrow> RepositoryAllowlistDAO_FindAll;
     case r of
       Inl err \<Rightarrow> lift_result (Inl err)
     | Inr repoStrings \<Rightarrow> lift_result (parse_allowed repoStrings)
   }"

definition NewRepositoryAllowlistRepository :: RepositoryAllowlistRepository where
  "NewRepositoryAllowlistRepository = \<lparr>allowlist_IsAllowed = pg_IsAllowed, allowlist_Add = pg_Add,
     allowlist_Remove = pg_Remove, allowlist_List = pg_List\<rparr>"

section \<open>The metadata repository over Postgres keeps the contract\<close>

lemma rowToDomain_wf: "wf_row row \<Longrightarrow> rowToDomain row = Inr (row_object row)"
  by (simp add: wf_row_def rowToDomain_def NewOID_def NewSize_def ReconstructLFSObject_def
      NewHashAlgorithm_def NewStorageKey_def allowedHashAlgorithms_def row_object_def)

lemma row_object_domainToRow:
  "same_state (row_object (domainToRow obj\<lparr>lr_CreatedAt := c, lr_UpdatedAt := u\<rparr>)) obj"
  by (cases "lo_oid obj"; cases "lo_size obj"; cases "lo_hashAlgo obj"; cases "lo_storageKey obj"; cases obj)
    (simp add: row_object_def domainToRow_def getter_simps same_state_def same_object_def)

lemma wf_row_domainToRow:
  "wf_object obj \<Longrightarrow> wf_row (domainToRow obj\<lparr>lr_CreatedAt := c, lr_UpdatedAt := u\<rparr>)"
  by (simp add: wf_object_def wf_row_def domainToRow_def getter_simps)

lemma domainToRow_OID [simp]: "lr_OID (domainToRow obj) = OID_String (lo_oid obj)"
  by (simp add: domainToRow_def)

lemma pg_FindByOID_run:
  assumes "wf_objects w" and "run_state (pg_FindByOID oid) w = (r, w')"
  shows "\<exists>fs. w' = w\<lparr>w_faults := fs\<rparr> \<and>
    ((\<exists>obj. r = Inr obj \<and> stored w oid = Some obj) \<or>
     (r = Inl (Domain ErrNotFound) \<and> stored w oid = None) \<or> (\<exists>f. r = Inl (ext_gerror f)))"
proof -
  obtain q w1 where q: "run_state (sql_select_object (OID_String oid)) w = (q, w1)" by fastforce
  from q show ?thesis unfolding sql_select_object_def
  proof (cases rule: external_cases)
    case (ran fs)
    show ?thesis
    proof (cases "w_objects w (OID_String oid)")
      case None
      with ran assms(2) q show ?thesis
        by (auto simp: pg_FindByOID_def LFSObjectDAO_FindByOID_def stored_def)
    next
      case (Some row)
      with assms(1) have "wf_row row" by (auto simp: wf_objects_def)
      with Some ran assms(2) q show ?thesis
        by (auto simp: pg_FindByOID_def LFSObjectDAO_FindByOID_def stored_def rowToDomain_wf)
    qed
  next
    case (lost e fs)
    with assms(2) q show ?thesis
      by (auto simp: pg_FindByOID_def LFSObjectDAO_FindByOID_def)
  next
    case (unacked e fs)
    then have "w1 = w\<lparr>w_faults := fs\<rparr>" by (auto split: option.splits)
    with unacked assms(2) q show ?thesis
      by (auto simp: pg_FindByOID_def LFSObjectDAO_FindByOID_def)
  qed
qed

text \<open>The effect of the two writing statements on the table, for the rows the repository builds.\<close>

definition only_table :: "world \<Rightarrow> world \<Rightarrow> bool" where
  "only_table w w' \<longleftrightarrow> same_elsewhere w w' \<and> w_redis w' = w_redis w"

lemma only_table_faults [simp]:
  "only_table w (w'\<lparr>w_faults := fs\<rparr>) = only_table w w'"
  "only_table (w\<lparr>w_faults := fs\<rparr>) w' = only_table w w'"
  by (simp_all add: only_table_def)

lemma only_table_refl [simp]: "only_table w w"
  by (simp add: only_table_def)

lemma stored_update_row:
  "stored (w\<lparr>w_objects := (w_objects w)(OID_String oid \<mapsto> row)\<rparr>) k =
     (if k = oid then Some (row_object row) else stored w k)"
  by (simp add: stored_def)

lemma insert_object_new:
  assumes wf: "wf_objects w" and obj: "wf_object obj"
    and run: "insert_object (domainToRow obj) w = (Inr (), w')"
  shows "wf_objects w' \<and> only_table w w' \<and> stored w (lo_oid obj) = None \<and>
    (\<exists>d. same_state d obj \<and> stored w' = (stored w)(lo_oid obj \<mapsto> d))"
proof -
  define c u where "c = pg_timestamp (lo_createdAt obj)" and "u = pg_timestamp (lo_updatedAt obj)"
  let ?row = "domainToRow obj\<lparr>lr_CreatedAt := c, lr_UpdatedAt := u\<rparr>"
  have none: "w_objects w (OID_String (lo_oid obj)) = None"
    and w': "w' = w\<lparr>w_objects := (w_objects w)(OID_String (lo_oid obj) \<mapsto> ?row)\<rparr>"
    using run by (auto simp: insert_object_def c_def u_def domainToRow_def split: if_splits)
  have "wf_row ?row" using obj by (rule wf_row_domainToRow)
  then have "wf_objects w'" using wf by (auto simp: wf_objects_def w')
  moreover have "only_table w w'" by (simp add: w' only_table_def same_elsewhere_def)
  moreover have "stored w (lo_oid obj) = None" using none by (simp add: stored_def)
  moreover have "stored w' = (stored w)(lo_oid obj \<mapsto> row_object ?row)"
    by (rule ext) (simp add: w' stored_update_row)
  ultimately show ?thesis using row_object_domainToRow by blast
qed

lemma insert_object_refused: "insert_object row w = (Inl e, w') \<Longrightarrow> w' = w"
  by (auto simp: insert_object_def split: if_splits)

lemma update_object_run:
  assumes wf: "wf_objects w" and obj: "ahead w obj"
    and run: "update_object (domainToRow obj) w = (r, w')"
  shows "r = Inr 1 \<and> wf_objects w' \<and> only_table w w' \<and>
    (\<exists>d. same_state d obj \<and> stored w' = (stored w)(lo_oid obj \<mapsto> d))"
proof -
  from obj obtain d where d: "stored w (lo_oid obj) = Some d" "same_object obj d"
    by (auto simp: ahead_def)
  then obtain old where old: "w_objects w (OID_String (lo_oid obj)) = Some old" and dr: "d = row_object old"
    by (auto simp: stored_def)
  from wf old have wfo: "wf_row old" and oid: "lr_OID old = OID_String (lo_oid obj)"
    by (auto simp: wf_objects_def)
  have hash: "lr_HashAlgo (domainToRow obj) = ''sha256''"
    using d(2) dr wfo by (simp add: domainToRow_def getter_simps same_object_def row_object_def wf_row_def)
  define u where "u = pg_timestamp (lo_updatedAt obj)"
  let ?row = "domainToRow obj\<lparr>lr_CreatedAt := lr_CreatedAt old, lr_UpdatedAt := u\<rparr>"
  have row: "old\<lparr>lr_Size := lr_Size (domainToRow obj), lr_HashAlgo := lr_HashAlgo (domainToRow obj),
      lr_StorageKey := lr_StorageKey (domainToRow obj), lr_Uploaded := lr_Uploaded (domainToRow obj),
      lr_UpdatedAt := u\<rparr> = ?row"
    using oid by (cases old) (simp add: domainToRow_def)
  have short: "\<not> 16 < length (lr_HashAlgo (domainToRow obj))" using hash by simp
  have u': "pg_timestamp (lr_UpdatedAt (domainToRow obj)) = u" by (simp add: u_def domainToRow_def)
  have r: "r = Inr 1" and w': "w' = w\<lparr>w_objects := (w_objects w)(OID_String (lo_oid obj) \<mapsto> ?row)\<rparr>"
    using run old short by (simp_all add: update_object_def row u')
  have "wf_object obj"
    using d(2) dr wfo oid by (auto simp: wf_object_def same_object_def row_object_def wf_row_def)
  then have "wf_row ?row" by (rule wf_row_domainToRow)
  then have "wf_objects w'" using wf by (auto simp: wf_objects_def w')
  moreover have "only_table w w'" by (simp add: w' only_table_def same_elsewhere_def)
  moreover have "stored w' = (stored w)(lo_oid obj \<mapsto> row_object ?row)"
    by (rule ext) (simp add: w' stored_update_row)
  ultimately show ?thesis using r row_object_domainToRow by blast
qed

lemma pg_Save_run:
  assumes wf: "wf_objects w" and obj: "wf_object obj" and run: "run_state (pg_Save obj) w = (r, w')"
  shows "wf_objects w' \<and> only_table w w' \<and>
    (stored w' = stored w \<and> r \<noteq> Inr () \<or>
     stored w (lo_oid obj) = None \<and>
     (\<exists>d. same_state d obj \<and> stored w' = (stored w)(lo_oid obj \<mapsto> d)))"
proof -
  have new: "wf_objects v' \<and> only_table w v' \<and> stored w (lo_oid obj) = None \<and>
      (\<exists>d. same_state d obj \<and> stored v' = (stored w)(lo_oid obj \<mapsto> d))"
    if "insert_object (domainToRow obj) (w\<lparr>w_faults := fs\<rparr>) = (Inr (), v')" for fs v'
    using insert_object_new [OF _ obj that] wf by auto
  have old: "wf_objects v' \<and> only_table w v' \<and> stored v' = stored w"
    if "insert_object (domainToRow obj) (w\<lparr>w_faults := fs\<rparr>) = (Inl e, v')" for fs e v'
    using insert_object_refused [OF that] wf by auto
  from run show ?thesis unfolding pg_Save_def LFSObjectDAO_Insert_def sql_insert_object_def
  proof (cases rule: external_cases)
    case (ran fs)
    then show ?thesis using new old by (cases r) auto
  next
    case (lost e fs)
    then show ?thesis using wf by auto
  next
    case (unacked e fs)
    obtain q v' where q: "insert_object (domainToRow obj) (w\<lparr>w_faults := fs\<rparr>) = (q, v')" by fastforce
    with unacked have "w' = v'" by simp
    with q unacked new old show ?thesis by (cases q) auto
  qed
qed

lemma pg_Update_run:
  assumes wf: "wf_objects w" and obj: "ahead w obj" and run: "run_state (pg_Update obj) w = (r, w')"
  shows "wf_objects w' \<and> only_table w w' \<and>
    (stored w' = stored w \<and> r \<noteq> Inr () \<or>
     (\<exists>d. same_state d obj \<and> stored w' = (stored w)(lo_oid obj \<mapsto> d)))"
proof -
  have ahead': "ahead (w\<lparr>w_faults := fs\<rparr>) obj" for fs using obj by (simp add: ahead_def)
  have upd: "q = Inr 1 \<and> wf_objects v' \<and> only_table w v' \<and>
      (\<exists>d. same_state d obj \<and> stored v' = (stored w)(lo_oid obj \<mapsto> d))"
    if "update_object (domainToRow obj) (w\<lparr>w_faults := fs\<rparr>) = (q, v')" for fs q v'
    using update_object_run [OF _ ahead' that] wf by auto
  obtain q w1 where q: "run_state (sql_update_object (domainToRow obj)) w = (q, w1)" by fastforce
  with run have w1: "w1 = w'"
    by (auto simp: pg_Update_def LFSObjectDAO_Update_def split: sum.splits if_splits)
  from q show ?thesis unfolding sql_update_object_def
  proof (cases rule: external_cases)
    case (ran fs)
    then show ?thesis using upd w1 by blast
  next
    case (lost e fs)
    with run q have "r \<noteq> Inr ()" by (auto simp: pg_Update_def LFSObjectDAO_Update_def)
    then show ?thesis using lost w1 wf by auto
  next
    case (unacked e fs)
    obtain p v' where p: "update_object (domainToRow obj) (w\<lparr>w_faults := fs\<rparr>) = (p, v')" by fastforce
    with unacked w1 have "w' = v'" by simp
    with p upd show ?thesis by blast
  qed
qed

lemma same_state_ahead:
  "same_state d obj \<Longrightarrow> same_object d obj" "same_state d obj \<Longrightarrow> lo_uploaded d = lo_uploaded obj"
  by (simp_all add: same_state_def)

interpretation pg_objects: lfs_object_repository NewLFSObjectRepository wf_objects
proof unfold_locales
  fix w oid rf w'
  assume "wf_objects w" and "run_state (repo_FindByOID NewLFSObjectRepository oid) w = (rf, w')"
  then obtain fs where "w' = w\<lparr>w_faults := fs\<rparr>"
    using pg_FindByOID_run by (force simp: NewLFSObjectRepository_def)
  then show "wf_objects w' \<and> same_elsewhere w w' \<and> stored w' = stored w"
    using \<open>wf_objects w\<close> by simp
next
  fix w oid obj w'
  assume wf: "wf_objects w" and run: "run_state (repo_FindByOID NewLFSObjectRepository oid) w = (Inr obj, w')"
  from run have "run_state (pg_FindByOID oid) w = (Inr obj, w')" by (simp add: NewLFSObjectRepository_def)
  with wf have st: "stored w oid = Some obj" using pg_FindByOID_run by blast
  then obtain row where row: "w_objects w (OID_String oid) = Some row" "obj = row_object row"
    by (auto simp: stored_def)
  with wf have "lo_oid obj = oid" by (cases oid) (auto simp: wf_objects_def row_object_def)
  with st show "lo_oid obj = oid \<and> behind w obj" by (simp add: behind_def)
next
  fix w oid e w'
  assume "wf_objects w" and "run_state (repo_FindByOID NewLFSObjectRepository oid) w = (Inl e, w')"
    and e: "errors_Is e (Domain ErrNotFound)"
  then have "(e = Domain ErrNotFound \<and> stored w oid = None) \<or> (\<exists>f. e = ext_gerror f)"
    using pg_FindByOID_run by (force simp: NewLFSObjectRepository_def)
  with e show "stored w oid = None" by auto
next
  fix w obj ru w'
  assume "wf_objects w" "wf_object obj" "run_state (repo_Save NewLFSObjectRepository obj) w = (ru, w')"
  then show "wf_objects w' \<and> same_elsewhere w w' \<and> table_write obj w w' \<and>
      (stored w (lo_oid obj) \<noteq> None \<longrightarrow> stored w' = stored w)"
    using pg_Save_run [of w obj ru w'] by (auto simp: NewLFSObjectRepository_def only_table_def table_write_def)
next
  fix w obj w'
  assume "wf_objects w" "wf_object obj" "run_state (repo_Save NewLFSObjectRepository obj) w = (Inr (), w')"
  then show "stored w (lo_oid obj) = None \<and> (\<exists>d. stored w' (lo_oid obj) = Some d \<and> same_state d obj)"
    using pg_Save_run by (fastforce simp: NewLFSObjectRepository_def)
next
  fix w obj ru w'
  assume "wf_objects w" "ahead w obj" "run_state (repo_Update NewLFSObjectRepository obj) w = (ru, w')"
  then show "wf_objects w' \<and> same_elsewhere w w' \<and> table_write obj w w'"
    using pg_Update_run [of w obj ru w'] by (auto simp: NewLFSObjectRepository_def only_table_def table_write_def)
next
  fix w obj w'
  assume "wf_objects w" "ahead w obj" "run_state (repo_Update NewLFSObjectRepository obj) w = (Inr (), w')"
  then show "\<exists>d. stored w' (lo_oid obj) = Some d \<and> same_state d obj"
    using pg_Update_run by (fastforce simp: NewLFSObjectRepository_def)
qed

section \<open>The policy repository over Postgres keeps the contract\<close>

lemma rowToAccessPolicy_wf:
  assumes "wf_policy_row row"
  shows "\<exists>ri p. NewRepositoryIdentifier (pr_Repository row) = Inr ri \<and> rowToAccessPolicy row = Inr p \<and>
    ap_repository p = Some ri"
  using assms
  by (auto simp: wf_policy_row_def rowToAccessPolicy_def NewAccessPolicyID_def NewOID_def
      NewRepositoryIdentifier_FullName NewAccessPolicy_def)

lemma pg_policy_FindByOID_run:
  assumes "wf_policies w" and "run_state (pg_policy_FindByOID oid) w = (r, w')"
  shows "\<exists>fs. w' = w\<lparr>w_faults := fs\<rparr> \<and>
    ((\<exists>p. r = Inr (Some p) \<and> ap_repository p = owner_of w oid \<and> owner_of w oid \<noteq> None) \<or>
     (r = Inl (Domain ErrAccessPolicyNotFound) \<and> owner_of w oid = None) \<or> (\<exists>f. r = Inl (ext_gerror f)))"
proof -
  obtain q w1 where q: "run_state (sql_select_policy (OID_String oid)) w = (q, w1)" by fastforce
  from q show ?thesis unfolding sql_select_policy_def
  proof (cases rule: external_cases)
    case (ran fs)
    show ?thesis
    proof (cases "w_policies w (OID_String oid)")
      case None
      with ran assms(2) q show ?thesis
        by (auto simp: pg_policy_FindByOID_def AccessPolicyDAO_FindByOID_def owner_of_def)
    next
      case (Some row)
      with assms(1) have "wf_policy_row row" by (auto simp: wf_policies_def)
      from rowToAccessPolicy_wf [OF this] Some ran assms(2) q show ?thesis
        by (auto simp: pg_policy_FindByOID_def AccessPolicyDAO_FindByOID_def owner_of_def)
    qed
  next
    case (lost e fs)
    with assms(2) q show ?thesis
      by (auto simp: pg_policy_FindByOID_def AccessPolicyDAO_FindByOID_def)
  next
    case (unacked e fs)
    then have "w1 = w\<lparr>w_faults := fs\<rparr>" by (auto split: option.splits)
    with unacked assms(2) q show ?thesis
      by (auto simp: pg_policy_FindByOID_def AccessPolicyDAO_FindByOID_def)
  qed
qed

lemma wf_policies_write:
  assumes "wf_policies w" and "wf_policy_row row" and "pr_LfsObjectOid row = k" and "w_objects w k \<noteq> None"
    and "0 \<le> s"
  shows "wf_policies (w\<lparr>w_policies := (w_policies w)(k \<mapsto> row), w_policy_seq := s\<rparr>)"
  using assms unfolding wf_policies_def by auto

lemma owner_write:
  assumes "pr_Repository row = FullName ri" and "valid_repository ri"
  shows "owner_of (w\<lparr>w_policies := (w_policies w)(OID_String oid \<mapsto> row), w_policy_seq := s\<rparr>) = (owner_of w)(oid \<mapsto> ri)"
  using assms by (auto simp: owner_of_def fun_eq_iff NewRepositoryIdentifier_FullName)

lemma upsert_policy_run:
  assumes wf: "wf_policies w" and row: "pr_LfsObjectOid row = OID_String oid" "oidPattern (OID_String oid)"
    "pr_Repository row = FullName ri" "valid_repository ri"
    and run: "upsert_policy row w = (r, w')"
  shows "wf_policies w' \<and> same_metadata w w' \<and>
    (owner_of w' = owner_of w \<and> r \<noteq> Inr () \<or> owner_of w' = (owner_of w)(oid \<mapsto> ri))"
proof -
  have seq: "0 \<le> w_policy_seq w" using wf by (simp add: wf_policies_def)
  then have bump: "wf_policies (w\<lparr>w_policy_seq := w_policy_seq w + 1\<rparr>)"
    "owner_of (w\<lparr>w_policy_seq := w_policy_seq w + 1\<rparr>) = owner_of w"
    using wf by (auto simp: wf_policies_def owner_of_def)
  show ?thesis
  proof (cases "w_policies w (OID_String oid)")
    case None
    define new where "new = \<lparr>pr_ID = w_policy_seq w + 1, pr_LfsObjectOid = OID_String oid,
      pr_Repository = FullName ri, pr_CreatedAt = pg_timestamp (pr_CreatedAt row)\<rparr>"
    have "wf_policy_row new" using row seq by (auto simp: new_def wf_policy_row_def)
    with None run row wf seq show ?thesis
      by (auto simp: upsert_policy_def new_def [symmetric] same_metadata_def bump
          intro!: wf_policies_write owner_write split: if_splits) (auto simp: new_def)
  next
    case (Some old)
    define new where "new = old\<lparr>pr_Repository := FullName ri\<rparr>"
    have "wf_policy_row old" "pr_LfsObjectOid old = OID_String oid" "w_objects w (OID_String oid) \<noteq> None"
      using wf Some by (auto simp: wf_policies_def)
    then have "wf_policy_row new" "pr_LfsObjectOid new = OID_String oid"
      using row by (auto simp: new_def wf_policy_row_def)
    with Some run row wf seq \<open>w_objects w (OID_String oid) \<noteq> None\<close> show ?thesis
      by (auto simp: upsert_policy_def new_def [symmetric] same_metadata_def
          intro!: wf_policies_write owner_write split: if_splits) (auto simp: new_def)
  qed
qed

lemma pg_policy_Save_run:
  assumes wf: "wf_policies w" and p: "ap_repository p = Some ri" "valid_repository ri"
    "oidPattern (OID_String (ap_oid p))" and run: "run_state (pg_policy_Save p) w = (r, w')"
  shows "wf_policies w' \<and> same_metadata w w' \<and>
    (owner_of w' = owner_of w \<and> r \<noteq> Inr () \<or> owner_of w' = (owner_of w)(ap_oid p \<mapsto> ri))"
proof -
  define row where "row = \<lparr>pr_ID = AccessPolicyID_Int64 (ap_id p), pr_LfsObjectOid = OID_String (ap_oid p),
    pr_Repository = FullName ri, pr_CreatedAt = ap_createdAt p\<rparr>"
  have ups: "wf_policies v' \<and> same_metadata w v' \<and>
      (owner_of v' = owner_of w \<and> q \<noteq> Inr () \<or> owner_of v' = (owner_of w)(ap_oid p \<mapsto> ri))"
    if "upsert_policy row (w\<lparr>w_faults := fs\<rparr>) = (q, v')" for fs q v'
    using upsert_policy_run [OF _ _ p(3) _ p(2) that] wf by (simp add: row_def)
  from run have "run_state (external (upsert_policy row)) w = (r, w')"
    by (simp add: pg_policy_Save_def accessPolicyToRow_def p AccessPolicyDAO_Upsert_def
        sql_upsert_policy_def row_def)
  then show ?thesis
  proof (cases rule: external_cases)
    case (ran fs)
    then show ?thesis using ups by blast
  next
    case (lost e fs)
    then show ?thesis using wf by simp
  next
    case (unacked e fs)
    obtain q v' where "upsert_policy row (w\<lparr>w_faults := fs\<rparr>) = (q, v')" by fastforce
    with unacked ups show ?thesis by auto
  qed
qed

interpretation pg_policies: access_policy_repository NewAccessPolicyRepository wf_policies
proof unfold_locales
  fix w oid rf w'
  assume "wf_policies w" "run_state (policy_FindByOID NewAccessPolicyRepository oid) w = (rf, w')"
  then obtain fs where "w' = w\<lparr>w_faults := fs\<rparr>"
    using pg_policy_FindByOID_run by (force simp: NewAccessPolicyRepository_def)
  then show "wf_policies w' \<and> same_metadata w w' \<and> owner_of w' = owner_of w"
    using \<open>wf_policies w\<close> by simp
next
  fix w oid p w'
  assume "wf_policies w" "run_state (policy_FindByOID NewAccessPolicyRepository oid) w = (Inr (Some p), w')"
  then show "ap_repository p = owner_of w oid \<and> owner_of w oid \<noteq> None"
    using pg_policy_FindByOID_run by (force simp: NewAccessPolicyRepository_def)
next
  fix w oid w'
  assume "wf_policies w" "run_state (policy_FindByOID NewAccessPolicyRepository oid) w = (Inr None, w')"
  then show "owner_of w oid = None"
    using pg_policy_FindByOID_run by (force simp: NewAccessPolicyRepository_def)
next
  fix w oid e w'
  assume "wf_policies w" "run_state (policy_FindByOID NewAccessPolicyRepository oid) w = (Inl e, w')"
    and e: "errors_Is e (Domain ErrAccessPolicyNotFound)"
  then have "(e = Domain ErrAccessPolicyNotFound \<and> owner_of w oid = None) \<or> (\<exists>f. e = ext_gerror f)"
    using pg_policy_FindByOID_run by (force simp: NewAccessPolicyRepository_def)
  with e show "owner_of w oid = None" by auto
next
  fix w p ri ru w'
  assume "wf_policies w" "ap_repository p = Some ri" "valid_repository ri"
    "oidPattern (OID_String (ap_oid p))" "run_state (policy_Save NewAccessPolicyRepository p) w = (ru, w')"
  then show "wf_policies w' \<and> same_metadata w w' \<and> (owner_of w' = owner_of w \<or> owner_of w' = (owner_of w)(ap_oid p \<mapsto> ri))"
    using pg_policy_Save_run by (fastforce simp: NewAccessPolicyRepository_def)
next
  fix w p ri w'
  assume "wf_policies w" "ap_repository p = Some ri" "valid_repository ri"
    "oidPattern (OID_String (ap_oid p))" "run_state (policy_Save NewAccessPolicyRepository p) w = (Inr (), w')"
  then show "owner_of w' = (owner_of w)(ap_oid p \<mapsto> ri)"
    using pg_policy_Save_run by (fastforce simp: NewAccessPolicyRepository_def)
qed

end
