(* ===== verification/Authorization.thy ===== *)
theory Authorization
  imports Postgres
begin

text \<open>
  Who may touch an object: \<^verbatim>\<open>access_authorization_service_impl.go\<close> and the helper
  \<^verbatim>\<open>CheckAuthorization\<close> of the use cases.  The abstract rule is \<open>may_access\<close>: the repository that
  owns the object, or, for an upload, any repository while nobody owns it.  The lemmas of the
  policy contract say that the code decides exactly that, unless the policy store fails.
\<close>

record AuthorizationResult =
  auth_Allowed :: bool
  auth_IsNewObject :: bool

record AccessAuthorizationService =
  auth_CanAccess :: "RepositoryIdentifier option \<Rightarrow> OID \<Rightarrow> bool io"
  auth_Authorize :: "Operation \<Rightarrow> RepositoryIdentifier option \<Rightarrow> OID \<Rightarrow> AuthorizationResult io"

definition CanAccess :: "AccessPolicyRepository \<Rightarrow> RepositoryIdentifier option \<Rightarrow> OID \<Rightarrow> bool io" where
  "CanAccess policyRepo userRepo oid =
     (if userRepo = None then lift_result (Inl (Domain ErrInvalidRepositoryIdentifier))
      else do {
        r \<leftarrow> policy_FindByOID policyRepo oid;
        case r of
          Inl err \<Rightarrow> lift_result (Inl err)
        | Inr None \<Rightarrow> lift_result (Inl (Domain ErrAccessPolicyNotFound))
        | Inr (Some policy) \<Rightarrow> lift_result (Inr (RepositoryIdentifier_Equals userRepo (ap_repository policy)))
      })"

definition Authorize ::
  "AccessPolicyRepository \<Rightarrow> Operation \<Rightarrow> RepositoryIdentifier option \<Rightarrow> OID \<Rightarrow> AuthorizationResult io" where
  "Authorize policyRepo operation userRepo oid =
     (if userRepo = None then lift_result (Inl (Domain ErrInvalidRepositoryIdentifier))
      else do {
        r \<leftarrow> policy_FindByOID policyRepo oid;
        case (case r of
            Inl err \<Rightarrow> if errors_Is err (Domain ErrAccessPolicyNotFound) then Inr None else Inl err
          | Inr policy \<Rightarrow> Inr policy) of
          Inl err \<Rightarrow> lift_result (Inl err)
        | Inr None \<Rightarrow>
            if operation = OperationUpload
            then lift_result (Inr \<lparr>auth_Allowed = True, auth_IsNewObject = True\<rparr>)
            else lift_result (Inl (Domain ErrAuthorizationDenied))
        | Inr (Some policy) \<Rightarrow>
            if \<not> RepositoryIdentifier_Equals userRepo (ap_repository policy)
            then lift_result (Inl (Domain ErrAuthorizationDenied))
            else lift_result (Inr \<lparr>auth_Allowed = True, auth_IsNewObject = False\<rparr>)
      })"

definition NewAccessAuthorizationService :: "AccessPolicyRepository \<Rightarrow> AccessAuthorizationService" where
  "NewAccessAuthorizationService policyRepo =
     \<lparr>auth_CanAccess = CanAccess policyRepo, auth_Authorize = Authorize policyRepo\<rparr>"

definition CheckAuthorization ::
  "AccessAuthorizationService \<Rightarrow> Operation \<Rightarrow> RepositoryIdentifier option \<Rightarrow> OID \<Rightarrow> AuthorizationResult io" where
  "CheckAuthorization authService oper userRepo oid = do {
     r \<leftarrow> auth_Authorize authService oper userRepo oid;
     case r of
       Inl err \<Rightarrow>
         if errors_Is err (Domain ErrAuthorizationDenied) \<or> errors_Is err (Domain ErrInvalidRepositoryIdentifier)
         then lift_result (Inl (Usecase UErrAccessDenied))
         else lift_result (Inl (Wrap err))
     | Inr result \<Rightarrow> lift_result (Inr result)
   }"

section \<open>The rule\<close>

definition may_access :: "world \<Rightarrow> Operation \<Rightarrow> RepositoryIdentifier \<Rightarrow> OID \<Rightarrow> bool" where
  "may_access w oper ri oid \<longleftrightarrow>
     owner_of w oid = Some ri \<or> (owner_of w oid = None \<and> oper = OperationUpload)"

text \<open>The answer as a function of what the policy lookup returned.\<close>

definition authorize_answer ::
  "Operation \<Rightarrow> RepositoryIdentifier \<Rightarrow> gerror + AccessPolicy option \<Rightarrow> gerror + AuthorizationResult" where
  "authorize_answer oper ri q = (case (case q of
            Inl err \<Rightarrow> if errors_Is err (Domain ErrAccessPolicyNotFound) then Inr None else Inl err
          | Inr policy \<Rightarrow> Inr policy) of
          Inl err \<Rightarrow> Inl err
        | Inr None \<Rightarrow>
            if oper = OperationUpload then Inr \<lparr>auth_Allowed = True, auth_IsNewObject = True\<rparr>
            else Inl (Domain ErrAuthorizationDenied)
        | Inr (Some policy) \<Rightarrow>
            if \<not> RepositoryIdentifier_Equals (Some ri) (ap_repository policy) then Inl (Domain ErrAuthorizationDenied)
            else Inr \<lparr>auth_Allowed = True, auth_IsNewObject = False\<rparr>)"

context access_policy_repository
begin

lemma Authorize_find:
  assumes "run_state (Authorize repo oper (Some ri) oid) w = (r, w')"
  obtains q where "run_state (policy_FindByOID repo oid) w = (q, w')"
    and "r = authorize_answer oper ri q"
proof -
  obtain q v where q: "run_state (policy_FindByOID repo oid) w = (q, v)" by fastforce
  with assms show thesis
    by (intro that [of q]) (auto simp: Authorize_def authorize_answer_def split: sum.splits option.splits if_splits)
qed

lemma Authorize_state:
  assumes "good w" and "run_state (Authorize repo oper ou oid) w = (r, w')"
  shows "good w' \<and> same_metadata w w' \<and> owner_of w' = owner_of w"
proof (cases ou)
  case None
  then show ?thesis using assms by (simp add: Authorize_def)
next
  case (Some ri)
  with assms(2) obtain q where "run_state (policy_FindByOID repo oid) w = (q, w')" by (auto elim: Authorize_find)
  from pfind_state [OF assms(1) this] show ?thesis .
qed

text \<open>A granted access is one the rule allows, and the result says whether the object is unowned.\<close>

lemma Authorize_sound:
  assumes good: "good w" and run: "run_state (Authorize repo oper (Some ri) oid) w = (Inr res, w')"
  shows "may_access w oper ri oid \<and> auth_Allowed res \<and> (auth_IsNewObject res \<longleftrightarrow> owner_of w oid = None)"
proof -
  from run obtain q where q: "run_state (policy_FindByOID repo oid) w = (q, w')"
    and r: "Inr res = authorize_answer oper ri q"
    by (rule Authorize_find)
  show ?thesis
  proof (cases q)
    case (Inl e)
    with r have "errors_Is e (Domain ErrAccessPolicyNotFound)" by (auto simp: authorize_answer_def split: if_splits)
    with pfind_missing [OF good, of oid e w'] q Inl have "owner_of w oid = None" by blast
    with r Inl show ?thesis by (auto simp: may_access_def authorize_answer_def split: if_splits)
  next
    case (Inr p)
    show ?thesis
    proof (cases p)
      case None
      with pfind_nil [OF good, of oid w'] q Inr have "owner_of w oid = None" by blast
      with r Inr None show ?thesis by (auto simp: may_access_def authorize_answer_def split: if_splits)
    next
      case (Some pol)
      with pfind_sound [OF good, of oid pol w'] q Inr have "ap_repository pol = owner_of w oid" "owner_of w oid \<noteq> None"
        by auto
      with r Inr Some show ?thesis by (auto simp: may_access_def authorize_answer_def split: if_splits)
    qed
  qed
qed

text \<open>A refusal as denied is one the rule refuses.\<close>

lemma Authorize_denied:
  assumes good: "good w" and run: "run_state (Authorize repo oper (Some ri) oid) w = (Inl (Domain ErrAuthorizationDenied), w')"
    and honest: "\<And>v. run_state (policy_FindByOID repo oid) w \<noteq> (Inl (Domain ErrAuthorizationDenied), v)"
  shows "\<not> may_access w oper ri oid"
proof -
  from run obtain q where q: "run_state (policy_FindByOID repo oid) w = (q, w')"
    and r: "Inl (Domain ErrAuthorizationDenied) = authorize_answer oper ri q"
    by (rule Authorize_find)
  show ?thesis
  proof (cases q)
    case (Inl e)
    show ?thesis
    proof (cases "errors_Is e (Domain ErrAccessPolicyNotFound)")
      case True
      with pfind_missing [OF good, of oid e w'] q Inl have "owner_of w oid = None" by blast
      with r Inl True show ?thesis by (auto simp: may_access_def authorize_answer_def split: if_splits)
    next
      case False
      with r Inl have "e = Domain ErrAuthorizationDenied" by (simp add: authorize_answer_def)
      with honest q Inl show ?thesis by blast
    qed
  next
    case (Inr p)
    show ?thesis
    proof (cases p)
      case None
      with pfind_nil [OF good, of oid w'] q Inr have "owner_of w oid = None" by blast
      with r Inr None show ?thesis by (auto simp: may_access_def authorize_answer_def split: if_splits)
    next
      case (Some pol)
      with pfind_sound [OF good, of oid pol w'] q Inr have "ap_repository pol = owner_of w oid" "owner_of w oid \<noteq> None"
        by auto
      with r Inr Some show ?thesis by (auto simp: may_access_def authorize_answer_def split: if_splits)
    qed
  qed
qed

lemma CheckAuthorization_run:
  assumes "run_state (CheckAuthorization (NewAccessAuthorizationService repo) oper ou oid) w = (r, w')"
  shows "\<exists>q. run_state (Authorize repo oper ou oid) w = (q, w') \<and> (\<forall>res. r = Inr res \<longleftrightarrow> q = Inr res)"
proof -
  obtain q v where "run_state (Authorize repo oper ou oid) w = (q, v)" by fastforce
  with assms show ?thesis
    by (auto simp: CheckAuthorization_def NewAccessAuthorizationService_def split: sum.splits if_splits)
qed

text \<open>What a use case gets out of the check: the state it is in, and the rule when it goes on.\<close>

lemma check_state:
  assumes "good w" and "run_state (CheckAuthorization (NewAccessAuthorizationService repo) oper ou oid) w = (r, w')"
  shows "good w' \<and> same_metadata w w' \<and> owner_of w' = owner_of w"
  using CheckAuthorization_run [OF assms(2)] Authorize_state [OF assms(1)] by blast

lemma check_sound:
  assumes "good w"
    and "run_state (CheckAuthorization (NewAccessAuthorizationService repo) oper ou oid) w = (Inr res, w')"
  shows "\<exists>ri. ou = Some ri \<and> may_access w oper ri oid \<and> auth_Allowed res \<and>
    (auth_IsNewObject res \<longleftrightarrow> owner_of w oid = None)"
proof -
  from CheckAuthorization_run [OF assms(2)] obtain q where
    q: "run_state (Authorize repo oper ou oid) w = (q, w')" and "q = Inr res" by blast
  show ?thesis
  proof (cases ou)
    case None
    with q \<open>q = Inr res\<close> show ?thesis by (simp add: Authorize_def)
  next
    case (Some ri)
    with Authorize_sound [OF assms(1)] q \<open>q = Inr res\<close> show ?thesis by blast
  qed
qed

text \<open>Without a repository in the session nothing is authorised.\<close>

lemma check_nil:
  "run_state (CheckAuthorization (NewAccessAuthorizationService repo) oper None oid) w = (Inl (Usecase UErrAccessDenied), w)"
  by (simp add: CheckAuthorization_def NewAccessAuthorizationService_def Authorize_def)

end

section \<open>The service over Postgres\<close>

definition pg_authorization :: AccessAuthorizationService where
  "pg_authorization = NewAccessAuthorizationService NewAccessPolicyRepository"

text \<open>Over Postgres the decision is total: with no failure pending the rule is decided, and with
  failures a denied answer still means the rule refuses.\<close>

lemma pg_policy_honest:
  assumes "wf_policies w"
  shows "run_state (policy_FindByOID NewAccessPolicyRepository oid) w \<noteq> (Inl (Domain ErrAuthorizationDenied), v)"
proof
  assume "run_state (policy_FindByOID NewAccessPolicyRepository oid) w = (Inl (Domain ErrAuthorizationDenied), v)"
  then have "run_state (pg_policy_FindByOID oid) w = (Inl (Domain ErrAuthorizationDenied), v)"
    by (simp add: NewAccessPolicyRepository_def)
  from pg_policy_FindByOID_run [OF assms this] obtain f where "Domain ErrAuthorizationDenied = ext_gerror f" by auto
  then show False using ext_gerror_neq(1) by metis
qed

lemma pg_policy_find_ok:
  assumes "wf_policies w" and "w_faults w = []"
  shows "\<exists>r. run_state (policy_FindByOID NewAccessPolicyRepository oid) w = (r, w) \<and>
    (r = Inl (Domain ErrAccessPolicyNotFound) \<or> (\<exists>p. r = Inr (Some p)))"
proof (cases "w_policies w (OID_String oid)")
  case None
  with assms(2) show ?thesis
    by (simp add: NewAccessPolicyRepository_def pg_policy_FindByOID_def AccessPolicyDAO_FindByOID_def
        sql_select_policy_def run_external_ok)
next
  case (Some row)
  with assms(1) have "wf_policy_row row" by (auto simp: wf_policies_def)
  from rowToAccessPolicy_wf [OF this] obtain p where "rowToAccessPolicy row = Inr p" by blast
  with Some assms(2) show ?thesis
    by (simp add: NewAccessPolicyRepository_def pg_policy_FindByOID_def AccessPolicyDAO_FindByOID_def
        sql_select_policy_def run_external_ok)
qed

end
