(* ===== verification/Storage.thy ===== *)
theory Storage
  imports Ports
begin

text \<open>
  \<^verbatim>\<open>internal/infrastructure/s3\<close> (object calls, presigned URLs, storage keys, error kinds) and
  \<^verbatim>\<open>internal/infrastructure/url\<close> (the URLs handed to Git LFS clients).  The AWS SDK is seen as the
  bucket of \<open>World\<close>; the presigner is an argument.
\<close>

section \<open>Storage keys\<close>

definition hashAlgo_chars :: string where
  "hashAlgo_chars = ''abcdefghijklmnopqrstuvwxyzABCDEFGHIJKLMNOPQRSTUVWXYZ0123456789-''"

text \<open>\<^verbatim>\<open>^[a-zA-Z0-9-]+$\<close> and \<^verbatim>\<open>^[a-fA-F0-9]+$\<close>.\<close>

definition hashAlgoPattern :: "string \<Rightarrow> bool" where
  "hashAlgoPattern s \<longleftrightarrow> s \<noteq> [] \<and> list_all (\<lambda>c. c \<in> set hashAlgo_chars) s"

definition s3_oidPattern :: "string \<Rightarrow> bool" where
  "s3_oidPattern s \<longleftrightarrow> s \<noteq> [] \<and> list_all (\<lambda>c. c \<in> set hex_chars) s"

definition validateHashAlgo :: "string \<Rightarrow> gerror option" where
  "validateHashAlgo hashAlgo =
     (if hashAlgo = [] then Some (S3 S3ErrInvalidHashAlgo)
      else if strings_Contains hashAlgo ''..'' then Some (S3 S3ErrInvalidHashAlgo)
      else if \<not> hashAlgoPattern hashAlgo then Some (S3 S3ErrInvalidHashAlgo)
      else None)"

definition validateOID :: "string \<Rightarrow> gerror option" where
  "validateOID oid =
     (if oid = [] then Some (S3 S3ErrInvalidOID)
      else if length oid < 4 then Some (S3 S3ErrInvalidOID)
      else if \<not> s3_oidPattern oid then Some (S3 S3ErrInvalidOID)
      else None)"

definition GenerateStorageKey :: "string \<Rightarrow> string \<Rightarrow> gerror + string" where
  "GenerateStorageKey oid hashAlgo = (case validateHashAlgo hashAlgo of
     Some err \<Rightarrow> Inl err
   | None \<Rightarrow> (case validateOID oid of
       Some err \<Rightarrow> Inl err
     | None \<Rightarrow> Inr (''objects/'' @ hashAlgo @ ''/'' @ take 2 oid @ ''/'' @ take 2 (drop 2 oid) @ ''/'' @ oid)))"

lemma slash_not_hex [simp]: "CHR ''/'' \<notin> set hex_chars"
  by (simp add: hex_chars_def)

lemma slash_not_hashAlgo [simp]: "CHR ''/'' \<notin> set hashAlgo_chars"
  by (simp add: hashAlgo_chars_def)

lemma validated:
  "validateHashAlgo h = None \<longleftrightarrow> hashAlgoPattern h \<and> \<not> strings_Contains h ''..''"
  "validateOID s = None \<longleftrightarrow> 4 \<le> length s \<and> list_all (\<lambda>c. c \<in> set hex_chars) s"
  by (auto simp: validateHashAlgo_def validateOID_def hashAlgoPattern_def s3_oidPattern_def)

lemma GenerateStorageKey_Inr:
  "GenerateStorageKey oid h = Inr k \<longleftrightarrow>
     hashAlgoPattern h \<and> \<not> strings_Contains h ''..'' \<and> 4 \<le> length oid \<and> list_all (\<lambda>c. c \<in> set hex_chars) oid \<and>
     k = ''objects/'' @ h @ ''/'' @ take 2 oid @ ''/'' @ take 2 (drop 2 oid) @ ''/'' @ oid"
proof (cases "validateHashAlgo h = None \<and> validateOID oid = None")
  case True
  then have "hashAlgoPattern h" "\<not> strings_Contains h ''..''" "4 \<le> length oid" "list_all (\<lambda>c. c \<in> set hex_chars) oid"
    by (simp_all add: validated)
  with True show ?thesis by (auto simp: GenerateStorageKey_def)
next
  case False
  then have "\<not> (hashAlgoPattern h \<and> \<not> strings_Contains h ''..'' \<and> 4 \<le> length oid \<and> list_all (\<lambda>c. c \<in> set hex_chars) oid)"
    by (metis validated(1) validated(2))
  moreover have "GenerateStorageKey oid h \<noteq> Inr k"
    using False by (auto simp: GenerateStorageKey_def split: option.splits)
  ultimately show ?thesis by blast
qed

lemma list_all_no_slash:
  "list_all (\<lambda>c. c \<in> set hex_chars) s \<Longrightarrow> CHR ''/'' \<notin> set s"
  "list_all (\<lambda>c. c \<in> set hashAlgo_chars) s \<Longrightarrow> CHR ''/'' \<notin> set s"
  by (auto simp: list_all_iff)

text \<open>The key has exactly the five path components of its format.\<close>

lemma GenerateStorageKey_components:
  assumes "GenerateStorageKey oid h = Inr k"
  shows "strings_Split k (CHR ''/'') = [''objects'', h, take 2 oid, take 2 (drop 2 oid), oid]"
proof -
  from assms have h: "CHR ''/'' \<notin> set h" and oid: "CHR ''/'' \<notin> set oid"
    and k: "k = ''objects'' @ CHR ''/'' # h @ CHR ''/'' # take 2 oid @ CHR ''/'' # take 2 (drop 2 oid) @ CHR ''/'' # oid"
    by (auto simp: GenerateStorageKey_Inr hashAlgoPattern_def dest: list_all_no_slash)
  from oid have "CHR ''/'' \<notin> set (take 2 oid)" "CHR ''/'' \<notin> set (take 2 (drop 2 oid))"
    by (auto dest!: in_set_takeD in_set_dropD)
  with h oid show ?thesis
    by (simp only: k strings_Split_append_sep strings_Split_no_sep) (simp add: strings_Split_append_sep strings_Split_no_sep)
qed

lemma GenerateStorageKey_sha256:
  assumes "oidPattern oid"
  shows "GenerateStorageKey oid ''sha256'' = Inr (''objects/sha256/'' @ take 2 oid @ ''/'' @ take 2 (drop 2 oid) @ ''/'' @ oid)"
proof -
  have "hashAlgoPattern ''sha256''" by (simp add: hashAlgoPattern_def hashAlgo_chars_def)
  moreover have "\<not> strings_Contains ''sha256'' ''..''" by (simp add: strings_Contains_def sublist_code)
  ultimately show ?thesis using assms by (simp add: GenerateStorageKey_Inr oidPattern_def)
qed

section \<open>Object calls\<close>

definition s3_put :: "string \<Rightarrow> string \<Rightarrow> int \<Rightarrow> unit io" where
  "s3_put key body contentLength = external (\<lambda>w.
     if int (length body) \<noteq> contentLength then (Inl (Extern (OtherExtern ''ContentLength mismatch'')), w)
     else (Inr (), w\<lparr>w_storage := (w_storage w)(key \<mapsto> body)\<rparr>))"

definition s3_get :: "string \<Rightarrow> string io" where
  "s3_get key = external (\<lambda>w. case w_storage w key of
     None \<Rightarrow> (Inl (Extern (OtherExtern ''NoSuchKey'')), w)
   | Some body \<Rightarrow> (Inr body, w))"

definition s3_head :: "string \<Rightarrow> unit io" where
  "s3_head key = external (\<lambda>w. (if w_storage w key = None then Inl (Extern S3NotFound) else Inr (), w))"

definition s3_head_bucket :: "unit io" where
  "s3_head_bucket = external (\<lambda>w. (Inr (), w))"

definition S3Client_PutObject :: "string \<Rightarrow> string \<Rightarrow> int \<Rightarrow> unit io" where
  "S3Client_PutObject key body contentLength = do {
     r \<leftarrow> s3_put key body contentLength;
     case r of Inl err \<Rightarrow> lift_result (Inl (NewStorageError OperationPut err)) | Inr u \<Rightarrow> lift_result (Inr ())
   }"

definition S3Client_GetObject :: "string \<Rightarrow> string io" where
  "S3Client_GetObject key = do {
     r \<leftarrow> s3_get key;
     case r of Inl err \<Rightarrow> lift_result (Inl (NewStorageError OperationGet err)) | Inr body \<Rightarrow> lift_result (Inr body)
   }"

definition S3Client_HeadObject :: "string \<Rightarrow> bool io" where
  "S3Client_HeadObject key = do {
     r \<leftarrow> s3_head key;
     case r of
       Inl err \<Rightarrow>
         if errors_Is err (Extern S3NotFound) then lift_result (Inr False)
         else lift_result (Inl (NewStorageError OperationHead err))
     | Inr u \<Rightarrow> lift_result (Inr True)
   }"

definition S3Client_HeadBucket :: "unit io" where
  "S3Client_HeadBucket = do {
     r \<leftarrow> s3_head_bucket;
     case r of Inl err \<Rightarrow> lift_result (Inl (Wrap err)) | Inr u \<Rightarrow> lift_result (Inr ())
   }"

definition S3HealthChecker_Check :: "unit io" where
  "S3HealthChecker_Check = do {
     r \<leftarrow> S3Client_HeadBucket;
     case r of Inl err \<Rightarrow> lift_result (Inl (Wrap err)) | Inr u \<Rightarrow> lift_result (Inr ())
   }"

definition NewS3Client :: ObjectStorage where
  "NewS3Client = \<lparr>storage_PutObject = S3Client_PutObject, storage_GetObject = S3Client_GetObject\<rparr>"

section \<open>Presigned URLs\<close>

definition DefaultPresignTTL :: duration where "DefaultPresignTTL = 15 * Minute"

definition GeneratePutURL :: "(string \<Rightarrow> duration \<Rightarrow> gerror + string) \<Rightarrow> string \<Rightarrow> duration \<Rightarrow> gerror + string" where
  "GeneratePutURL presignPutObject key ttl =
     (let ttl = (if ttl = 0 then DefaultPresignTTL else ttl) in
      case presignPutObject key ttl of Inl err \<Rightarrow> Inl (Wrap err) | Inr url \<Rightarrow> Inr url)"

definition GenerateGetURL :: "(string \<Rightarrow> duration \<Rightarrow> gerror + string) \<Rightarrow> string \<Rightarrow> duration \<Rightarrow> gerror + string" where
  "GenerateGetURL presignGetObject key ttl =
     (let ttl = (if ttl = 0 then DefaultPresignTTL else ttl) in
      case presignGetObject key ttl of Inl err \<Rightarrow> Inl (Wrap err) | Inr url \<Rightarrow> Inr url)"

section \<open>Action URLs\<close>

definition generateURL :: "string \<Rightarrow> string \<Rightarrow> string \<Rightarrow> string \<Rightarrow> string" where
  "generateURL baseURL owner repo oid =
     strings_TrimSuffix baseURL ''/'' @ ''/'' @ owner @ ''/'' @ repo @ ''/info/lfs/objects/'' @ oid"

definition GenerateUploadURL :: "string \<Rightarrow> string \<Rightarrow> string \<Rightarrow> string \<Rightarrow> string" where
  "GenerateUploadURL baseURL owner repo oid = generateURL baseURL owner repo oid"

definition GenerateDownloadURL :: "string \<Rightarrow> string \<Rightarrow> string \<Rightarrow> string \<Rightarrow> string" where
  "GenerateDownloadURL baseURL owner repo oid = generateURL baseURL owner repo oid"

section \<open>The S3 client keeps the object store contract\<close>

lemma S3Client_PutObject_run:
  assumes "run_state (S3Client_PutObject key body len) w = (r, w')"
  shows "(\<exists>fs. r \<noteq> Inr () \<and> w' = w\<lparr>w_faults := fs\<rparr> \<or>
        int (length body) = len \<and> w' = w\<lparr>w_faults := fs, w_storage := (w_storage w)(key \<mapsto> body)\<rparr>) \<and>
    (\<forall>e. r = Inl e \<longrightarrow> IsStorageError (Some e))"
proof -
  from assms obtain q v where qv: "run_state (s3_put key body len) w = (q, v)"
    and fin: "run_state (case q of Inl err \<Rightarrow> lift_result (Inl (NewStorageError OperationPut err)) | Inr u \<Rightarrow> lift_result (Inr ())) v = (r, w')"
    unfolding S3Client_PutObject_def by (rule run_bindE)
  from fin have r: "r = (case q of Inl err \<Rightarrow> Inl (NewStorageError OperationPut err) | Inr u \<Rightarrow> Inr ())" and "v = w'"
    by (cases q; auto)+
  with qv have q: "run_state (s3_put key body len) w = (q, w')" by simp
  have "\<exists>fs. q \<noteq> Inr () \<and> w' = w\<lparr>w_faults := fs\<rparr> \<or>
      int (length body) = len \<and> w' = w\<lparr>w_faults := fs, w_storage := (w_storage w)(key \<mapsto> body)\<rparr>"
    using external_attempt [OF q [unfolded s3_put_def]] by simp
  with r show ?thesis by (cases q) (simp_all add: NewStorageError_def IsStorageError_def)
qed

lemma S3Client_GetObject_run:
  assumes "run_state (S3Client_GetObject key) w = (r, w')"
  shows "(\<exists>fs. w' = w\<lparr>w_faults := fs\<rparr>) \<and> (\<forall>s. r = Inr s \<longrightarrow> w_storage w key = Some s) \<and>
    (\<forall>e. r = Inl e \<longrightarrow> IsStorageError (Some e))"
proof -
  from assms obtain q v where qv: "run_state (s3_get key) w = (q, v)"
    and fin: "run_state (case q of Inl err \<Rightarrow> lift_result (Inl (NewStorageError OperationGet err)) | Inr b \<Rightarrow> lift_result (Inr b)) v = (r, w')"
    unfolding S3Client_GetObject_def by (rule run_bindE)
  from fin have r: "r = (case q of Inl err \<Rightarrow> Inl (NewStorageError OperationGet err) | Inr b \<Rightarrow> Inr b)" and "v = w'"
    by (cases q; auto)+
  with qv have q: "run_state (s3_get key) w = (q, w')" by simp
  from q have "(\<exists>fs. w' = w\<lparr>w_faults := fs\<rparr>) \<and> (\<forall>s. q = Inr s \<longrightarrow> w_storage w key = Some s)"
    unfolding s3_get_def by (cases rule: external_cases) (auto split: option.splits)
  with r show ?thesis by (cases q) (simp_all add: NewStorageError_def IsStorageError_def)
qed

interpretation s3_objects: object_storage NewS3Client
proof unfold_locales
  fix key body len w ru w'
  assume "run_state (storage_PutObject NewS3Client key body len) w = (ru, w')"
  then show "\<exists>fs. w' = w\<lparr>w_faults := fs\<rparr> \<or>
      int (length body) = len \<and> w' = w\<lparr>w_faults := fs, w_storage := (w_storage w)(key \<mapsto> body)\<rparr>"
    using S3Client_PutObject_run [of key body len w ru w'] by (auto simp: NewS3Client_def)
next
  fix key body len w w'
  assume "run_state (storage_PutObject NewS3Client key body len) w = (Inr (), w')"
  then show "int (length body) = len \<and> w_storage w' key = Some body"
    using S3Client_PutObject_run [of key body len w "Inr ()" w'] by (auto simp: NewS3Client_def)
next
  fix key w rg w'
  assume "run_state (storage_GetObject NewS3Client key) w = (rg, w')"
  then show "\<exists>fs. w' = w\<lparr>w_faults := fs\<rparr>"
    using S3Client_GetObject_run [of key w rg w'] by (simp add: NewS3Client_def)
next
  fix key w s w'
  assume "run_state (storage_GetObject NewS3Client key) w = (Inr s, w')"
  then show "w_storage w key = Some s"
    using S3Client_GetObject_run [of key w "Inr s" w'] by (simp add: NewS3Client_def)
qed

end
