(* ===== verification/Redis_Client.thy ===== *)
theory Redis_Client
  imports Ports
begin

text \<open>
  \<^verbatim>\<open>internal/infrastructure/redis\<close>: the client's commands on the keyspace, the key families with
  their lifetimes, the user-info serializers, sessions, and the one-time OAuth states.  An entry
  is alive until its expiry instant; a text that is not a JSON document does not decode.
\<close>

section \<open>Keys and lifetimes\<close>

definition MetadataKeyPrefix :: string where "MetadataKeyPrefix = ''lfs:meta:''"
definition SessionKeyPrefix :: string where "SessionKeyPrefix = ''lfs:session:''"
definition BatchUploadKeyPrefix :: string where "BatchUploadKeyPrefix = ''lfs:batch:upload:''"
definition OIDCGitHubRepoKeyPrefix :: string where "OIDCGitHubRepoKeyPrefix = ''lfs:oidc:github:repo:''"
definition OIDCStateKeyPrefix :: string where "OIDCStateKeyPrefix = ''lfs:oidc:state:''"
definition OIDCJWKSKeyPrefix :: string where "OIDCJWKSKeyPrefix = ''lfs:oidc:jwks:''"

definition MetadataTTL :: duration where "MetadataTTL = 30 * Minute"
definition SessionTTL :: duration where "SessionTTL = 24 * Hour"
definition OIDCGitHubRepoTTL :: duration where "OIDCGitHubRepoTTL = 5 * Minute"
definition OIDCStateTTL :: duration where "OIDCStateTTL = 10 * Minute"
definition OIDCJWKSTTL :: duration where "OIDCJWKSTTL = 24 * Hour"

definition MetadataKey :: "string \<Rightarrow> string" where "MetadataKey oid = MetadataKeyPrefix @ oid"
definition SessionKey :: "string \<Rightarrow> string" where "SessionKey sessionID = SessionKeyPrefix @ sessionID"
definition BatchUploadKey :: "string \<Rightarrow> string" where "BatchUploadKey oid = BatchUploadKeyPrefix @ oid"
definition OIDCGitHubRepoKey :: "string \<Rightarrow> string" where
  "OIDCGitHubRepoKey repository = OIDCGitHubRepoKeyPrefix @ repository"
definition OIDCStateKey :: "string \<Rightarrow> string" where "OIDCStateKey state = OIDCStateKeyPrefix @ state"
definition OIDCJWKSKey :: "string \<Rightarrow> string" where "OIDCJWKSKey provider = OIDCJWKSKeyPrefix @ provider"

text \<open>\<^verbatim>\<open>CacheKeyGeneratorImpl\<close> and \<^verbatim>\<open>CacheConfigImpl\<close> as interface values.\<close>

record CacheKeyGenerator =
  gen_MetadataKey :: "string \<Rightarrow> string"
  gen_SessionKey :: "string \<Rightarrow> string"
  gen_BatchUploadKey :: "string \<Rightarrow> string"

definition NewCacheKeyGenerator :: CacheKeyGenerator where
  "NewCacheKeyGenerator = \<lparr>gen_MetadataKey = (\<lambda>oid. MetadataKeyPrefix @ oid),
     gen_SessionKey = (\<lambda>sessionID. SessionKeyPrefix @ sessionID),
     gen_BatchUploadKey = (\<lambda>oid. BatchUploadKeyPrefix @ oid)\<rparr>"

definition CacheConfig_MetadataTTL :: duration where "CacheConfig_MetadataTTL = MetadataTTL"

lemmas key_defs = MetadataKey_def SessionKey_def BatchUploadKey_def OIDCGitHubRepoKey_def
  OIDCStateKey_def OIDCJWKSKey_def MetadataKeyPrefix_def SessionKeyPrefix_def BatchUploadKeyPrefix_def
  OIDCGitHubRepoKeyPrefix_def OIDCStateKeyPrefix_def OIDCJWKSKeyPrefix_def

lemma key_inject [key_simps, simp]:
  "MetadataKey a = MetadataKey b \<longleftrightarrow> a = b" "SessionKey a = SessionKey b \<longleftrightarrow> a = b"
  "BatchUploadKey a = BatchUploadKey b \<longleftrightarrow> a = b" "OIDCGitHubRepoKey a = OIDCGitHubRepoKey b \<longleftrightarrow> a = b"
  "OIDCStateKey a = OIDCStateKey b \<longleftrightarrow> a = b" "OIDCJWKSKey a = OIDCJWKSKey b \<longleftrightarrow> a = b"
  by (simp_all add: key_defs)

lemma key_disjoint [key_simps, simp]:
  "MetadataKey a \<noteq> SessionKey b" "MetadataKey a \<noteq> BatchUploadKey b" "MetadataKey a \<noteq> OIDCGitHubRepoKey b"
  "MetadataKey a \<noteq> OIDCStateKey b" "MetadataKey a \<noteq> OIDCJWKSKey b"
  "SessionKey a \<noteq> MetadataKey b" "SessionKey a \<noteq> BatchUploadKey b" "SessionKey a \<noteq> OIDCGitHubRepoKey b"
  "SessionKey a \<noteq> OIDCStateKey b" "SessionKey a \<noteq> OIDCJWKSKey b"
  "BatchUploadKey a \<noteq> MetadataKey b" "BatchUploadKey a \<noteq> SessionKey b" "BatchUploadKey a \<noteq> OIDCGitHubRepoKey b"
  "BatchUploadKey a \<noteq> OIDCStateKey b" "BatchUploadKey a \<noteq> OIDCJWKSKey b"
  "OIDCGitHubRepoKey a \<noteq> MetadataKey b" "OIDCGitHubRepoKey a \<noteq> SessionKey b"
  "OIDCGitHubRepoKey a \<noteq> BatchUploadKey b" "OIDCGitHubRepoKey a \<noteq> OIDCStateKey b"
  "OIDCGitHubRepoKey a \<noteq> OIDCJWKSKey b"
  "OIDCStateKey a \<noteq> MetadataKey b" "OIDCStateKey a \<noteq> SessionKey b" "OIDCStateKey a \<noteq> BatchUploadKey b"
  "OIDCStateKey a \<noteq> OIDCGitHubRepoKey b" "OIDCStateKey a \<noteq> OIDCJWKSKey b"
  "OIDCJWKSKey a \<noteq> MetadataKey b" "OIDCJWKSKey a \<noteq> SessionKey b" "OIDCJWKSKey a \<noteq> BatchUploadKey b"
  "OIDCJWKSKey a \<noteq> OIDCGitHubRepoKey b" "OIDCJWKSKey a \<noteq> OIDCStateKey b"
  by (simp_all add: key_defs)

section \<open>Commands\<close>

definition redis_live :: "world \<Rightarrow> string \<Rightarrow> redis_value option" where
  "redis_live w k = (case w_redis w k of
     None \<Rightarrow> None
   | Some (v, None) \<Rightarrow> Some v
   | Some (v, Some t) \<Rightarrow> if w_now w < t then Some v else None)"

definition redis_cmd_get :: "string \<Rightarrow> redis_value io" where
  "redis_cmd_get k = external (\<lambda>w. case redis_live w k of
     None \<Rightarrow> (Inl (Redis RedisErrCacheMiss), w)
   | Some v \<Rightarrow> (Inr v, w))"

definition redis_cmd_set :: "string \<Rightarrow> redis_value \<Rightarrow> duration \<Rightarrow> unit io" where
  "redis_cmd_set k v ttl = external (\<lambda>w. (Inr (),
     w\<lparr>w_redis := (w_redis w)(k \<mapsto> (v, if 0 < ttl then Some (w_now w + ttl) else None))\<rparr>))"

definition redis_cmd_del :: "string \<Rightarrow> unit io" where
  "redis_cmd_del k = external (\<lambda>w. (Inr (), w\<lparr>w_redis := (w_redis w)(k := None)\<rparr>))"

definition redis_cmd_exists :: "string \<Rightarrow> nat io" where
  "redis_cmd_exists k = external (\<lambda>w. (Inr (if redis_live w k = None then 0 else 1), w))"

definition redis_cmd_getdel :: "string \<Rightarrow> redis_value io" where
  "redis_cmd_getdel k = external (\<lambda>w. case redis_live w k of
     None \<Rightarrow> (Inl (Redis RedisErrCacheMiss), w)
   | Some v \<Rightarrow> (Inr v, w\<lparr>w_redis := (w_redis w)(k := None)\<rparr>))"

primrec redis_doc :: "redis_value \<Rightarrow> json option" where
  "redis_doc (RDoc j) = Some j"
| "redis_doc (RText s) = None"

section \<open>The client\<close>

definition RedisClient_Get :: "string \<Rightarrow> redis_value io" where
  "RedisClient_Get key = do {
     r \<leftarrow> redis_cmd_get key;
     case r of
       Inl err \<Rightarrow>
         if err = Redis RedisErrCacheMiss then lift_result (Inl (Redis RedisErrCacheMiss))
         else lift_result (Inl (Wrap err))
     | Inr val \<Rightarrow> lift_result (Inr val)
   }"

definition RedisClient_Set :: "string \<Rightarrow> redis_value \<Rightarrow> duration \<Rightarrow> unit io" where
  "RedisClient_Set key value ttl = do {
     r \<leftarrow> redis_cmd_set key value ttl;
     case r of Inl err \<Rightarrow> lift_result (Inl (Wrap err)) | Inr u \<Rightarrow> lift_result (Inr ())
   }"

definition RedisClient_Delete :: "string \<Rightarrow> unit io" where
  "RedisClient_Delete key = do {
     r \<leftarrow> redis_cmd_del key;
     case r of Inl err \<Rightarrow> lift_result (Inl (Wrap err)) | Inr u \<Rightarrow> lift_result (Inr ())
   }"

definition RedisClient_Exists :: "string \<Rightarrow> bool io" where
  "RedisClient_Exists key = do {
     r \<leftarrow> redis_cmd_exists key;
     case r of Inl err \<Rightarrow> lift_result (Inl (Wrap err)) | Inr result \<Rightarrow> lift_result (Inr (result > 0))
   }"

text \<open>The JSON operations take the encoder or decoder of the Go type they are called with.\<close>

definition RedisClient_SetJSON :: "('v \<Rightarrow> json) \<Rightarrow> string \<Rightarrow> 'v \<Rightarrow> duration \<Rightarrow> unit io" where
  "RedisClient_SetJSON enc key value ttl = do {
     let jsonBytes = RDoc (enc value);
     r \<leftarrow> redis_cmd_set key jsonBytes ttl;
     case r of Inl err \<Rightarrow> lift_result (Inl (Wrap err)) | Inr u \<Rightarrow> lift_result (Inr ())
   }"

definition json_Unmarshal :: "(json \<Rightarrow> 'v option) \<Rightarrow> redis_value \<Rightarrow> gerror + 'v" where
  "json_Unmarshal dec val = (case Option.bind (redis_doc val) dec of
     None \<Rightarrow> Inl (Plain ''json: cannot unmarshal'')
   | Some v \<Rightarrow> Inr v)"

definition RedisClient_GetJSON :: "(json \<Rightarrow> 'v option) \<Rightarrow> string \<Rightarrow> 'v io" where
  "RedisClient_GetJSON dec key = do {
     r \<leftarrow> redis_cmd_get key;
     case r of
       Inl err \<Rightarrow>
         if err = Redis RedisErrCacheMiss then lift_result (Inl (Redis RedisErrCacheMiss))
         else lift_result (Inl (Wrap err))
     | Inr val \<Rightarrow> (case json_Unmarshal dec val of
         Inl err \<Rightarrow> lift_result (Inl (Wrap err))
       | Inr v \<Rightarrow> lift_result (Inr v))
   }"

definition RedisClient_GetDelJSON :: "(json \<Rightarrow> 'v option) \<Rightarrow> string \<Rightarrow> 'v io" where
  "RedisClient_GetDelJSON dec key = do {
     r \<leftarrow> redis_cmd_getdel key;
     case r of
       Inl err \<Rightarrow>
         if err = Redis RedisErrCacheMiss then lift_result (Inl (Redis RedisErrCacheMiss))
         else lift_result (Inl (Wrap err))
     | Inr val \<Rightarrow> (case json_Unmarshal dec val of
         Inl err \<Rightarrow> lift_result (Inl (Wrap err))
       | Inr v \<Rightarrow> lift_result (Inr v))
   }"

section \<open>Serializers\<close>

record userInfoDTO =
  ud_Sub :: string
  ud_Email :: string
  ud_Name :: string
  ud_Provider :: ProviderType
  ud_Repository :: string
  ud_Ref :: string
  ud_PermAdmin :: bool
  ud_PermPush :: bool
  ud_PermPull :: bool
  ud_PermMaintain :: bool
  ud_PermTriage :: bool

definition userInfoDTO_zero :: userInfoDTO where
  "userInfoDTO_zero = \<lparr>ud_Sub = [], ud_Email = [], ud_Name = [], ud_Provider = ProviderType [],
     ud_Repository = [], ud_Ref = [], ud_PermAdmin = False, ud_PermPush = False, ud_PermPull = False,
     ud_PermMaintain = False, ud_PermTriage = False\<rparr>"

definition ProviderType_MarshalJSON :: "ProviderType \<Rightarrow> json" where
  "ProviderType_MarshalJSON p = JString (ProviderType_String p)"

text \<open>\<^verbatim>\<open>null\<close> leaves the local string empty, which names no provider.\<close>

definition ProviderType_UnmarshalJSON :: "json \<Rightarrow> gerror + ProviderType" where
  "ProviderType_UnmarshalJSON data = (case decode_string data of
     None \<Rightarrow> Inl (Plain ''json: cannot unmarshal'')
   | Some s \<Rightarrow> (case validProviderTypes s of
       None \<Rightarrow> Inl (Domain ErrInvalidProviderType)
     | Some pt \<Rightarrow> Inr pt))"

definition userInfoDTO_fields :: "userInfoDTO field list" where
  "userInfoDTO_fields =
    [(''sub'', into_string (\<lambda>v s. s\<lparr>ud_Sub := v\<rparr>)),
     (''email'', into_string (\<lambda>v s. s\<lparr>ud_Email := v\<rparr>)),
     (''name'', into_string (\<lambda>v s. s\<lparr>ud_Name := v\<rparr>)),
     (''provider'', (\<lambda>j s. case ProviderType_UnmarshalJSON j of Inl e \<Rightarrow> None | Inr pt \<Rightarrow> Some (s\<lparr>ud_Provider := pt\<rparr>))),
     (''repository'', into_string (\<lambda>v s. s\<lparr>ud_Repository := v\<rparr>)),
     (''ref'', into_string (\<lambda>v s. s\<lparr>ud_Ref := v\<rparr>)),
     (''perm_admin'', into_bool (\<lambda>v s. s\<lparr>ud_PermAdmin := v\<rparr>)),
     (''perm_push'', into_bool (\<lambda>v s. s\<lparr>ud_PermPush := v\<rparr>)),
     (''perm_pull'', into_bool (\<lambda>v s. s\<lparr>ud_PermPull := v\<rparr>)),
     (''perm_maintain'', into_bool (\<lambda>v s. s\<lparr>ud_PermMaintain := v\<rparr>)),
     (''perm_triage'', into_bool (\<lambda>v s. s\<lparr>ud_PermTriage := v\<rparr>))]"

definition userInfoDTO_json :: "userInfoDTO \<Rightarrow> json" where
  "userInfoDTO_json dto = JObject
    ([(''sub'', JString (ud_Sub dto)), (''email'', JString (ud_Email dto)), (''name'', JString (ud_Name dto)),
      (''provider'', ProviderType_MarshalJSON (ud_Provider dto))] @
     omit_string ''repository'' (ud_Repository dto) @ omit_string ''ref'' (ud_Ref dto) @
     omit_bool ''perm_admin'' (ud_PermAdmin dto) @ omit_bool ''perm_push'' (ud_PermPush dto) @
     omit_bool ''perm_pull'' (ud_PermPull dto) @ omit_bool ''perm_maintain'' (ud_PermMaintain dto) @
     omit_bool ''perm_triage'' (ud_PermTriage dto))"

definition UserInfo_Serialize :: "UserInfo option \<Rightarrow> gerror + redis_value" where
  "UserInfo_Serialize userInfo = (case userInfo of
     None \<Rightarrow> Inl (Redis RedisErrNilUserInfo)
   | Some u \<Rightarrow>
      (let repoStr = (case ui_repository u of None \<Rightarrow> [] | Some repo \<Rightarrow> FullName repo);
           dto = userInfoDTO_zero\<lparr>ud_Sub := ui_sub u, ud_Email := ui_email u, ud_Name := ui_name u,
             ud_Provider := ui_provider u, ud_Repository := repoStr, ud_Ref := ui_ref u\<rparr>;
           dto = (case ui_permissions u of
               None \<Rightarrow> dto
             | Some perms \<Rightarrow> dto\<lparr>ud_PermAdmin := rp_admin perms, ud_PermPush := rp_push perms,
                 ud_PermPull := rp_pull perms, ud_PermMaintain := rp_maintain perms,
                 ud_PermTriage := rp_triage perms\<rparr>)
       in Inr (RDoc (userInfoDTO_json dto))))"

definition UserInfo_Deserialize :: "redis_value \<Rightarrow> gerror + UserInfo" where
  "UserInfo_Deserialize data =
     (case json_Unmarshal (decode_struct userInfoDTO_fields userInfoDTO_zero) data of
        Inl err \<Rightarrow> Inl (Wrap err)
      | Inr dto \<Rightarrow>
         (case (if ud_Repository dto \<noteq> []
                then (case NewRepositoryIdentifier (ud_Repository dto) of
                        Inl err \<Rightarrow> Inl (Wrap err) | Inr repo \<Rightarrow> Inr (Some repo))
                else Inr None) of
            Inl err \<Rightarrow> Inl err
          | Inr repo \<Rightarrow>
             (case NewUserInfo (ud_Sub dto) (ud_Email dto) (ud_Name dto) (ud_Provider dto) repo (ud_Ref dto) of
                Inl err \<Rightarrow> Inl err
              | Inr userInfo \<Rightarrow>
                  if ud_PermAdmin dto \<or> ud_PermPush dto \<or> ud_PermPull dto \<or> ud_PermMaintain dto \<or> ud_PermTriage dto
                  then Inr (SetPermissions (Some (NewRepositoryPermissions (ud_PermAdmin dto) (ud_PermPush dto)
                         (ud_PermPull dto) (ud_PermMaintain dto) (ud_PermTriage dto))) userInfo)
                  else Inr userInfo)))"

record gitHubUserInfoDTO =
  gd_Sub :: string
  gd_Repository :: string
  gd_Ref :: string
  gd_Actor :: string

definition gitHubUserInfoDTO_fields :: "gitHubUserInfoDTO field list" where
  "gitHubUserInfoDTO_fields =
    [(''sub'', into_string (\<lambda>v s. s\<lparr>gd_Sub := v\<rparr>)),
     (''repository'', into_string (\<lambda>v s. s\<lparr>gd_Repository := v\<rparr>)),
     (''ref'', into_string (\<lambda>v s. s\<lparr>gd_Ref := v\<rparr>)),
     (''actor'', into_string (\<lambda>v s. s\<lparr>gd_Actor := v\<rparr>))]"

definition GitHubUserInfo_Serialize :: "GitHubUserInfo option \<Rightarrow> gerror + redis_value" where
  "GitHubUserInfo_Serialize userInfo = (case userInfo of
     None \<Rightarrow> Inl (Redis RedisErrNilGitHubUserInfo)
   | Some u \<Rightarrow> Inr (RDoc (JObject [(''sub'', JString (gh_sub u)), (''repository'', JString (gh_repository u)),
       (''ref'', JString (gh_ref u)), (''actor'', JString (gh_actor u))])))"

definition GitHubUserInfo_Deserialize :: "redis_value \<Rightarrow> gerror + GitHubUserInfo" where
  "GitHubUserInfo_Deserialize data =
     (case json_Unmarshal (decode_struct gitHubUserInfoDTO_fields
             \<lparr>gd_Sub = [], gd_Repository = [], gd_Ref = [], gd_Actor = []\<rparr>) data of
        Inl err \<Rightarrow> Inl (Wrap err)
      | Inr dto \<Rightarrow> Inr (NewGitHubUserInfo (gd_Sub dto) (gd_Repository dto) (gd_Ref dto) (gd_Actor dto)))"

section \<open>Sessions\<close>

definition RedisClient_SetSession :: "string \<Rightarrow> UserInfo option \<Rightarrow> duration \<Rightarrow> unit io" where
  "RedisClient_SetSession sessionID userInfo ttl =
     (if userInfo = None then lift_result (Inl (Plain ''userInfo is nil''))
      else let ttl = (if ttl = 0 then SessionTTL else ttl) in
        case UserInfo_Serialize userInfo of
          Inl err \<Rightarrow> lift_result (Inl (Wrap err))
        | Inr data \<Rightarrow> do {
            r \<leftarrow> RedisClient_Set (SessionKey sessionID) data ttl;
            case r of Inl err \<Rightarrow> lift_result (Inl (Wrap err)) | Inr u \<Rightarrow> lift_result (Inr ())
          })"

definition RedisClient_GetSession :: "string \<Rightarrow> UserInfo io" where
  "RedisClient_GetSession sessionID = do {
     r \<leftarrow> RedisClient_Get (SessionKey sessionID);
     case r of
       Inl err \<Rightarrow> lift_result (Inl (Wrap err))
     | Inr data \<Rightarrow> (case UserInfo_Deserialize data of
         Inl err \<Rightarrow> lift_result (Inl (Wrap err))
       | Inr userInfo \<Rightarrow> lift_result (Inr userInfo))
   }"

definition RedisClient_DeleteSession :: "string \<Rightarrow> unit io" where
  "RedisClient_DeleteSession sessionID = do {
     r \<leftarrow> RedisClient_Delete (SessionKey sessionID);
     case r of Inl err \<Rightarrow> lift_result (Inl (Wrap err)) | Inr u \<Rightarrow> lift_result (Inr ())
   }"

definition SessionStore_CreateSession :: "UserInfo option \<Rightarrow> duration \<Rightarrow> string io" where
  "SessionStore_CreateSession userInfo ttl = do {
     g \<leftarrow> new_uuid;
     case g of
       Inl err \<Rightarrow> lift_result (Inl err)
     | Inr sessionID \<Rightarrow> do {
         r \<leftarrow> RedisClient_SetSession sessionID userInfo ttl;
         case r of Inl err \<Rightarrow> lift_result (Inl err) | Inr u \<Rightarrow> lift_result (Inr sessionID)
       }
   }"

definition SessionStore_GetSession :: "string \<Rightarrow> UserInfo io" where
  "SessionStore_GetSession sessionID = RedisClient_GetSession sessionID"

definition SessionStore_DeleteSession :: "string \<Rightarrow> unit io" where
  "SessionStore_DeleteSession sessionID = RedisClient_DeleteSession sessionID"

section \<open>OAuth states\<close>

record oauthStateDTO =
  sd_Repository :: string
  sd_RedirectURI :: string
  sd_Shell :: string

definition oauthStateDTO_fields :: "oauthStateDTO field list" where
  "oauthStateDTO_fields =
    [(''repository'', into_string (\<lambda>v s. s\<lparr>sd_Repository := v\<rparr>)),
     (''redirect_uri'', into_string (\<lambda>v s. s\<lparr>sd_RedirectURI := v\<rparr>)),
     (''shell'', into_string (\<lambda>v s. s\<lparr>sd_Shell := v\<rparr>))]"

definition decode_oauthStateDTO :: "json \<Rightarrow> oauthStateDTO option" where
  "decode_oauthStateDTO = decode_struct oauthStateDTO_fields
     \<lparr>sd_Repository = [], sd_RedirectURI = [], sd_Shell = []\<rparr>"

definition oauthStateDTO_json :: "oauthStateDTO \<Rightarrow> json" where
  "oauthStateDTO_json dto = JObject ([(''repository'', JString (sd_Repository dto)),
     (''redirect_uri'', JString (sd_RedirectURI dto))] @ omit_string ''shell'' (sd_Shell dto))"

definition SaveState :: "string \<Rightarrow> OAuthState \<Rightarrow> duration \<Rightarrow> unit io" where
  "SaveState st data ttl = do {
     let key = OIDCStateKey st;
     let dto = \<lparr>sd_Repository = os_repository data, sd_RedirectURI = os_redirectURI data,
       sd_Shell = ShellType_String (os_shell data)\<rparr>;
     r \<leftarrow> RedisClient_SetJSON oauthStateDTO_json key dto ttl;
     case r of Inl err \<Rightarrow> lift_result (Inl (Wrap err)) | Inr u \<Rightarrow> lift_result (Inr ())
   }"

definition GetAndDeleteState :: "string \<Rightarrow> OAuthState io" where
  "GetAndDeleteState st = do {
     let key = OIDCStateKey st;
     r \<leftarrow> RedisClient_GetDelJSON decode_oauthStateDTO key;
     case r of
       Inl err \<Rightarrow> lift_result (Inl (Wrap err))
     | Inr dto \<Rightarrow>
        (let shellType = (if sd_Shell dto \<noteq> []
              then (case ParseShellType (sd_Shell dto) of Inl e \<Rightarrow> ShellType [] | Inr s \<Rightarrow> s)
              else ShellType [])
         in lift_result (Inr (NewOAuthState (sd_Repository dto) (sd_RedirectURI dto) shellType)))
   }"

section \<open>What the commands change\<close>

lemma redis_live_faults [simp]: "redis_live (w\<lparr>w_faults := fs\<rparr>) k = redis_live w k"
  by (simp add: redis_live_def split: option.split prod.split)

text \<open>Only the keyspace and the failure schedule move; a read does not even move the keyspace.\<close>

lemma redis_cmd_get_run:
  assumes "run_state (redis_cmd_get k) w = (r, w')"
  shows "\<exists>fs. w' = w\<lparr>w_faults := fs\<rparr> \<and>
    ((\<exists>v. r = Inr v \<and> redis_live w k = Some v) \<or> (r = Inl (Redis RedisErrCacheMiss) \<and> redis_live w k = None) \<or>
     (\<exists>f. r = Inl (ext_gerror f)))"
  using assms unfolding redis_cmd_get_def
  by (cases rule: external_cases) (auto split: option.splits)

lemma redis_cmd_set_run:
  assumes "run_state (redis_cmd_set k v ttl) w = (r, w')"
  shows "\<exists>fs. (r = Inr () \<or> (\<exists>f. r = Inl (ext_gerror f))) \<and>
    (r \<noteq> Inr () \<and> w' = w\<lparr>w_faults := fs\<rparr> \<or>
     w' = w\<lparr>w_faults := fs, w_redis := (w_redis w)(k \<mapsto> (v, if 0 < ttl then Some (w_now w + ttl) else None))\<rparr>)"
  using external_write [OF assms [unfolded redis_cmd_set_def]] by (cases "0 < ttl") simp_all

lemma redis_cmd_del_run:
  assumes "run_state (redis_cmd_del k) w = (r, w')"
  shows "\<exists>fs. (r = Inr () \<or> (\<exists>f. r = Inl (ext_gerror f))) \<and>
    (r \<noteq> Inr () \<and> w' = w\<lparr>w_faults := fs\<rparr> \<or>
     w' = w\<lparr>w_faults := fs, w_redis := (w_redis w)(k := None)\<rparr>)"
  using external_write [OF assms [unfolded redis_cmd_del_def]] by simp

lemma redis_cmd_exists_run:
  assumes "run_state (redis_cmd_exists k) w = (r, w')"
  shows "\<exists>fs. w' = w\<lparr>w_faults := fs\<rparr> \<and>
    (r = Inr (if redis_live w k = None then 0 else 1) \<or> (\<exists>f. r = Inl (ext_gerror f)))"
  using assms unfolding redis_cmd_exists_def
  by (cases rule: external_cases) auto

lemma redis_cmd_getdel_run:
  assumes "run_state (redis_cmd_getdel k) w = (r, w')"
  shows "\<exists>fs. (\<exists>v. r = Inr v \<and> redis_live w k = Some v \<and> w' = w\<lparr>w_faults := fs, w_redis := (w_redis w)(k := None)\<rparr>) \<or>
    (r = Inl (Redis RedisErrCacheMiss) \<and> redis_live w k = None \<and> w' = w\<lparr>w_faults := fs\<rparr>) \<or>
    (\<exists>f. r = Inl (ext_gerror f) \<and>
       (w' = w\<lparr>w_faults := fs\<rparr> \<or> w' = w\<lparr>w_faults := fs, w_redis := (w_redis w)(k := None)\<rparr>))"
  using external_take [OF assms [unfolded redis_cmd_getdel_def]] by simp

section \<open>Serialization round trip\<close>

lemma userInfoDTO_field_for:
  "field_for userInfoDTO_fields ''sub'' = Some (into_string (\<lambda>v s. s\<lparr>ud_Sub := v\<rparr>))"
  "field_for userInfoDTO_fields ''email'' = Some (into_string (\<lambda>v s. s\<lparr>ud_Email := v\<rparr>))"
  "field_for userInfoDTO_fields ''name'' = Some (into_string (\<lambda>v s. s\<lparr>ud_Name := v\<rparr>))"
  "field_for userInfoDTO_fields ''provider'' = Some (\<lambda>j s. case ProviderType_UnmarshalJSON j of
     Inl e \<Rightarrow> None | Inr pt \<Rightarrow> Some (s\<lparr>ud_Provider := pt\<rparr>))"
  "field_for userInfoDTO_fields ''repository'' = Some (into_string (\<lambda>v s. s\<lparr>ud_Repository := v\<rparr>))"
  "field_for userInfoDTO_fields ''ref'' = Some (into_string (\<lambda>v s. s\<lparr>ud_Ref := v\<rparr>))"
  "field_for userInfoDTO_fields ''perm_admin'' = Some (into_bool (\<lambda>v s. s\<lparr>ud_PermAdmin := v\<rparr>))"
  "field_for userInfoDTO_fields ''perm_push'' = Some (into_bool (\<lambda>v s. s\<lparr>ud_PermPush := v\<rparr>))"
  "field_for userInfoDTO_fields ''perm_pull'' = Some (into_bool (\<lambda>v s. s\<lparr>ud_PermPull := v\<rparr>))"
  "field_for userInfoDTO_fields ''perm_maintain'' = Some (into_bool (\<lambda>v s. s\<lparr>ud_PermMaintain := v\<rparr>))"
  "field_for userInfoDTO_fields ''perm_triage'' = Some (into_bool (\<lambda>v s. s\<lparr>ud_PermTriage := v\<rparr>))"
  by (simp_all add: field_for_def userInfoDTO_fields_def)

lemma decode_omit_string:
  "field_for tags k = Some (into_string upd) \<Longrightarrow>
     decode_members tags (omit_string k v) s = Some (if v = [] then s else upd v s)"
  by (simp add: omit_string_def into_string_def)

lemma decode_omit_bool:
  "field_for tags k = Some (into_bool upd) \<Longrightarrow>
     decode_members tags (omit_bool k v) s = Some (if v then upd True s else s)"
  by (simp add: omit_bool_def into_bool_def)

lemma ProviderType_roundtrip:
  "ProviderType_UnmarshalJSON (ProviderType_MarshalJSON ProviderTypeGitHub) = Inr ProviderTypeGitHub"
  by (simp add: ProviderType_UnmarshalJSON_def ProviderType_MarshalJSON_def ProviderTypeGitHub_def
      decode_string_def validProviderTypes_def)

lemma userInfoDTO_roundtrip:
  assumes "ud_Provider dto = ProviderTypeGitHub"
  shows "decode_struct userInfoDTO_fields userInfoDTO_zero (userInfoDTO_json dto) = Some dto"
  using assms
  by (cases dto)
    (simp add: decode_struct_def userInfoDTO_json_def decode_members_append userInfoDTO_field_for
      decode_omit_string decode_omit_bool ProviderType_roundtrip userInfoDTO_zero_def into_string_def)

lemma UserInfo_roundtrip:
  assumes "wf_user u" and "UserInfo_Serialize (Some u) = Inr data"
  shows "UserInfo_Deserialize data = Inr (session_view u)"
proof -
  define dto where "dto = \<lparr>ud_Sub = ui_sub u, ud_Email = ui_email u, ud_Name = ui_name u,
    ud_Provider = ui_provider u,
    ud_Repository = (case ui_repository u of None \<Rightarrow> [] | Some repo \<Rightarrow> FullName repo), ud_Ref = ui_ref u,
    ud_PermAdmin = (case ui_permissions u of None \<Rightarrow> False | Some p \<Rightarrow> rp_admin p),
    ud_PermPush = (case ui_permissions u of None \<Rightarrow> False | Some p \<Rightarrow> rp_push p),
    ud_PermPull = (case ui_permissions u of None \<Rightarrow> False | Some p \<Rightarrow> rp_pull p),
    ud_PermMaintain = (case ui_permissions u of None \<Rightarrow> False | Some p \<Rightarrow> rp_maintain p),
    ud_PermTriage = (case ui_permissions u of None \<Rightarrow> False | Some p \<Rightarrow> rp_triage p)\<rparr>"
  have "data = RDoc (userInfoDTO_json dto)"
    using assms(2) by (cases "ui_permissions u")
      (auto simp: UserInfo_Serialize_def userInfoDTO_zero_def dto_def)
  moreover have "ud_Provider dto = ProviderTypeGitHub"
    using assms(1) by (simp add: dto_def wf_user_def)
  ultimately have j: "json_Unmarshal (decode_struct userInfoDTO_fields userInfoDTO_zero) data = Inr dto"
    by (simp add: json_Unmarshal_def userInfoDTO_roundtrip)
  have repo: "(if ud_Repository dto \<noteq> []
      then (case NewRepositoryIdentifier (ud_Repository dto) of
              Inl err \<Rightarrow> Inl (Wrap err) | Inr repo \<Rightarrow> Inr (Some repo))
      else Inr None) = Inr (ui_repository u)"
  proof (cases "ui_repository u")
    case (Some ri)
    then have "valid_repository ri" using assms(1) by (simp add: wf_user_def)
    moreover have "FullName ri \<noteq> []" by (simp add: FullName_def)
    ultimately show ?thesis using Some by (simp add: dto_def NewRepositoryIdentifier_FullName)
  qed (simp add: dto_def)
  have "NewUserInfo (ud_Sub dto) (ud_Email dto) (ud_Name dto) (ud_Provider dto) (ui_repository u) (ud_Ref dto) =
      Inr (u\<lparr>ui_permissions := None\<rparr>)"
    using assms(1) by (cases u) (simp add: dto_def wf_user_def NewUserInfo_def)
  with j repo show ?thesis
    by (cases u; cases "ui_permissions u")
      (auto simp: UserInfo_Deserialize_def session_view_def grants_something_def SetPermissions_def
        NewRepositoryPermissions_def dto_def)
qed

section \<open>The client as a cache\<close>

definition redis_read :: "(json \<Rightarrow> 'v option) \<Rightarrow> world \<Rightarrow> string \<Rightarrow> 'v option" where
  "redis_read dec w k = Option.bind (redis_live w k) (\<lambda>v. Option.bind (redis_doc v) dec)"

definition redis_CacheClient :: "('v \<Rightarrow> json) \<Rightarrow> (json \<Rightarrow> 'v option) \<Rightarrow> 'v CacheClient" where
  "redis_CacheClient enc dec = \<lparr>cache_Exists = RedisClient_Exists, cache_Set = RedisClient_Set,
     cache_GetJSON = RedisClient_GetJSON dec, cache_SetJSON = RedisClient_SetJSON enc,
     cache_Delete = RedisClient_Delete\<rparr>"

definition redis_AllowlistCacheClient :: AllowlistCacheClient where
  "redis_AllowlistCacheClient = \<lparr>racl_Get = RedisClient_Get, racl_Set = RedisClient_Set,
     racl_Delete = RedisClient_Delete\<rparr>"

lemma redis_read_faults [simp]: "redis_read dec (w\<lparr>w_faults := fs\<rparr>) = redis_read dec w"
  by (rule ext) (simp add: redis_read_def)

lemma redis_live_write:
  "redis_live (w\<lparr>w_faults := fs, w_redis := (w_redis w)(k \<mapsto> (v, if 0 < ttl then Some (w_now w + ttl) else None))\<rparr>) j =
     (if j = k then Some v else redis_live w j)"
  by (simp add: redis_live_def split: option.splits prod.splits)

lemma redis_live_remove:
  "redis_live (w\<lparr>w_faults := fs, w_redis := (w_redis w)(k := None)\<rparr>) j =
     (if j = k then None else redis_live w j)"
  by (simp add: redis_live_def split: option.splits prod.splits)

lemma redis_read_write:
  "redis_read dec (w\<lparr>w_faults := fs, w_redis := (w_redis w)(k \<mapsto> (RDoc d, if 0 < ttl then Some (w_now w + ttl) else None))\<rparr>) =
     (redis_read dec w)(k := dec d)"
  by (rule ext) (simp add: redis_read_def redis_live_write)

lemma redis_read_remove:
  "redis_read dec (w\<lparr>w_faults := fs, w_redis := (w_redis w)(k := None)\<rparr>) = (redis_read dec w)(k := None)"
  by (rule ext) (simp add: redis_read_def redis_live_remove)

lemma same_tables_redis [simp]:
  "same_tables w (w'\<lparr>w_redis := m\<rparr>) = same_tables w w'"
  by (simp add: same_tables_def same_elsewhere_def)

lemma RedisClient_GetJSON_run:
  assumes "run_state (RedisClient_GetJSON dec k) w = (r, w')"
  shows "\<exists>fs. w' = w\<lparr>w_faults := fs\<rparr> \<and> (\<forall>v. r = Inr v \<longrightarrow> redis_read dec w k = Some v)"
proof -
  obtain q w1 where q: "run_state (redis_cmd_get k) w = (q, w1)" by fastforce
  from redis_cmd_get_run [OF q] obtain fs where w1: "w1 = w\<lparr>w_faults := fs\<rparr>"
    and res: "\<And>v. q = Inr v \<Longrightarrow> redis_live w k = Some v" by auto
  show ?thesis
  proof (cases q)
    case (Inl e)
    then show ?thesis using assms q w1 by (auto simp: RedisClient_GetJSON_def split: if_splits)
  next
    case (Inr v)
    then show ?thesis using assms q w1 res [OF Inr]
      by (auto simp: RedisClient_GetJSON_def json_Unmarshal_def redis_read_def split: sum.splits option.splits)
  qed
qed

lemma RedisClient_SetJSON_run:
  assumes "run_state (RedisClient_SetJSON enc k v ttl) w = (r, w')"
  shows "same_tables w w' \<and>
    (r \<noteq> Inr () \<and> (\<forall>dec. redis_read dec w' = redis_read dec w) \<or>
     (\<forall>dec. redis_read dec w' = (redis_read dec w)(k := dec (enc v))))"
proof -
  obtain q w1 where q: "run_state (redis_cmd_set k (RDoc (enc v)) ttl) w = (q, w1)" by fastforce
  from assms q have "w1 = w'" "r = Inr () \<longrightarrow> q = Inr ()"
    by (auto simp: RedisClient_SetJSON_def split: sum.splits)
  with redis_cmd_set_run [OF q] show ?thesis by (auto simp: redis_read_write)
qed

lemma RedisClient_Delete_run:
  assumes "run_state (RedisClient_Delete k) w = (r, w')"
  shows "same_tables w w' \<and>
    (r \<noteq> Inr () \<and> redis_live w' = redis_live w \<or> redis_live w' = (redis_live w)(k := None))"
proof -
  obtain q w1 where q: "run_state (redis_cmd_del k) w = (q, w1)" by fastforce
  from assms q have "w1 = w'" "r = Inr () \<longrightarrow> q = Inr ()"
    by (auto simp: RedisClient_Delete_def split: sum.splits)
  with redis_cmd_del_run [OF q] show ?thesis
    by (auto simp: fun_eq_iff redis_live_remove)
qed

text \<open>A value type whose encoding decodes to itself, or not at all, is served by the cache
  contract.\<close>

lemma redis_cache_client:
  assumes rt: "\<And>v. dec (enc v) = Some v \<or> dec (enc v) = None"
  shows "cache_client (redis_CacheClient enc dec) (redis_read dec)"
proof unfold_locales
  fix k w rg w'
  assume "run_state (cache_GetJSON (redis_CacheClient enc dec) k) w = (rg, w')"
  then show "same_tables w w' \<and> redis_read dec w' = redis_read dec w"
    using RedisClient_GetJSON_run by (fastforce simp: redis_CacheClient_def)
next
  fix k w v w'
  assume "run_state (cache_GetJSON (redis_CacheClient enc dec) k) w = (Inr v, w')"
  then show "redis_read dec w k = Some v"
    using RedisClient_GetJSON_run by (fastforce simp: redis_CacheClient_def)
next
  fix ttl k v w ru w'
  assume "run_state (cache_SetJSON (redis_CacheClient enc dec) k v ttl) w = (ru, w')"
  then show "same_tables w w' \<and> (\<forall>j. j \<noteq> k \<longrightarrow> redis_read dec w' j = redis_read dec w j) \<and>
      redis_read dec w' k \<in> {redis_read dec w k, Some v, None}"
    using RedisClient_SetJSON_run [of enc k v ttl w ru w'] rt [of v]
    by (auto simp: redis_CacheClient_def dest: spec [of _ dec])
next
  fix k w ru w'
  assume "run_state (cache_Delete (redis_CacheClient enc dec) k) w = (ru, w')"
  then show "same_tables w w' \<and> (\<forall>j. j \<noteq> k \<longrightarrow> redis_read dec w' j = redis_read dec w j) \<and>
      redis_read dec w' k \<in> {redis_read dec w k, None}"
    using RedisClient_Delete_run [of k w ru w'] by (auto simp: redis_CacheClient_def redis_read_def)
next
  fix k w w'
  assume "run_state (cache_Delete (redis_CacheClient enc dec) k) w = (Inr (), w')"
  then show "redis_read dec w' k = None"
    using RedisClient_Delete_run [of k w "Inr ()" w'] by (auto simp: redis_CacheClient_def redis_read_def)
qed

end
