(* ===== verification/Caching.thy ===== *)
theory Caching
  imports Redis_Client Postgres
begin

text \<open>
  The read-through caches in front of Postgres: \<^verbatim>\<open>caching_lfs_object_repository.go\<close> and
  \<^verbatim>\<open>caching_repository_allowlist.go\<close>.  The metadata cache is shown to keep the repository
  contract of \<open>Ports\<close> for any inner repository and any cache that keep theirs: the invariant is
  that a cached entry is a copy of a stored object, at most behind it.
\<close>

section \<open>The metadata cache\<close>

record cachedMetadata =
  cm_OID :: string
  cm_Size :: int
  cm_HashAlgo :: string
  cm_StorageKey :: string
  cm_Uploaded :: bool
  cm_CreatedAt :: instant
  cm_UpdatedAt :: instant

definition cachedMetadata_fields :: "cachedMetadata field list" where
  "cachedMetadata_fields =
    [(''oid'', into_string (\<lambda>v s. s\<lparr>cm_OID := v\<rparr>)),
     (''size'', into_int64 (\<lambda>v s. s\<lparr>cm_Size := v\<rparr>)),
     (''hash_algo'', into_string (\<lambda>v s. s\<lparr>cm_HashAlgo := v\<rparr>)),
     (''storage_key'', into_string (\<lambda>v s. s\<lparr>cm_StorageKey := v\<rparr>)),
     (''uploaded'', into_bool (\<lambda>v s. s\<lparr>cm_Uploaded := v\<rparr>)),
     (''created_at'', into_time (\<lambda>v s. s\<lparr>cm_CreatedAt := v\<rparr>)),
     (''updated_at'', into_time (\<lambda>v s. s\<lparr>cm_UpdatedAt := v\<rparr>))]"

definition cachedMetadata_zero :: cachedMetadata where
  "cachedMetadata_zero = \<lparr>cm_OID = [], cm_Size = 0, cm_HashAlgo = [], cm_StorageKey = [],
     cm_Uploaded = False, cm_CreatedAt = 0, cm_UpdatedAt = 0\<rparr>"

definition cachedMetadata_json :: "cachedMetadata \<Rightarrow> json" where
  "cachedMetadata_json c = JObject [(''oid'', JString (cm_OID c)), (''size'', JInt (cm_Size c)),
     (''hash_algo'', JString (cm_HashAlgo c)), (''storage_key'', JString (cm_StorageKey c)),
     (''uploaded'', JBool (cm_Uploaded c)), (''created_at'', JTime (cm_CreatedAt c)),
     (''updated_at'', JTime (cm_UpdatedAt c))]"

definition decode_cachedMetadata :: "json \<Rightarrow> cachedMetadata option" where
  "decode_cachedMetadata = decode_struct cachedMetadata_fields cachedMetadata_zero"

definition metadata_of :: "LFSObject \<Rightarrow> cachedMetadata" where
  "metadata_of obj = \<lparr>cm_OID = OID_String (lo_oid obj), cm_Size = Size_Int64 (lo_size obj),
     cm_HashAlgo = LFSObject_HashAlgo obj, cm_StorageKey = GetStorageKey obj,
     cm_Uploaded = lo_uploaded obj, cm_CreatedAt = lo_createdAt obj, cm_UpdatedAt = lo_updatedAt obj\<rparr>"

definition cacheMetadata ::
  "cachedMetadata CacheClient \<Rightarrow> CacheKeyGenerator \<Rightarrow> duration \<Rightarrow> OID \<Rightarrow> LFSObject \<Rightarrow> unit io" where
  "cacheMetadata cacheClient keyGenerator metadataTTL oid obj = do {
     let cacheKey = gen_MetadataKey keyGenerator (OID_String oid);
     let cached = metadata_of obj;
     u \<leftarrow> cache_SetJSON cacheClient cacheKey cached metadataTTL;
     lift_result (Inr ())
   }"

text \<open>An entry whose fields do not validate counts as a miss.\<close>

definition cached_object :: "cachedMetadata \<Rightarrow> LFSObject option" where
  "cached_object cached = (case (NewOID (cm_OID cached), NewSize (cm_Size cached)) of
     (Inr cachedOID, Inr cachedSize) \<Rightarrow>
       (case ReconstructLFSObject cachedOID cachedSize (cm_HashAlgo cached) (cm_StorageKey cached)
               (cm_Uploaded cached) (cm_CreatedAt cached) (cm_UpdatedAt cached) of
          Inl reconstructErr \<Rightarrow> None | Inr obj \<Rightarrow> Some obj)
   | _ \<Rightarrow> None)"

definition caching_FindByOID ::
  "LFSObjectRepository \<Rightarrow> cachedMetadata CacheClient \<Rightarrow> CacheKeyGenerator \<Rightarrow> duration \<Rightarrow> OID \<Rightarrow> LFSObject io" where
  "caching_FindByOID repo cacheClient keyGenerator metadataTTL oid = do {
     let cacheKey = gen_MetadataKey keyGenerator (OID_String oid);
     c \<leftarrow> cache_GetJSON cacheClient cacheKey;
     case (case c of Inl err \<Rightarrow> None | Inr cached \<Rightarrow> cached_object cached) of
       Some obj \<Rightarrow> lift_result (Inr obj)
     | None \<Rightarrow> do {
         r \<leftarrow> repo_FindByOID repo oid;
         case r of
           Inl err \<Rightarrow> lift_result (Inl err)
         | Inr obj \<Rightarrow> do {
             u \<leftarrow> cacheMetadata cacheClient keyGenerator metadataTTL oid obj;
             lift_result (Inr obj)
           }
       }
   }"

definition caching_Save ::
  "LFSObjectRepository \<Rightarrow> cachedMetadata CacheClient \<Rightarrow> CacheKeyGenerator \<Rightarrow> duration \<Rightarrow> LFSObject \<Rightarrow> unit io" where
  "caching_Save repo cacheClient keyGenerator metadataTTL obj = do {
     r \<leftarrow> repo_Save repo obj;
     case r of
       Inl err \<Rightarrow> lift_result (Inl err)
     | Inr u \<Rightarrow> do {
         u' \<leftarrow> cacheMetadata cacheClient keyGenerator metadataTTL (lo_oid obj) obj;
         lift_result (Inr ())
       }
   }"

definition caching_Update ::
  "LFSObjectRepository \<Rightarrow> cachedMetadata CacheClient \<Rightarrow> CacheKeyGenerator \<Rightarrow> duration \<Rightarrow> LFSObject \<Rightarrow> unit io" where
  "caching_Update repo cacheClient keyGenerator metadataTTL obj = do {
     r \<leftarrow> repo_Update repo obj;
     case r of
       Inl err \<Rightarrow> lift_result (Inl err)
     | Inr u \<Rightarrow> do {
         u' \<leftarrow> cacheMetadata cacheClient keyGenerator metadataTTL (lo_oid obj) obj;
         lift_result (Inr ())
       }
   }"

definition caching_ExistsByOID ::
  "LFSObjectRepository \<Rightarrow> cachedMetadata CacheClient \<Rightarrow> CacheKeyGenerator \<Rightarrow> OID \<Rightarrow> bool io" where
  "caching_ExistsByOID repo cacheClient keyGenerator oid = do {
     let cacheKey = gen_MetadataKey keyGenerator (OID_String oid);
     e \<leftarrow> cache_Exists cacheClient cacheKey;
     if e = Inr True then lift_result (Inr True) else repo_ExistsByOID repo oid
   }"

definition DeleteBatchUploadKey ::
  "cachedMetadata CacheClient \<Rightarrow> CacheKeyGenerator \<Rightarrow> string \<Rightarrow> unit io" where
  "DeleteBatchUploadKey cacheClient keyGenerator oid =
     cache_Delete cacheClient (gen_BatchUploadKey keyGenerator oid)"

definition NewCachingLFSObjectRepository ::
  "LFSObjectRepository \<Rightarrow> cachedMetadata CacheClient \<Rightarrow> CacheKeyGenerator \<Rightarrow> duration \<Rightarrow> LFSObjectRepository" where
  "NewCachingLFSObjectRepository repo cacheClient keyGenerator metadataTTL =
     \<lparr>repo_FindByOID = caching_FindByOID repo cacheClient keyGenerator metadataTTL,
      repo_Save = caching_Save repo cacheClient keyGenerator metadataTTL,
      repo_Update = caching_Update repo cacheClient keyGenerator metadataTTL,
      repo_ExistsByOID = caching_ExistsByOID repo cacheClient keyGenerator\<rparr>"

section \<open>The allowlist cache\<close>

definition repositoryCacheTTL :: duration where "repositoryCacheTTL = 5 * Minute"

text \<open>\<^verbatim>\<open>repository.String()\<close> dereferences its receiver.\<close>

definition getCacheKey :: "AllowedRepository option \<Rightarrow> gerror + string" where
  "getCacheKey repository = (case repository of
     None \<Rightarrow> Inl (Panic ''nil AllowedRepository'')
   | Some ar \<Rightarrow> Inr (OIDCGitHubRepoKey (AllowedRepository_String ar)))"

definition checkCache :: "AllowlistCacheClient \<Rightarrow> string \<Rightarrow> bool io" where
  "checkCache cacheClient cacheKey = do {
     r \<leftarrow> racl_Get cacheClient cacheKey;
     case r of
       Inl err \<Rightarrow> lift_result (Inl err)
     | Inr val \<Rightarrow> lift_result (Inr (val = RText ''true''))
   }"

definition setCache :: "AllowlistCacheClient \<Rightarrow> duration \<Rightarrow> string \<Rightarrow> bool \<Rightarrow> unit io" where
  "setCache cacheClient cacheTTL cacheKey allowed = do {
     u \<leftarrow> racl_Set cacheClient cacheKey (RText (if allowed then ''true'' else ''false'')) cacheTTL;
     lift_result (Inr ())
   }"

definition caching_IsAllowed ::
  "RepositoryAllowlistRepository \<Rightarrow> AllowlistCacheClient \<Rightarrow> duration \<Rightarrow> AllowedRepository option \<Rightarrow> bool io" where
  "caching_IsAllowed pgRepo cacheClient cacheTTL repository = (case getCacheKey repository of
     Inl panic \<Rightarrow> lift_result (Inl panic)
   | Inr cacheKey \<Rightarrow> do {
       c \<leftarrow> checkCache cacheClient cacheKey;
       case c of
         Inr allowed \<Rightarrow> lift_result (Inr allowed)
       | Inl miss \<Rightarrow> do {
           r \<leftarrow> allowlist_IsAllowed pgRepo repository;
           case r of
             Inl err \<Rightarrow> lift_result (Inl (Wrap err))
           | Inr allowed \<Rightarrow> do {
               u \<leftarrow> setCache cacheClient cacheTTL cacheKey allowed;
               lift_result (Inr allowed)
             }
         }
     })"

definition caching_Add ::
  "RepositoryAllowlistRepository \<Rightarrow> AllowlistCacheClient \<Rightarrow> duration \<Rightarrow> AllowedRepository option \<Rightarrow> unit io" where
  "caching_Add pgRepo cacheClient cacheTTL repository = do {
     r \<leftarrow> allowlist_Add pgRepo repository;
     case r of
       Inl err \<Rightarrow> lift_result (Inl (Wrap err))
     | Inr u \<Rightarrow> (case getCacheKey repository of
         Inl panic \<Rightarrow> lift_result (Inl panic)
       | Inr cacheKey \<Rightarrow> do {
           u \<leftarrow> setCache cacheClient cacheTTL cacheKey True;
           lift_result (Inr ())
         })
   }"

definition caching_Remove ::
  "RepositoryAllowlistRepository \<Rightarrow> AllowlistCacheClient \<Rightarrow> AllowedRepository option \<Rightarrow> unit io" where
  "caching_Remove pgRepo cacheClient repository = do {
     r \<leftarrow> allowlist_Remove pgRepo repository;
     case r of
       Inl err \<Rightarrow> lift_result (Inl (Wrap err))
     | Inr u \<Rightarrow> (case getCacheKey repository of
         Inl panic \<Rightarrow> lift_result (Inl panic)
       | Inr cacheKey \<Rightarrow> do {
           u \<leftarrow> racl_Delete cacheClient cacheKey;
           lift_result (Inr ())
         })
   }"

definition caching_List :: "RepositoryAllowlistRepository \<Rightarrow> AllowedRepository list io" where
  "caching_List pgRepo = do {
     r \<leftarrow> allowlist_List pgRepo;
     case r of
       Inl err \<Rightarrow> lift_result (Inl (Wrap err))
     | Inr repositories \<Rightarrow> lift_result (Inr repositories)
   }"

definition NewCachingRepositoryAllowlistWithTTL ::
  "RepositoryAllowlistRepository \<Rightarrow> AllowlistCacheClient \<Rightarrow> duration \<Rightarrow> RepositoryAllowlistRepository" where
  "NewCachingRepositoryAllowlistWithTTL pgRepo cacheClient ttl =
     \<lparr>allowlist_IsAllowed = caching_IsAllowed pgRepo cacheClient ttl,
      allowlist_Add = caching_Add pgRepo cacheClient ttl,
      allowlist_Remove = caching_Remove pgRepo cacheClient,
      allowlist_List = caching_List pgRepo\<rparr>"

definition NewCachingRepositoryAllowlist ::
  "RepositoryAllowlistRepository \<Rightarrow> AllowlistCacheClient \<Rightarrow> RepositoryAllowlistRepository" where
  "NewCachingRepositoryAllowlist pgRepo cacheClient =
     NewCachingRepositoryAllowlistWithTTL pgRepo cacheClient repositoryCacheTTL"

section \<open>Coherence of the metadata cache\<close>

text \<open>Every entry a reader could use is a copy of the stored object of its key, at most behind.\<close>

definition coherent :: "(world \<Rightarrow> string \<Rightarrow> cachedMetadata option) \<Rightarrow> CacheKeyGenerator \<Rightarrow> world \<Rightarrow> bool" where
  "coherent peek keyGenerator w \<longleftrightarrow> (\<forall>oid m obj. peek w (gen_MetadataKey keyGenerator (OID_String oid)) = Some m \<longrightarrow>
     cached_object m = Some obj \<longrightarrow> lo_oid obj = oid \<and> behind w obj)"

lemma coherentD:
  "coherent peek g w \<Longrightarrow> peek w (gen_MetadataKey g (OID_String oid)) = Some m \<Longrightarrow> cached_object m = Some obj \<Longrightarrow>
     lo_oid obj = oid \<and> behind w obj"
  by (simp add: coherent_def)

lemma cached_object_metadata_of:
  "cached_object (metadata_of obj) = Some o' \<Longrightarrow> HashAlgorithm_String (lo_hashAlgo obj) = ''sha256'' \<Longrightarrow> o' = obj"
  by (cases "lo_oid obj"; cases "lo_size obj"; cases "lo_hashAlgo obj"; cases "lo_storageKey obj"; cases obj)
    (auto simp: cached_object_def metadata_of_def getter_simps NewOID_def NewSize_def ReconstructLFSObject_def
      NewHashAlgorithm_def NewStorageKey_def split: sum.splits if_splits)

text \<open>What happens to the copies when a table moves only forward.\<close>

lemma behind_table_step:
  assumes "table_step oid w w'" and "behind w obj"
  shows "behind w' obj"
proof -
  from assms(2) obtain d where d: "stored w (lo_oid obj) = Some d" "same_object obj d"
    "lo_uploaded obj \<longrightarrow> lo_uploaded d" by (auto simp: behind_def)
  show ?thesis
  proof (cases "lo_oid obj = oid")
    case True
    with assms(1) d(1) obtain d' where "stored w' oid = Some d'" "same_object d' d" "lo_uploaded d \<longrightarrow> lo_uploaded d'"
      by (auto elim: table_step_kept)
    with d True show ?thesis by (auto simp: behind_def same_object_def)
  next
    case False
    with table_step_other [OF assms(1)] d show ?thesis by (auto simp: behind_def)
  qed
qed

lemma coherent_table_step:
  assumes "coherent peek g w" and "table_step oid w w'" and "peek w' = peek w"
  shows "coherent peek g w'"
  using assms behind_table_step unfolding coherent_def by metis

lemma coherent_same_stored:
  "stored w' = stored w \<Longrightarrow> peek w' = peek w \<Longrightarrow> coherent peek g w' = coherent peek g w"
  by (simp add: coherent_def behind_def)

text \<open>
  An inner repository that keeps its contract and leaves the cache alone, behind a cache that
  keeps its own: the pair is again a metadata repository, with coherence added to the invariant.
\<close>

locale cached_objects = lfs_object_repository repo good + cache_client cache peek
  for repo :: LFSObjectRepository and good :: "world \<Rightarrow> bool"
    and cache :: "cachedMetadata CacheClient" and peek :: "world \<Rightarrow> string \<Rightarrow> cachedMetadata option" +
  fixes keygen :: CacheKeyGenerator and ttl :: duration
  assumes key_inj: "gen_MetadataKey keygen a = gen_MetadataKey keygen b \<Longrightarrow> a = b"
    and ttl_pos: "0 < ttl"
    and good_tables: "same_tables w w' \<Longrightarrow> good w \<Longrightarrow> good w'"
    and inner_find: "good w \<Longrightarrow> run_state (repo_FindByOID repo oid) w = (r, w') \<Longrightarrow> peek w' = peek w"
    and inner_save: "good w \<Longrightarrow> wf_object obj \<Longrightarrow> run_state (repo_Save repo obj) w = (ru, w') \<Longrightarrow> peek w' = peek w"
    and inner_update: "good w \<Longrightarrow> ahead w obj \<Longrightarrow> run_state (repo_Update repo obj) w = (ru, w') \<Longrightarrow> peek w' = peek w"
begin

lemma fill_keeps:
  assumes good: "good w" and coh: "coherent peek keygen w" and obj: "behind w obj"
    and run: "run_state (cacheMetadata cache keygen ttl (lo_oid obj) obj) w = (ru, w')"
  shows "good w' \<and> coherent peek keygen w' \<and> same_tables w w'"
proof -
  let ?k = "gen_MetadataKey keygen (OID_String (lo_oid obj))"
  from obj obtain d where d: "stored w (lo_oid obj) = Some d" "same_object obj d" by (auto simp: behind_def)
  from stored_wf(1) [OF good d(1)] d(2) have sha: "HashAlgorithm_String (lo_hashAlgo obj) = ''sha256''"
    by (simp add: wf_object_def same_object_def)
  obtain q where q: "run_state (cache_SetJSON cache ?k (metadata_of obj) ttl) w = (q, w')"
    using run by (cases "run_state (cache_SetJSON cache ?k (metadata_of obj) ttl) w") (auto simp: cacheMetadata_def Let_def)
  note set = set_state [OF ttl_pos q]
  then have st: "stored w' = stored w" by (auto dest: same_tables_stored)
  have "coherent peek keygen w'"
    unfolding coherent_def
  proof (intro allI impI)
    fix oid m o'
    assume m: "peek w' (gen_MetadataKey keygen (OID_String oid)) = Some m" and o': "cached_object m = Some o'"
    have "lo_oid o' = oid \<and> behind w o'"
    proof (cases "peek w (gen_MetadataKey keygen (OID_String oid)) = Some m")
      case True
      then show ?thesis using coherentD [OF coh _ o'] by blast
    next
      case False
      have k: "gen_MetadataKey keygen (OID_String oid) = ?k"
      proof (rule ccontr)
        assume "gen_MetadataKey keygen (OID_String oid) \<noteq> ?k"
        with set m False show False by simp
      qed
      with set m False have "m = metadata_of obj" by auto
      with o' sha have "o' = obj" by (auto dest: cached_object_metadata_of)
      moreover from key_inj [OF k] have "OID_String oid = OID_String (lo_oid obj)" .
      ultimately have "OID_String oid = OID_String (lo_oid obj)" "o' = obj" by simp_all
      with obj show ?thesis by simp
    qed
    then show "lo_oid o' = oid \<and> behind w' o'" by (auto simp: behind_def st)
  qed
  moreover from set have "same_tables w w'" by simp
  moreover from this good have "good w'" by (rule good_tables)
  ultimately show ?thesis by simp
qed

text \<open>The three outcomes of a lookup: an entry, an error of the inner repository, its answer.\<close>

lemma find_cases:
  assumes "run_state (caching_FindByOID repo cache keygen ttl oid) w = (r, w')"
  obtains (hit) m obj where "run_state (cache_GetJSON cache (gen_MetadataKey keygen (OID_String oid))) w = (Inr m, w')"
      "cached_object m = Some obj" "r = Inr obj"
  | (failed) c w1 e where "run_state (cache_GetJSON cache (gen_MetadataKey keygen (OID_String oid))) w = (c, w1)"
      "run_state (repo_FindByOID repo oid) w1 = (Inl e, w')" "r = Inl e"
  | (loaded) c w1 obj w2 u where "run_state (cache_GetJSON cache (gen_MetadataKey keygen (OID_String oid))) w = (c, w1)"
      "run_state (repo_FindByOID repo oid) w1 = (Inr obj, w2)"
      "run_state (cacheMetadata cache keygen ttl oid obj) w2 = (u, w')" "r = Inr obj"
proof -
  obtain c w1 where c: "run_state (cache_GetJSON cache (gen_MetadataKey keygen (OID_String oid))) w = (c, w1)"
    by fastforce
  show thesis
  proof (cases "case c of Inl err \<Rightarrow> None | Inr cached \<Rightarrow> cached_object cached")
    case (Some obj)
    then obtain m where "c = Inr m" "cached_object m = Some obj" by (auto split: sum.splits)
    with assms c Some show thesis by (intro hit) (auto simp: caching_FindByOID_def Let_def)
  next
    case None
    obtain q w2 where q: "run_state (repo_FindByOID repo oid) w1 = (q, w2)" by fastforce
    show thesis
    proof (cases q)
      case (Inl e)
      with assms c None q show thesis by (intro failed) (auto simp: caching_FindByOID_def Let_def)
    next
      case (Inr obj)
      obtain u w3 where "run_state (cacheMetadata cache keygen ttl oid obj) w2 = (u, w3)" by fastforce
      with assms c None q Inr show thesis by (intro loaded) (auto simp: caching_FindByOID_def Let_def)
    qed
  qed
qed

lemma caching_find:
  assumes good: "good w" and coh: "coherent peek keygen w"
    and run: "run_state (caching_FindByOID repo cache keygen ttl oid) w = (r, w')"
  shows "good w' \<and> coherent peek keygen w' \<and> same_elsewhere w w' \<and> stored w' = stored w \<and>
    (\<forall>obj. r = Inr obj \<longrightarrow> lo_oid obj = oid \<and> behind w obj) \<and>
    (\<forall>e. r = Inl e \<longrightarrow> errors_Is e (Domain ErrNotFound) \<longrightarrow> stored w oid = None)"
proof -
  have after_get: "good v \<and> coherent peek keygen v \<and> same_elsewhere w v \<and> stored v = stored w"
    if "run_state (cache_GetJSON cache k) w = (c, v)" for k c v
  proof -
    from get_state [OF that] have st: "same_tables w v" and pk: "peek v = peek w" by auto
    from st good have "good v" by (rule good_tables)
    with st pk coh coherent_same_stored [OF same_tables_stored [OF st] pk]
    show ?thesis by (simp add: same_tables_stored) (simp add: same_tables_def)
  qed
  have after_find: "good u \<and> coherent peek keygen u \<and> same_elsewhere w u \<and> stored u = stored w"
    if "run_state (cache_GetJSON cache k) w = (c, v)" "run_state (repo_FindByOID repo oid) v = (q, u)" for k c v q u
  proof -
    note v = after_get [OF that(1)]
    then have good_v: "good v" by simp
    from find_state [OF good_v that(2)] have f: "good u" "same_elsewhere v u" "stored u = stored v" by auto
    from v f(2) have "same_elsewhere w u" by (auto intro: same_elsewhere_trans)
    with v f coherent_same_stored [OF f(3) inner_find [OF good_v that(2)]] show ?thesis by simp
  qed
  from run show ?thesis
  proof (cases rule: find_cases)
    case (hit m obj)
    from get_hit [OF hit(1)] coherentD [OF coh _ hit(2)] have "lo_oid obj = oid \<and> behind w obj" by blast
    with hit(3) after_get [OF hit(1)] show ?thesis by simp
  next
    case (failed c w1 e)
    from after_get [OF failed(1)] have v: "good w1" "stored w1 = stored w" by auto
    from find_missing [OF v(1) failed(2)] v(2) failed(3) after_find [OF failed(1,2)] show ?thesis by simp
  next
    case (loaded c w1 obj w2 u)
    note v = after_get [OF loaded(1)] and x = after_find [OF loaded(1,2)]
    have obj: "lo_oid obj = oid" "behind w1 obj" using find_sound [OF _ loaded(2)] v by auto
    then have "behind w obj" "behind w2 obj" using v x by (auto simp: behind_def)
    with fill_keeps [of w2 obj u w'] loaded(3) x obj
    have "good w' \<and> coherent peek keygen w' \<and> same_tables w2 w'" by simp
    moreover from this x have "same_elsewhere w w'" by (auto simp: same_tables_def intro: same_elsewhere_trans)
    moreover have "stored w' = stored w2"
      using \<open>good w' \<and> coherent peek keygen w' \<and> same_tables w2 w'\<close> by (simp add: same_tables_stored)
    ultimately show ?thesis using x obj(1) \<open>behind w obj\<close> loaded(4) by simp
  qed
qed

text \<open>Both writers have this shape: the inner write, then the copy when it succeeded.\<close>

lemma write_through:
  assumes good: "good w" and coh: "coherent peek keygen w"
    and inner: "run_state m w = (q, v)"
    and moved: "good v \<and> same_elsewhere w v" and step: "table_step (lo_oid obj) w v" and pk: "peek v = peek w"
    and fin: "q = Inr () \<Longrightarrow> \<exists>d. stored v (lo_oid obj) = Some d \<and> same_state d obj"
    and run: "(case q of Inl err \<Rightarrow> (Inl err, v)
      | Inr u \<Rightarrow> (Inr (), snd (run_state (cacheMetadata cache keygen ttl (lo_oid obj) obj) v))) = (r, w')"
  shows "good w' \<and> coherent peek keygen w' \<and> same_elsewhere w w' \<and> (r = Inr () \<longrightarrow> q = Inr ()) \<and> stored w' = stored v"
proof (cases q)
  case (Inl e)
  with run moved coherent_table_step [OF coh step pk] show ?thesis by auto
next
  case (Inr u)
  then have "q = Inr ()" by (cases u) simp
  from fin [OF this] have "behind v obj"
    by (auto simp: behind_def same_state_def intro: same_object_sym)
  moreover have "coherent peek keygen v" using coherent_table_step [OF coh step pk] .
  moreover obtain x w2 where x: "run_state (cacheMetadata cache keygen ttl (lo_oid obj) obj) v = (x, w2)" by fastforce
  ultimately have f: "good w2 \<and> coherent peek keygen w2 \<and> same_tables v w2"
    using fill_keeps moved by blast
  then have st: "stored w2 = stored v" and el: "same_elsewhere v w2"
    by (simp add: same_tables_stored) (simp add: f [unfolded same_tables_def])
  have "same_elsewhere w w2" using moved el same_elsewhere_trans by blast
  with run x f st \<open>q = Inr ()\<close> show ?thesis by simp
qed

lemma caching_Save_run:
  "run_state (caching_Save repo cache keygen ttl obj) w = (case run_state (repo_Save repo obj) w of
     (q, v) \<Rightarrow> (case q of Inl err \<Rightarrow> (Inl err, v)
      | Inr u \<Rightarrow> (Inr (), snd (run_state (cacheMetadata cache keygen ttl (lo_oid obj) obj) v))))"
  by (auto simp: caching_Save_def split: prod.splits sum.splits)

lemma caching_Update_run:
  "run_state (caching_Update repo cache keygen ttl obj) w = (case run_state (repo_Update repo obj) w of
     (q, v) \<Rightarrow> (case q of Inl err \<Rightarrow> (Inl err, v)
      | Inr u \<Rightarrow> (Inr (), snd (run_state (cacheMetadata cache keygen ttl (lo_oid obj) obj) v))))"
  by (auto simp: caching_Update_def split: prod.splits sum.splits)

lemma caching_save:
  assumes good: "good w" and coh: "coherent peek keygen w" and obj: "wf_object obj"
    and run: "run_state (caching_Save repo cache keygen ttl obj) w = (r, w')"
  shows "good w' \<and> coherent peek keygen w' \<and> same_elsewhere w w' \<and> table_write obj w w' \<and>
    (stored w (lo_oid obj) \<noteq> None \<longrightarrow> stored w' = stored w) \<and>
    (r = Inr () \<longrightarrow> stored w (lo_oid obj) = None \<and> (\<exists>d. stored w' (lo_oid obj) = Some d \<and> same_state d obj))"
proof -
  obtain q v where q: "run_state (repo_Save repo obj) w = (q, v)" by fastforce
  note st = save_state [OF good obj q]
  have step: "table_step (lo_oid obj) w v" using st table_write_new by blast
  have fin: "q = Inr () \<Longrightarrow> stored w (lo_oid obj) = None \<and> (\<exists>d. stored v (lo_oid obj) = Some d \<and> same_state d obj)"
    using save_done [OF good obj] q by blast
  have "good w' \<and> coherent peek keygen w' \<and> same_elsewhere w w' \<and> (r = Inr () \<longrightarrow> q = Inr ()) \<and> stored w' = stored v"
    by (rule write_through [OF good coh q _ step inner_save [OF good obj q]]) (use st fin run q in \<open>auto simp: caching_Save_run\<close>)
  moreover from this st have "table_write obj w w'" by (blast intro: table_write_stored)
  ultimately show ?thesis using st fin by simp
qed

lemma caching_update:
  assumes good: "good w" and coh: "coherent peek keygen w" and obj: "ahead w obj"
    and run: "run_state (caching_Update repo cache keygen ttl obj) w = (r, w')"
  shows "good w' \<and> coherent peek keygen w' \<and> same_elsewhere w w' \<and> table_write obj w w' \<and>
    (r = Inr () \<longrightarrow> (\<exists>d. stored w' (lo_oid obj) = Some d \<and> same_state d obj))"
proof -
  obtain q v where q: "run_state (repo_Update repo obj) w = (q, v)" by fastforce
  note st = update_state [OF good obj q]
  have step: "table_step (lo_oid obj) w v" using st obj table_write_ahead by blast
  have fin: "q = Inr () \<Longrightarrow> \<exists>d. stored v (lo_oid obj) = Some d \<and> same_state d obj"
    using update_done [OF good obj] q by blast
  have "good w' \<and> coherent peek keygen w' \<and> same_elsewhere w w' \<and> (r = Inr () \<longrightarrow> q = Inr ()) \<and> stored w' = stored v"
    by (rule write_through [OF good coh q _ step inner_update [OF good obj q]]) (use st fin run q in \<open>auto simp: caching_Update_run\<close>)
  moreover from this st have "table_write obj w w'" by (blast intro: table_write_stored)
  ultimately show ?thesis using st fin by simp
qed

end

sublocale cached_objects \<subseteq> cached: lfs_object_repository
  "NewCachingLFSObjectRepository repo cache keygen ttl" "\<lambda>w. good w \<and> coherent peek keygen w"
proof unfold_locales
  fix w
  assume "good w \<and> coherent peek keygen w"
  then show "wf_objects w" using good_wf by blast
next
  fix w oid rf w'
  assume "good w \<and> coherent peek keygen w"
    "run_state (repo_FindByOID (NewCachingLFSObjectRepository repo cache keygen ttl) oid) w = (rf, w')"
  then show "(good w' \<and> coherent peek keygen w') \<and> same_elsewhere w w' \<and> stored w' = stored w"
    using caching_find [of w oid rf w'] by (simp add: NewCachingLFSObjectRepository_def)
next
  fix w oid obj w'
  assume "good w \<and> coherent peek keygen w"
    "run_state (repo_FindByOID (NewCachingLFSObjectRepository repo cache keygen ttl) oid) w = (Inr obj, w')"
  then show "lo_oid obj = oid \<and> behind w obj"
    using caching_find [of w oid "Inr obj" w'] by (simp add: NewCachingLFSObjectRepository_def)
next
  fix w oid e w'
  assume "good w \<and> coherent peek keygen w" "errors_Is e (Domain ErrNotFound)"
    "run_state (repo_FindByOID (NewCachingLFSObjectRepository repo cache keygen ttl) oid) w = (Inl e, w')"
  then show "stored w oid = None"
    using caching_find [of w oid "Inl e" w'] by (simp add: NewCachingLFSObjectRepository_def)
next
  fix w obj ru w'
  assume "good w \<and> coherent peek keygen w" "wf_object obj"
    "run_state (repo_Save (NewCachingLFSObjectRepository repo cache keygen ttl) obj) w = (ru, w')"
  then show "(good w' \<and> coherent peek keygen w') \<and> same_elsewhere w w' \<and> table_write obj w w' \<and>
      (stored w (lo_oid obj) \<noteq> None \<longrightarrow> stored w' = stored w)"
    using caching_save [of w obj ru w'] by (simp add: NewCachingLFSObjectRepository_def)
next
  fix w obj w'
  assume "good w \<and> coherent peek keygen w" "wf_object obj"
    "run_state (repo_Save (NewCachingLFSObjectRepository repo cache keygen ttl) obj) w = (Inr (), w')"
  then show "stored w (lo_oid obj) = None \<and> (\<exists>d. stored w' (lo_oid obj) = Some d \<and> same_state d obj)"
    using caching_save [of w obj "Inr ()" w'] by (simp add: NewCachingLFSObjectRepository_def)
next
  fix w obj ru w'
  assume "good w \<and> coherent peek keygen w" "ahead w obj"
    "run_state (repo_Update (NewCachingLFSObjectRepository repo cache keygen ttl) obj) w = (ru, w')"
  then show "(good w' \<and> coherent peek keygen w') \<and> same_elsewhere w w' \<and> table_write obj w w'"
    using caching_update [of w obj ru w'] by (simp add: NewCachingLFSObjectRepository_def)
next
  fix w obj w'
  assume "good w \<and> coherent peek keygen w" "ahead w obj"
    "run_state (repo_Update (NewCachingLFSObjectRepository repo cache keygen ttl) obj) w = (Inr (), w')"
  then show "\<exists>d. stored w' (lo_oid obj) = Some d \<and> same_state d obj"
    using caching_update [of w obj "Inr ()" w'] by (simp add: NewCachingLFSObjectRepository_def)
qed

section \<open>The pair \<^verbatim>\<open>main\<close> builds: Redis in front of Postgres\<close>

definition redis_metadata_cache :: "cachedMetadata CacheClient" where
  "redis_metadata_cache = redis_CacheClient cachedMetadata_json decode_cachedMetadata"

definition redis_peek :: "world \<Rightarrow> string \<Rightarrow> cachedMetadata option" where
  "redis_peek = redis_read decode_cachedMetadata"

definition cached_repository :: LFSObjectRepository where
  "cached_repository = NewCachingLFSObjectRepository NewLFSObjectRepository redis_metadata_cache
     NewCacheKeyGenerator CacheConfig_MetadataTTL"

definition coherent_world :: "world \<Rightarrow> bool" where
  "coherent_world w \<longleftrightarrow> wf_objects w \<and> coherent redis_peek NewCacheKeyGenerator w"

lemma cachedMetadata_field_for:
  "field_for cachedMetadata_fields ''oid'' = Some (into_string (\<lambda>v s. s\<lparr>cm_OID := v\<rparr>))"
  "field_for cachedMetadata_fields ''size'' = Some (into_int64 (\<lambda>v s. s\<lparr>cm_Size := v\<rparr>))"
  "field_for cachedMetadata_fields ''hash_algo'' = Some (into_string (\<lambda>v s. s\<lparr>cm_HashAlgo := v\<rparr>))"
  "field_for cachedMetadata_fields ''storage_key'' = Some (into_string (\<lambda>v s. s\<lparr>cm_StorageKey := v\<rparr>))"
  "field_for cachedMetadata_fields ''uploaded'' = Some (into_bool (\<lambda>v s. s\<lparr>cm_Uploaded := v\<rparr>))"
  "field_for cachedMetadata_fields ''created_at'' = Some (into_time (\<lambda>v s. s\<lparr>cm_CreatedAt := v\<rparr>))"
  "field_for cachedMetadata_fields ''updated_at'' = Some (into_time (\<lambda>v s. s\<lparr>cm_UpdatedAt := v\<rparr>))"
  by (simp_all add: field_for_def cachedMetadata_fields_def)

lemma cachedMetadata_roundtrip:
  "decode_cachedMetadata (cachedMetadata_json c) = (if int64_range (cm_Size c) then Some c else None)"
  by (cases c) (simp add: decode_cachedMetadata_def decode_struct_def cachedMetadata_json_def
      cachedMetadata_field_for into_defs cachedMetadata_zero_def)

lemma redis_metadata_cache_client: "cache_client redis_metadata_cache redis_peek"
  unfolding redis_metadata_cache_def redis_peek_def
  by (rule redis_cache_client) (simp add: cachedMetadata_roundtrip)

interpretation metadata_cache: cache_client redis_metadata_cache redis_peek
  by (rule redis_metadata_cache_client)

text \<open>The Postgres repository never touches the keyspace.\<close>

lemma redis_peek_kept:
  assumes "w_redis w' = w_redis w" and "w_now w' = w_now w"
  shows "redis_peek w' = redis_peek w"
proof (rule ext)
  fix k
  have "redis_live w' k = redis_live w k" using assms by (simp add: redis_live_def split: option.split prod.split)
  then show "redis_peek w' k = redis_peek w k" by (simp add: redis_peek_def redis_read_def)
qed

interpretation caching_objects: cached_objects NewLFSObjectRepository wf_objects redis_metadata_cache redis_peek
  NewCacheKeyGenerator CacheConfig_MetadataTTL
proof unfold_locales
  fix a b
  assume "gen_MetadataKey NewCacheKeyGenerator a = gen_MetadataKey NewCacheKeyGenerator b"
  then show "a = b" by (simp add: NewCacheKeyGenerator_def)
next
  show "0 < CacheConfig_MetadataTTL"
    by (simp add: CacheConfig_MetadataTTL_def MetadataTTL_def Minute_def Second_def)
next
  fix w w'
  assume "same_tables w w'" "wf_objects w"
  then show "wf_objects w'" by (simp add: same_tables_wf)
next
  fix w oid r w'
  assume "wf_objects w" "run_state (repo_FindByOID NewLFSObjectRepository oid) w = (r, w')"
  then obtain fs where "w' = w\<lparr>w_faults := fs\<rparr>" using pg_FindByOID_run by (force simp: NewLFSObjectRepository_def)
  then show "redis_peek w' = redis_peek w" by (simp add: redis_peek_def)
next
  fix w obj ru w'
  assume "wf_objects w" "wf_object obj" "run_state (repo_Save NewLFSObjectRepository obj) w = (ru, w')"
  then have "only_table w w'" using pg_Save_run by (fastforce simp: NewLFSObjectRepository_def)
  then show "redis_peek w' = redis_peek w" by (intro redis_peek_kept) (simp_all add: only_table_def same_elsewhere_def)
next
  fix w obj ru w'
  assume "wf_objects w" "ahead w obj" "run_state (repo_Update NewLFSObjectRepository obj) w = (ru, w')"
  then have "only_table w w'" using pg_Update_run by (fastforce simp: NewLFSObjectRepository_def)
  then show "redis_peek w' = redis_peek w" by (intro redis_peek_kept) (simp_all add: only_table_def same_elsewhere_def)
qed

text \<open>The contract of the repository the use cases are given in \<^verbatim>\<open>main\<close>.\<close>

interpretation metadata: lfs_object_repository cached_repository coherent_world
  unfolding cached_repository_def coherent_world_def [abs_def]
  by (rule caching_objects.cached.lfs_object_repository_axioms)

end
