(* ===== verification/Batch.thy ===== *)
theory Batch
  imports Batch_Api Authorization Storage Caching
begin

text \<open>
  The batch use cases: \<^verbatim>\<open>upload_usecase.go\<close>, \<^verbatim>\<open>download_usecase.go\<close>, \<^verbatim>\<open>batch_upload_usecase.go\<close>,
  \<^verbatim>\<open>batch_download_usecase.go\<close>, \<^verbatim>\<open>batch_usecase.go\<close>.  A Go interface value of another use case is
  its one method.  The per-object handlers return a response object and no error, so their type
  has no sum.
\<close>

record ActionURLGenerator =
  url_Upload :: "string \<Rightarrow> string \<Rightarrow> string \<Rightarrow> string \<Rightarrow> string"
  url_Download :: "string \<Rightarrow> string \<Rightarrow> string \<Rightarrow> string \<Rightarrow> string"

definition NewProxyActionURLGenerator :: ActionURLGenerator where
  "NewProxyActionURLGenerator = \<lparr>url_Upload = GenerateUploadURL, url_Download = GenerateDownloadURL\<rparr>"

type_synonym StorageKeyGenerator = "string \<Rightarrow> string \<Rightarrow> gerror + string"

definition DefaultTransferType :: string where "DefaultTransferType = ''basic''"
definition DefaultHashAlgorithm :: string where "DefaultHashAlgorithm = ''sha256''"
definition PresignedURLTTL :: duration where "PresignedURLTTL = 15 * Minute"

section \<open>One object\<close>

definition object_failure :: "OID \<Rightarrow> Size \<Rightarrow> int \<Rightarrow> message \<Rightarrow> ResponseObject" where
  "object_failure oid sz code msg =
     NewResponseObject (OID_String oid) (Size_Int64 sz) False None (Some (NewObjectError code (message_text msg)))"

definition auth_header :: "string \<Rightarrow> header_map" where
  "auth_header authHeader = (if authHeader \<noteq> [] then header_put ''Authorization'' authHeader [] else [])"

definition upload_response ::
  "ActionURLGenerator \<Rightarrow> string \<Rightarrow> string \<Rightarrow> string \<Rightarrow> OID \<Rightarrow> Size \<Rightarrow> string \<Rightarrow> ResponseObject" where
  "upload_response urlGenerator baseURL owner repo oid sz authHeader =
     (let uploadURL = url_Upload urlGenerator baseURL owner repo (OID_String oid);
          uploadAction = NewAction uploadURL (auth_header authHeader) (PresignedURLTTL div Second);
          actions = NewActions (Some uploadAction) None
      in NewResponseObject (OID_String oid) (Size_Int64 sz) True (Some actions) None)"

definition HandleUploadObject ::
  "LFSObjectRepository \<Rightarrow> ActionURLGenerator \<Rightarrow> StorageKeyGenerator \<Rightarrow> string \<Rightarrow> string \<Rightarrow> string \<Rightarrow>
     OID \<Rightarrow> Size \<Rightarrow> string \<Rightarrow> string \<Rightarrow> (world, ResponseObject) state" where
  "HandleUploadObject lfsRepo urlGenerator storageKeyGenerator baseURL owner repo oid sz hashAlgo authHeader = do {
     found \<leftarrow> repo_FindByOID lfsRepo oid;
     case found of
       Inl err \<Rightarrow>
         if \<not> errors_Is err (Domain ErrNotFound)
         then State_Monad.return (object_failure oid sz 500 MsgMetadataFetchFailed)
         else (case storageKeyGenerator (OID_String oid) hashAlgo of
           Inl err \<Rightarrow> State_Monad.return (object_failure oid sz 400 MsgInvalidStorageKeyParameter)
         | Inr storageKey \<Rightarrow> (case NewHashAlgorithm hashAlgo of
             Inl err \<Rightarrow> State_Monad.return (object_failure oid sz 400 MsgInvalidHashAlgorithmObject)
           | Inr hashAlgorithm \<Rightarrow> do {
               now \<leftarrow> State (\<lambda>w. (w_now w, w));
               case NewLFSObject now oid sz hashAlgorithm storageKey of
                 Inl err \<Rightarrow> State_Monad.return (object_failure oid sz 500 MsgMetadataCreateFailed)
               | Inr newObj \<Rightarrow> do {
                   saved \<leftarrow> repo_Save lfsRepo newObj;
                   case saved of
                     Inl saveErr \<Rightarrow> State_Monad.return (object_failure oid sz 500 MsgMetadataSaveFailed)
                   | Inr u \<Rightarrow> State_Monad.return (upload_response urlGenerator baseURL owner repo oid sz authHeader)
                 }
             }))
     | Inr obj \<Rightarrow>
         if lo_uploaded obj then
           (if Size_Int64 (lo_size obj) \<noteq> Size_Int64 sz
            then State_Monad.return (object_failure oid sz 409 MsgSizeConflict)
            else State_Monad.return (NewResponseObject (OID_String oid) (Size_Int64 sz) True None None))
         else State_Monad.return (upload_response urlGenerator baseURL owner repo oid sz authHeader)
   }"

definition HandleDownloadObject ::
  "LFSObjectRepository \<Rightarrow> ActionURLGenerator \<Rightarrow> string \<Rightarrow> string \<Rightarrow> string \<Rightarrow>
     OID \<Rightarrow> Size \<Rightarrow> string \<Rightarrow> (world, ResponseObject) state" where
  "HandleDownloadObject lfsRepo urlGenerator baseURL owner repo oid sz authHeader = do {
     found \<leftarrow> repo_FindByOID lfsRepo oid;
     case found of
       Inl err \<Rightarrow>
         if errors_Is err (Domain ErrNotFound)
         then State_Monad.return (object_failure oid sz 404 MsgObjectMissing)
         else State_Monad.return (object_failure oid sz 500 MsgMetadataFetchFailed)
     | Inr obj \<Rightarrow>
         if \<not> lo_uploaded obj then State_Monad.return (object_failure oid sz 404 MsgNotUploadedYet)
         else (let downloadURL = url_Download urlGenerator baseURL owner repo (OID_String oid);
                   downloadAction = NewAction downloadURL (auth_header authHeader) (PresignedURLTTL div Second);
                   actions = NewActions None (Some downloadAction)
               in State_Monad.return (NewResponseObject (OID_String oid) (Size_Int64 sz) True (Some actions) None))
   }"

section \<open>A batch\<close>

type_synonym UploadUseCase =
  "string \<Rightarrow> string \<Rightarrow> string \<Rightarrow> OID \<Rightarrow> Size \<Rightarrow> string \<Rightarrow> string \<Rightarrow> (world, ResponseObject) state"

type_synonym DownloadUseCase =
  "string \<Rightarrow> string \<Rightarrow> string \<Rightarrow> OID \<Rightarrow> Size \<Rightarrow> string \<Rightarrow> (world, ResponseObject) state"

type_synonym BatchUseCaseMethod =
  "string \<Rightarrow> string \<Rightarrow> string \<Rightarrow> BatchRequest \<Rightarrow> string \<Rightarrow> BatchResponse io"

definition createAccessPolicy :: "AccessPolicyRepository \<Rightarrow> OID \<Rightarrow> RepositoryIdentifier option \<Rightarrow> unit io" where
  "createAccessPolicy policyRepo oid repo = (case NewAccessPolicyID 0 of
     Inl err \<Rightarrow> lift_result (Inl err)
   | Inr policyID \<Rightarrow> do {
       now \<leftarrow> State (\<lambda>w. (w_now w, w));
       policy_Save policyRepo (NewAccessPolicy policyID oid repo now)
     })"

text \<open>The loop over the request's objects; an error abandons the rest of the batch, and what was
  saved before stays.\<close>

fun batch_upload_objects ::
  "UploadUseCase \<Rightarrow> AccessAuthorizationService \<Rightarrow> AccessPolicyRepository \<Rightarrow> string \<Rightarrow> string \<Rightarrow> string \<Rightarrow>
     RepositoryIdentifier option \<Rightarrow> string \<Rightarrow> string \<Rightarrow> RequestObject list \<Rightarrow> ResponseObject list io" where
  "batch_upload_objects uploadUseCase authService policyRepo baseURL owner repo repository hashAlgo authHeader [] =
     lift_result (Inr [])"
| "batch_upload_objects uploadUseCase authService policyRepo baseURL owner repo repository hashAlgo authHeader
       (reqObj # reqObjs) = (case NewOID (ro_oid reqObj) of
     Inl err \<Rightarrow> lift_result (Inl (Wrap err))
   | Inr oid \<Rightarrow> (case NewSize (ro_size reqObj) of
       Inl err \<Rightarrow> lift_result (Inl (Wrap err))
     | Inr sz \<Rightarrow> do {
         a \<leftarrow> CheckAuthorization authService OperationUpload repository oid;
         case a of
           Inl err \<Rightarrow> lift_result (Inl err)
         | Inr authResult \<Rightarrow>
             if \<not> auth_Allowed authResult then lift_result (Inl (Usecase UErrAccessDenied))
             else do {
               respObj \<leftarrow> uploadUseCase baseURL owner repo oid sz hashAlgo authHeader;
               p \<leftarrow> (if auth_IsNewObject authResult \<and> rs_error respObj = None
                    then createAccessPolicy policyRepo oid repository else lift_result (Inr ()));
               case p of
                 Inl err \<Rightarrow> lift_result (Inl (Wrap err))
               | Inr u \<Rightarrow> do {
                   rest \<leftarrow> batch_upload_objects uploadUseCase authService policyRepo baseURL owner repo
                     repository hashAlgo authHeader reqObjs;
                   case rest of
                     Inl err \<Rightarrow> lift_result (Inl err)
                   | Inr respObjs \<Rightarrow> lift_result (Inr (respObj # respObjs))
                 }
             }
       }))"

definition HandleBatchUpload ::
  "UploadUseCase \<Rightarrow> AccessAuthorizationService \<Rightarrow> AccessPolicyRepository \<Rightarrow> BatchUseCaseMethod" where
  "HandleBatchUpload uploadUseCase authService policyRepo baseURL owner repo req authHeader =
     (case BatchRequest_Validate req of
        Some err \<Rightarrow> lift_result (Inl err)
      | None \<Rightarrow>
          if br_operation req \<noteq> OperationUpload then lift_result (Inl (Usecase UErrInvalidOperation))
          else let hashAlgo = (if br_hashAlgo req = [] then DefaultHashAlgorithm else br_hashAlgo req) in do {
            r \<leftarrow> batch_upload_objects uploadUseCase authService policyRepo baseURL owner repo
              (br_repository req) hashAlgo authHeader (br_objects req);
            case r of
              Inl err \<Rightarrow> lift_result (Inl err)
            | Inr objects \<Rightarrow> lift_result (Inr (NewBatchResponse DefaultTransferType objects hashAlgo))
          })"

fun batch_download_objects ::
  "DownloadUseCase \<Rightarrow> AccessAuthorizationService \<Rightarrow> string \<Rightarrow> string \<Rightarrow> string \<Rightarrow>
     RepositoryIdentifier option \<Rightarrow> string \<Rightarrow> RequestObject list \<Rightarrow> ResponseObject list io" where
  "batch_download_objects downloadUseCase authService baseURL owner repo repository authHeader [] =
     lift_result (Inr [])"
| "batch_download_objects downloadUseCase authService baseURL owner repo repository authHeader (reqObj # reqObjs) =
    (case NewOID (ro_oid reqObj) of
       Inl err \<Rightarrow> lift_result (Inl (Wrap err))
     | Inr oid \<Rightarrow> (case NewSize (ro_size reqObj) of
         Inl err \<Rightarrow> lift_result (Inl (Wrap err))
       | Inr sz \<Rightarrow> do {
           a \<leftarrow> CheckAuthorization authService OperationDownload repository oid;
           case a of
             Inl err \<Rightarrow> lift_result (Inl err)
           | Inr authResult \<Rightarrow>
               if \<not> auth_Allowed authResult then lift_result (Inl (Usecase UErrAccessDenied))
               else do {
                 respObj \<leftarrow> downloadUseCase baseURL owner repo oid sz authHeader;
                 rest \<leftarrow> batch_download_objects downloadUseCase authService baseURL owner repo
                   repository authHeader reqObjs;
                 case rest of
                   Inl err \<Rightarrow> lift_result (Inl err)
                 | Inr respObjs \<Rightarrow> lift_result (Inr (respObj # respObjs))
               }
         }))"

definition HandleBatchDownload :: "DownloadUseCase \<Rightarrow> AccessAuthorizationService \<Rightarrow> BatchUseCaseMethod" where
  "HandleBatchDownload downloadUseCase authService baseURL owner repo req authHeader =
     (case BatchRequest_Validate req of
        Some err \<Rightarrow> lift_result (Inl err)
      | None \<Rightarrow>
          if br_operation req \<noteq> OperationDownload then lift_result (Inl (Usecase UErrInvalidOperation))
          else let hashAlgo = (if br_hashAlgo req = [] then DefaultHashAlgorithm else br_hashAlgo req) in do {
            r \<leftarrow> batch_download_objects downloadUseCase authService baseURL owner repo
              (br_repository req) authHeader (br_objects req);
            case r of
              Inl err \<Rightarrow> lift_result (Inl err)
            | Inr objects \<Rightarrow> lift_result (Inr (NewBatchResponse DefaultTransferType objects hashAlgo))
          })"

record BatchUseCase =
  uc_download :: BatchUseCaseMethod
  uc_upload :: BatchUseCaseMethod

definition NewBatchUseCase ::
  "LFSObjectRepository \<Rightarrow> ActionURLGenerator \<Rightarrow> AccessPolicyRepository \<Rightarrow> StorageKeyGenerator \<Rightarrow>
     AccessAuthorizationService \<Rightarrow> BatchUseCase" where
  "NewBatchUseCase repo urlGenerator policyRepo storageKeyGenerator accessAuthService =
     \<lparr>uc_download = HandleBatchDownload (HandleDownloadObject repo urlGenerator) accessAuthService,
      uc_upload = HandleBatchUpload (HandleUploadObject repo urlGenerator storageKeyGenerator) accessAuthService policyRepo\<rparr>"

definition HandleBatchRequest :: "BatchUseCase \<Rightarrow> BatchUseCaseMethod" where
  "HandleBatchRequest uc baseURL owner repo req authHeader =
     (if br_operation req = OperationDownload then uc_download uc baseURL owner repo req authHeader
      else uc_upload uc baseURL owner repo req authHeader)"

section \<open>What one object's handler does\<close>

text \<open>The answer to an upload request that is not a failure: nothing to do, or one upload link.\<close>

definition upload_answer :: "ResponseObject \<Rightarrow> LFSObject \<Rightarrow> bool" where
  "upload_answer resp d \<longleftrightarrow> (case rs_actions resp of
     None \<Rightarrow> lo_uploaded d \<and> Size_Int64 (lo_size d) = rs_size resp
   | Some a \<Rightarrow> as_download a = None \<and> as_upload a \<noteq> None)"

lemma object_failure_simps [simp]:
  "rs_oid (object_failure oid sz c m) = OID_String oid" "rs_size (object_failure oid sz c m) = Size_Int64 sz"
  "rs_error (object_failure oid sz c m) \<noteq> None"
  by (simp_all add: object_failure_def NewResponseObject_def)

lemma upload_response_simps [simp]:
  "rs_oid (upload_response g b ow re oid sz a) = OID_String oid"
  "rs_size (upload_response g b ow re oid sz a) = Size_Int64 sz"
  "rs_error (upload_response g b ow re oid sz a) = None"
  "upload_answer (upload_response g b ow re oid sz a) d"
  by (simp_all add: upload_response_def NewResponseObject_def upload_answer_def NewActions_def Let_def)

context lfs_object_repository
begin

lemma HandleUploadObject_run:
  assumes good: "good w" and oid: "oidPattern (OID_String oid)" and sz: "0 \<le> Size_Int64 sz"
    and run: "run_state (HandleUploadObject repo g kg baseURL ow re oid sz hashAlgo ah) w = (resp, w')"
  shows "good w' \<and> same_elsewhere w w' \<and> table_step oid w w' \<and> (stored w oid \<noteq> None \<longrightarrow> stored w' = stored w) \<and>
    (\<forall>d. stored w oid = None \<longrightarrow> stored w' oid = Some d \<longrightarrow> lo_size d = sz \<and> \<not> lo_uploaded d \<and>
       kg (OID_String oid) hashAlgo = Inr (GetStorageKey d)) \<and>
    rs_oid resp = OID_String oid \<and> rs_size resp = Size_Int64 sz \<and>
    (rs_error resp = None \<longrightarrow> (\<exists>d. stored w' oid = Some d \<and> upload_answer resp d))"
proof -
  obtain f w1 where f: "run_state (repo_FindByOID repo oid) w = (f, w1)" by fastforce
  from find_state [OF good f] have w1: "good w1" "same_elsewhere w w1" "stored w1 = stored w" by auto
  have unchanged: ?thesis if "w' = w1" "rs_oid resp = OID_String oid" "rs_size resp = Size_Int64 sz"
    "rs_error resp = None \<longrightarrow> (\<exists>d. stored w oid = Some d \<and> upload_answer resp d)"
    using that w1 by (auto intro: table_step_cong)
  show ?thesis
  proof (cases f)
    case (Inr obj)
    from find_sound [OF good, of oid obj w1] f Inr obtain d where
      d: "stored w oid = Some d" "same_object obj d" "lo_uploaded obj \<longrightarrow> lo_uploaded d"
      by (auto simp: behind_def)
    with run f Inr show ?thesis
      by (intro unchanged) (auto simp: HandleUploadObject_def NewResponseObject_def upload_answer_def
          upload_response_def NewActions_def Let_def same_object_def split: if_splits)
  next
    case (Inl e)
    show ?thesis
    proof (cases "errors_Is e (Domain ErrNotFound)")
      case False
      with run f Inl show ?thesis by (intro unchanged) (auto simp: HandleUploadObject_def)
    next
      case True
      with find_missing [OF good] f Inl have none: "stored w oid = None" by blast
      note unf = HandleUploadObject_def f Inl True
      show ?thesis
      proof (cases "kg (OID_String oid) hashAlgo")
        case (Inl err)
        with run show ?thesis by (intro unchanged) (auto simp: unf)
      next
        case key: (Inr k)
        show ?thesis
        proof (cases "NewHashAlgorithm hashAlgo")
          case (Inl err)
          with run key show ?thesis by (intro unchanged) (auto simp: unf)
        next
          case h: (Inr h)
          show ?thesis
          proof (cases "NewLFSObject (w_now w1) oid sz h k")
            case (Inl err)
            with run key h show ?thesis by (intro unchanged) (auto simp: unf)
          next
            case made: (Inr obj)
            from made h oid sz have obj: "lo_oid obj = oid" "lo_size obj = sz" "\<not> lo_uploaded obj" "wf_object obj"
              "GetStorageKey obj = k"
              by (auto simp: NewLFSObject_Inr NewHashAlgorithm_Inr wf_object_def getter_simps)
            obtain q v where q: "run_state (repo_Save repo obj) w1 = (q, v)" by fastforce
            with run key h made have w': "w' = v" and resp: "resp = (case q of
               Inl saveErr \<Rightarrow> object_failure oid sz 500 MsgMetadataSaveFailed
             | Inr u \<Rightarrow> upload_response g baseURL ow re oid sz ah)" by (auto simp: unf split: sum.splits)
            note st = save_state [OF w1(1) obj(4) q]
            have "table_step oid w1 v" using table_write_new [of obj w1 v] st obj(1) by simp
            then have "table_step oid w v" using w1(3) by (simp add: table_step_def)
            moreover have "lo_size d = sz \<and> \<not> lo_uploaded d \<and> GetStorageKey d = k"
              if "stored v oid = Some d" for d
              using st that none w1(3) obj by (auto simp: table_write_def same_state_def same_object_def getter_simps)
            moreover have "\<exists>d. stored v oid = Some d" if "q = Inr ()"
              using save_done [OF w1(1) obj(4)] q that obj(1) by blast
            ultimately show ?thesis using st w1 key w' resp none
              by (auto intro: same_elsewhere_trans split: sum.splits)
          qed
        qed
      qed
    qed
  qed
qed

lemma HandleDownloadObject_run:
  assumes good: "good w"
    and run: "run_state (HandleDownloadObject repo g baseURL ow re oid sz ah) w = (resp, w')"
  shows "good w' \<and> same_elsewhere w w' \<and> stored w' = stored w \<and>
    rs_oid resp = OID_String oid \<and> rs_size resp = Size_Int64 sz \<and>
    (rs_error resp = None \<longrightarrow> (\<exists>d a u. stored w oid = Some d \<and> lo_uploaded d \<and> rs_actions resp = Some a \<and>
       as_upload a = None \<and> as_download a = Some u \<and> ac_href u = url_Download g baseURL ow re (OID_String oid)))"
proof -
  obtain f w1 where f: "run_state (repo_FindByOID repo oid) w = (f, w1)" by fastforce
  from find_state [OF good f] have w1: "good w1" "same_elsewhere w w1" "stored w1 = stored w" by auto
  show ?thesis
  proof (cases f)
    case (Inl e)
    with run f w1 show ?thesis by (auto simp: HandleDownloadObject_def split: if_splits)
  next
    case (Inr obj)
    from find_sound [OF good, of oid obj w1] f Inr obtain d where
      d: "stored w oid = Some d" "lo_uploaded obj \<longrightarrow> lo_uploaded d"
      by (auto simp: behind_def)
    with run f Inr w1 show ?thesis
      by (auto simp: HandleDownloadObject_def NewResponseObject_def NewActions_def NewAction_def Let_def split: if_splits)
  qed
qed

end

section \<open>What a batch does\<close>

text \<open>The effect of an upload batch for a repository: ownership is only taken where there was none,
  metadata is only added, for objects not uploaded yet and under the generated key, and no content
  moves.\<close>

definition upload_effect :: "StorageKeyGenerator \<Rightarrow> string \<Rightarrow> RepositoryIdentifier \<Rightarrow> world \<Rightarrow> world \<Rightarrow> bool" where
  "upload_effect kg hashAlgo ri w w' \<longleftrightarrow>
     (\<forall>oid. owner_of w' oid = owner_of w oid \<or> owner_of w oid = None \<and> owner_of w' oid = Some ri) \<and>
     (\<forall>oid. stored w' oid = stored w oid \<or> stored w oid = None \<and>
        (\<exists>d. stored w' oid = Some d \<and> \<not> lo_uploaded d \<and> kg (OID_String oid) hashAlgo = Inr (GetStorageKey d))) \<and>
     w_storage w' = w_storage w"

lemma upload_effect_refl [simp]: "upload_effect kg h ri w w"
  by (simp add: upload_effect_def)

lemma upload_effect_trans [trans]:
  "upload_effect kg h ri u v \<Longrightarrow> upload_effect kg h ri v w \<Longrightarrow> upload_effect kg h ri u w"
  unfolding upload_effect_def by metis

lemma upload_effect_owner: "upload_effect kg h ri w w' \<Longrightarrow> owner_of w oid = Some x \<Longrightarrow> owner_of w' oid = Some x"
  unfolding upload_effect_def by (metis option.distinct(1))

lemma upload_effect_stored: "upload_effect kg h ri w w' \<Longrightarrow> stored w oid = Some d \<Longrightarrow> stored w' oid = Some d"
  unfolding upload_effect_def by (metis option.distinct(1))

text \<open>What a response object tells of the world after the batch.\<close>

definition upload_granted :: "RepositoryIdentifier \<Rightarrow> world \<Rightarrow> ResponseObject \<Rightarrow> bool" where
  "upload_granted ri w resp \<longleftrightarrow> (rs_error resp = None \<longrightarrow>
     owner_of w (OID (rs_oid resp)) = Some ri \<and>
     (\<exists>d. stored w (OID (rs_oid resp)) = Some d \<and> upload_answer resp d))"

lemma upload_granted_later:
  "upload_granted ri w resp \<Longrightarrow> upload_effect kg h ri w w' \<Longrightarrow> upload_granted ri w' resp"
  unfolding upload_granted_def using upload_effect_owner upload_effect_stored by blast

definition valid_objects :: "RequestObject list \<Rightarrow> bool" where
  "valid_objects objs \<longleftrightarrow> (\<forall>obj \<in> set objs. oidPattern (ro_oid obj) \<and> 0 \<le> ro_size obj)"

text \<open>
  A metadata repository and a policy repository over the same world, each of whose operations
  keeps the other's invariant.
\<close>

locale object_service = lfs_object_repository repo good + access_policy_repository prepo pgood
  for repo :: LFSObjectRepository and good :: "world \<Rightarrow> bool"
    and prepo :: AccessPolicyRepository and pgood :: "world \<Rightarrow> bool" +
  assumes good_kept: "same_metadata w w' \<Longrightarrow> good w \<Longrightarrow> good w'"
    and pgood_kept: "same_elsewhere w w' \<Longrightarrow> table_step oid w w' \<Longrightarrow> pgood w \<Longrightarrow> pgood w'"
begin

lemma check_keeps:
  assumes "good w" "pgood w"
    and "run_state (CheckAuthorization (NewAccessAuthorizationService prepo) oper ou oid) w = (r, w')"
  shows "good w' \<and> pgood w' \<and> same_metadata w w' \<and> owner_of w' = owner_of w \<and> stored w' = stored w"
  using check_state [OF assms(2,3)] good_kept [OF _ assms(1)] same_metadata_stored by blast

lemma create_policy:
  assumes good: "good w" "pgood w" and ri: "valid_repository ri" and oid: "oidPattern (OID_String oid)"
    and run: "run_state (createAccessPolicy prepo oid (Some ri)) w = (r, w')"
  shows "good w' \<and> pgood w' \<and> same_metadata w w' \<and>
    (owner_of w' = owner_of w \<and> r \<noteq> Inr () \<or> owner_of w' = (owner_of w)(oid \<mapsto> ri))"
proof -
  from run have save: "run_state (policy_Save prepo (NewAccessPolicy (AccessPolicyID 0) oid (Some ri) (w_now w))) w = (r, w')"
    by (simp add: createAccessPolicy_def NewAccessPolicyID_def)
  have p: "ap_repository (NewAccessPolicy (AccessPolicyID 0) oid (Some ri) (w_now w)) = Some ri"
    "ap_oid (NewAccessPolicy (AccessPolicyID 0) oid (Some ri) (w_now w)) = oid"
    by (simp_all add: NewAccessPolicy_def)
  have st: "pgood w'" "same_metadata w w'"
    "owner_of w' = owner_of w \<or> owner_of w' = (owner_of w)(oid \<mapsto> ri)"
    using psave_state [OF good(2) p(1) ri _ save] oid p(2) by auto
  have "owner_of w' = (owner_of w)(oid \<mapsto> ri)" if "r = Inr ()"
    using psave_done [OF good(2) p(1) ri, of w'] oid p(2) save that by simp
  with st good_kept [OF st(2) good(1)] show ?thesis by blast
qed

text \<open>One turn of the upload loop.\<close>

lemma upload_turn:
  assumes good: "good w" "pgood w" and ri: "valid_repository ri"
    and oid: "oidPattern (OID_String oid)" and sz: "0 \<le> Size_Int64 sz"
    and check: "run_state (CheckAuthorization (NewAccessAuthorizationService prepo) OperationUpload (Some ri) oid) w = (Inr res, w1)"
    and upload: "run_state (HandleUploadObject repo g kg baseURL ow re oid sz hashAlgo ah) w1 = (resp, w2)"
    and policy: "run_state (if auth_IsNewObject res \<and> rs_error resp = None
        then createAccessPolicy prepo oid (Some ri) else lift_result (Inr ())) w2 = (p, w3)"
  shows "good w3 \<and> pgood w3 \<and> upload_effect kg hashAlgo ri w w3 \<and> owner_of w oid \<in> {None, Some ri} \<and>
    rs_oid resp = OID_String oid \<and> rs_size resp = Size_Int64 sz \<and> (p = Inr () \<longrightarrow> upload_granted ri w3 resp)"
proof -
  from check_keeps [OF good check]
  have w1: "good w1" "pgood w1" "same_metadata w w1" "owner_of w1 = owner_of w" "stored w1 = stored w" by auto
  from check_sound [OF good(2) check]
  have res: "may_access w OperationUpload ri oid" "auth_IsNewObject res \<longleftrightarrow> owner_of w oid = None" by auto
  from HandleUploadObject_run [OF w1(1) oid sz upload]
  have w2: "good w2" "same_elsewhere w1 w2" "table_step oid w1 w2"
    and old: "stored w1 oid \<noteq> None \<Longrightarrow> stored w2 = stored w1"
    and new: "\<And>d. stored w1 oid = None \<Longrightarrow> stored w2 oid = Some d \<Longrightarrow>
      \<not> lo_uploaded d \<and> kg (OID_String oid) hashAlgo = Inr (GetStorageKey d)"
    and resp: "rs_oid resp = OID_String oid" "rs_size resp = Size_Int64 sz"
      "rs_error resp = None \<Longrightarrow> \<exists>d. stored w2 oid = Some d \<and> upload_answer resp d"
    by auto
  have w2': "pgood w2" "owner_of w2 = owner_of w"
    using pgood_kept [OF w2(2,3) w1(2)] same_elsewhere_owner [OF w2(2)] w1(4) by auto
  have table: "stored w2 k = stored w k \<or> stored w k = None \<and>
      (\<exists>d. stored w2 k = Some d \<and> \<not> lo_uploaded d \<and> kg (OID_String k) hashAlgo = Inr (GetStorageKey d))" for k
  proof (cases "k = oid")
    case False
    then show ?thesis using table_step_other [OF w2(3)] w1(5) by simp
  next
    case True
    then show ?thesis using old new w1(5) by (cases "stored w oid"; cases "stored w2 oid") auto
  qed
  have p: "good w3 \<and> pgood w3 \<and> stored w3 = stored w2 \<and> w_storage w3 = w_storage w2 \<and>
      (\<forall>k. owner_of w3 k = owner_of w k \<or> owner_of w k = None \<and> owner_of w3 k = Some ri) \<and>
      (p = Inr () \<longrightarrow> rs_error resp = None \<longrightarrow> owner_of w3 oid = Some ri)"
  proof (cases "auth_IsNewObject res \<and> rs_error resp = None")
    case True
    with create_policy [OF w2(1) w2'(1) ri oid, of p w3] policy res(2) w2'(2)
    show ?thesis by (auto simp: same_metadata_stored) (auto simp: same_metadata_def split: if_splits)
  next
    case False
    with policy res w2 w2' show ?thesis by (auto simp: may_access_def split: if_splits)
  qed
  have "w_storage w2 = w_storage w" using w1(3) w2(2) by (simp add: same_metadata_def same_elsewhere_def)
  with p table have "upload_effect kg hashAlgo ri w w3" unfolding upload_effect_def by simp
  moreover have "owner_of w oid \<in> {None, Some ri}" using res(1) by (auto simp: may_access_def)
  moreover have "p = Inr () \<longrightarrow> upload_granted ri w3 resp"
    using p resp by (cases oid) (auto simp: upload_granted_def)
  ultimately show ?thesis using p resp by simp
qed

text \<open>The loop, by induction on the request's objects.\<close>

lemma upload_loop:
  assumes "good w" "pgood w" and ri: "valid_repository ri" and "valid_objects objs"
    and "run_state (batch_upload_objects (HandleUploadObject repo g kg) (NewAccessAuthorizationService prepo) prepo
      baseURL ow re (Some ri) hashAlgo ah objs) w = (r, w')"
  shows "good w' \<and> pgood w' \<and> upload_effect kg hashAlgo ri w w' \<and>
    (\<forall>resps. r = Inr resps \<longrightarrow> map rs_oid resps = map ro_oid objs \<and> map rs_size resps = map ro_size objs \<and>
       (\<forall>resp \<in> set resps. upload_granted ri w' resp) \<and>
       (\<forall>obj \<in> set objs. owner_of w (OID (ro_oid obj)) \<in> {None, Some ri}))"
  using assms(1,2,4,5)
proof (induction objs arbitrary: w r)
  case Nil
  then show ?case by auto
next
  case (Cons obj objs)
  let ?L = "batch_upload_objects (HandleUploadObject repo g kg) (NewAccessAuthorizationService prepo) prepo
      baseURL ow re (Some ri) hashAlgo ah objs"
  from Cons.prems(3) have oid: "oidPattern (ro_oid obj)" "0 \<le> ro_size obj" and objs: "valid_objects objs"
    by (auto simp: valid_objects_def)
  have ctor: "NewOID (ro_oid obj) = Inr (OID (ro_oid obj))" "NewSize (ro_size obj) = Inr (Size (ro_size obj))"
    using oid by (simp_all add: NewOID_def NewSize_def)
  obtain a w1 where a: "run_state (CheckAuthorization (NewAccessAuthorizationService prepo) OperationUpload (Some ri)
      (OID (ro_oid obj))) w = (a, w1)" by fastforce
  show ?case
  proof (cases a)
    case (Inl e)
    from check_keeps [OF Cons.prems(1,2) a] have "good w1 \<and> pgood w1 \<and> upload_effect kg hashAlgo ri w w1"
      by (auto simp: upload_effect_def same_metadata_def)
    moreover have "r = Inl e" "w' = w1" using Cons.prems(4) a Inl ctor by simp_all
    ultimately show ?thesis by simp
  next
    case (Inr res)
    from check_sound [OF Cons.prems(2)] a Inr have allowed: "auth_Allowed res" by blast
    obtain resp w2 where up: "run_state (HandleUploadObject repo g kg baseURL ow re (OID (ro_oid obj)) (Size (ro_size obj))
        hashAlgo ah) w1 = (resp, w2)" by fastforce
    obtain p w3 where p: "run_state (if auth_IsNewObject res \<and> rs_error resp = None
        then createAccessPolicy prepo (OID (ro_oid obj)) (Some ri) else lift_result (Inr ())) w2 = (p, w3)" by fastforce
    from upload_turn [OF Cons.prems(1,2) ri _ _ a [unfolded Inr] up p] oid
    have t: "good w3" "pgood w3" "upload_effect kg hashAlgo ri w w3" "owner_of w (OID (ro_oid obj)) \<in> {None, Some ri}"
      "rs_oid resp = ro_oid obj" "rs_size resp = ro_size obj" "p = Inr () \<Longrightarrow> upload_granted ri w3 resp" by auto
    show ?thesis
    proof (cases p)
      case (Inl e)
      have "r = Inl (Wrap e)" "w' = w3" using Cons.prems(4) a Inr up p Inl ctor allowed
        by (simp_all del: run_lift_result split_paired_All add: run_lift_result)
      with t show ?thesis by simp
    next
      case (Inr u)
      obtain q w4 where q: "run_state ?L w3 = (q, w4)" by fastforce
      have r: "r = (case q of Inl err \<Rightarrow> Inl err | Inr resps \<Rightarrow> Inr (resp # resps))" and w': "w' = w4"
        using Cons.prems(4) a \<open>a = Inr res\<close> up p Inr ctor allowed q by (auto split: sum.splits)
      from Cons.IH [OF t(1,2) objs q [folded w']]
      have ih: "good w'" "pgood w'" "upload_effect kg hashAlgo ri w3 w'"
        "\<And>resps. q = Inr resps \<Longrightarrow> map rs_oid resps = map ro_oid objs \<and> map rs_size resps = map ro_size objs \<and>
          (\<forall>resp \<in> set resps. upload_granted ri w' resp) \<and>
          (\<forall>obj \<in> set objs. owner_of w3 (OID (ro_oid obj)) \<in> {None, Some ri})" by auto
      have "p = Inr ()" using Inr by (cases u) simp
      then have "upload_granted ri w' resp" using upload_granted_later t(7) ih(3) by blast
      moreover have "\<forall>obj \<in> set objs. owner_of w (OID (ro_oid obj)) \<in> {None, Some ri}"
        if "\<forall>obj \<in> set objs. owner_of w3 (OID (ro_oid obj)) \<in> {None, Some ri}"
        using that upload_effect_owner [OF t(3)] by (metis insertE insertI1 insertI2 not_Some_eq singletonD)
      ultimately show ?thesis using t ih r by (auto intro: upload_effect_trans split: sum.splits)
    qed
  qed
qed

lemma download_loop:
  assumes "good w" "pgood w" and "valid_objects objs"
    and "run_state (batch_download_objects (HandleDownloadObject repo g) (NewAccessAuthorizationService prepo)
      baseURL ow re ou ah objs) w = (r, w')"
  shows "good w' \<and> pgood w' \<and> stored w' = stored w \<and> owner_of w' = owner_of w \<and> w_storage w' = w_storage w \<and>
    (\<forall>resps. r = Inr resps \<longrightarrow> map rs_oid resps = map ro_oid objs \<and> map rs_size resps = map ro_size objs \<and>
       (\<forall>resp \<in> set resps. owner_of w (OID (rs_oid resp)) = ou \<and> ou \<noteq> None \<and>
         (rs_error resp = None \<longrightarrow> (\<exists>d a u. stored w (OID (rs_oid resp)) = Some d \<and> lo_uploaded d \<and>
            rs_actions resp = Some a \<and> as_upload a = None \<and> as_download a = Some u \<and>
            ac_href u = url_Download g baseURL ow re (rs_oid resp)))))"
  using assms
proof (induction objs arbitrary: w r)
  case Nil
  then show ?case by auto
next
  case (Cons obj objs)
  let ?L = "batch_download_objects (HandleDownloadObject repo g) (NewAccessAuthorizationService prepo)
      baseURL ow re ou ah objs"
  from Cons.prems(3) have oid: "oidPattern (ro_oid obj)" "0 \<le> ro_size obj" and objs: "valid_objects objs"
    by (auto simp: valid_objects_def)
  have ctor: "NewOID (ro_oid obj) = Inr (OID (ro_oid obj))" "NewSize (ro_size obj) = Inr (Size (ro_size obj))"
    using oid by (simp_all add: NewOID_def NewSize_def)
  obtain a w1 where a: "run_state (CheckAuthorization (NewAccessAuthorizationService prepo) OperationDownload ou
      (OID (ro_oid obj))) w = (a, w1)" by fastforce
  from check_keeps [OF Cons.prems(1,2) a]
  have w1: "good w1" "pgood w1" "stored w1 = stored w" "owner_of w1 = owner_of w" "w_storage w1 = w_storage w"
    by (auto simp: same_metadata_def)
  show ?case
  proof (cases a)
    case (Inl e)
    then have "r = Inl e" "w' = w1" using Cons.prems(4) a ctor by simp_all
    with w1 show ?thesis by simp
  next
    case (Inr res)
    from check_sound [OF Cons.prems(2) a [unfolded Inr]]
    have res: "auth_Allowed res" "owner_of w (OID (ro_oid obj)) = ou" "ou \<noteq> None"
      by (auto simp: may_access_def)
    obtain resp w2 where dn: "run_state (HandleDownloadObject repo g baseURL ow re (OID (ro_oid obj)) (Size (ro_size obj)) ah)
        w1 = (resp, w2)" by fastforce
    from HandleDownloadObject_run [OF w1(1) dn] w1 pgood_kept [OF _ table_step_cong w1(2), of w2] same_elsewhere_owner [of w1 w2]
    have t: "good w2" "pgood w2" "stored w2 = stored w" "owner_of w2 = owner_of w" "w_storage w2 = w_storage w"
      "rs_oid resp = ro_oid obj" "rs_size resp = ro_size obj"
      "rs_error resp = None \<Longrightarrow> (\<exists>d a u. stored w (OID (ro_oid obj)) = Some d \<and> lo_uploaded d \<and> rs_actions resp = Some a \<and>
         as_upload a = None \<and> as_download a = Some u \<and> ac_href u = url_Download g baseURL ow re (ro_oid obj))"
      by (auto simp: same_elsewhere_def)
    obtain q w3 where q: "run_state ?L w2 = (q, w3)" by fastforce
    have r: "r = (case q of Inl err \<Rightarrow> Inl err | Inr resps \<Rightarrow> Inr (resp # resps))" and w': "w' = w3"
      using Cons.prems(4) a Inr dn ctor res q by (auto split: sum.splits)
    from Cons.IH [OF t(1,2) objs q [folded w']] t r res show ?thesis by (auto split: sum.splits)
  qed
qed

text \<open>The two use cases.\<close>

lemma HandleBatchUpload_run:
  assumes good: "good w" "pgood w" and repo: "br_repository req = Some ri" "valid_repository ri"
    and run: "run_state (HandleBatchUpload (HandleUploadObject repo g kg) (NewAccessAuthorizationService prepo) prepo
      baseURL ow re req ah) w = (r, w')"
  shows "good w' \<and> pgood w' \<and> upload_effect kg ''sha256'' ri w w' \<and>
    (\<forall>b. r = Inr b \<longrightarrow> map rs_oid (bs_objects b) = map ro_oid (br_objects req) \<and>
       map rs_size (bs_objects b) = map ro_size (br_objects req) \<and> bs_hashAlgo b = ''sha256'' \<and>
       (\<forall>resp \<in> set (bs_objects b). upload_granted ri w' resp) \<and>
       (\<forall>obj \<in> set (br_objects req). owner_of w (OID (ro_oid obj)) \<in> {None, Some ri}))"
proof (cases "BatchRequest_Validate req = None \<and> br_operation req = OperationUpload")
  case False
  then have "w' = w \<and> (\<exists>e. r = Inl e)" using run
    by (auto simp: HandleBatchUpload_def split: option.splits)
  with good show ?thesis by auto
next
  case True
  then have v: "valid_objects (br_objects req)" and
    h: "(if br_hashAlgo req = [] then DefaultHashAlgorithm else br_hashAlgo req) = ''sha256''"
    by (auto simp: BatchRequest_Validate_None valid_objects_def DefaultHashAlgorithm_def)
  obtain q v' where q: "run_state (batch_upload_objects (HandleUploadObject repo g kg) (NewAccessAuthorizationService prepo)
      prepo baseURL ow re (Some ri) ''sha256'' ah (br_objects req)) w = (q, v')" by fastforce
  have w': "v' = w'" and r: "r = (case q of Inl err \<Rightarrow> Inl err
      | Inr objects \<Rightarrow> Inr (NewBatchResponse DefaultTransferType objects ''sha256''))"
    using run True q h repo(1) by (auto simp: HandleBatchUpload_def Let_def split: sum.splits)
  from upload_loop [OF good repo(2) v q] r w' show ?thesis
    by (cases q) (auto simp: NewBatchResponse_def)
qed

lemma HandleBatchDownload_run:
  assumes good: "good w" "pgood w"
    and run: "run_state (HandleBatchDownload (HandleDownloadObject repo g) (NewAccessAuthorizationService prepo)
      baseURL ow re req ah) w = (r, w')"
  shows "good w' \<and> pgood w' \<and> stored w' = stored w \<and> owner_of w' = owner_of w \<and> w_storage w' = w_storage w \<and>
    (\<forall>b. r = Inr b \<longrightarrow> map rs_oid (bs_objects b) = map ro_oid (br_objects req) \<and>
       map rs_size (bs_objects b) = map ro_size (br_objects req) \<and>
       (\<forall>resp \<in> set (bs_objects b). owner_of w (OID (rs_oid resp)) = br_repository req \<and> br_repository req \<noteq> None \<and>
         (rs_error resp = None \<longrightarrow> (\<exists>d a u. stored w (OID (rs_oid resp)) = Some d \<and> lo_uploaded d \<and>
            rs_actions resp = Some a \<and> as_upload a = None \<and> as_download a = Some u \<and>
            ac_href u = url_Download g baseURL ow re (rs_oid resp)))))"
proof (cases "BatchRequest_Validate req = None \<and> br_operation req = OperationDownload")
  case False
  then have "w' = w \<and> (\<exists>e. r = Inl e)" using run
    by (auto simp: HandleBatchDownload_def split: option.splits)
  with good show ?thesis by auto
next
  case True
  then have v: "valid_objects (br_objects req)" by (auto simp: BatchRequest_Validate_None valid_objects_def)
  obtain q v' where q: "run_state (batch_download_objects (HandleDownloadObject repo g) (NewAccessAuthorizationService prepo)
      baseURL ow re (br_repository req) ah (br_objects req)) w = (q, v')" by fastforce
  have w': "v' = w'" and r: "\<exists>h. r = (case q of Inl err \<Rightarrow> Inl err
      | Inr objects \<Rightarrow> Inr (NewBatchResponse DefaultTransferType objects h))"
    using run True q by (auto simp: HandleBatchDownload_def Let_def split: sum.splits)
  from download_loop [OF good v q] r w' show ?thesis
    by (cases q) (auto simp: NewBatchResponse_def)
qed

end

section \<open>The service over the cached repository\<close>

definition sound_world :: "world \<Rightarrow> bool" where
  "sound_world w \<longleftrightarrow> coherent_world w \<and> wf_policies w"

lemma coherent_world_kept:
  assumes "same_metadata w w'" and "coherent_world w"
  shows "coherent_world w'"
proof -
  from assms(1) have pk: "redis_peek w' = redis_peek w" by (intro redis_peek_kept) (simp_all add: same_metadata_def)
  from assms(1) have st: "stored w' = stored w" by (rule same_metadata_stored)
  from assms(1) have "w_objects w' = w_objects w" by (simp add: same_metadata_def)
  with coherent_same_stored [OF st pk] assms(2) show ?thesis by (simp add: coherent_world_def wf_objects_def)
qed

lemma wf_policies_kept:
  assumes el: "same_elsewhere w w'" and step: "table_step oid w w'" and wf: "wf_policies w"
  shows "wf_policies w'"
proof -
  have "w_objects w' k \<noteq> None" if k: "w_objects w k \<noteq> None" for k
  proof -
    from k obtain d where d: "stored w (OID k) = Some d" by (auto simp: stored_def)
    have "stored w' (OID k) \<noteq> None"
    proof (cases "OID k = oid")
      case True
      with step d show ?thesis by (auto simp: table_step_def)
    next
      case False
      with step d show ?thesis by (simp add: table_step_other)
    qed
    then show ?thesis by (simp add: stored_def)
  qed
  with el wf show ?thesis by (auto simp: wf_policies_def same_elsewhere_def)
qed

interpretation service: object_service cached_repository coherent_world NewAccessPolicyRepository wf_policies
  by unfold_locales (fact coherent_world_kept, fact wf_policies_kept)

end
