(* ===== verification/Content_Transfer.thy ===== *)
theory Content_Transfer
  imports Batch
begin

text \<open>
  Moving content: \<^verbatim>\<open>proxy_upload_usecase.go\<close>, \<^verbatim>\<open>proxy_download_usecase.go\<close>, and the verify step
  of \<^verbatim>\<open>verify_request.go\<close> and \<^verbatim>\<open>verify_usecase.go\<close>.  A request body and an object's stream are
  the bytes they deliver.
\<close>

section \<open>Upload and download through the server\<close>

definition ProxyUpload_Execute ::
  "LFSObjectRepository \<Rightarrow> ObjectStorage \<Rightarrow> AccessAuthorizationService \<Rightarrow>
     string \<Rightarrow> string \<Rightarrow> OID \<Rightarrow> string \<Rightarrow> unit io" where
  "ProxyUpload_Execute lfsRepo objectStorage authService owner repo oid body =
     (case NewRepositoryIdentifier (owner @ ''/'' @ repo) of
        Inl err \<Rightarrow> lift_result (Inl (Usecase UErrAccessDenied))
      | Inr repoIdentifier \<Rightarrow> do {
          a \<leftarrow> CheckAuthorization authService OperationUpload (Some repoIdentifier) oid;
          case a of
            Inl err \<Rightarrow> lift_result (Inl err)
          | Inr authResult \<Rightarrow>
              if \<not> auth_Allowed authResult then lift_result (Inl (Usecase UErrAccessDenied))
              else do {
                f \<leftarrow> repo_FindByOID lfsRepo oid;
                case f of
                  Inl err \<Rightarrow>
                    if errors_Is err (Domain ErrNotFound) then lift_result (Inl (Usecase UErrObjectNotFound))
                    else lift_result (Inl err)
                | Inr lfsObject \<Rightarrow> do {
                    put \<leftarrow> storage_PutObject objectStorage (GetStorageKey lfsObject) body
                      (Size_Int64 (lo_size lfsObject));
                    case put of
                      Inl err \<Rightarrow> lift_result (Inl err)
                    | Inr u \<Rightarrow> do {
                        now \<leftarrow> State (\<lambda>w. (w_now w, w));
                        upd \<leftarrow> repo_Update lfsRepo (MarkAsUploaded now lfsObject);
                        case upd of Inl err \<Rightarrow> lift_result (Inl err) | Inr u \<Rightarrow> lift_result (Inr ())
                      }
                  }
              }
        })"

definition ProxyDownload_Execute ::
  "LFSObjectRepository \<Rightarrow> ObjectStorage \<Rightarrow> AccessAuthorizationService \<Rightarrow>
     string \<Rightarrow> string \<Rightarrow> OID \<Rightarrow> (string \<times> int) io" where
  "ProxyDownload_Execute lfsRepo objectStorage authService owner repo oid =
     (case NewRepositoryIdentifier (owner @ ''/'' @ repo) of
        Inl err \<Rightarrow> lift_result (Inl (Usecase UErrAccessDenied))
      | Inr repoIdentifier \<Rightarrow> do {
          a \<leftarrow> CheckAuthorization authService OperationDownload (Some repoIdentifier) oid;
          case a of
            Inl err \<Rightarrow> lift_result (Inl err)
          | Inr authResult \<Rightarrow>
              if \<not> auth_Allowed authResult then lift_result (Inl (Usecase UErrAccessDenied))
              else do {
                f \<leftarrow> repo_FindByOID lfsRepo oid;
                case f of
                  Inl err \<Rightarrow>
                    if errors_Is err (Domain ErrNotFound) then lift_result (Inl (Usecase UErrObjectNotFound))
                    else lift_result (Inl err)
                | Inr obj \<Rightarrow>
                    if \<not> lo_uploaded obj then lift_result (Inl (Usecase UErrNotUploaded))
                    else do {
                      s \<leftarrow> storage_GetObject objectStorage (GetStorageKey obj);
                      case s of
                        Inl err \<Rightarrow> lift_result (Inl err)
                      | Inr stream \<Rightarrow> lift_result (Inr (stream, Size_Int64 (lo_size obj)))
                    }
              }
        })"

section \<open>Verification\<close>

record VerifyRequest =
  vr_OID :: string
  vr_Size :: int

definition VerifyRequest_Validate :: "VerifyRequest \<Rightarrow> gerror option" where
  "VerifyRequest_Validate r =
     (if vr_OID r = [] then Some (Usecase UErrInvalidOID)
      else (case NewOID (vr_OID r) of
        Inl err \<Rightarrow> Some (Usecase UErrInvalidOID)
      | Inr oid \<Rightarrow> if vr_Size r \<le> 0 then Some (Usecase UErrInvalidSize) else None))"

definition VerifyUpload ::
  "LFSObjectRepository \<Rightarrow> (string \<Rightarrow> unit io) \<Rightarrow> string \<Rightarrow> int \<Rightarrow> unit io" where
  "VerifyUpload lfsRepo deleteBatchUploadKey oid sz = (case NewOID oid of
     Inl err \<Rightarrow>
       if errors_Is err (Domain ErrInvalidOIDFormat) then lift_result (Inl (Usecase UErrInvalidOID))
       else lift_result (Inl (Wrap err))
   | Inr domainOID \<Rightarrow> (case NewSize sz of
       Inl err \<Rightarrow>
         if errors_Is err (Domain domain_error.ErrInvalidSize) then lift_result (Inl (Usecase UErrInvalidSize))
         else lift_result (Inl (Wrap err))
     | Inr domainSize \<Rightarrow> do {
         f \<leftarrow> repo_FindByOID lfsRepo domainOID;
         case f of
           Inl err \<Rightarrow>
             if errors_Is err (Domain ErrNotFound) then lift_result (Inl (Usecase UErrObjectNotFound))
             else lift_result (Inl (Wrap err))
         | Inr obj \<Rightarrow>
             if Size_Int64 (lo_size obj) \<noteq> Size_Int64 domainSize then lift_result (Inl (Usecase UErrSizeMismatch))
             else do {
               now \<leftarrow> State (\<lambda>w. (w_now w, w));
               upd \<leftarrow> repo_Update lfsRepo (MarkAsUploaded now obj);
               case upd of
                 Inl err \<Rightarrow> lift_result (Inl (Wrap err))
               | Inr u \<Rightarrow> do {
                   warn \<leftarrow> deleteBatchUploadKey oid;
                   lift_result (Inr ())
                 }
             }
       }))"

lemma VerifyRequest_Validate_None:
  "VerifyRequest_Validate r = None \<longleftrightarrow> oidPattern (vr_OID r) \<and> 0 < vr_Size r"
  by (auto simp: VerifyRequest_Validate_def NewOID_def oidPattern_def)

section \<open>Marking an object as uploaded\<close>

text \<open>The one way in which an object's entry changes after it is created.\<close>

definition marked :: "OID \<Rightarrow> world \<Rightarrow> world \<Rightarrow> bool" where
  "marked oid w w' \<longleftrightarrow> (\<exists>d d'. stored w oid = Some d \<and> same_object d' d \<and> lo_uploaded d' \<and>
     stored w' = (stored w)(oid \<mapsto> d'))"

lemma marked_table_step: "marked oid w w' \<Longrightarrow> table_step oid w w'"
  by (auto simp: marked_def table_step_def)

context lfs_object_repository
begin

text \<open>Finding an object and then marking it: both use cases end this way.\<close>

lemma mark_found:
  assumes good: "good w" and find: "run_state (repo_FindByOID repo oid) w = (Inr obj, w1)"
    and w2: "good w2" "stored w2 = stored w1"
    and upd: "run_state (repo_Update repo (MarkAsUploaded now obj)) w2 = (q, w')"
  shows "good w' \<and> same_elsewhere w2 w' \<and> (stored w' = stored w2 \<or> marked oid w2 w') \<and>
    (q = Inr () \<longrightarrow> (\<exists>d. stored w' oid = Some d \<and> lo_uploaded d \<and> same_object d obj))"
proof -
  from find_sound [OF good find] find_state [OF good find] w2(2)
  obtain d where oid: "lo_oid obj = oid" and d: "stored w2 oid = Some d" "same_object obj d"
    by (auto simp: behind_def)
  let ?m = "MarkAsUploaded now obj"
  have m: "lo_oid ?m = oid" "lo_uploaded ?m" "same_object ?m obj"
    using oid by (simp_all add: MarkAsUploaded_def same_object_def)
  have ahead: "ahead w2 ?m" using d m by (auto simp: ahead_def same_object_def)
  from update_state [OF w2(1) ahead upd]
  have st: "good w'" "same_elsewhere w2 w'" "table_write ?m w2 w'" by auto
  have "stored w' = stored w2 \<or> marked oid w2 w'"
    using st(3) m d by (auto simp: table_write_def marked_def same_state_def same_object_def)
  moreover have "\<exists>d. stored w' oid = Some d \<and> lo_uploaded d \<and> same_object d obj" if "q = Inr ()"
    using update_done [OF w2(1) ahead, of w'] upd that m by (auto simp: same_state_def same_object_def)
  ultimately show ?thesis using st by blast
qed

end

section \<open>The use cases over their contracts\<close>

text \<open>The effect of an upload of \<open>body\<close>: content only under the object's key and only of its size,
  and the object is marked only when its content is there.\<close>

definition put_effect :: "OID \<Rightarrow> string \<Rightarrow> world \<Rightarrow> world \<Rightarrow> bool" where
  "put_effect oid body w w' \<longleftrightarrow> owner_of w' = owner_of w \<and>
     (w_storage w' = w_storage w \<and> stored w' = stored w \<or>
      (\<exists>d. stored w oid = Some d \<and> int (length body) = Size_Int64 (lo_size d) \<and>
         w_storage w' = (w_storage w)(GetStorageKey d \<mapsto> body) \<and> (stored w' = stored w \<or> marked oid w w')))"

locale transfer_service = object_service repo good prepo pgood + object_storage storage
  for repo :: LFSObjectRepository and good :: "world \<Rightarrow> bool"
    and prepo :: AccessPolicyRepository and pgood :: "world \<Rightarrow> bool" and storage :: ObjectStorage +
  fixes deleteKey :: "string \<Rightarrow> unit io"
  assumes good_storage: "good (w\<lparr>w_storage := m\<rparr>) = good w" "good (w\<lparr>w_faults := fs\<rparr>) = good w"
    and pgood_storage: "pgood (w\<lparr>w_storage := m\<rparr>) = pgood w" "pgood (w\<lparr>w_faults := fs\<rparr>) = pgood w"
    and delete_kept: "good w \<Longrightarrow> run_state (deleteKey k) w = (ru, w') \<Longrightarrow> good w' \<and> same_tables w w'"
begin

lemma get_kept:
  assumes "good w" "pgood w" and "run_state (storage_GetObject storage key) w = (r, w')"
  shows "good w' \<and> pgood w' \<and> stored w' = stored w \<and> owner_of w' = owner_of w \<and> w_storage w' = w_storage w"
  using object_get_state [OF assms(3)] assms(1,2) by (auto simp: good_storage pgood_storage)

lemma put_kept:
  assumes "good w" "pgood w" and "run_state (storage_PutObject storage key body len) w = (r, w')"
  shows "good w' \<and> pgood w' \<and> stored w' = stored w \<and> owner_of w' = owner_of w \<and>
    (w_storage w' = w_storage w \<or> int (length body) = len \<and> w_storage w' = (w_storage w)(key \<mapsto> body))"
proof -
  have frame: "stored (w\<lparr>w_faults := fs, w_storage := m\<rparr>) = stored w"
      "owner_of (w\<lparr>w_faults := fs, w_storage := m\<rparr>) = owner_of w" for m fs
    by (auto simp: stored_def owner_of_def fun_eq_iff)
  from put_state [OF assms(3)] obtain fs where "w' = w\<lparr>w_faults := fs\<rparr> \<or>
      int (length body) = len \<and> w' = w\<lparr>w_faults := fs, w_storage := (w_storage w)(key \<mapsto> body)\<rparr>" by blast
  then show ?thesis
  proof
    assume "w' = w\<lparr>w_faults := fs\<rparr>"
    with assms(1,2) show ?thesis by (simp add: good_storage pgood_storage)
  next
    assume "int (length body) = len \<and> w' = w\<lparr>w_faults := fs, w_storage := (w_storage w)(key \<mapsto> body)\<rparr>"
    with assms(1,2) show ?thesis by (simp add: good_storage pgood_storage frame)
  qed
qed

lemma find_kept:
  assumes "good w" "pgood w" and "run_state (repo_FindByOID repo oid) w = (r, w')"
  shows "good w' \<and> pgood w' \<and> stored w' = stored w \<and> owner_of w' = owner_of w \<and> w_storage w' = w_storage w"
  using find_state [OF assms(1,3)] pgood_kept [OF _ table_step_cong assms(2), of w'] same_elsewhere_owner [of w w']
  by (auto simp: same_elsewhere_def)

lemma upload_found:
  assumes good: "good w" "pgood w" and find: "run_state (repo_FindByOID repo oid) w = (Inr obj, w1)"
    and put: "run_state (storage_PutObject storage (GetStorageKey obj) body (Size_Int64 (lo_size obj))) w1 = (p, w2)"
    and upd: "p = Inr () \<Longrightarrow> run_state (repo_Update repo (MarkAsUploaded now obj)) w2 = (q, w3)"
    and w': "w' = (if p = Inr () then w3 else w2)"
  shows "good w' \<and> pgood w' \<and> put_effect oid body w w' \<and>
    (p = Inr () \<longrightarrow> q = Inr () \<longrightarrow> (\<exists>d. stored w' oid = Some d \<and> lo_uploaded d \<and>
       w_storage w' (GetStorageKey d) = Some body \<and> int (length body) = Size_Int64 (lo_size d)))"
proof -
  from find_sound [OF good(1) find] obtain d where d: "stored w oid = Some d" "same_object obj d"
    by (auto simp: behind_def)
  then have key: "GetStorageKey obj = GetStorageKey d" "lo_size obj = lo_size d"
    by (simp_all add: same_object_def getter_simps)
  note w1 = find_kept [OF good find]
  then have w1': "good w1" "pgood w1" by auto
  note w2 = put_kept [OF w1' put]
  show ?thesis
  proof (cases "p = Inr ()")
    case False
    then show ?thesis using w1 w2 w' d key by (auto simp: put_effect_def)
  next
    case True
    from put_done [of "GetStorageKey obj" body] put True
    have put': "int (length body) = Size_Int64 (lo_size d)" "w_storage w2 (GetStorageKey d) = Some body"
      using key by auto
    have "w_storage w2 = w_storage w \<or> w_storage w2 = (w_storage w)(GetStorageKey d \<mapsto> body)"
      using w1 w2 key by auto
    then have st: "w_storage w2 = (w_storage w)(GetStorageKey d \<mapsto> body)"
      using put'(2) by (auto simp: fun_upd_idem_iff)
    from w1 w2 have w2': "good w2" "stored w2 = stored w1" by auto
    note m = mark_found [OF good(1) find w2' upd [OF True]]
    then have good3: "good w3" and el: "same_elsewhere w2 w3" and mv: "stored w3 = stored w2 \<or> marked oid w2 w3"
      and fin: "q = Inr () \<Longrightarrow> \<exists>e. stored w3 oid = Some e \<and> lo_uploaded e \<and> same_object e obj" by auto
    from mv have "table_step oid w2 w3" by (auto intro: table_step_cong marked_table_step)
    then have pgood3: "pgood w3" using pgood_kept [OF el] w2 by blast
    have own: "owner_of w3 = owner_of w" using w1 w2 same_elsewhere_owner [OF el] by simp
    have cont: "w_storage w3 = w_storage w2" using el by (simp add: same_elsewhere_def)
    have mv': "stored w3 = stored w \<or> marked oid w w3" using mv w1 w2 by (simp add: marked_def)
    have st3: "w_storage w3 = (w_storage w)(GetStorageKey d \<mapsto> body)" using cont st by simp
    have eff: "put_effect oid body w w3"
      unfolding put_effect_def
      by (rule conjI, rule own, rule disjI2, rule exI [of _ d]) (intro conjI d(1) put'(1) st3 mv')
    have "\<exists>e. stored w3 oid = Some e \<and> lo_uploaded e \<and> w_storage w3 (GetStorageKey e) = Some body \<and>
        int (length body) = Size_Int64 (lo_size e)" if ok: "q = Inr ()"
    proof -
      from fin [OF ok] obtain e where e: "stored w3 oid = Some e" "lo_uploaded e" "same_object e obj" by blast
      then have "GetStorageKey e = GetStorageKey d" "lo_size e = lo_size d"
        using key by (simp_all add: same_object_def getter_simps)
      with e put' cont show ?thesis by auto
    qed
    with good3 pgood3 eff w' True show ?thesis by simp
  qed
qed

lemma ProxyUpload_run:
  assumes good: "good w" "pgood w"
    and run: "run_state (ProxyUpload_Execute repo storage (NewAccessAuthorizationService prepo) ow re oid body) w = (r, w')"
  shows "good w' \<and> pgood w' \<and> put_effect oid body w w' \<and>
    (w_storage w' \<noteq> w_storage w \<or> stored w' \<noteq> stored w \<or> r = Inr () \<longrightarrow>
       (\<exists>ri. NewRepositoryIdentifier (ow @ ''/'' @ re) = Inr ri \<and> may_access w OperationUpload ri oid)) \<and>
    (r = Inr () \<longrightarrow> (\<exists>d. stored w' oid = Some d \<and> lo_uploaded d \<and>
       w_storage w' (GetStorageKey d) = Some body \<and> int (length body) = Size_Int64 (lo_size d)))"
proof (cases "NewRepositoryIdentifier (ow @ ''/'' @ re)")
  case (Inl e)
  with run good show ?thesis by (auto simp: ProxyUpload_Execute_def put_effect_def)
next
  case ri: (Inr ri)
  obtain a w1 where a: "run_state (CheckAuthorization (NewAccessAuthorizationService prepo) OperationUpload (Some ri) oid) w = (a, w1)"
    by fastforce
  from check_keeps [OF good a] have w1: "good w1" "pgood w1" "owner_of w1 = owner_of w" "stored w1 = stored w"
    "w_storage w1 = w_storage w" by (auto simp: same_metadata_def)
  have idle: ?thesis if "r \<noteq> Inr ()" "good w'" "pgood w'" "owner_of w' = owner_of w" "stored w' = stored w" "w_storage w' = w_storage w"
    using that by (simp add: put_effect_def)
  show ?thesis
  proof (cases a)
    case (Inl e)
    with run ri a have "r = Inl e" "w' = w1" by (simp_all add: ProxyUpload_Execute_def)
    with w1 show ?thesis by (intro idle) simp_all
  next
    case (Inr res)
    from check_sound [OF good(2) a [unfolded Inr]] have res: "may_access w OperationUpload ri oid" "auth_Allowed res" by auto
    obtain f w2 where f: "run_state (repo_FindByOID repo oid) w1 = (f, w2)" by fastforce
    note unf = ProxyUpload_Execute_def ri [simplified] a Inr res(2) f
    show ?thesis
    proof (cases f)
      case (Inl e)
      with run have "\<exists>e. r = Inl e" "w' = w2" by (auto simp: unf split: if_splits)
      with w1 find_kept [OF w1(1,2) f] show ?thesis by (intro idle) auto
    next
      case obj: (Inr obj)
      obtain p w3 where p: "run_state (storage_PutObject storage (GetStorageKey obj) body (Size_Int64 (lo_size obj))) w2 = (p, w3)"
        by fastforce
      obtain q w4 where q: "run_state (repo_Update repo (MarkAsUploaded (w_now w3) obj)) w3 = (q, w4)" by fastforce
      have w': "w' = (if p = Inr () then w4 else w3)" and r: "r = Inr () \<longrightarrow> p = Inr () \<and> q = Inr ()"
        using run by (auto simp: unf obj p q split: sum.splits)
      from upload_found [OF w1(1,2) f [unfolded obj] p q w'] w1 res(1) ri r
      show ?thesis by (auto simp: put_effect_def marked_def)
    qed
  qed
qed

lemma ProxyDownload_run:
  assumes good: "good w" "pgood w"
    and run: "run_state (ProxyDownload_Execute repo storage (NewAccessAuthorizationService prepo) ow re oid) w = (r, w')"
  shows "good w' \<and> pgood w' \<and> stored w' = stored w \<and> owner_of w' = owner_of w \<and> w_storage w' = w_storage w \<and>
    (\<forall>body n. r = Inr (body, n) \<longrightarrow> (\<exists>ri d. NewRepositoryIdentifier (ow @ ''/'' @ re) = Inr ri \<and>
       owner_of w oid = Some ri \<and> stored w oid = Some d \<and> lo_uploaded d \<and> n = Size_Int64 (lo_size d) \<and>
       w_storage w (GetStorageKey d) = Some body))"
proof (cases "NewRepositoryIdentifier (ow @ ''/'' @ re)")
  case (Inl e)
  with run good show ?thesis by (auto simp: ProxyDownload_Execute_def)
next
  case ri: (Inr ri)
  obtain a w1 where a: "run_state (CheckAuthorization (NewAccessAuthorizationService prepo) OperationDownload (Some ri) oid) w = (a, w1)"
    by fastforce
  from check_keeps [OF good a] have w1: "good w1" "pgood w1" "owner_of w1 = owner_of w" "stored w1 = stored w"
    "w_storage w1 = w_storage w" by (auto simp: same_metadata_def)
  show ?thesis
  proof (cases a)
    case (Inl e)
    with run ri a have "r = Inl e" "w' = w1" by (simp_all add: ProxyDownload_Execute_def)
    with w1 show ?thesis by simp
  next
    case (Inr res)
    from check_sound [OF good(2) a [unfolded Inr]]
    have res: "owner_of w oid = Some ri" "auth_Allowed res" by (auto simp: may_access_def)
    obtain f w2 where f: "run_state (repo_FindByOID repo oid) w1 = (f, w2)" by fastforce
    from find_kept [OF w1(1,2) f] w1
    have w2: "good w2" "pgood w2" "stored w2 = stored w" "owner_of w2 = owner_of w" "w_storage w2 = w_storage w" by auto
    note unf = ProxyDownload_Execute_def ri [simplified] a Inr res(2) f
    show ?thesis
    proof (cases f)
      case (Inl e)
      with run have "\<exists>e. r = Inl e" "w' = w2" by (auto simp: unf split: if_splits)
      with w2 show ?thesis by auto
    next
      case obj: (Inr obj)
      show ?thesis
      proof (cases "lo_uploaded obj")
        case False
        with run obj have "\<exists>e. r = Inl e" "w' = w2" by (auto simp: unf)
        with w2 show ?thesis by auto
      next
        case True
        from find_sound [OF w1(1) f [unfolded obj]] True w1(4) obtain d where
          d: "stored w oid = Some d" "lo_uploaded d" "GetStorageKey obj = GetStorageKey d" "lo_size obj = lo_size d"
          by (auto simp: behind_def same_object_def getter_simps)
        obtain s w3 where s: "run_state (storage_GetObject storage (GetStorageKey obj)) w2 = (s, w3)" by fastforce
        have w': "w' = w3" and r: "r = (case s of Inl e \<Rightarrow> Inl e | Inr b \<Rightarrow> Inr (b, Size_Int64 (lo_size obj)))"
          using run True by (auto simp: unf obj s split: sum.splits)
        from get_kept [OF w2(1,2) s] w2 r w' ri res(1) d object_get_sound [of "GetStorageKey obj" w2 _ w3] s
        show ?thesis by (cases s) auto
      qed
    qed
  qed
qed

lemma VerifyUpload_run:
  assumes good: "good w" "pgood w"
    and run: "run_state (VerifyUpload repo deleteKey oid sz) w = (r, w')"
  shows "good w' \<and> pgood w' \<and> owner_of w' = owner_of w \<and> w_storage w' = w_storage w \<and>
    (stored w' = stored w \<or> (\<exists>d. stored w (OID oid) = Some d \<and> Size_Int64 (lo_size d) = sz) \<and> marked (OID oid) w w') \<and>
    (r = Inr () \<longrightarrow> oidPattern oid \<and> (\<exists>d. stored w' (OID oid) = Some d \<and> lo_uploaded d \<and> Size_Int64 (lo_size d) = sz))"
proof (cases "oidPattern oid \<and> 0 \<le> sz")
  case False
  with run have "w' = w \<and> r \<noteq> Inr ()"
    by (auto simp: VerifyUpload_def NewOID_def NewSize_def split: if_splits)
  with good show ?thesis by simp
next
  case True
  then have ctor: "NewOID oid = Inr (OID oid)" "NewSize sz = Inr (Size sz)" by (auto simp: NewOID_def NewSize_def)
  obtain f w1 where f: "run_state (repo_FindByOID repo (OID oid)) w = (f, w1)" by fastforce
  note w1 = find_kept [OF good f]
  show ?thesis
  proof (cases f)
    case (Inl e)
    with run have "r \<noteq> Inr ()" "w' = w1" by (auto simp: VerifyUpload_def ctor f split: if_splits)
    with w1 show ?thesis by simp
  next
    case obj: (Inr obj)
    from find_sound [OF good(1) f [unfolded obj]] obtain d where
      d: "stored w (OID oid) = Some d" "lo_size obj = lo_size d" by (auto simp: behind_def same_object_def)
    show ?thesis
    proof (cases "Size_Int64 (lo_size obj) = sz")
      case False
      with run have "r \<noteq> Inr ()" "w' = w1" by (auto simp: VerifyUpload_def ctor f obj)
      with w1 show ?thesis by simp
    next
      case size: True
      obtain q w2 where q: "run_state (repo_Update repo (MarkAsUploaded (w_now w1) obj)) w1 = (q, w2)" by fastforce
      obtain x w3 where x: "run_state (deleteKey oid) w2 = (x, w3)" by fastforce
      have w': "w' = (case q of Inl e \<Rightarrow> w2 | Inr u \<Rightarrow> w3)" and r: "r = Inr () \<longrightarrow> q = Inr ()"
        using run size by (auto simp: VerifyUpload_def ctor f obj q x split: sum.splits)
      from w1 have "good w1" by simp
      from mark_found [OF good(1) f [unfolded obj] this refl q]
      have m: "good w2" "same_elsewhere w1 w2" "stored w2 = stored w1 \<or> marked (OID oid) w1 w2"
        "q = Inr () \<Longrightarrow> \<exists>d. stored w2 (OID oid) = Some d \<and> lo_uploaded d \<and> same_object d obj" by auto
      have step: "table_step (OID oid) w1 w2" using m(3) marked_table_step table_step_cong by metis
      from delete_kept [OF m(1) x] have w3: "good w3" "same_tables w2 w3" by auto
      have v: "good w'" "same_elsewhere w1 w'" "stored w' = stored w2"
        using w3 m(1,2) w' by (auto simp: same_tables_stored same_tables_def intro: same_elsewhere_trans split: sum.splits)
      then have "table_step (OID oid) w1 w'" using step by (simp add: table_step_def)
      then have "pgood w'" using pgood_kept [OF v(2)] w1 by blast
      moreover have "owner_of w' = owner_of w" "w_storage w' = w_storage w"
        using same_elsewhere_owner [OF v(2)] v(2) w1 by (auto simp: same_elsewhere_def)
      moreover have "stored w' = stored w \<or> marked (OID oid) w w'"
        using m(3) v(3) w1 by (simp add: marked_def)
      moreover have "\<exists>d. stored w' (OID oid) = Some d \<and> lo_uploaded d \<and> Size_Int64 (lo_size d) = sz" if "r = Inr ()"
        using m(4) r that v(3) size by (auto simp: same_object_def)
      ultimately show ?thesis using v(1) d size True by auto
    qed
  qed
qed

end

section \<open>The use cases as \<^verbatim>\<open>main\<close> wires them\<close>

definition redis_deleteBatchUploadKey :: "string \<Rightarrow> unit io" where
  "redis_deleteBatchUploadKey = DeleteBatchUploadKey redis_metadata_cache NewCacheKeyGenerator"

lemma coherent_world_storage [simp]:
  "coherent_world (w\<lparr>w_storage := m\<rparr>) = coherent_world w" "coherent_world (w\<lparr>w_faults := fs\<rparr>) = coherent_world w"
proof -
  have st: "stored (w\<lparr>w_storage := m\<rparr>) = stored w" by (rule ext) (simp add: stored_def)
  have pk: "redis_peek (w\<lparr>w_storage := m\<rparr>) = redis_peek w" "redis_peek (w\<lparr>w_faults := fs\<rparr>) = redis_peek w"
    by (rule redis_peek_kept; simp)+
  show "coherent_world (w\<lparr>w_storage := m\<rparr>) = coherent_world w" "coherent_world (w\<lparr>w_faults := fs\<rparr>) = coherent_world w"
    using coherent_same_stored [OF st pk(1)] coherent_same_stored [OF stored_faults pk(2)]
    by (auto simp: coherent_world_def wf_objects_def)
qed

lemma wf_policies_storage [simp]: "wf_policies (w\<lparr>w_storage := m\<rparr>) = wf_policies w"
  by (simp add: wf_policies_def)

lemma delete_batch_key_kept:
  assumes "coherent_world w" and "run_state (redis_deleteBatchUploadKey k) w = (ru, w')"
  shows "coherent_world w' \<and> same_tables w w'"
proof -
  from assms(2) have "run_state (cache_Delete redis_metadata_cache (gen_BatchUploadKey NewCacheKeyGenerator k)) w = (ru, w')"
    by (simp add: redis_deleteBatchUploadKey_def DeleteBatchUploadKey_def)
  from metadata_cache.delete_state [OF this]
  have st: "same_tables w w'" and pk: "\<And>j. j \<noteq> BatchUploadKeyPrefix @ k \<Longrightarrow> redis_peek w' j = redis_peek w j"
    by (auto simp: NewCacheKeyGenerator_def)
  have "gen_MetadataKey NewCacheKeyGenerator oid \<noteq> BatchUploadKeyPrefix @ k" for oid
    by (simp add: NewCacheKeyGenerator_def MetadataKeyPrefix_def BatchUploadKeyPrefix_def)
  with pk have "redis_peek w' (gen_MetadataKey NewCacheKeyGenerator oid) = redis_peek w (gen_MetadataKey NewCacheKeyGenerator oid)"
    for oid by blast
  moreover have "behind w' = behind w" by (rule ext) (simp add: behind_def same_tables_stored [OF st])
  ultimately show ?thesis using st assms(1)
    by (simp add: coherent_world_def same_tables_wf [OF st] coherent_def)
qed

interpretation transfers: transfer_service cached_repository coherent_world NewAccessPolicyRepository wf_policies
  NewS3Client redis_deleteBatchUploadKey
  by unfold_locales (simp_all add: delete_batch_key_kept)

end
