(* ===== verification/Health.thy ===== *)
theory Health
  imports Storage Redis_Client
begin

text \<open>
  Readiness: the three health checkers (\<^verbatim>\<open>postgres/health_checker.go\<close>,
  \<^verbatim>\<open>redis/health_checker.go\<close>, \<^verbatim>\<open>s3/health_checker.go\<close>) and \<^verbatim>\<open>readiness_usecase.go\<close>.  A ping is
  an external call with no effect.
\<close>

definition db_ping :: "unit io" where
  "db_ping = external (\<lambda>w. (Inr (), w))"

definition PostgresHealthChecker_Check :: "unit io" where
  "PostgresHealthChecker_Check = do {
     r \<leftarrow> db_ping;
     case r of Inl err \<Rightarrow> lift_result (Inl (Wrap err)) | Inr u \<Rightarrow> lift_result (Inr ())
   }"

text \<open>The argument tells whether the client has a connection; \<^verbatim>\<open>main\<close> only builds clients that do.\<close>

definition RedisClient_Ping :: "bool \<Rightarrow> unit io" where
  "RedisClient_Ping connected =
     (if \<not> connected then lift_result (Inl (Plain ''redis client is nil'')) else external (\<lambda>w. (Inr (), w)))"

definition RedisHealthChecker_Check :: "bool \<Rightarrow> unit io" where
  "RedisHealthChecker_Check connected = do {
     r \<leftarrow> RedisClient_Ping connected;
     case r of Inl err \<Rightarrow> lift_result (Inl (Wrap err)) | Inr u \<Rightarrow> lift_result (Inr ())
   }"

record HealthChecker =
  hc_Name :: string
  hc_Check :: "unit io"

definition NewPostgresHealthChecker :: HealthChecker where
  "NewPostgresHealthChecker = \<lparr>hc_Name = ''postgres'', hc_Check = PostgresHealthChecker_Check\<rparr>"

definition NewRedisHealthChecker :: HealthChecker where
  "NewRedisHealthChecker = \<lparr>hc_Name = ''redis'', hc_Check = RedisHealthChecker_Check True\<rparr>"

definition NewS3HealthChecker :: HealthChecker where
  "NewS3HealthChecker = \<lparr>hc_Name = ''s3'', hc_Check = S3HealthChecker_Check\<rparr>"

record HealthCheckResult =
  hr_Name :: string
  hr_Healthy :: bool
  hr_Error :: "gerror option"

fun run_checkers :: "HealthChecker list \<Rightarrow> (world, HealthCheckResult list) state" where
  "run_checkers [] = State_Monad.return []"
| "run_checkers (checker # checkers) = do {
     r \<leftarrow> hc_Check checker;
     results \<leftarrow> run_checkers checkers;
     State_Monad.return (\<lparr>hr_Name = hc_Name checker,
       hr_Healthy = (case r of Inl err \<Rightarrow> False | Inr u \<Rightarrow> True),
       hr_Error = (case r of Inl err \<Rightarrow> Some err | Inr u \<Rightarrow> None)\<rparr> # results)
   }"

definition ExecuteDetails :: "HealthChecker list \<Rightarrow> (world, HealthCheckResult list \<times> gerror option) state" where
  "ExecuteDetails checkers = do {
     results \<leftarrow> run_checkers checkers;
     let failedCheckers = filter (\<lambda>r. hr_Error r \<noteq> None) results;
     State_Monad.return (results,
       if length failedCheckers > 0 then Some (Wrap (Usecase UErrHealthCheckFailed)) else None)
   }"

definition ReadinessUseCase_Execute :: "HealthChecker list \<Rightarrow> (world, gerror option) state" where
  "ReadinessUseCase_Execute checkers = do {
     d \<leftarrow> ExecuteDetails checkers;
     State_Monad.return (snd d)
   }"

section \<open>What a readiness answer says\<close>

text \<open>Every checker is asked, in order, also after one has failed.\<close>

lemma run_checkers_run:
  assumes "run_state (run_checkers checkers) w = (results, w')"
  shows "map hr_Name results = map hc_Name checkers \<and> list_all (\<lambda>r. hr_Healthy r \<longleftrightarrow> hr_Error r = None) results"
  using assms
proof (induction checkers arbitrary: w results)
  case (Cons c cs)
  obtain r w1 where r: "run_state (hc_Check c) w = (r, w1)" by fastforce
  obtain rest w2 where rest: "run_state (run_checkers cs) w1 = (rest, w2)" by fastforce
  from Cons.prems r rest have *: "results = \<lparr>hr_Name = hc_Name c,
       hr_Healthy = (case r of Inl err \<Rightarrow> False | Inr u \<Rightarrow> True),
       hr_Error = (case r of Inl err \<Rightarrow> Some err | Inr u \<Rightarrow> None)\<rparr> # rest" and w2: "w2 = w'" by auto
  from Cons.IH [OF rest [unfolded w2]] * show ?case by (auto split: sum.splits)
qed auto

lemma ExecuteDetails_run:
  assumes "run_state (ExecuteDetails checkers) w = ((results, err), w')"
  shows "map hr_Name results = map hc_Name checkers \<and> (err = None \<longleftrightarrow> list_all hr_Healthy results) \<and>
    (\<forall>e. err = Some e \<longrightarrow> errors_Is e (Usecase UErrHealthCheckFailed))"
proof -
  obtain res v where res: "run_state (run_checkers checkers) w = (res, v)" by fastforce
  with assms have "results = res" "err = (if length (filter (\<lambda>r. hr_Error r \<noteq> None) res) > 0
      then Some (Wrap (Usecase UErrHealthCheckFailed)) else None)" by (auto simp: ExecuteDetails_def)
  with run_checkers_run [OF res] show ?thesis by (auto simp: list_all_iff filter_empty_conv)
qed

section \<open>One call per checker\<close>

text \<open>Each of the program's checkers makes one external call and reports its failure.\<close>

fun call_failed :: "fault \<Rightarrow> bool" where
  "call_failed NoFault = False"
| "call_failed (Lost e) = True"
| "call_failed (Unacked e) = True"

definition one_call :: "HealthChecker \<Rightarrow> bool" where
  "one_call c \<longleftrightarrow> (\<forall>w. \<exists>r. run_state (hc_Check c) w = (r, w\<lparr>w_faults := tl (w_faults w)\<rparr>) \<and>
     ((\<exists>e. r = Inl e) \<longleftrightarrow> w_faults w \<noteq> [] \<and> call_failed (hd (w_faults w))))"

definition program_checkers :: "HealthChecker list" where
  "program_checkers = [NewPostgresHealthChecker, NewRedisHealthChecker, NewS3HealthChecker]"

lemma run_external_read:
  "run_state (external (\<lambda>w. (Inr x, w))) w =
    (if w_faults w \<noteq> [] \<and> call_failed (hd (w_faults w))
     then Inl (ext_gerror (case hd (w_faults w) of Lost e \<Rightarrow> e | Unacked e \<Rightarrow> e))
     else Inr x, w\<lparr>w_faults := tl (w_faults w)\<rparr>)"
  by (cases w) (auto simp: external_def split: list.splits fault.splits)

lemma program_checkers_one_call: "c \<in> set program_checkers \<Longrightarrow> one_call c"
  by (auto simp: program_checkers_def one_call_def NewPostgresHealthChecker_def NewRedisHealthChecker_def
      NewS3HealthChecker_def PostgresHealthChecker_Check_def RedisHealthChecker_Check_def RedisClient_Ping_def
      db_ping_def S3HealthChecker_Check_def S3Client_HeadBucket_def s3_head_bucket_def run_external_read)

lemma run_checkers_calls:
  assumes "\<forall>c \<in> set checkers. one_call c" and "run_state (run_checkers checkers) w = (results, w')"
  shows "list_all hr_Healthy results \<longleftrightarrow> \<not> list_ex call_failed (take (length checkers) (w_faults w))"
  using assms
proof (induction checkers arbitrary: w results)
  case (Cons c cs)
  from Cons.prems(1) have "one_call c" by simp
  then obtain r where r: "run_state (hc_Check c) w = (r, w\<lparr>w_faults := tl (w_faults w)\<rparr>)"
    and e: "(\<exists>e. r = Inl e) \<longleftrightarrow> w_faults w \<noteq> [] \<and> call_failed (hd (w_faults w))"
    unfolding one_call_def by blast
  obtain rest w2 where rest: "run_state (run_checkers cs) (w\<lparr>w_faults := tl (w_faults w)\<rparr>) = (rest, w2)" by fastforce
  from Cons.prems r rest have *: "results = \<lparr>hr_Name = hc_Name c,
       hr_Healthy = (case r of Inl err \<Rightarrow> False | Inr u \<Rightarrow> True),
       hr_Error = (case r of Inl err \<Rightarrow> Some err | Inr u \<Rightarrow> None)\<rparr> # rest" and w2: "w2 = w'" by auto
  from Cons.IH [OF _ rest [unfolded w2]] Cons.prems(1)
  have "list_all hr_Healthy rest \<longleftrightarrow> \<not> list_ex call_failed (take (length cs) (tl (w_faults w)))" by simp
  with * e show ?case by (cases "w_faults w"; cases r) auto
qed auto

end
