(* ===== verification/Handlers.thy ===== *)
theory Handlers
  imports Http Batch Content_Transfer Health
begin

text \<open>
  The LFS endpoints and the probes: \<^verbatim>\<open>batch_handler.go\<close>, \<^verbatim>\<open>proxy_handler.go\<close>,
  \<^verbatim>\<open>verify_handler.go\<close>, \<^verbatim>\<open>readyz_handler.go\<close>, \<^verbatim>\<open>health.go\<close>.  A handler takes the request and
  what the authentication middleware left in the context.
\<close>

type_synonym handler = "request \<Rightarrow> UserInfo option \<Rightarrow> (world, reply) state"

section \<open>Batch\<close>

definition maxBodySize :: nat where "maxBodySize = 10 * 1048576"

definition checkPermissions :: "UserInfo option \<Rightarrow> string \<Rightarrow> gerror option" where
  "checkPermissions userInfoRaw operation = (case userInfoRaw of
     None \<Rightarrow> Some (NewAppError 403 MsgNoAuthInfo None)
   | Some userInfo \<Rightarrow> (case ui_permissions userInfo of
       None \<Rightarrow> Some (NewAppError 403 MsgNoPermission None)
     | Some permissions \<Rightarrow>
         if operation = ''upload'' then
           (if \<not> CanUpload permissions then Some (NewAppError 403 MsgNoPermission None) else None)
         else if operation = ''download'' then
           (if \<not> CanDownload permissions then Some (NewAppError 403 MsgNoPermission None) else None)
         else None))"

definition getBaseURL :: "request \<Rightarrow> string" where
  "getBaseURL c =
     (let scheme = ''http'';
          scheme = (if rq_tls c then ''https'' else scheme);
          proto = rq_header c ''X-Forwarded-Proto'';
          scheme = (if proto \<noteq> [] then proto else scheme)
      in scheme @ ''://'' @ rq_host c)"

definition handleUseCaseError :: "gerror \<Rightarrow> gerror" where
  "handleUseCaseError err =
     (if errors_Is err (Usecase UErrInvalidOperation) then NewAppError 422 MsgInvalidOperation (Some err)
      else if errors_Is err (Usecase UErrNoObjects) then NewAppError 422 MsgNoObjects (Some err)
      else if errors_Is err (Usecase UErrInvalidOID) then NewAppError 422 MsgInvalidOID (Some err)
      else if errors_Is err (Usecase UErrInvalidSize) then NewAppError 422 MsgInvalidSize (Some err)
      else if errors_Is err (Usecase UErrInvalidHashAlgorithm) then NewAppError 422 MsgInvalidHashAlgorithm (Some err)
      else if errors_Is err (Usecase UErrAccessDenied) then NewAppError 403 MsgAccessDenied (Some err)
      else NewAppError 500 MsgInternalError (Some err))"

definition BatchHandler_Handle :: "BatchUseCaseMethod \<Rightarrow> handler" where
  "BatchHandler_Handle batchUseCase c userInfo = (case ValidateLFSHeaders c of
     Some err \<Rightarrow> State_Monad.return (Replied (SendLFSError 400 err) None)
   | None \<Rightarrow> (case ExtractRepositoryIdentifier c of
       Inl err \<Rightarrow> State_Monad.return (Replied (SendLFSError 400 MsgInvalidRepositoryIdentifier) None)
     | Inr repoID \<Rightarrow> (case read_limited (maxBodySize + 1) (rq_body c) of
         None \<Rightarrow> State_Monad.return (Replied (SendLFSError 422 MsgBodyParseFailed) None)
       | Some bodyBytes \<Rightarrow>
           if length bodyBytes > maxBodySize
           then State_Monad.return (Replied (SendLFSError 413 MsgBodyTooLarge) None)
           else (case Option.bind (bd_json (rq_body c) (length bodyBytes)) decode_BatchRequestDTO of
             None \<Rightarrow> State_Monad.return (Replied (SendLFSError 422 MsgBodyParseFailed) None)
           | Some reqDTO \<Rightarrow> (case ToBatchRequest (Some repoID) reqDTO of
               Inl err \<Rightarrow> State_Monad.return (Replied (SendLFSError 422 MsgBodyParseFailed) None)
             | Inr req \<Rightarrow> (case checkPermissions userInfo (bd_Operation reqDTO) of
                 Some err \<Rightarrow> State_Monad.return (Failed err)
               | None \<Rightarrow> do {
                   let baseURL = getBaseURL c;
                   let owner = ri_owner repoID;
                   let repo = ri_name repoID;
                   let authHeader = rq_header c ''Authorization'';
                   r \<leftarrow> batchUseCase baseURL owner repo req authHeader;
                   case r of
                     Inl err \<Rightarrow> State_Monad.return (Failed (handleUseCaseError err))
                   | Inr resp \<Rightarrow> State_Monad.return (Replied
                       (c_JSON (header_put ''Content-Type'' GitLFSContentType []) 200 (BatchResponse_json resp)) None)
                 }))))))"

text \<open>More rights never turn a batch away that fewer rights let through.\<close>

lemma checkPermissions_mono:
  assumes "ui_permissions u = Some p" and "ui_permissions u' = Some q" and "p \<le> q"
    and "checkPermissions (Some u) operation = None"
  shows "checkPermissions (Some u') operation = None"
  using assms CanUpload_mono [OF assms(3)] CanDownload_mono [OF assms(3)] by (auto simp: checkPermissions_def split: if_splits)

lemma more_rights_same_batch:
  assumes rights: "ui_permissions u = Some p" "ui_permissions u' = Some q" "p \<le> q"
  shows "BatchHandler_Handle batch c (Some u') = BatchHandler_Handle batch c (Some u) \<or>
    (\<exists>operation e. checkPermissions (Some u) operation = Some e \<and> BatchHandler_Handle batch c (Some u) = State_Monad.return (Failed e))"
proof (cases "Option.bind (bd_json (rq_body c) (length (the (read_limited (maxBodySize + 1) (rq_body c))))) decode_BatchRequestDTO")
  case (Some reqDTO)
  then show ?thesis using checkPermissions_mono [OF rights, of "bd_Operation reqDTO"]
    by (cases "checkPermissions (Some u) (bd_Operation reqDTO)") (auto simp: BatchHandler_Handle_def split: option.split sum.split)
qed (auto simp: BatchHandler_Handle_def split: option.split sum.split)

section \<open>Content through the server\<close>

text \<open>The request's timeout is one of the failures of the calls behind the use case.\<close>

definition handleProxyError :: "gerror \<Rightarrow> reply" where
  "handleProxyError err =
     (if errors_Is err (Usecase UErrAccessDenied) then Replied (SendLFSError 403 MsgAccessDenied) None
      else if errors_Is err (Usecase UErrObjectNotFound) then Replied (SendLFSError 404 MsgObjectMissing) None
      else if errors_Is err (Usecase UErrNotUploaded) then Replied (SendLFSError 404 MsgNotUploadedYet) None
      else if errors_Is err (Extern ContextDeadlineExceeded) then Replied (SendLFSError 504 MsgGatewayTimeout) None
      else if IsStorageError (Some err) then Replied (SendLFSError 502 MsgStorageError) None
      else Replied (SendLFSError 500 MsgInternalError) None)"

definition HandleUpload :: "(string \<Rightarrow> string \<Rightarrow> OID \<Rightarrow> string \<Rightarrow> unit io) \<Rightarrow> handler" where
  "HandleUpload proxyUploadUseCase c userInfo =
     (let owner = rq_param c ''owner''; repo = rq_param c ''repo''; oidStr = rq_param c ''oid'' in
      case NewOID oidStr of
        Inl err \<Rightarrow> State_Monad.return (Replied (SendLFSError 422 MsgInvalidOID) None)
      | Inr oid \<Rightarrow> do {
          r \<leftarrow> proxyUploadUseCase owner repo oid (bd_bytes (rq_body c));
          case r of
            Inl err \<Rightarrow> State_Monad.return (handleProxyError err)
          | Inr u \<Rightarrow> State_Monad.return (Replied
              \<lparr>hp_status = 200, hp_headers = [], hp_cookies = [], hp_content = NoContent\<rparr> None)
        })"

definition HandleDownload :: "(string \<Rightarrow> string \<Rightarrow> OID \<Rightarrow> (string \<times> int) io) \<Rightarrow> handler" where
  "HandleDownload proxyDownloadUseCase c userInfo =
     (let owner = rq_param c ''owner''; repo = rq_param c ''repo''; oidStr = rq_param c ''oid'' in
      case NewOID oidStr of
        Inl err \<Rightarrow> State_Monad.return (Replied (SendLFSError 422 MsgInvalidOID) None)
      | Inr oid \<Rightarrow> do {
          r \<leftarrow> proxyDownloadUseCase owner repo oid;
          case r of
            Inl err \<Rightarrow> State_Monad.return (handleProxyError err)
          | Inr (stream, sz) \<Rightarrow>
              let h = header_put ''Content-Length'' (FormatInt sz) [];
                  h = header_put ''Content-Type'' ''application/octet-stream'' h
              in State_Monad.return (Replied
                \<lparr>hp_status = 200, hp_headers = write_content_type ''application/octet-stream'' h, hp_cookies = [],
                 hp_content = Octets stream\<rparr> None)
        })"

section \<open>Verify\<close>

record VerifyResponse =
  vs_Message :: string

definition VerifyRequest_tags :: "VerifyRequest field list" where
  "VerifyRequest_tags = [(''oid'', into_string (\<lambda>v s. s\<lparr>vr_OID := v\<rparr>)), (''size'', into_int64 (\<lambda>v s. s\<lparr>vr_Size := v\<rparr>))]"

definition VerifyHandler :: "(string \<Rightarrow> int \<Rightarrow> unit io) \<Rightarrow> handler" where
  "VerifyHandler verifyUpload c userInfo = (case ValidateLFSHeaders c of
     Some err \<Rightarrow> State_Monad.return (Replied (SendLFSError 400 err) None)
   | None \<Rightarrow> (case ExtractRepositoryIdentifier c of
       Inl err \<Rightarrow> State_Monad.return (Replied (SendLFSError 400 MsgInvalidRepositoryIdentifier) None)
     | Inr repo \<Rightarrow> (case Option.bind (bd_first (rq_body c)) (decode_struct VerifyRequest_tags \<lparr>vr_OID = [], vr_Size = 0\<rparr>) of
         None \<Rightarrow> State_Monad.return (Replied (SendLFSError 400 MsgVerifyBodyParseFailed) None)
       | Some req \<Rightarrow> (case VerifyRequest_Validate req of
           Some err \<Rightarrow> State_Monad.return (Replied
             (if errors_Is err (Usecase UErrInvalidOID) then SendLFSError 400 MsgOidRequired
              else if errors_Is err (Usecase UErrInvalidSize) then SendLFSError 400 MsgSizePositive
              else SendLFSError 400 (MsgText ''validation error'')) None)
         | None \<Rightarrow> do {
             r \<leftarrow> verifyUpload (vr_OID req) (vr_Size req);
             case r of
               Inl err \<Rightarrow> State_Monad.return (Replied
                 (if errors_Is err (Usecase UErrInvalidOID) then SendLFSError 400 MsgOidFormat
                  else if errors_Is err (Usecase UErrObjectNotFound) then SendLFSError 404 MsgObjectNotFound
                  else if errors_Is err (Usecase UErrSizeMismatch) then SendLFSError 422 MsgSizeMismatch
                  else SendLFSError 500 MsgInternalError) None)
             | Inr u \<Rightarrow> State_Monad.return (Replied
                 (c_JSON [] 200 (JObject [(''message'', JString ''success'')])) None)
           }))))"

section \<open>Probes\<close>

definition HealthHandler :: handler where
  "HealthHandler c userInfo = State_Monad.return (Replied
     (c_JSON [] 200 (JObject [(''status'', JString ''healthy'')])) None)"

text \<open>Maps are written with their keys sorted; the text of an error, which the driver makes, is an
  argument.\<close>

definition convertResultsToMap :: "(gerror \<Rightarrow> string) \<Rightarrow> HealthCheckResult list \<Rightarrow> json list" where
  "convertResultsToMap error_text results = map (\<lambda>r. JObject
     ((case hr_Error r of None \<Rightarrow> [] | Some e \<Rightarrow> [(''error'', JString (error_text e))]) @
      [(''healthy'', JBool (hr_Healthy r)), (''name'', JString (hr_Name r))])) results"

definition ReadyzHandler_Handle ::
  "(gerror \<Rightarrow> string) \<Rightarrow> (world, HealthCheckResult list \<times> gerror option) state \<Rightarrow> handler" where
  "ReadyzHandler_Handle error_text executeDetails c userInfo = do {
     d \<leftarrow> executeDetails;
     case d of (results, err) \<Rightarrow> State_Monad.return (Replied (case err of
       Some e \<Rightarrow> c_JSON [] 503 (JObject [(''details'', JArray (convertResultsToMap error_text results)),
         (''status'', JString ''not ready'')])
     | None \<Rightarrow> c_JSON [] 200 (JObject [(''details'', JArray (convertResultsToMap error_text results)),
         (''status'', JString ''ready'')])) None)
   }"

end
