(* ===== verification/Sessions.thy ===== *)
theory Sessions
  imports Redis_Client
begin

text \<open>
  Sessions and one-time sign-in states over Redis (\<^verbatim>\<open>session.go\<close>, \<^verbatim>\<open>session_store_adapter.go\<close>,
  \<^verbatim>\<open>oauth_state_store.go\<close>): the stores keep the contracts of \<open>Ports\<close>.
\<close>

section \<open>Sessions\<close>

definition NewSessionStore :: SessionStore where
  "NewSessionStore = \<lparr>store_CreateSession = SessionStore_CreateSession,
     store_GetSession = SessionStore_GetSession, store_DeleteSession = SessionStore_DeleteSession\<rparr>"

text \<open>The user a session identifier stands for now.\<close>

definition redis_session :: "world \<Rightarrow> string \<Rightarrow> UserInfo option" where
  "redis_session w sid = Option.bind (redis_live w (SessionKey sid)) (\<lambda>v.
     case UserInfo_Deserialize v of Inl e \<Rightarrow> None | Inr u \<Rightarrow> Some u)"

lemma redis_session_faults [simp]: "redis_session (w\<lparr>w_faults := fs\<rparr>) = redis_session w"
  by (rule ext) (simp add: redis_session_def)

lemma UserInfo_Serialize_Some: "\<exists>data. UserInfo_Serialize (Some u) = Inr data"
  by (simp add: UserInfo_Serialize_def Let_def)

lemma RedisClient_Set_run:
  assumes "run_state (RedisClient_Set k v ttl) w = (r, w')"
  shows "same_tables w w' \<and> (r \<noteq> Inr () \<or> redis_live w' = (redis_live w)(k \<mapsto> v))"
proof -
  obtain q w1 where q: "run_state (redis_cmd_set k v ttl) w = (q, w1)" by fastforce
  from assms q have "w1 = w'" "r = Inr () \<longrightarrow> q = Inr ()"
    by (auto simp: RedisClient_Set_def split: sum.splits)
  with redis_cmd_set_run [OF q] show ?thesis by (auto simp: fun_eq_iff redis_live_write)
qed

lemma RedisClient_SetSession_run:
  assumes "run_state (RedisClient_SetSession sid ou ttl) w = (r, w')"
  shows "same_tables w w' \<and>
    (\<forall>u. ou = Some u \<longrightarrow> r = Inr () \<longrightarrow> wf_user u \<longrightarrow> redis_session w' sid = Some (session_view u))"
proof (cases ou)
  case None
  then show ?thesis using assms by (auto simp: RedisClient_SetSession_def)
next
  case (Some u)
  obtain data where data: "UserInfo_Serialize (Some u) = Inr data" using UserInfo_Serialize_Some by blast
  obtain q w1 where q: "run_state (RedisClient_Set (SessionKey sid) data (if ttl = 0 then SessionTTL else ttl)) w = (q, w1)"
    by fastforce
  from assms q Some data have "w1 = w'" "r = Inr () \<longrightarrow> q = Inr ()"
    by (auto simp: RedisClient_SetSession_def Let_def split: sum.splits)
  with RedisClient_Set_run [OF q] show ?thesis
    using Some data UserInfo_roundtrip [of u data] by (auto simp: redis_session_def)
qed

lemma CreateSession_run:
  assumes "run_state (SessionStore_CreateSession ou ttl) w = (r, w')"
  shows "\<exists>q. run_state (RedisClient_SetSession (w_uuid w (w_uuid_next w)) ou ttl)
      (w\<lparr>w_uuid_next := Suc (w_uuid_next w)\<rparr>) = (q, w') \<and>
    (r = Inr (w_uuid w (w_uuid_next w)) \<and> q = Inr () \<or> (\<exists>e. r = Inl e))"
proof -
  obtain q w1 where "run_state (RedisClient_SetSession (w_uuid w (w_uuid_next w)) ou ttl)
      (w\<lparr>w_uuid_next := Suc (w_uuid_next w)\<rparr>) = (q, w1)" by fastforce
  then show ?thesis using assms by (cases q) (auto simp: SessionStore_CreateSession_def)
qed

lemma GetSession_run:
  assumes "run_state (SessionStore_GetSession sid) w = (r, w')"
  shows "\<exists>fs. w' = w\<lparr>w_faults := fs\<rparr> \<and> (\<forall>u. r = Inr u \<longrightarrow> redis_session w sid = Some u)"
proof -
  obtain q w1 where q: "run_state (redis_cmd_get (SessionKey sid)) w = (q, w1)" by fastforce
  from redis_cmd_get_run [OF q] obtain fs where w1: "w1 = w\<lparr>w_faults := fs\<rparr>"
    and res: "\<And>v. q = Inr v \<Longrightarrow> redis_live w (SessionKey sid) = Some v" by auto
  show ?thesis
  proof (cases q)
    case (Inl e)
    then show ?thesis using assms q w1
      by (auto simp: SessionStore_GetSession_def RedisClient_GetSession_def RedisClient_Get_def split: if_splits)
  next
    case (Inr v)
    then show ?thesis using assms q w1 res [OF Inr]
      by (auto simp: SessionStore_GetSession_def RedisClient_GetSession_def RedisClient_Get_def redis_session_def
          split: sum.splits)
  qed
qed

interpretation redis_sessions: session_store NewSessionStore redis_session
proof unfold_locales
  fix ou ttl w rs w'
  assume "run_state (store_CreateSession NewSessionStore ou ttl) w = (rs, w')"
  then have "run_state (SessionStore_CreateSession ou ttl) w = (rs, w')" by (simp add: NewSessionStore_def)
  from CreateSession_run [OF this] obtain q where
    "run_state (RedisClient_SetSession (w_uuid w (w_uuid_next w)) ou ttl)
      (w\<lparr>w_uuid_next := Suc (w_uuid_next w)\<rparr>) = (q, w')" by blast
  from RedisClient_SetSession_run [OF this]
  show "w_objects w' = w_objects w \<and> w_policies w' = w_policies w \<and> w_storage w' = w_storage w"
    by (simp add: same_tables_def same_elsewhere_def)
next
  fix ou ttl w sid w'
  assume "run_state (store_CreateSession NewSessionStore ou ttl) w = (Inr sid, w')"
  then have "run_state (SessionStore_CreateSession ou ttl) w = (Inr sid, w')" by (simp add: NewSessionStore_def)
  from CreateSession_run [OF this] show "sid = w_uuid w (w_uuid_next w)" by auto
next
  fix u ttl w sid w'
  assume u: "wf_user u" and run: "run_state (store_CreateSession NewSessionStore (Some u) ttl) w = (Inr sid, w')"
  from run have "run_state (SessionStore_CreateSession (Some u) ttl) w = (Inr sid, w')" by (simp add: NewSessionStore_def)
  from CreateSession_run [OF this] have "run_state (RedisClient_SetSession sid (Some u) ttl)
      (w\<lparr>w_uuid_next := Suc (w_uuid_next w)\<rparr>) = (Inr (), w')" by auto
  from RedisClient_SetSession_run [OF this] u show "redis_session w' sid = Some (session_view u)" by blast
next
  fix sid w rg w'
  assume "run_state (store_GetSession NewSessionStore sid) w = (rg, w')"
  then show "same_tables w w' \<and> redis_session w' = redis_session w"
    using GetSession_run by (fastforce simp: NewSessionStore_def)
next
  fix sid w u w'
  assume "run_state (store_GetSession NewSessionStore sid) w = (Inr u, w')"
  then show "redis_session w sid = Some u"
    using GetSession_run by (fastforce simp: NewSessionStore_def)
next
  fix sid w w'
  assume run: "run_state (store_DeleteSession NewSessionStore sid) w = (Inr (), w')"
  obtain q where q: "run_state (RedisClient_Delete (SessionKey sid)) w = (q, w')"
    using run by (cases "run_state (RedisClient_Delete (SessionKey sid)) w")
      (auto simp: NewSessionStore_def SessionStore_DeleteSession_def RedisClient_DeleteSession_def split: sum.splits)
  with run have "q = Inr ()"
    by (cases q) (auto simp: NewSessionStore_def SessionStore_DeleteSession_def RedisClient_DeleteSession_def)
  with RedisClient_Delete_run [OF q] show "redis_session w' sid = None" by (simp add: redis_session_def)
qed

section \<open>Sign-in states\<close>

definition NewOIDCStateStore :: OAuthStateStore where
  "NewOIDCStateStore = \<lparr>store_SaveState = SaveState, store_GetAndDeleteState = GetAndDeleteState\<rparr>"

definition dto_state :: "oauthStateDTO \<Rightarrow> OAuthState" where
  "dto_state dto = NewOAuthState (sd_Repository dto) (sd_RedirectURI dto)
     (if sd_Shell dto \<noteq> []
      then (case ParseShellType (sd_Shell dto) of Inl e \<Rightarrow> ShellType [] | Inr s \<Rightarrow> s)
      else ShellType [])"

definition redis_pending :: "world \<Rightarrow> string \<Rightarrow> OAuthState option" where
  "redis_pending w st = map_option dto_state (redis_read decode_oauthStateDTO w (OIDCStateKey st))"

lemma oauthStateDTO_roundtrip: "decode_oauthStateDTO (oauthStateDTO_json dto) = Some dto"
proof -
  have tags: "field_for oauthStateDTO_fields ''repository'' = Some (into_string (\<lambda>v s. s\<lparr>sd_Repository := v\<rparr>))"
    "field_for oauthStateDTO_fields ''redirect_uri'' = Some (into_string (\<lambda>v s. s\<lparr>sd_RedirectURI := v\<rparr>))"
    "field_for oauthStateDTO_fields ''shell'' = Some (into_string (\<lambda>v s. s\<lparr>sd_Shell := v\<rparr>))"
    by (simp_all add: field_for_def oauthStateDTO_fields_def)
  show ?thesis
    by (cases dto) (simp add: decode_oauthStateDTO_def oauthStateDTO_json_def decode_struct_def tags
        decode_omit_string into_string_def)
qed

lemma dto_state_roundtrip:
  "wf_oauth_state d \<Longrightarrow> dto_state \<lparr>sd_Repository = os_repository d, sd_RedirectURI = os_redirectURI d,
     sd_Shell = ShellType_String (os_shell d)\<rparr> = d"
  by (cases d) (auto simp: wf_oauth_state_def dto_state_def NewOAuthState_def ParseShellType_def
      ShellTypeBash_def ShellTypeZsh_def ShellTypePowerShell_def)

lemma SaveState_run:
  assumes d: "wf_oauth_state d" and run: "run_state (SaveState st d ttl) w = (r, w')"
  shows "same_tables w w' \<and>
    (r \<noteq> Inr () \<and> redis_pending w' = redis_pending w \<or> redis_pending w' = (redis_pending w)(st \<mapsto> d))"
proof -
  define dto where "dto = \<lparr>sd_Repository = os_repository d, sd_RedirectURI = os_redirectURI d,
    sd_Shell = ShellType_String (os_shell d)\<rparr>"
  obtain q w1 where q: "run_state (RedisClient_SetJSON oauthStateDTO_json (OIDCStateKey st) dto ttl) w = (q, w1)"
    by fastforce
  from run q have "w1 = w'" "r = Inr () \<longrightarrow> q = Inr ()"
    by (auto simp: SaveState_def dto_def Let_def split: sum.splits)
  with RedisClient_SetJSON_run [OF q] dto_state_roundtrip [OF d] show ?thesis
    by (auto simp: redis_pending_def fun_eq_iff oauthStateDTO_roundtrip dto_def
        dest: spec [of _ decode_oauthStateDTO])
qed

lemma GetAndDeleteState_run:
  assumes "run_state (GetAndDeleteState st) w = (r, w')"
  shows "same_tables w w' \<and> (redis_pending w' = redis_pending w \<or> redis_pending w' = (redis_pending w)(st := None)) \<and>
    (\<forall>d. r = Inr d \<longrightarrow> redis_pending w st = Some d \<and> redis_pending w' st = None)"
proof -
  obtain q w1 where q: "run_state (redis_cmd_getdel (OIDCStateKey st)) w = (q, w1)" by fastforce
  have w1: "w1 = w'" using assms q
    by (auto simp: GetAndDeleteState_def RedisClient_GetDelJSON_def split: sum.splits if_splits)
  show ?thesis
  proof (cases q)
    case (Inl e)
    then have "\<exists>e. r = Inl e" using assms q
      by (auto simp: GetAndDeleteState_def RedisClient_GetDelJSON_def split: if_splits)
    then show ?thesis using redis_cmd_getdel_run [OF q] Inl w1
      by (auto simp: redis_pending_def redis_read_remove fun_eq_iff)
  next
    case (Inr v)
    with redis_cmd_getdel_run [OF q] w1 obtain fs where
      live: "redis_live w (OIDCStateKey st) = Some v"
      and w': "w' = w\<lparr>w_faults := fs, w_redis := (w_redis w)(OIDCStateKey st := None)\<rparr>" by auto
    have gone: "redis_pending w' = (redis_pending w)(st := None)"
      by (auto simp: redis_pending_def w' redis_read_remove fun_eq_iff)
    have "\<forall>d. r = Inr d \<longrightarrow> redis_pending w st = Some d" using assms q Inr live
      by (auto simp: GetAndDeleteState_def RedisClient_GetDelJSON_def json_Unmarshal_def redis_pending_def
          redis_read_def dto_state_def Let_def split: sum.splits option.splits)
    with gone w' show ?thesis by simp
  qed
qed

interpretation redis_states: oauth_state_store NewOIDCStateStore redis_pending
proof unfold_locales
  fix d ttl st w ru w'
  assume "wf_oauth_state d" "run_state (store_SaveState NewOIDCStateStore st d ttl) w = (ru, w')"
  then show "same_tables w w' \<and> (redis_pending w' = redis_pending w \<or> redis_pending w' = (redis_pending w)(st \<mapsto> d))"
    using SaveState_run [of d st ttl w ru w'] by (auto simp: NewOIDCStateStore_def)
next
  fix d ttl st w w'
  assume "wf_oauth_state d" "run_state (store_SaveState NewOIDCStateStore st d ttl) w = (Inr (), w')"
  then show "redis_pending w' st = Some d"
    using SaveState_run [of d st ttl w "Inr ()" w'] by (simp add: NewOIDCStateStore_def)
next
  fix st w rt w'
  assume "run_state (store_GetAndDeleteState NewOIDCStateStore st) w = (rt, w')"
  then show "same_tables w w' \<and> (redis_pending w' = redis_pending w \<or> redis_pending w' = (redis_pending w)(st := None))"
    using GetAndDeleteState_run [of st w rt w'] by (auto simp: NewOIDCStateStore_def)
next
  fix st w d w'
  assume "run_state (store_GetAndDeleteState NewOIDCStateStore st) w = (Inr d, w')"
  then show "redis_pending w st = Some d \<and> redis_pending w' st = None"
    using GetAndDeleteState_run [of st w "Inr d" w'] by (auto simp: NewOIDCStateStore_def)
qed

end
