(* ===== verification/Allowlist.thy ===== *)
theory Allowlist
  imports Caching
begin

text \<open>
  Which repositories GitHub Actions tokens may come from: what the allowlist repository and the
  cache in front of it (\<^verbatim>\<open>caching_repository_allowlist.go\<close>) promise.  The cache has no
  invalidation that cannot be lost, so its promise is bounded staleness: an answer comes from the
  table or from an entry that is at most \<^verbatim>\<open>repositoryCacheTTL\<close> old.
\<close>

section \<open>Listed and vouched for\<close>

definition listed :: "world \<Rightarrow> AllowedRepository \<Rightarrow> bool" where
  "listed w ar \<longleftrightarrow> list_ex (\<lambda>row. al_Repository row = AllowedRepository_String ar) (w_allowlist w)"

definition allow_key :: "AllowedRepository \<Rightarrow> string" where
  "allow_key ar = OIDCGitHubRepoKey (AllowedRepository_String ar)"

definition vouched :: "world \<Rightarrow> AllowedRepository \<Rightarrow> bool" where
  "vouched w ar \<longleftrightarrow> redis_live w (allow_key ar) = Some (RText ''true'')"

locale repository_allowlist =
  fixes repo :: RepositoryAllowlistRepository and trusted :: "world \<Rightarrow> AllowedRepository \<Rightarrow> bool"
  assumes allowed_state: "run_state (allowlist_IsAllowed repo (Some ar)) w = (ra, w') \<Longrightarrow> same_tables w w'"
    and allowed_sound: "run_state (allowlist_IsAllowed repo (Some ar)) w = (Inr True, w') \<Longrightarrow> trusted w ar"
    and remove_done: "run_state (allowlist_Remove repo (Some ar)) w = (Inr (), w') \<Longrightarrow> \<not> listed w' ar"
    and removed_tables: "run_state (allowlist_Remove repo (Some ar)) w = (rr, w') \<Longrightarrow>
      w_objects w' = w_objects w \<and> w_policies w' = w_policies w \<and> w_storage w' = w_storage w \<and> w_now w' = w_now w"

section \<open>Over Postgres\<close>

lemma pg_IsAllowed_run:
  assumes "run_state (pg_IsAllowed (Some ar)) w = (r, w')"
  shows "\<exists>fs. w' = w\<lparr>w_faults := fs\<rparr> \<and> (\<forall>b. r = Inr b \<longrightarrow> b = listed w ar)"
proof -
  from assms have "run_state (external (\<lambda>w. (Inr (list_ex (\<lambda>row. al_Repository row = AllowedRepository_String ar)
      (w_allowlist w)), w))) w = (r, w')"
    by (simp add: pg_IsAllowed_def RepositoryAllowlistDAO_Exists_def sql_allowlist_exists_def)
  then show ?thesis by (cases rule: external_cases) (auto simp: listed_def)
qed

lemma sql_delete_allowlist_run:
  assumes "run_state (sql_delete_allowlist s) w = (r, w')"
  shows "\<exists>fs m. w' = w\<lparr>w_faults := fs, w_allowlist := m\<rparr> \<and> (\<forall>n. r = Inr n \<longrightarrow> list_all (\<lambda>row. al_Repository row \<noteq> s) m)"
  using assms unfolding sql_delete_allowlist_def
proof (cases rule: external_cases)
  case (ran fs)
  then have "w' = w\<lparr>w_faults := fs, w_allowlist := filter (\<lambda>row. al_Repository row \<noteq> s) (w_allowlist w)\<rparr>" by auto
  then show ?thesis by (intro exI [of _ fs] exI conjI) (auto simp: list_all_iff)
next
  case (lost e fs)
  then have "w' = w\<lparr>w_faults := fs, w_allowlist := w_allowlist w\<rparr>" "\<forall>n. r \<noteq> Inr n" by auto
  then show ?thesis by blast
next
  case (unacked e fs)
  then have "w' = w\<lparr>w_faults := fs, w_allowlist := filter (\<lambda>row. al_Repository row \<noteq> s) (w_allowlist w)\<rparr>"
    "\<forall>n. r \<noteq> Inr n" by auto
  then show ?thesis by blast
qed

lemma pg_Remove_run:
  assumes "run_state (pg_Remove (Some ar)) w = (r, w')"
  shows "\<exists>fs m. w' = w\<lparr>w_faults := fs, w_allowlist := m\<rparr> \<and> (r = Inr () \<longrightarrow> \<not> listed w' ar)"
proof -
  obtain q w1 where q: "run_state (sql_delete_allowlist (AllowedRepository_String ar)) w = (q, w1)" by fastforce
  have w1: "w1 = w'" using assms q
    by (auto simp: pg_Remove_def RepositoryAllowlistDAO_Delete_def split: sum.splits if_splits)
  have "r = Inr () \<longrightarrow> (\<exists>n. q = Inr n)" using assms q
    by (cases q) (auto simp: pg_Remove_def RepositoryAllowlistDAO_Delete_def split: sum.splits if_splits)
  with sql_delete_allowlist_run [OF q] w1 show ?thesis
    by (auto simp: listed_def list_all_iff list_ex_iff)
qed

interpretation pg_allowlist: repository_allowlist NewRepositoryAllowlistRepository listed
proof unfold_locales
  fix ar w ra w'
  assume "run_state (allowlist_IsAllowed NewRepositoryAllowlistRepository (Some ar)) w = (ra, w')"
  from pg_IsAllowed_run [OF this [unfolded NewRepositoryAllowlistRepository_def, simplified]]
  show "same_tables w w'" by auto
next
  fix ar w w'
  assume "run_state (allowlist_IsAllowed NewRepositoryAllowlistRepository (Some ar)) w = (Inr True, w')"
  from pg_IsAllowed_run [OF this [unfolded NewRepositoryAllowlistRepository_def, simplified]]
  show "listed w ar" by auto
next
  fix ar w w'
  assume "run_state (allowlist_Remove NewRepositoryAllowlistRepository (Some ar)) w = (Inr (), w')"
  from pg_Remove_run [OF this [unfolded NewRepositoryAllowlistRepository_def, simplified]]
  show "\<not> listed w' ar" by auto
next
  fix ar w rr w'
  assume "run_state (allowlist_Remove NewRepositoryAllowlistRepository (Some ar)) w = (rr, w')"
  from pg_Remove_run [OF this [unfolded NewRepositoryAllowlistRepository_def, simplified]]
  show "w_objects w' = w_objects w \<and> w_policies w' = w_policies w \<and> w_storage w' = w_storage w \<and> w_now w' = w_now w"
    by auto
qed

section \<open>Behind the cache\<close>

definition cached_allowlist :: RepositoryAllowlistRepository where
  "cached_allowlist = NewCachingRepositoryAllowlist NewRepositoryAllowlistRepository redis_AllowlistCacheClient"

lemma cached_IsAllowed_run:
  assumes "run_state (allowlist_IsAllowed cached_allowlist (Some ar)) w = (r, w')"
  shows "same_tables w w' \<and> (r = Inr True \<longrightarrow> vouched w ar \<or> listed w ar)"
proof -
  obtain c w1 where c: "run_state (redis_cmd_get (allow_key ar)) w = (c, w1)" by fastforce
  from redis_cmd_get_run [OF c] obtain fs where w1: "w1 = w\<lparr>w_faults := fs\<rparr>"
    and hit: "\<And>v. c = Inr v \<Longrightarrow> redis_live w (allow_key ar) = Some v" by auto
  show ?thesis
  proof (cases c)
    case (Inr v)
    then have "r = Inr (v = RText ''true'')" "w' = w1" using assms c
      by (auto simp: cached_allowlist_def NewCachingRepositoryAllowlist_def NewCachingRepositoryAllowlistWithTTL_def
          caching_IsAllowed_def getCacheKey_def checkCache_def redis_AllowlistCacheClient_def RedisClient_Get_def
          allow_key_def)
    with w1 hit [OF Inr] show ?thesis by (auto simp: vouched_def)
  next
    case (Inl e)
    obtain q w2 where q: "run_state (pg_IsAllowed (Some ar)) w1 = (q, w2)" by fastforce
    from pg_IsAllowed_run [OF q] w1 obtain fs' where w2: "w2 = w\<lparr>w_faults := fs'\<rparr>"
      and ans: "\<And>b. q = Inr b \<Longrightarrow> b = listed w ar" by (auto simp: listed_def)
    show ?thesis
    proof (cases q)
      case (Inl e')
      then have "w' = w2 \<and> (\<exists>e. r = Inl e)" using assms c q \<open>c = Inl e\<close>
        by (auto simp: cached_allowlist_def NewCachingRepositoryAllowlist_def NewCachingRepositoryAllowlistWithTTL_def
            caching_IsAllowed_def getCacheKey_def checkCache_def redis_AllowlistCacheClient_def RedisClient_Get_def
            allow_key_def NewRepositoryAllowlistRepository_def split: if_splits)
      with w2 show ?thesis by auto
    next
      case (Inr b)
      obtain u w3 where u: "run_state (redis_cmd_set (allow_key ar) (RText (if b then ''true'' else ''false''))
          repositoryCacheTTL) w2 = (u, w3)" by fastforce
      then have "w' = w3 \<and> r = Inr b" using assms c q \<open>c = Inl e\<close> Inr
        by (cases u) (auto simp: cached_allowlist_def NewCachingRepositoryAllowlist_def NewCachingRepositoryAllowlistWithTTL_def
            caching_IsAllowed_def getCacheKey_def checkCache_def setCache_def redis_AllowlistCacheClient_def
            RedisClient_Get_def RedisClient_Set_def allow_key_def NewRepositoryAllowlistRepository_def split: if_splits)
      with redis_cmd_set_run [OF u] w2 ans [OF Inr] show ?thesis by auto
    qed
  qed
qed

text \<open>A removal that reports success has taken the row away, whatever became of the cache entry.\<close>

lemma cached_Remove_run:
  assumes "run_state (allowlist_Remove cached_allowlist (Some ar)) w = (r, w')"
  shows "(\<exists>m fs red. w' = w\<lparr>w_faults := fs, w_allowlist := m, w_redis := red\<rparr> \<and> (red = w_redis w \<or> red = (w_redis w)(allow_key ar := None))) \<and>
    (r = Inr () \<longrightarrow> \<not> listed w' ar) \<and> (r = Inr () \<longrightarrow> w_faults w = [] \<longrightarrow> \<not> vouched w' ar)"
proof -
  obtain q w1 where q: "run_state (pg_Remove (Some ar)) w = (q, w1)" by fastforce
  from pg_Remove_run [OF q] obtain fs m where w1: "w1 = w\<lparr>w_faults := fs, w_allowlist := m\<rparr>"
    and gone: "q = Inr () \<Longrightarrow> \<not> listed w1 ar" by auto
  show ?thesis
  proof (cases q)
    case (Inl e)
    then have "w' = w1 \<and> (\<exists>e. r = Inl e)" using assms q
      by (auto simp: cached_allowlist_def NewCachingRepositoryAllowlist_def NewCachingRepositoryAllowlistWithTTL_def
          caching_Remove_def NewRepositoryAllowlistRepository_def)
    moreover have "w1 = w\<lparr>w_faults := fs, w_allowlist := m, w_redis := w_redis w\<rparr>" using w1 by simp
    ultimately show ?thesis by blast
  next
    case (Inr u)
    obtain d w2 where d: "run_state (redis_cmd_del (allow_key ar)) w1 = (d, w2)" by fastforce
    then have r: "w' = w2" "r = Inr ()" using assms q Inr
      by (cases d; auto simp: cached_allowlist_def NewCachingRepositoryAllowlist_def NewCachingRepositoryAllowlistWithTTL_def
          caching_Remove_def getCacheKey_def redis_AllowlistCacheClient_def RedisClient_Delete_def allow_key_def
          NewRepositoryAllowlistRepository_def)+
    from d redis_cmd_del_run [OF d] obtain gs where
      w2: "w2 = w1\<lparr>w_faults := gs\<rparr> \<or> w2 = w1\<lparr>w_faults := gs, w_redis := (w_redis w1)(allow_key ar := None)\<rparr>" by auto
    have "\<exists>m fs red. w' = w\<lparr>w_faults := fs, w_allowlist := m, w_redis := red\<rparr> \<and> (red = w_redis w \<or> red = (w_redis w)(allow_key ar := None))"
    proof (cases "w2 = w1\<lparr>w_faults := gs\<rparr>")
      case True
      then have "w' = w\<lparr>w_faults := gs, w_allowlist := m, w_redis := w_redis w\<rparr>" using r w1 by simp
      then show ?thesis by blast
    next
      case False
      then have "w' = w\<lparr>w_faults := gs, w_allowlist := m, w_redis := (w_redis w)(allow_key ar := None)\<rparr>" using r w1 w2 by simp
      then show ?thesis by blast
    qed
    moreover have "w_allowlist w' = w_allowlist w1" using w2 r by auto
    then have "\<not> listed w' ar" using gone Inr by (cases u) (simp add: listed_def)
    moreover have "\<not> vouched w' ar" if ok: "w_faults w = []"
    proof -
      have "w_faults w1 = []" using q ok Inr
        by (auto simp: pg_Remove_def RepositoryAllowlistDAO_Delete_def sql_delete_allowlist_def run_external_ok
            split: sum.splits if_splits)
      then have "w2 = w1\<lparr>w_redis := (w_redis w1)(allow_key ar := None)\<rparr>"
        using d by (simp add: redis_cmd_del_def run_external_ok)
      with r show ?thesis by (simp add: vouched_def redis_live_def)
    qed
    ultimately show ?thesis by blast
  qed
qed

interpretation allowlist: repository_allowlist cached_allowlist "\<lambda>w ar. vouched w ar \<or> listed w ar"
proof unfold_locales
  fix ar w ra w'
  assume "run_state (allowlist_IsAllowed cached_allowlist (Some ar)) w = (ra, w')"
  from cached_IsAllowed_run [OF this] show "same_tables w w'" by simp
next
  fix ar w w'
  assume "run_state (allowlist_IsAllowed cached_allowlist (Some ar)) w = (Inr True, w')"
  from cached_IsAllowed_run [OF this] show "vouched w ar \<or> listed w ar" by simp
next
  fix ar w w'
  assume "run_state (allowlist_Remove cached_allowlist (Some ar)) w = (Inr (), w')"
  from cached_Remove_run [OF this] show "\<not> listed w' ar" by simp
next
  fix ar w rr w'
  assume "run_state (allowlist_Remove cached_allowlist (Some ar)) w = (rr, w')"
  from cached_Remove_run [OF this]
  show "w_objects w' = w_objects w \<and> w_policies w' = w_policies w \<and> w_storage w' = w_storage w \<and> w_now w' = w_now w"
    by auto
qed

section \<open>Bounded staleness\<close>

text \<open>No entry of the allowlist cache outlives its time to live.\<close>

definition allow_entries_fresh :: "world \<Rightarrow> bool" where
  "allow_entries_fresh w \<longleftrightarrow> (\<forall>ar v e. w_redis w (allow_key ar) = Some (v, e) \<longrightarrow>
     (\<exists>t. e = Some t \<and> t \<le> w_now w + repositoryCacheTTL))"

lemma repositoryCacheTTL_pos [simp]: "0 < repositoryCacheTTL"
  by (simp add: repositoryCacheTTL_def Minute_def Second_def)

text \<open>Once an entry's time has run out, only the table answers.\<close>

lemma removal_effective:
  assumes fresh: "allow_entries_fresh w"
    and rem: "run_state (allowlist_Remove cached_allowlist (Some ar)) w = (Inr (), w1)"
    and later: "w_now w1 + repositoryCacheTTL \<le> w_now w2 \<or> w_faults w = [] \<and> w_now w1 \<le> w_now w2"
    and kept: "w_allowlist w2 = w_allowlist w1" "w_redis w2 (allow_key ar) = w_redis w1 (allow_key ar)"
    and ask: "run_state (allowlist_IsAllowed cached_allowlist (Some ar)) w2 = (r, w3)"
  shows "r \<noteq> Inr True"
proof -
  from cached_Remove_run [OF rem] obtain m fs red where
    w1: "w1 = w\<lparr>w_faults := fs, w_allowlist := m, w_redis := red\<rparr>" "red = w_redis w \<or> red = (w_redis w)(allow_key ar := None)"
    and gone: "\<not> listed w1 ar" and dead: "w_faults w = [] \<Longrightarrow> \<not> vouched w1 ar" by blast
  have "\<not> listed w2 ar" using gone kept(1) by (simp add: listed_def)
  moreover have "\<not> vouched w2 ar"
  proof (cases "w_redis w1 (allow_key ar)")
    case None
    then show ?thesis using kept(2) by (simp add: vouched_def redis_live_def)
  next
    case (Some p)
    then obtain v e where p: "w_redis w1 (allow_key ar) = Some (v, e)" by (cases p) auto
    then have "w_redis w (allow_key ar) = Some (v, e)" using w1 by (auto split: if_splits)
    with fresh obtain t where t: "e = Some t" "t \<le> w_now w + repositoryCacheTTL"
      unfolding allow_entries_fresh_def by blast
    have now: "w_now w1 = w_now w" using w1 by simp
    from later show ?thesis
    proof
      assume "w_now w1 + repositoryCacheTTL \<le> w_now w2"
      with t now p kept(2) show ?thesis by (simp add: vouched_def redis_live_def)
    next
      assume "w_faults w = [] \<and> w_now w1 \<le> w_now w2"
      with dead p t kept(2) show ?thesis by (auto simp: vouched_def redis_live_def split: if_splits)
    qed
  qed
  ultimately show ?thesis using allowlist.allowed_sound [of ar w2 w3] ask by auto
qed

end
