(* ===== verification/Signin.thy ===== *)
theory Signin
  imports Sessions Allowlist Net
begin

text \<open>
  The use cases that establish who a caller is: \<^verbatim>\<open>session_auth_usecase.go\<close>,
  \<^verbatim>\<open>github_oidc_usecase.go\<close>, \<^verbatim>\<open>auth_usecase.go\<close> and the OAuth sign-in of
  \<^verbatim>\<open>github_oauth_usecase.go\<close>.  A Go interface value that may be nil is an option; a nil pointer
  stored in an interface is not a nil interface, so it is \<open>Some\<close> of methods that panic.
\<close>

section \<open>Sessions and GitHub Actions tokens\<close>

type_synonym SessionClient = "string \<Rightarrow> UserInfo io"

definition SessionAuth_Authenticate :: "SessionClient \<Rightarrow> string \<Rightarrow> UserInfo io" where
  "SessionAuth_Authenticate sessionClient sessionID = do {
     r \<leftarrow> sessionClient sessionID;
     case r of
       Inl err \<Rightarrow> lift_result (Inl (Wrap (Usecase UErrSessionNotFound)))
     | Inr userInfo \<Rightarrow> lift_result (Inr userInfo)
   }"

record GitHubOIDCProviderInterface =
  oidc_VerifyIDToken :: "string \<Rightarrow> GitHubUserInfo option io"

definition GitHubOIDC_Authenticate ::
  "GitHubOIDCProviderInterface \<Rightarrow> RepositoryAllowlistRepository \<Rightarrow> string \<Rightarrow> UserInfo io" where
  "GitHubOIDC_Authenticate githubProvider repoAllowlistRepo token = do {
     v \<leftarrow> oidc_VerifyIDToken githubProvider token;
     case v of
       Inl err \<Rightarrow> lift_result (Inl err)
     | Inr None \<Rightarrow> lift_result (Inl (Plain ''github provider returned nil user info''))
     | Inr (Some githubUserInfo) \<Rightarrow>
         (case NewAllowedRepositoryFromString (gh_repository githubUserInfo) of
           Inl err \<Rightarrow> lift_result (Inl (Wrap err))
         | Inr allowedRepo \<Rightarrow> do {
             a \<leftarrow> allowlist_IsAllowed repoAllowlistRepo (Some allowedRepo);
             case a of
               Inl err \<Rightarrow> lift_result (Inl (Wrap err))
             | Inr allowed \<Rightarrow>
                 if \<not> allowed then lift_result (Inl (Wrap (Usecase UErrInvalidRepository)))
                 else (case ToUserInfo githubUserInfo of
                   Inl err \<Rightarrow> lift_result (Inl err)
                 | Inr userInfo \<Rightarrow>
                     let fullPerms = NewRepositoryPermissions True True True True True
                     in lift_result (Inr (SetPermissions (Some fullPerms) userInfo)))
           })
   }"

record AuthUseCase =
  githubOIDCUseCase :: "(string \<Rightarrow> UserInfo io) option"
  sessionAuthUseCase :: "string \<Rightarrow> UserInfo io"

definition NewAuthUseCase ::
  "GitHubOIDCProviderInterface option \<Rightarrow> RepositoryAllowlistRepository option \<Rightarrow> SessionClient \<Rightarrow> AuthUseCase" where
  "NewAuthUseCase githubProvider repoAllowlistRepo sessionClient =
     \<lparr>githubOIDCUseCase = (case (githubProvider, repoAllowlistRepo) of
        (Some provider, Some allowlist) \<Rightarrow> Some (GitHubOIDC_Authenticate provider allowlist)
      | _ \<Rightarrow> None),
      sessionAuthUseCase = SessionAuth_Authenticate sessionClient\<rparr>"

definition AuthenticateSession :: "AuthUseCase \<Rightarrow> string \<Rightarrow> UserInfo io" where
  "AuthenticateSession uc sessionID = sessionAuthUseCase uc sessionID"

definition AuthenticateGitHubOIDC :: "AuthUseCase \<Rightarrow> string \<Rightarrow> UserInfo io" where
  "AuthenticateGitHubOIDC uc token = (case githubOIDCUseCase uc of
     None \<Rightarrow> lift_result (Inl (Usecase UErrGitHubOIDCNotConfigured))
   | Some authenticate \<Rightarrow> authenticate token)"

section \<open>OAuth sign-in\<close>

definition uc_OIDCStateTTL :: duration where "uc_OIDCStateTTL = 10 * Minute"
definition uc_SessionTTL :: duration where "uc_SessionTTL = 24 * Hour"

record OAuthTokenResult =
  ot_AccessToken :: string
  ot_TokenType :: string
  ot_Scope :: string

record GitHubUserResult =
  gu_ID :: int
  gu_Login :: string
  gu_Name :: string

record GitHubOAuthProviderInterface =
  oauth_SetRedirectURI :: "string \<Rightarrow> (world, unit) state"
  oauth_GetAuthorizationURL :: "string \<Rightarrow> (world, string) state"
  oauth_ExchangeCode :: "string \<Rightarrow> OAuthTokenResult io"
  oauth_GetUserInfo :: "OAuthTokenResult option \<Rightarrow> GitHubUserResult io"
  oauth_CanAccessRepository :: "OAuthTokenResult option \<Rightarrow> RepositoryIdentifier option \<Rightarrow> bool io"
  oauth_GetRepositoryPermissions :: "OAuthTokenResult option \<Rightarrow> RepositoryIdentifier option \<Rightarrow> RepositoryPermissions io"

record GitHubOAuthUseCase =
  ou_oauthProvider :: GitHubOAuthProviderInterface
  ou_sessionStore :: SessionStore
  ou_stateStore :: OAuthStateStore
  ou_allowedRedirectURIs :: AllowedRedirectURIs

definition NewGitHubOAuthUseCase ::
  "GitHubOAuthProviderInterface option \<Rightarrow> SessionStore option \<Rightarrow> OAuthStateStore option \<Rightarrow>
     AllowedRedirectURIs option \<Rightarrow> gerror + GitHubOAuthUseCase" where
  "NewGitHubOAuthUseCase oauthProvider sessionStore stateStore allowedRedirectURIs =
     (case oauthProvider of None \<Rightarrow> Inl (Plain ''oauthProvider is nil'') | Some p \<Rightarrow>
     (case sessionStore of None \<Rightarrow> Inl (Plain ''sessionStore is nil'') | Some ss \<Rightarrow>
     (case stateStore of None \<Rightarrow> Inl (Plain ''stateStore is nil'') | Some st \<Rightarrow>
     (case allowedRedirectURIs of None \<Rightarrow> Inl (Plain ''allowedRedirectURIs is nil'') | Some uris \<Rightarrow>
        Inr \<lparr>ou_oauthProvider = p, ou_sessionStore = ss, ou_stateStore = st, ou_allowedRedirectURIs = uris\<rparr>))))"

definition StartAuthentication ::
  "GitHubOAuthUseCase \<Rightarrow> RepositoryIdentifier option \<Rightarrow> string \<Rightarrow> ShellType \<Rightarrow> string io" where
  "StartAuthentication u repository redirectURI shell = (case repository of
     None \<Rightarrow> lift_result (Inl (Wrap (Usecase UErrInvalidRepository)))
   | Some repo \<Rightarrow>
       if redirectURI = [] then lift_result (Inl (Wrap (Usecase UErrInvalidRedirectURI)))
       else if \<not> AllowedRedirectURIs_Contains (ou_allowedRedirectURIs u) redirectURI
       then lift_result (Inl (Wrap (Usecase UErrInvalidRedirectURI)))
       else try_bind new_uuid (\<lambda>st. do {
         let stateData = NewOAuthState (FullName repo) redirectURI shell;
         s \<leftarrow> store_SaveState (ou_stateStore u) st stateData uc_OIDCStateTTL;
         case s of
           Inl err \<Rightarrow> lift_result (Inl (Wrap (Usecase UErrStateSaveFailed)))
         | Inr ok \<Rightarrow> do {
             oauth_SetRedirectURI (ou_oauthProvider u) redirectURI;
             authURL \<leftarrow> oauth_GetAuthorizationURL (ou_oauthProvider u) st;
             lift_result (Inr authURL)
           }
       }))"

definition HandleCallback ::
  "GitHubOAuthUseCase \<Rightarrow> string \<Rightarrow> string \<Rightarrow> (string \<times> ShellType) io" where
  "HandleCallback u code st =
     (if code = [] then lift_result (Inl (Wrap (Usecase UErrInvalidCode)))
      else if st = [] then lift_result (Inl (Wrap (Usecase UErrInvalidState)))
      else do {
        sd \<leftarrow> store_GetAndDeleteState (ou_stateStore u) st;
        case sd of
          Inl err \<Rightarrow> lift_result (Inl (Wrap (Usecase UErrInvalidState)))
        | Inr stateData \<Rightarrow> (case NewRepositoryIdentifier (os_repository stateData) of
            Inl err \<Rightarrow> lift_result (Inl (Wrap (Usecase UErrInvalidRepository)))
          | Inr repository \<Rightarrow> do {
              oauth_SetRedirectURI (ou_oauthProvider u) (os_redirectURI stateData);
              tk \<leftarrow> oauth_ExchangeCode (ou_oauthProvider u) code;
              case tk of
                Inl err \<Rightarrow> lift_result (Inl (Wrap (Usecase UErrCodeExchangeFailed)))
              | Inr token \<Rightarrow> do {
                  gu \<leftarrow> oauth_GetUserInfo (ou_oauthProvider u) (Some token);
                  case gu of
                    Inl err \<Rightarrow> lift_result (Inl (Wrap (Usecase UErrUserInfoFailed)))
                  | Inr githubUser \<Rightarrow> do {
                      ps \<leftarrow> oauth_GetRepositoryPermissions (ou_oauthProvider u) (Some token) (Some repository);
                      case ps of
                        Inl err \<Rightarrow> lift_result (Inl (Wrap (Usecase UErrRepositoryAccessCheckFailed)))
                      | Inr permissions \<Rightarrow>
                          if \<not> CanDownload permissions
                          then lift_result (Inl (Wrap (Usecase UErrRepositoryAccessDenied)))
                          else (case NewUserInfo (FormatInt (gu_ID githubUser)) [] (gu_Name githubUser)
                              ProviderTypeGitHub (Some repository) [] of
                            Inl err \<Rightarrow> lift_result (Inl (Wrap (Usecase UErrUserInfoCreationFailed)))
                          | Inr userInfo \<Rightarrow> do {
                              sid \<leftarrow> store_CreateSession (ou_sessionStore u)
                                (Some (SetPermissions (Some permissions) userInfo)) uc_SessionTTL;
                              case sid of
                                Inl err \<Rightarrow> lift_result (Inl (Wrap (Usecase UErrSessionCreationFailed)))
                              | Inr sessionID \<Rightarrow> lift_result (Inr (sessionID, os_shell stateData))
                            })
                    }
                }
            })
      })"

section \<open>What the use cases promise\<close>

lemma SessionAuth_run:
  assumes "run_state (SessionAuth_Authenticate client sid) w = (r, w')"
  shows "\<exists>q. run_state (client sid) w = (q, w') \<and>
    r = (case q of Inl e \<Rightarrow> Inl (Wrap (Usecase UErrSessionNotFound)) | Inr u \<Rightarrow> Inr u)"
proof -
  obtain q v where "run_state (client sid) w = (q, v)" by fastforce
  then show ?thesis using assms by (cases q) (auto simp: SessionAuth_Authenticate_def)
qed

text \<open>A token that is accepted was verified, names a trusted repository, and acts for that
  repository with every permission.\<close>

context repository_allowlist
begin

lemma GitHubOIDC_sound:
  assumes "run_state (GitHubOIDC_Authenticate provider repo token) w = (Inr u, w')"
  shows "\<exists>g w1 ri. run_state (oidc_VerifyIDToken provider token) w = (Inr (Some g), w1) \<and> same_tables w1 w' \<and>
    NewRepositoryIdentifier (gh_repository g) = Inr ri \<and> trusted w1 \<lparr>ar_identifier = ri\<rparr> \<and>
    ui_sub u = gh_sub g \<and> ui_sub u \<noteq> [] \<and> ui_repository u = Some ri \<and> ui_provider u = ProviderTypeGitHub \<and>
    ui_permissions u = Some (NewRepositoryPermissions True True True True True)"
proof -
  obtain v w1 where v: "run_state (oidc_VerifyIDToken provider token) w = (v, w1)" by fastforce
  from assms v obtain g where g: "v = Inr (Some g)"
    by (cases v) (auto simp: GitHubOIDC_Authenticate_def split: option.splits)
  from assms v g obtain ri where ri: "NewRepositoryIdentifier (gh_repository g) = Inr ri"
    by (auto simp: GitHubOIDC_Authenticate_def NewAllowedRepositoryFromString_def split: sum.splits)
  then have ar: "NewAllowedRepositoryFromString (gh_repository g) = Inr \<lparr>ar_identifier = ri\<rparr>"
    by (simp add: NewAllowedRepositoryFromString_def)
  obtain a w2 where a: "run_state (allowlist_IsAllowed repo (Some \<lparr>ar_identifier = ri\<rparr>)) w1 = (a, w2)" by fastforce
  from assms v g ar a have ok: "a = Inr True" "w' = w2"
    by (cases a; simp add: GitHubOIDC_Authenticate_def Let_def split: if_splits sum.splits)+
  from assms v g ar a ok ri have "gh_sub g \<noteq> []"
    "u = SetPermissions (Some (NewRepositoryPermissions True True True True True))
      \<lparr>ui_sub = gh_sub g, ui_email = [], ui_name = gh_actor g, ui_provider = ProviderTypeGitHub,
       ui_repository = Some ri, ui_ref = gh_ref g, ui_permissions = None\<rparr>"
    by (simp_all add: GitHubOIDC_Authenticate_def Let_def ToUserInfo_def NewUserInfo_def split: if_splits sum.splits)
  with v g ri allowed_state [OF a] allowed_sound [of "\<lparr>ar_identifier = ri\<rparr>" w1 w2] a ok show ?thesis
    by (auto simp: SetPermissions_def)
qed

end

section \<open>The sign-in protocol\<close>

text \<open>
  The OAuth provider reads and writes nothing of the world except the shared redirect URI, the
  count of HTTP calls and its own failures.
\<close>

locale oauth_provider =
  fixes provider :: GitHubOAuthProviderInterface
  assumes redirect_state: "run_state (oauth_SetRedirectURI provider uri) w = (x, w') \<Longrightarrow> \<exists>v. w' = w\<lparr>w_redirectURI := v\<rparr>"
    and url_state: "run_state (oauth_GetAuthorizationURL provider st) w = (y, w') \<Longrightarrow> w' = w"
    and exchange_state: "run_state (oauth_ExchangeCode provider code) w = (rt, w') \<Longrightarrow>
      \<exists>n fs. w' = w\<lparr>w_calls := n, w_faults := fs\<rparr>"
    and user_state: "run_state (oauth_GetUserInfo provider tok) w = (rg, w') \<Longrightarrow>
      \<exists>n fs. w' = w\<lparr>w_calls := n, w_faults := fs\<rparr>"
    and permissions_state: "run_state (oauth_GetRepositoryPermissions provider tok orepo) w = (rp, w') \<Longrightarrow>
      \<exists>n fs. w' = w\<lparr>w_calls := n, w_faults := fs\<rparr>"

locale oauth_signin = oauth_provider provider + session_store sessions session + oauth_state_store states pending
  for provider :: GitHubOAuthProviderInterface
    and sessions :: SessionStore and session :: "world \<Rightarrow> string \<Rightarrow> UserInfo option"
    and states :: OAuthStateStore and pending :: "world \<Rightarrow> string \<Rightarrow> OAuthState option" +
  assumes pending_frame: "pending (w\<lparr>w_redirectURI := v\<rparr>) = pending w" "pending (w\<lparr>w_faults := fs\<rparr>) = pending w"
      "pending (w\<lparr>w_uuid_next := n\<rparr>) = pending w" "pending (w\<lparr>w_calls := n\<rparr>) = pending w"
    and create_pending: "run_state (store_CreateSession sessions ou ttl) w = (rs, w') \<Longrightarrow> pending w' = pending w"
begin

lemma StartAuthentication_run:
  assumes st: "ou_oauthProvider u = provider" "ou_stateStore u = states"
    and run: "run_state (StartAuthentication u orepo uri shell) w = (r, w')"
    and shell: "shell \<in> {ShellTypeBash, ShellTypeZsh, ShellTypePowerShell}"
  shows "w_objects w' = w_objects w \<and> w_policies w' = w_policies w \<and> w_storage w' = w_storage w \<and>
    (\<forall>url. r = Inr url \<longrightarrow> AllowedRedirectURIs_Contains (ou_allowedRedirectURIs u) uri \<and>
       (\<exists>ri. orepo = Some ri \<and>
          pending w' (w_uuid w (w_uuid_next w)) = Some (NewOAuthState (FullName ri) uri shell)))"
proof (cases "\<exists>ri. orepo = Some ri \<and> uri \<noteq> [] \<and> AllowedRedirectURIs_Contains (ou_allowedRedirectURIs u) uri")
  case False
  then have "w' = w \<and> (\<exists>e. r = Inl e)" using run
    by (auto simp: StartAuthentication_def split: option.splits if_splits)
  then show ?thesis by auto
next
  case True
  then obtain ri where ri: "orepo = Some ri" and ok: "uri \<noteq> []"
      "AllowedRedirectURIs_Contains (ou_allowedRedirectURIs u) uri" by blast
  let ?st = "w_uuid w (w_uuid_next w)" and ?w1 = "w\<lparr>w_uuid_next := Suc (w_uuid_next w)\<rparr>"
  let ?d = "NewOAuthState (FullName ri) uri shell"
  have d: "wf_oauth_state ?d" using shell by (auto simp: wf_oauth_state_def NewOAuthState_def)
  have ttl: "0 < uc_OIDCStateTTL" by (simp add: uc_OIDCStateTTL_def Minute_def Second_def)
  obtain s w2 where s: "run_state (store_SaveState states ?st ?d uc_OIDCStateTTL) ?w1 = (s, w2)" by fastforce
  from save_pending [OF d ttl s] have tb: "same_tables ?w1 w2" by simp
  show ?thesis
  proof (cases s)
    case (Inl e)
    then have "w' = w2 \<and> (\<exists>e. r = Inl e)" using run ri ok s st
      by (auto simp: StartAuthentication_def run_try_bind Let_def)
    with tb show ?thesis by (auto simp: same_tables_def same_elsewhere_def)
  next
    case (Inr x)
    then have p: "pending w2 ?st = Some ?d" using save_pending_done [OF d ttl, of ?st ?w1 w2] s by (cases x) simp
    obtain y w3 where y: "run_state (oauth_SetRedirectURI provider uri) w2 = (y, w3)"
      by (cases "run_state (oauth_SetRedirectURI provider uri) w2")
    obtain url w4 where url: "run_state (oauth_GetAuthorizationURL provider ?st) w3 = (url, w4)" by fastforce
    have "r = Inr url" "w' = w4" using run ri ok s st Inr y url
      by (simp_all add: StartAuthentication_def run_try_bind Let_def)
    moreover from redirect_state [OF y] url_state [OF url] obtain v where "w4 = w2\<lparr>w_redirectURI := v\<rparr>" by auto
    ultimately show ?thesis using p tb ri ok(2)
      by (auto simp: pending_frame same_tables_def same_elsewhere_def)
  qed
qed

text \<open>A successful callback consumes the pending state, and the session it creates acts for the
  repository of that state with the permissions GitHub reports, which include reading.\<close>

lemma HandleCallback_run:
  assumes st: "ou_oauthProvider u = provider" "ou_stateStore u = states" "ou_sessionStore u = sessions"
    and run: "run_state (HandleCallback u code state) w = (Inr (sid, shell), w')"
  shows "\<exists>d ri usr perms. pending w state = Some d \<and> pending w' state = None \<and> shell = os_shell d \<and>
    NewRepositoryIdentifier (os_repository d) = Inr ri \<and> CanDownload perms \<and>
    session w' sid = Some usr \<and> ui_repository usr = Some ri \<and> ui_permissions usr = Some perms \<and>
    ui_provider usr = ProviderTypeGitHub \<and>
    w_objects w' = w_objects w \<and> w_policies w' = w_policies w \<and> w_storage w' = w_storage w"
proof -
  have cs: "code \<noteq> []" "state \<noteq> []" using run by (auto simp: HandleCallback_def split: if_splits)
  obtain sd w1 where sd: "run_state (store_GetAndDeleteState states state) w = (sd, w1)" by fastforce
  obtain d where d: "sd = Inr d" using run cs sd st by (cases sd) (auto simp: HandleCallback_def)
  obtain ri where ri: "NewRepositoryIdentifier (os_repository d) = Inr ri"
    using run cs sd st d by (cases "NewRepositoryIdentifier (os_repository d)") (auto simp: HandleCallback_def)
  obtain x w2 where x: "run_state (oauth_SetRedirectURI provider (os_redirectURI d)) w1 = (x, w2)"
    by (cases "run_state (oauth_SetRedirectURI provider (os_redirectURI d)) w1")
  obtain tk w3 where tk: "run_state (oauth_ExchangeCode provider code) w2 = (tk, w3)" by fastforce
  obtain tok where tok: "tk = Inr tok" using run cs sd st d ri x tk by (cases tk) (auto simp: HandleCallback_def)
  obtain gu w4 where gu: "run_state (oauth_GetUserInfo provider (Some tok)) w3 = (gu, w4)" by fastforce
  obtain g where g: "gu = Inr g" using run cs sd st d ri x tk tok gu by (cases gu) (auto simp: HandleCallback_def)
  obtain ps w5 where ps: "run_state (oauth_GetRepositoryPermissions provider (Some tok) (Some ri)) w4 = (ps, w5)" by fastforce
  obtain p where p: "ps = Inr p" using run cs sd st d ri x tk tok gu g ps by (cases ps) (auto simp: HandleCallback_def)
  let ?u = "\<lparr>ui_sub = FormatInt (gu_ID g), ui_email = [], ui_name = gu_Name g, ui_provider = ProviderTypeGitHub,
        ui_repository = Some ri, ui_ref = [], ui_permissions = Some p\<rparr>"
  obtain q w6 where q: "run_state (store_CreateSession sessions (Some ?u) uc_SessionTTL) w5 = (q, w6)" by fastforce
  have fin: "CanDownload p" "q = Inr sid" "w' = w6" "shell = os_shell d"
    using run cs sd st d ri x tk tok gu g ps p q
    by (auto simp: HandleCallback_def NewUserInfo_def SetPermissions_def split: if_splits sum.splits)
  have "valid_repository ri" using ri by (simp add: NewRepositoryIdentifier_Inr)
  then have wf: "wf_user ?u" by (simp add: wf_user_def)
  have ttl: "0 < uc_SessionTTL" by (simp add: uc_SessionTTL_def Hour_def Minute_def Second_def)
  from create_done [OF wf ttl, of w5 sid w6] q fin have ses: "session w6 sid = Some (session_view ?u)" by simp
  have view: "session_view ?u = ?u" using grants_something_CanDownload [OF fin(1)] by (simp add: session_view_def)
  from take_done [of state w d w1] sd d have t: "pending w state = Some d" "pending w1 state = None" by auto
  from redirect_state [OF x] exchange_state [OF tk] user_state [OF gu] permissions_state [OF ps]
  obtain v n1 f1 n2 f2 n3 f3 where w5: "w2 = w1\<lparr>w_redirectURI := v\<rparr>" "w3 = w2\<lparr>w_calls := n1, w_faults := f1\<rparr>"
      "w4 = w3\<lparr>w_calls := n2, w_faults := f2\<rparr>" "w5 = w4\<lparr>w_calls := n3, w_faults := f3\<rparr>" by blast
  then have "pending w5 = pending w1" by (simp add: pending_frame)
  with create_pending [OF q] t(2) fin(3) have "pending w' state = None" by simp
  moreover have "w_objects w' = w_objects w \<and> w_policies w' = w_policies w \<and> w_storage w' = w_storage w"
    using take_pending [OF sd] create_tables [OF q] w5 fin(3) by (simp add: same_tables_def same_elsewhere_def)
  ultimately show ?thesis using t(1) ri fin ses view
    by (intro exI [of _ d] exI [of _ ri] exI [of _ ?u] exI [of _ p]) simp
qed

end

end
