(* ===== verification/Access.thy ===== *)
theory Access
  imports Handlers Signin
begin

text \<open>
  Who gets to a handler, and how a caller signs in: \<^verbatim>\<open>middleware/auth_dispatcher.go\<close>, and
  \<^verbatim>\<open>handler/auth\<close> with the login, the callback and the page that shows the session.
\<close>

section \<open>The dispatcher\<close>

definition validateRepository :: "request \<Rightarrow> UserInfo \<Rightarrow> reply option" where
  "validateRepository c userInfo = (case ExtractRepositoryIdentifier c of
     Inl err \<Rightarrow> Some (Replied (SendLFSError 400 MsgInvalidRepositoryPath) (Some (Middleware MErrInvalidRepositoryPath)))
   | Inr urlRepoIdentifier \<Rightarrow> (case ui_repository userInfo of
       None \<Rightarrow> Some (Replied (SendLFSError 403 MsgForbidden) (Some (Middleware MErrRepositoryMismatch)))
     | Some userRepoIdentifier \<Rightarrow>
         if \<not> RepositoryIdentifier_EqualsFold (Some urlRepoIdentifier) (Some userRepoIdentifier)
         then Some (Replied (SendLFSError 403 MsgForbidden) (Some (Middleware MErrRepositoryMismatch)))
         else None))"

definition serve_as :: "handler \<Rightarrow> request \<Rightarrow> UserInfo \<Rightarrow> (world, reply) state" where
  "serve_as next_handler c userInfo = (case validateRepository c userInfo of
     Some r \<Rightarrow> State_Monad.return r
   | None \<Rightarrow> next_handler c (Some userInfo))"

text \<open>The session identifier of a Basic header for the user \<^verbatim>\<open>x-session\<close>.\<close>

definition basic_session :: "string \<Rightarrow> string option" where
  "basic_session authHeader =
     (if prefix ''Basic '' authHeader
      then (case StdEncoding_DecodeString (strings_TrimPrefix authHeader ''Basic '') of
          None \<Rightarrow> None
        | Some decoded \<Rightarrow> (case strings_SplitN2 decoded (CHR '':'') of
            [user, sessionID] \<Rightarrow> if user = ''x-session'' then Some sessionID else None
          | _ \<Rightarrow> None))
      else None)"

primrec is_panic :: "gerror \<Rightarrow> bool" where
  "is_panic (Domain e) = False"
| "is_panic (Usecase e) = False"
| "is_panic (S3 e) = False"
| "is_panic (Redis e) = False"
| "is_panic (Oidc e) = False"
| "is_panic (Middleware e) = False"
| "is_panic InfraErrNotFound = False"
| "is_panic (Extern e) = False"
| "is_panic (Plain s) = False"
| "is_panic (Panic s) = True"
| "is_panic (Wrap e) = False"
| "is_panic (StorageError op e) = False"
| "is_panic (AppError c m e) = False"
| "is_panic (HTTPError c m) = False"

text \<open>A panic is not an error the dispatcher sees: it unwinds through it.\<close>

definition AuthDispatcher :: "AuthUseCase \<Rightarrow> handler \<Rightarrow> request \<Rightarrow> (world, reply) state" where
  "AuthDispatcher authUC next_handler c =
     (let authHeader = rq_header c ''Authorization'' in
      if prefix ''Bearer '' authHeader then do {
        r \<leftarrow> AuthenticateGitHubOIDC authUC (strings_TrimPrefix authHeader ''Bearer '');
        case r of
          Inl err \<Rightarrow>
            if is_panic err then State_Monad.return (Failed err)
            else State_Monad.return (Replied (SendLFSError 401 MsgUnauthorized) None)
        | Inr userInfo \<Rightarrow> serve_as next_handler c userInfo
      }
      else do {
        b \<leftarrow> (case basic_session authHeader of
               None \<Rightarrow> State_Monad.return None
             | Some sessionID \<Rightarrow> do {
                 r \<leftarrow> AuthenticateSession authUC sessionID;
                 State_Monad.return (case r of Inl err \<Rightarrow> None | Inr userInfo \<Rightarrow> Some userInfo)
               });
        case b of
          Some userInfo \<Rightarrow> serve_as next_handler c userInfo
        | None \<Rightarrow> (case rq_cookie c LFSSessionCookieName of
            None \<Rightarrow> State_Monad.return (Replied (SendLFSError 401 MsgUnauthorized) None)
          | Some cookie_value \<Rightarrow>
              if cookie_value = [] then State_Monad.return (Replied (SendLFSError 401 MsgUnauthorized) None)
              else do {
                r \<leftarrow> AuthenticateSession authUC cookie_value;
                case r of
                  Inl err \<Rightarrow> State_Monad.return (Replied (SendLFSError 401 MsgUnauthorized) None)
                | Inr userInfo \<Rightarrow> serve_as next_handler c userInfo
              })
      })"

section \<open>Who is served\<close>

text \<open>How a request is signed in: by a token, by the session of a Basic header, or, when that gave
  no user, by the session cookie.\<close>

inductive signed_in :: "AuthUseCase \<Rightarrow> request \<Rightarrow> world \<Rightarrow> UserInfo \<Rightarrow> world \<Rightarrow> bool" for uc c where
  bearer: "prefix ''Bearer '' (rq_header c ''Authorization'') \<Longrightarrow>
    run_state (AuthenticateGitHubOIDC uc (strings_TrimPrefix (rq_header c ''Authorization'') ''Bearer '')) w = (Inr u, w1) \<Longrightarrow>
    signed_in uc c w u w1"
| basic: "\<not> prefix ''Bearer '' (rq_header c ''Authorization'') \<Longrightarrow>
    basic_session (rq_header c ''Authorization'') = Some sid \<Longrightarrow>
    run_state (AuthenticateSession uc sid) w = (Inr u, w1) \<Longrightarrow> signed_in uc c w u w1"
| session_cookie: "\<not> prefix ''Bearer '' (rq_header c ''Authorization'') \<Longrightarrow>
    basic_session (rq_header c ''Authorization'') = None \<Longrightarrow>
    rq_cookie c LFSSessionCookieName = Some sid \<Longrightarrow> sid \<noteq> [] \<Longrightarrow>
    run_state (AuthenticateSession uc sid) w = (Inr u, w1) \<Longrightarrow> signed_in uc c w u w1"
| second_try: "\<not> prefix ''Bearer '' (rq_header c ''Authorization'') \<Longrightarrow>
    basic_session (rq_header c ''Authorization'') = Some sid' \<Longrightarrow>
    run_state (AuthenticateSession uc sid') w = (Inl e, v) \<Longrightarrow>
    rq_cookie c LFSSessionCookieName = Some sid \<Longrightarrow> sid \<noteq> [] \<Longrightarrow>
    run_state (AuthenticateSession uc sid) v = (Inr u, w1) \<Longrightarrow> signed_in uc c w u w1"

inductive_cases signed_inE: "signed_in uc c w u w1"

text \<open>The repository of the URL is the user's, up to case.\<close>

definition admits :: "request \<Rightarrow> UserInfo \<Rightarrow> bool" where
  "admits c u \<longleftrightarrow> (\<exists>url ri. ExtractRepositoryIdentifier c = Inr url \<and> ui_repository u = Some ri \<and>
     RepositoryIdentifier_EqualsFold (Some url) (Some ri))"

lemma validateRepository_None: "validateRepository c u = None \<longleftrightarrow> admits c u"
  by (auto simp: validateRepository_def admits_def split: sum.splits option.splits)

definition refusal :: "reply \<Rightarrow> bool" where
  "refusal r \<longleftrightarrow> (\<exists>code m e. r = Replied (SendLFSError code m) e \<and> code \<in> {400, 401, 403}) \<or>
     (\<exists>err. r = Failed err \<and> is_panic err)"

lemma validateRepository_Some: "validateRepository c u = Some r \<Longrightarrow> refusal r"
  by (auto simp: validateRepository_def refusal_def split: sum.splits option.splits if_splits)

lemma is_panic_status: "is_panic err \<Longrightarrow> fst (error_status err) = 500"
  by (cases err) simp_all

lemma refusal_status: "refusal r \<Longrightarrow> hp_status (final_response c r) \<in> {400, 401, 403, 500}"
  by (auto simp: refusal_def is_panic_status)

text \<open>Either a signed-in user whose repository is the one of the URL is handed to the next handler,
  or the request is refused and authentication is all that happened.\<close>

definition dispatched ::
  "(world \<Rightarrow> world \<Rightarrow> bool) \<Rightarrow> AuthUseCase \<Rightarrow> handler \<Rightarrow> request \<Rightarrow> world \<Rightarrow> reply \<Rightarrow> world \<Rightarrow> bool" where
  "dispatched R uc next_handler c w r w' \<longleftrightarrow>
     (\<exists>u w1. signed_in uc c w u w1 \<and> admits c u \<and> R w w1 \<and> run_state (next_handler c (Some u)) w1 = (r, w')) \<or>
     (refusal r \<and> R w w')"

lemma serve_as_dispatched:
  assumes "signed_in uc c w u w1" and "R w w1" and "run_state (serve_as next_handler c u) w1 = (r, w')"
  shows "dispatched R uc next_handler c w r w'"
proof (cases "validateRepository c u")
  case None
  with assms(3) have "run_state (next_handler c (Some u)) w1 = (r, w')" by (simp add: serve_as_def)
  with assms(1,2) None show ?thesis unfolding dispatched_def validateRepository_None by blast
next
  case (Some x)
  with assms(3) have "r = x" "w' = w1" by (simp_all add: serve_as_def)
  with Some assms(2) validateRepository_Some show ?thesis by (auto simp: dispatched_def)
qed

lemma dispatched_refused: "refusal r \<Longrightarrow> R w w' \<Longrightarrow> dispatched R uc n c w r w'"
  by (simp add: dispatched_def)

lemma refused_401: "refusal (Replied (SendLFSError 401 m) e)"
  by (auto simp: refusal_def)

lemma AuthDispatcher_run:
  assumes R: "transp R" "reflp R"
    and ses: "\<And>sid. frames R (AuthenticateSession uc sid)" and oidc: "\<And>tok. frames R (AuthenticateGitHubOIDC uc tok)"
    and run: "run_state (AuthDispatcher uc next_handler c) w = (r, w')"
  shows "dispatched R uc next_handler c w r w'"
proof (cases "prefix ''Bearer '' (rq_header c ''Authorization'')")
  case True
  let ?tok = "strings_TrimPrefix (rq_header c ''Authorization'') ''Bearer ''"
  obtain q v where q: "run_state (AuthenticateGitHubOIDC uc ?tok) w = (q, v)" by fastforce
  from framesD [OF oidc q] have Rv: "R w v" .
  show ?thesis
  proof (cases q)
    case (Inl err)
    with run q True have "w' = v" "refusal r"
      by (auto simp: AuthDispatcher_def Let_def refusal_def split: if_splits)
    with Rv show ?thesis by (simp add: dispatched_refused)
  next
    case (Inr u)
    with run q True have "run_state (serve_as next_handler c u) v = (r, w')" by (simp add: AuthDispatcher_def Let_def)
    with serve_as_dispatched [where R = R, OF bearer [OF True q [unfolded Inr]] Rv] show ?thesis by blast
  qed
next
  case False
  let ?b = "basic_session (rq_header c ''Authorization'')"
  let ?enter = "\<lambda>sid. AuthenticateSession uc sid"
  have fallback: "dispatched R uc next_handler c w r w'"
    if v: "R w v" and up: "\<And>sid u w1. rq_cookie c LFSSessionCookieName = Some sid \<Longrightarrow> sid \<noteq> [] \<Longrightarrow>
        run_state (?enter sid) v = (Inr u, w1) \<Longrightarrow> signed_in uc c w u w1"
      and ck: "run_state (case rq_cookie c LFSSessionCookieName of
            None \<Rightarrow> State_Monad.return (Replied (SendLFSError 401 MsgUnauthorized) None)
          | Some cookie_value \<Rightarrow>
              if cookie_value = [] then State_Monad.return (Replied (SendLFSError 401 MsgUnauthorized) None)
              else do {
                r \<leftarrow> AuthenticateSession uc cookie_value;
                case r of
                  Inl err \<Rightarrow> State_Monad.return (Replied (SendLFSError 401 MsgUnauthorized) None)
                | Inr userInfo \<Rightarrow> serve_as next_handler c userInfo
              }) v = (r, w')" for v
  proof (cases "\<exists>sid. rq_cookie c LFSSessionCookieName = Some sid \<and> sid \<noteq> []")
    case False
    with ck have "w' = v" "r = Replied (SendLFSError 401 MsgUnauthorized) None"
      by (auto split: option.splits if_splits)
    with v show ?thesis by (simp add: dispatched_refused refused_401)
  next
    case True
    then obtain sid where sid: "rq_cookie c LFSSessionCookieName = Some sid" "sid \<noteq> []" by blast
    obtain q v1 where q: "run_state (?enter sid) v = (q, v1)" by fastforce
    from v framesD [OF ses q] R(1) have Rv1: "R w v1" by (blast dest: transpD)
    show ?thesis
    proof (cases q)
      case (Inl e)
      with ck sid q have "w' = v1" "r = Replied (SendLFSError 401 MsgUnauthorized) None" by auto
      with Rv1 show ?thesis by (simp add: dispatched_refused refused_401)
    next
      case (Inr u)
      with ck sid q have "run_state (serve_as next_handler c u) v1 = (r, w')" by simp
      with serve_as_dispatched [where R = R, OF up [OF sid q [unfolded Inr]] Rv1] show ?thesis by blast
    qed
  qed
  show ?thesis
  proof (cases ?b)
    case None
    have Rw: "R w w" using R(2) by (simp add: reflp_def)
    show ?thesis
      by (rule fallback [OF Rw]) (use run False None in \<open>auto simp: AuthDispatcher_def Let_def intro: signed_in.session_cookie\<close>)
  next
    case (Some sid)
    obtain q v where q: "run_state (?enter sid) w = (q, v)" by fastforce
    from framesD [OF ses q] have Rv: "R w v" .
    show ?thesis
    proof (cases q)
      case (Inr u)
      with run q False Some have "run_state (serve_as next_handler c u) v = (r, w')"
        by (simp add: AuthDispatcher_def Let_def)
      with serve_as_dispatched [where R = R, OF basic [OF False Some q [unfolded Inr]] Rv] show ?thesis by blast
    next
      case (Inl e)
      show ?thesis
        by (rule fallback [OF Rv]) (use run False Some q Inl in \<open>auto simp: AuthDispatcher_def Let_def intro: signed_in.second_try\<close>)
    qed
  qed
qed

section \<open>Login\<close>

record GitHubLoginHandlerConfig =
  cfg_TrustProxy :: bool
  cfg_AllowedHosts :: "string list"

definition IsHostAllowed :: "string \<Rightarrow> string list \<Rightarrow> bool" where
  "IsHostAllowed host allowedHosts =
     (if allowedHosts = [] then True
      else if host = [] then False
      else list_ex (\<lambda>allowed. host = allowed) allowedHosts)"

definition ResolveScheme :: "request \<Rightarrow> bool \<Rightarrow> string" where
  "ResolveScheme c trustProxy =
     (let forwarded = strings_ToLower (rq_header c ''X-Forwarded-Proto'') in
      if trustProxy \<and> (forwarded = ''http'' \<or> forwarded = ''https'') then forwarded
      else if rq_tls c then ''https'' else ''http'')"

definition c_Redirect :: "cookie list \<Rightarrow> string \<Rightarrow> response" where
  "c_Redirect cookies url =
     \<lparr>hp_status = 302, hp_headers = header_put ''Location'' url [], hp_cookies = cookies, hp_content = NoContent\<rparr>"

definition GitHubLoginHandler :: "GitHubOAuthUseCase \<Rightarrow> GitHubLoginHandlerConfig \<Rightarrow> handler" where
  "GitHubLoginHandler githubOAuthUC cfg c userInfo =
     (let host = rq_host c in
      if \<not> IsHostAllowed host (cfg_AllowedHosts cfg)
      then State_Monad.return (Failed (NewAppError 400 MsgHostNotAllowed (Some (Plain ''host is not in allowed list''))))
      else let repositoryParam = rq_query c ''repository'' in
      if repositoryParam = []
      then State_Monad.return (Failed (NewAppError 400 MsgRepositoryParamMissing
        (Some (Plain ''repository parameter is empty''))))
      else (case NewRepositoryIdentifier repositoryParam of
        Inl err \<Rightarrow> State_Monad.return (Failed (NewAppError 400 MsgRepositoryParamInvalid (Some (Wrap err))))
      | Inr repository \<Rightarrow> (case ParseShellType (rq_query c ''shell'') of
          Inl err \<Rightarrow> State_Monad.return (Failed (NewAppError 400 MsgShellParamInvalid (Some (Wrap err))))
        | Inr shellType \<Rightarrow> do {
            let scheme = ResolveScheme c (cfg_TrustProxy cfg);
            let redirectURI = scheme @ ''://'' @ host @ ''/auth/github/callback'';
            r \<leftarrow> StartAuthentication githubOAuthUC (Some repository) redirectURI shellType;
            case r of
              Inl err \<Rightarrow> State_Monad.return (Failed (NewAppError 500 MsgAuthURLFailed (Some err)))
            | Inr authURL \<Rightarrow> State_Monad.return (Replied (c_Redirect [] authURL) None)
          })))"

section \<open>Callback\<close>

definition handleCallbackError :: "gerror \<Rightarrow> gerror" where
  "handleCallbackError err =
     (if errors_Is err (Usecase UErrInvalidState) then NewAppError 401 MsgAuthSessionInvalid (Some err)
      else if errors_Is err (Usecase UErrRepositoryAccessDenied) then NewAppError 403 MsgRepositoryNoAccess (Some err)
      else if errors_Is err (Usecase UErrCodeExchangeFailed) then NewAppError 401 MsgAuthFailed (Some err)
      else if errors_Is err (Usecase UErrUserInfoFailed) then NewAppError 401 MsgUserInfoFailed (Some err)
      else NewAppError 500 MsgAuthProcessFailed (Some err))"

definition session_cookie :: "string \<Rightarrow> cookie" where
  "session_cookie sessionID = \<lparr>ck_Name = LFSSessionCookieName, ck_Value = sessionID, ck_Path = ''/'',
     ck_HttpOnly = True, ck_Secure = True, ck_SameSiteLax = True, ck_MaxAge = LFSSessionMaxAge\<rparr>"

definition GitHubCallbackHandler :: "GitHubOAuthUseCase \<Rightarrow> handler" where
  "GitHubCallbackHandler githubOAuthUC c userInfo =
     (let code = rq_query c ''code'' in
      if code = []
      then State_Monad.return (Failed (NewAppError 400 MsgCodeParamMissing (Some (Plain ''code parameter is empty''))))
      else let st = rq_query c ''state'' in
      if st = []
      then State_Monad.return (Failed (NewAppError 400 MsgStateParamMissing (Some (Plain ''state parameter is empty''))))
      else do {
        r \<leftarrow> HandleCallback githubOAuthUC code st;
        case r of
          Inl err \<Rightarrow> State_Monad.return (Failed (handleCallbackError err))
        | Inr (sessionID, shellType) \<Rightarrow>
            let redirectURL = ''/auth/session?session_id='' @ sessionID @ ''&host='' @ QueryEscape (rq_host c);
                redirectURL = (if \<not> ShellType_IsZero shellType
                  then redirectURL @ ''&shell='' @ QueryEscape (ShellType_String shellType) else redirectURL)
            in State_Monad.return (Replied (c_Redirect [session_cookie sessionID] redirectURL) None)
      })"

section \<open>The session page\<close>

definition page_head :: string where
  "page_head =
    ''<!DOCTYPE html>'' @ [CHR 0x0A] @ ''<html lang='' @ [CHR 0x22] @ ''ja'' @ [CHR 0x22] @ ''>'' @
    [CHR 0x0A] @ ''<head>'' @ [CHR 0x0A] @ ''    <meta charset='' @ [CHR 0x22] @ ''UTF-8'' @ [CHR 0x22] @
    ''>'' @ [CHR 0x0A] @ ''    <meta name='' @ [CHR 0x22] @ ''viewport'' @ [CHR 0x22] @ '' content='' @
    [CHR 0x22] @ ''width=device-width, initial-scale=1.0'' @ [CHR 0x22] @ ''>'' @ [CHR 0x0A] @
    ''    <title>'' @ [CHR 0xE8, CHR 0xAA, CHR 0x8D, CHR 0xE8, CHR 0xA8, CHR 0xBC, CHR 0xE6, CHR 0x88,
     CHR 0x90, CHR 0xE5, CHR 0x8A, CHR 0x9F] @ '' - Cargohold</title>'' @ [CHR 0x0A] @ ''    <style>'' @
    [CHR 0x0A] @ ''        body {'' @ [CHR 0x0A] @
    ''            font-family: -apple-system, BlinkMacSystemFont, '' @ [CHR 0x27] @ ''Segoe UI'' @
    [CHR 0x27] @ '', Roboto, sans-serif;'' @ [CHR 0x0A] @ ''            max-width: 800px;'' @ [CHR 0x0A] @
    ''            margin: 50px auto;'' @ [CHR 0x0A] @ ''            padding: 20px;'' @ [CHR 0x0A] @
    ''            background-color: #f5f5f5;'' @ [CHR 0x0A] @ ''        }'' @ [CHR 0x0A] @
    ''        .container {'' @ [CHR 0x0A] @ ''            background: white;'' @ [CHR 0x0A] @
    ''            padding: 30px;'' @ [CHR 0x0A] @ ''            border-radius: 8px;'' @ [CHR 0x0A] @
    ''            box-shadow: 0 2px 4px rgba(0,0,0,0.1);'' @ [CHR 0x0A] @ ''        }'' @ [CHR 0x0A] @
    ''        h1 {'' @ [CHR 0x0A] @ ''            color: #28a745;'' @ [CHR 0x0A] @
    ''            margin-bottom: 20px;'' @ [CHR 0x0A] @ ''        }'' @ [CHR 0x0A] @ ''        pre {'' @
    [CHR 0x0A] @ ''            background: #1e1e1e;'' @ [CHR 0x0A] @ ''            color: #d4d4d4;'' @
    [CHR 0x0A] @ ''            padding: 20px;'' @ [CHR 0x0A] @ ''            border-radius: 4px;'' @
    [CHR 0x0A] @ ''            overflow-x: auto;'' @ [CHR 0x0A] @ ''            font-size: 14px;'' @
    [CHR 0x0A] @ ''        }'' @ [CHR 0x0A] @ ''        .note {'' @ [CHR 0x0A] @
    ''            color: #666;'' @ [CHR 0x0A] @ ''            font-size: 14px;'' @ [CHR 0x0A] @
    ''            margin-top: 20px;'' @ [CHR 0x0A] @ ''        }'' @ [CHR 0x0A] @ ''    </style>'' @
    [CHR 0x0A] @ ''</head>'' @ [CHR 0x0A] @ ''<body>'' @ [CHR 0x0A] @ ''    <div class='' @ [CHR 0x22] @
    ''container'' @ [CHR 0x22] @ ''>'' @ [CHR 0x0A] @ ''        <h1>'' @ [CHR 0xE8, CHR 0xAA, CHR 0x8D,
     CHR 0xE8, CHR 0xA8, CHR 0xBC, CHR 0xE6, CHR 0x88, CHR 0x90, CHR 0xE5, CHR 0x8A, CHR 0x9F, CHR 0xEF,
     CHR 0xBC, CHR 0x81] @ ''</h1>'' @ [CHR 0x0A] @ ''        <p>Git LFS '' @ [CHR 0xE3, CHR 0x82, CHR 0x92,
     CHR 0xE4, CHR 0xBD, CHR 0xBF, CHR 0xE7, CHR 0x94, CHR 0xA8, CHR 0xE3, CHR 0x81, CHR 0x99, CHR 0xE3,
     CHR 0x82, CHR 0x8B, CHR 0xE3, CHR 0x81, CHR 0xAB, CHR 0xE3, CHR 0x81, CHR 0xAF, CHR 0xE3, CHR 0x80,
     CHR 0x81, CHR 0xE4, CHR 0xBB, CHR 0xA5, CHR 0xE4, CHR 0xB8, CHR 0x8B, CHR 0xE3, CHR 0x81, CHR 0xAE,
     CHR 0xE3, CHR 0x82, CHR 0xB3, CHR 0xE3, CHR 0x83, CHR 0x9E, CHR 0xE3, CHR 0x83, CHR 0xB3, CHR 0xE3,
     CHR 0x83, CHR 0x89, CHR 0xE3, CHR 0x82, CHR 0x92, CHR 0xE5, CHR 0xAE, CHR 0x9F, CHR 0xE8, CHR 0xA1,
     CHR 0x8C, CHR 0xE3, CHR 0x81, CHR 0x97, CHR 0xE3, CHR 0x81, CHR 0xA6, CHR 0xE3, CHR 0x81, CHR 0x8F,
     CHR 0xE3, CHR 0x81, CHR 0xA0, CHR 0xE3, CHR 0x81, CHR 0x95, CHR 0xE3, CHR 0x81, CHR 0x84, CHR 0xEF,
     CHR 0xBC, CHR 0x9A] @ ''</p>'' @ [CHR 0x0A] @ ''        <pre>''"

definition page_tail :: string where
  "page_tail =
    ''</pre>'' @ [CHR 0x0A] @ ''        <p class='' @ [CHR 0x22] @ ''note'' @ [CHR 0x22] @ ''>'' @ [CHR 0xE3,
     CHR 0x82, CHR 0xBB, CHR 0xE3, CHR 0x83, CHR 0x83, CHR 0xE3, CHR 0x82, CHR 0xB7, CHR 0xE3, CHR 0x83,
     CHR 0xA7, CHR 0xE3, CHR 0x83, CHR 0xB3, CHR 0xE3, CHR 0x81, CHR 0xAE, CHR 0xE6, CHR 0x9C, CHR 0x89,
     CHR 0xE5, CHR 0x8A, CHR 0xB9, CHR 0xE6, CHR 0x9C, CHR 0x9F, CHR 0xE9, CHR 0x99, CHR 0x90] @ '': 24'' @
    [CHR 0xE6, CHR 0x99, CHR 0x82, CHR 0xE9, CHR 0x96, CHR 0x93] @ ''</p>'' @ [CHR 0x0A] @ ''    </div>'' @
    [CHR 0x0A] @ ''</body>'' @ [CHR 0x0A] @ ''</html>''"

definition generateSessionDisplayHTML :: "string \<Rightarrow> string" where
  "generateSessionDisplayHTML credentialCmd = page_head @ html_EscapeString credentialCmd @ page_tail"

definition SessionDisplayHandler :: handler where
  "SessionDisplayHandler c userInfo =
     (let sessionID = rq_query c ''session_id'' in
      if sessionID = []
      then State_Monad.return (Failed (NewAppError 400 MsgSessionParamMissing
        (Some (Plain ''session_id parameter is empty''))))
      else let host = rq_query c ''host'' in
      if host = []
      then State_Monad.return (Failed (NewAppError 400 MsgHostParamMissing (Some (Plain ''host parameter is empty''))))
      else let shellType = (case ParseShellType (rq_query c ''shell'') of Inl err \<Rightarrow> ShellType [] | Inr s \<Rightarrow> s);
               credentialCmd = NewCredentialCommand shellType host sessionID;
               htmlContent = generateSessionDisplayHTML credentialCmd
      in State_Monad.return (Replied \<lparr>hp_status = 200,
           hp_headers = header_put ''Content-Type'' ''text/html; charset=UTF-8'' [], hp_cookies = [],
           hp_content = HTMLContent htmlContent\<rparr> None))"

end
