(* ===== verification/Github.thy ===== *)
theory Github
  imports Http Signin
begin

text \<open>
  The clients of GitHub (\<^verbatim>\<open>internal/infrastructure/oidc\<close>): the key set and the verification of
  GitHub Actions tokens, and the OAuth provider behind the sign-in.

  Two things are parameters.  \<open>http_Do\<close> answers an HTTP request; the remote side does not touch
  the world, and its answer may depend on the world and on the number of requests sent before.
  \<open>jwt_Parse\<close> is \<^verbatim>\<open>jwt.Parse\<close> of the JWT library, which calls the given key function; the contract
  \<open>jwt_library\<close> states its documented behaviour.
\<close>

section \<open>HTTP\<close>

record HttpRequest =
  hq_Method :: string
  hq_URL :: string
  hq_Header :: header_map
  hq_Body :: string

record HttpResponse =
  hs_StatusCode :: nat
  hs_Body :: body

type_synonym http_client = "HttpRequest \<Rightarrow> world \<Rightarrow> gerror + HttpResponse"

definition httpClient_Do :: "http_client \<Rightarrow> HttpRequest \<Rightarrow> HttpResponse io" where
  "httpClient_Do http_Do req = external (\<lambda>w. (http_Do req w, w\<lparr>w_calls := Suc (w_calls w)\<rparr>))"

definition http_NewRequest :: "string \<Rightarrow> string \<Rightarrow> string \<Rightarrow> gerror + HttpRequest" where
  "http_NewRequest meth url text =
     (if \<not> request_url_ok url then Inl (Plain ''invalid URL'')
      else Inr \<lparr>hq_Method = meth, hq_URL = url, hq_Header = [], hq_Body = text\<rparr>)"

definition set_header :: "string \<Rightarrow> string \<Rightarrow> HttpRequest \<Rightarrow> HttpRequest" where
  "set_header k v req = req\<lparr>hq_Header := header_put k v (hq_Header req)\<rparr>"

definition ReadAll :: "body \<Rightarrow> string option" where
  "ReadAll b = (if bd_fails b then None else Some (bd_bytes b))"

definition Unmarshal_body :: "body \<Rightarrow> string \<Rightarrow> (json \<Rightarrow> 'a option) \<Rightarrow> gerror + 'a" where
  "Unmarshal_body b text dec = (case Option.bind (bd_json b (length text)) dec of
     None \<Rightarrow> Inl (Plain ''invalid JSON'') | Some v \<Rightarrow> Inr v)"

section \<open>The key set\<close>

definition jwksCacheTTL :: duration where "jwksCacheTTL = 24 * Hour"
definition maxJWKSBodySize :: nat where "maxJWKSBodySize = 1048576"

record JWK =
  jk_Kid :: string
  jk_Kty :: string
  jk_Use :: string
  jk_N :: string
  jk_E :: string

record JWKSet =
  js_Keys :: "JWK list"

definition JWK_tags :: "JWK field list" where
  "JWK_tags = [(''kid'', into_string (\<lambda>v s. s\<lparr>jk_Kid := v\<rparr>)), (''kty'', into_string (\<lambda>v s. s\<lparr>jk_Kty := v\<rparr>)),
     (''use'', into_string (\<lambda>v s. s\<lparr>jk_Use := v\<rparr>)), (''n'', into_string (\<lambda>v s. s\<lparr>jk_N := v\<rparr>)),
     (''e'', into_string (\<lambda>v s. s\<lparr>jk_E := v\<rparr>))]"

definition decode_JWK :: "json \<Rightarrow> JWK option" where
  "decode_JWK = decode_struct JWK_tags \<lparr>jk_Kid = [], jk_Kty = [], jk_Use = [], jk_N = [], jk_E = []\<rparr>"

definition decode_JWKSet :: "json \<Rightarrow> JWKSet option" where
  "decode_JWKSet = decode_struct [(''keys'', into_array decode_JWK (\<lambda>v s. s\<lparr>js_Keys := v\<rparr>))] \<lparr>js_Keys = []\<rparr>"

definition JWK_json :: "JWK \<Rightarrow> json" where
  "JWK_json k = JObject [(''kid'', JString (jk_Kid k)), (''kty'', JString (jk_Kty k)), (''use'', JString (jk_Use k)),
     (''n'', JString (jk_N k)), (''e'', JString (jk_E k))]"

definition JWKSet_json :: "JWKSet \<Rightarrow> json" where
  "JWKSet_json s = JObject [(''keys'', JArray (map JWK_json (js_Keys s)))]"

record RSAPublicKey =
  pk_N :: nat
  pk_E :: int

definition parseRSAPublicKey :: "JWK \<Rightarrow> gerror + RSAPublicKey" where
  "parseRSAPublicKey jwk = (case RawURLEncoding_DecodeString (jk_N jwk) of
     None \<Rightarrow> Inl (Wrap (Plain ''illegal base64 data''))
   | Some nBytes \<Rightarrow> (case RawURLEncoding_DecodeString (jk_E jwk) of
       None \<Rightarrow> Inl (Wrap (Plain ''illegal base64 data''))
     | Some eBytes \<Rightarrow>
         (let n = big_Int nBytes; e = big_Int eBytes in
          if \<not> int64_range (int e) then Inl (Wrap (Oidc OErrExponentOutOfRange))
          else (let exponent = int e in
            if exponent < 0 \<or> exponent > 2 ^ 63 - 1 then Inl (Wrap (Oidc OErrExponentOutOfRange))
            else Inr \<lparr>pk_N = n, pk_E = exponent\<rparr>))))"

fun find_jwk :: "JWK list \<Rightarrow> string \<Rightarrow> gerror + RSAPublicKey" where
  "find_jwk [] keyID = Inl (Wrap (Oidc OErrKeyIDNotFound))"
| "find_jwk (jwk # jwks) keyID =
     (if jk_Kid jwk = keyID \<and> jk_Kty jwk = ''RSA'' then parseRSAPublicKey jwk else find_jwk jwks keyID)"

definition findPublicKey :: "JWKSet \<Rightarrow> string \<Rightarrow> gerror + RSAPublicKey" where
  "findPublicKey jwkSet keyID = find_jwk (js_Keys jwkSet) keyID"

definition fetchJWKSet :: "http_client \<Rightarrow> string \<Rightarrow> JWKSet io" where
  "fetchJWKSet http_Do jwksURL = (case http_NewRequest ''GET'' jwksURL [] of
     Inl err \<Rightarrow> lift_result (Inl (Wrap err))
   | Inr req \<Rightarrow> do {
       r \<leftarrow> httpClient_Do http_Do req;
       case r of
         Inl err \<Rightarrow> lift_result (Inl (Wrap err))
       | Inr resp \<Rightarrow>
           if hs_StatusCode resp \<noteq> 200 then lift_result (Inl (Wrap (Oidc OErrJWKSFetchFailed)))
           else (case read_limited maxJWKSBodySize (hs_Body resp) of
             None \<Rightarrow> lift_result (Inl (Wrap (Plain ''read error'')))
           | Some text \<Rightarrow> (case Unmarshal_body (hs_Body resp) text decode_JWKSet of
               Inl err \<Rightarrow> lift_result (Inl (Wrap err))
             | Inr jwkSet \<Rightarrow> lift_result (Inr jwkSet)))
     })"

definition GetPublicKey :: "http_client \<Rightarrow> JWKSet CacheClient \<Rightarrow> string \<Rightarrow> string \<Rightarrow> string \<Rightarrow> RSAPublicKey io" where
  "GetPublicKey http_Do cacheClient jwksURL keyID provider =
     (let cacheKey = OIDCJWKSKey provider;
          fetch = do {
            s \<leftarrow> fetchJWKSet http_Do jwksURL;
            case s of
              Inl err \<Rightarrow> lift_result (Inl (Wrap err))
            | Inr jwkSet \<Rightarrow> do {
                u \<leftarrow> cache_SetJSON cacheClient cacheKey jwkSet jwksCacheTTL;
                lift_result (findPublicKey jwkSet keyID)
              }
          }
      in do {
        c \<leftarrow> cache_GetJSON cacheClient cacheKey;
        case c of
          Inl err \<Rightarrow> fetch
        | Inr jwkSet \<Rightarrow> (case findPublicKey jwkSet keyID of
            Inl err \<Rightarrow> fetch
          | Inr key \<Rightarrow> lift_result (Inr key))
      })"

section \<open>Tokens\<close>

text \<open>What the code reads of a \<^verbatim>\<open>*jwt.Token\<close>; \<open>jt_Claims\<close> is \<open>None\<close> for claims that are no \<^verbatim>\<open>MapClaims\<close>.\<close>

record jwt_Token =
  jt_MethodRSA :: bool
  jt_kid :: "json option"
  jt_Valid :: bool
  jt_Claims :: "(string \<times> json) list option"

type_synonym jwt_parser = "string \<Rightarrow> (jwt_Token \<Rightarrow> RSAPublicKey io) \<Rightarrow> jwt_Token io"

definition claim_string :: "(string \<times> json) list \<Rightarrow> string \<Rightarrow> string option" where
  "claim_string claims k = (case map_of claims k of Some (JString s) \<Rightarrow> Some s | _ \<Rightarrow> None)"

definition validateIssuer :: "(string \<times> json) list \<Rightarrow> string \<Rightarrow> gerror option" where
  "validateIssuer claims expectedIssuer = (case claim_string claims ''iss'' of
     None \<Rightarrow> Some (Wrap (Oidc OErrInvalidIssuer))
   | Some iss \<Rightarrow> if iss \<noteq> expectedIssuer then Some (Wrap (Oidc OErrInvalidIssuer)) else None)"

definition validateAudience :: "(string \<times> json) list \<Rightarrow> string \<Rightarrow> gerror option" where
  "validateAudience claims expectedAudience = (case map_of claims ''aud'' of
     None \<Rightarrow> Some (Wrap (Oidc OErrInvalidAudience))
   | Some (JString audStr) \<Rightarrow>
       if audStr \<noteq> expectedAudience then Some (Wrap (Oidc OErrInvalidAudience)) else None
   | Some (JArray audArray) \<Rightarrow>
       if list_ex (\<lambda>a. a = JString expectedAudience) audArray then None
       else Some (Wrap (Oidc OErrInvalidAudience))
   | Some aud \<Rightarrow> Some (Wrap (Oidc OErrInvalidAudience)))"

definition verification_key :: "http_client \<Rightarrow> JWKSet CacheClient \<Rightarrow> string \<Rightarrow> string \<Rightarrow> jwt_Token \<Rightarrow> RSAPublicKey io" where
  "verification_key http_Do cacheClient jwksURL provider token =
     (if \<not> jt_MethodRSA token then lift_result (Inl (Plain ''unexpected signing method''))
      else (case jt_kid token of
        Some (JString keyID) \<Rightarrow> do {
          k \<leftarrow> GetPublicKey http_Do cacheClient jwksURL keyID provider;
          case k of Inl err \<Rightarrow> lift_result (Inl (Wrap err)) | Inr publicKey \<Rightarrow> lift_result (Inr publicKey)
        }
      | _ \<Rightarrow> lift_result (Inl (Oidc OErrMissingKeyID))))"

definition VerifyJWT ::
  "http_client \<Rightarrow> jwt_parser \<Rightarrow> JWKSet CacheClient \<Rightarrow> string \<Rightarrow> string \<Rightarrow> string \<Rightarrow> string \<Rightarrow> string \<Rightarrow> jwt_Token io" where
  "VerifyJWT http_Do jwt_Parse cacheClient tokenString jwksURL audience issuer provider = do {
     t \<leftarrow> jwt_Parse tokenString (verification_key http_Do cacheClient jwksURL provider);
     case t of
       Inl err \<Rightarrow>
         if errors_Is err (Extern JwtErrTokenExpired) then lift_result (Inl (Oidc OErrExpiredToken))
         else if errors_Is err (Oidc OErrMissingKeyID) then lift_result (Inl (Oidc OErrMissingKeyID))
         else lift_result (Inl (Wrap (Oidc OErrInvalidToken)))
     | Inr token \<Rightarrow>
         if \<not> jt_Valid token then lift_result (Inl (Oidc OErrInvalidToken))
         else (case jt_Claims token of
           None \<Rightarrow> lift_result (Inl (Wrap (Oidc OErrInvalidToken)))
         | Some claims \<Rightarrow> (case validateIssuer claims issuer of
             Some err \<Rightarrow> lift_result (Inl err)
           | None \<Rightarrow> (case validateAudience claims audience of
               Some err \<Rightarrow> lift_result (Inl err)
             | None \<Rightarrow> lift_result (Inr token))))
   }"

section \<open>The OIDC provider\<close>

definition GitHubJWKSURL :: string where
  "GitHubJWKSURL = ''https://token.actions.githubusercontent.com/.well-known/jwks''"
definition GitHubIssuer :: string where "GitHubIssuer = ''https://token.actions.githubusercontent.com''"

record GitHubOIDCProvider =
  op_cacheClient :: "JWKSet CacheClient"
  op_jwksURL :: string
  op_issuer :: string
  op_audience :: string

definition NewGitHubOIDCProvider ::
  "string \<Rightarrow> JWKSet CacheClient option \<Rightarrow> string \<Rightarrow> gerror + GitHubOIDCProvider" where
  "NewGitHubOIDCProvider audience cacheClient jwksURL =
     (let audience = strings_TrimSpace audience in
      if audience = [] then Inl (Plain ''audience is required'')
      else (case cacheClient of
        None \<Rightarrow> Inl (Plain ''cacheClient is required'')
      | Some cc \<Rightarrow> Inr \<lparr>op_cacheClient = cc, op_jwksURL = (if jwksURL = [] then GitHubJWKSURL else jwksURL),
          op_issuer = GitHubIssuer, op_audience = audience\<rparr>))"

text \<open>The receiver is a pointer: on a nil one the first field access panics.\<close>

definition VerifyIDToken ::
  "http_client \<Rightarrow> jwt_parser \<Rightarrow> GitHubOIDCProvider option \<Rightarrow> string \<Rightarrow> GitHubUserInfo option io" where
  "VerifyIDToken http_Do jwt_Parse provider token = (case provider of
     None \<Rightarrow> lift_result (Inl (Panic ''nil pointer dereference''))
   | Some p \<Rightarrow> do {
       v \<leftarrow> VerifyJWT http_Do jwt_Parse (op_cacheClient p) token (op_jwksURL p) (op_audience p) (op_issuer p) ''github'';
       case v of
         Inl err \<Rightarrow> lift_result (Inl (Wrap err))
       | Inr verifiedToken \<Rightarrow> (case jt_Claims verifiedToken of
           None \<Rightarrow> lift_result (Inl (Wrap (Oidc OErrInvalidToken)))
         | Some jwtClaims \<Rightarrow> (case claim_string jwtClaims ''sub'' of
             None \<Rightarrow> lift_result (Inl (Wrap (Oidc OErrInvalidToken)))
           | Some sub \<Rightarrow> (case claim_string jwtClaims ''repository'' of
               None \<Rightarrow> lift_result (Inl (Wrap (Oidc OErrInvalidToken)))
             | Some repository \<Rightarrow> (case claim_string jwtClaims ''ref'' of
                 None \<Rightarrow> lift_result (Inl (Wrap (Oidc OErrInvalidToken)))
               | Some ref \<Rightarrow> (case claim_string jwtClaims ''actor'' of
                   None \<Rightarrow> lift_result (Inl (Wrap (Oidc OErrInvalidToken)))
                 | Some actor \<Rightarrow> lift_result (Inr (Some (NewGitHubUserInfo sub repository ref actor))))))))
     })"

text \<open>A provider pointer, nil or not, as a value of the use case's interface type.\<close>

definition oidc_interface ::
  "http_client \<Rightarrow> jwt_parser \<Rightarrow> GitHubOIDCProvider option \<Rightarrow> GitHubOIDCProviderInterface" where
  "oidc_interface http_Do jwt_Parse p = \<lparr>oidc_VerifyIDToken = VerifyIDToken http_Do jwt_Parse p\<rparr>"

section \<open>What a verified token proves\<close>

lemma validateIssuer_None: "validateIssuer claims iss = None \<longleftrightarrow> map_of claims ''iss'' = Some (JString iss)"
  by (auto simp: validateIssuer_def claim_string_def split: option.splits json.splits if_splits)

text \<open>The audience claim is the expected one, or a list that has it.\<close>

definition audience_ok :: "(string \<times> json) list \<Rightarrow> string \<Rightarrow> bool" where
  "audience_ok claims aud \<longleftrightarrow> map_of claims ''aud'' = Some (JString aud) \<or>
     (\<exists>js. map_of claims ''aud'' = Some (JArray js) \<and> JString aud \<in> set js)"

lemma validateAudience_None: "validateAudience claims aud = None \<longleftrightarrow> audience_ok claims aud"
  by (auto simp: validateAudience_def audience_ok_def list_ex_iff split: option.splits json.splits if_splits)

text \<open>A key is found only under its identifier, and only among RSA keys.\<close>

lemma findPublicKey_Inr:
  assumes "findPublicKey s keyID = Inr key"
  shows "\<exists>jwk \<in> set (js_Keys s). jk_Kid jwk = keyID \<and> jk_Kty jwk = ''RSA'' \<and> parseRSAPublicKey jwk = Inr key"
proof -
  have "find_jwk ks keyID = Inr key \<Longrightarrow>
      \<exists>jwk \<in> set ks. jk_Kid jwk = keyID \<and> jk_Kty jwk = ''RSA'' \<and> parseRSAPublicKey jwk = Inr key" for ks
    by (induction ks keyID rule: find_jwk.induct) (auto split: if_splits)
  with assms show ?thesis by (simp add: findPublicKey_def)
qed

lemma parseRSAPublicKey_range: "parseRSAPublicKey jwk = Inr key \<Longrightarrow> 0 \<le> pk_E key \<and> pk_E key < 2 ^ 63"
  by (auto simp: parseRSAPublicKey_def Let_def int64_range_def split: option.splits if_splits)

text \<open>Key sets survive the cache.\<close>

lemma JWK_roundtrip: "decode_JWK (JWK_json k) = Some k"
proof -
  have tags: "field_for JWK_tags ''kid'' = Some (into_string (\<lambda>v s. s\<lparr>jk_Kid := v\<rparr>))"
    "field_for JWK_tags ''kty'' = Some (into_string (\<lambda>v s. s\<lparr>jk_Kty := v\<rparr>))"
    "field_for JWK_tags ''use'' = Some (into_string (\<lambda>v s. s\<lparr>jk_Use := v\<rparr>))"
    "field_for JWK_tags ''n'' = Some (into_string (\<lambda>v s. s\<lparr>jk_N := v\<rparr>))"
    "field_for JWK_tags ''e'' = Some (into_string (\<lambda>v s. s\<lparr>jk_E := v\<rparr>))"
    by (simp_all add: field_for_def JWK_tags_def)
  show ?thesis by (cases k) (simp add: decode_JWK_def JWK_json_def decode_struct_def tags into_string_def)
qed

lemma JWKSet_roundtrip: "decode_JWKSet (JWKSet_json s) = Some s"
  by (cases s) (simp add: decode_JWKSet_def JWKSet_json_def decode_struct_def field_for_def into_array_def
      decode_list_map JWK_roundtrip)

definition redis_jwks_cache :: "JWKSet CacheClient" where
  "redis_jwks_cache = redis_CacheClient JWKSet_json decode_JWKSet"

interpretation jwks_cache: cache_client redis_jwks_cache "redis_read decode_JWKSet"
  unfolding redis_jwks_cache_def by (rule redis_cache_client) (simp add: JWKSet_roundtrip)

text \<open>Where a key set can come from: the endpoint answered it, or the cache holds it.\<close>

definition endpoint_serves :: "http_client \<Rightarrow> string \<Rightarrow> JWKSet \<Rightarrow> bool" where
  "endpoint_serves http_Do url s \<longleftrightarrow> (\<exists>req w resp text. http_NewRequest ''GET'' url [] = Inr req \<and>
     http_Do req w = Inr resp \<and> hs_StatusCode resp = 200 \<and>
     Unmarshal_body (hs_Body resp) text decode_JWKSet = Inr s)"

lemma fetchJWKSet_run:
  assumes "run_state (fetchJWKSet http_Do url) w = (Inr s, w')"
  shows "endpoint_serves http_Do url s"
proof (cases "http_NewRequest ''GET'' url []")
  case (Inl e)
  with assms show ?thesis by (simp add: fetchJWKSet_def)
next
  case (Inr req)
  obtain q w1 where q: "run_state (httpClient_Do http_Do req) w = (q, w1)" by fastforce
  with assms Inr obtain resp where resp: "q = Inr resp" by (cases q) (auto simp: fetchJWKSet_def)
  have "\<exists>v. http_Do req v = Inr resp" using q resp unfolding httpClient_Do_def
    by (cases rule: external_cases) (auto intro: exI)
  moreover have "hs_StatusCode resp = 200 \<and> (\<exists>text. Unmarshal_body (hs_Body resp) text decode_JWKSet = Inr s)"
    using assms Inr q resp by (auto simp: fetchJWKSet_def split: if_splits option.splits sum.splits)
  ultimately show ?thesis using Inr by (auto simp: endpoint_serves_def)
qed

lemma GetPublicKey_run:
  assumes "run_state (GetPublicKey http_Do redis_jwks_cache url keyID provider) w = (Inr key, w')"
  shows "\<exists>s. findPublicKey s keyID = Inr key \<and>
    (redis_read decode_JWKSet w (OIDCJWKSKey provider) = Some s \<or> endpoint_serves http_Do url s)"
proof -
  obtain c w1 where c: "run_state (cache_GetJSON redis_jwks_cache (OIDCJWKSKey provider)) w = (c, w1)" by fastforce
  show ?thesis
  proof (cases "\<exists>s. c = Inr s \<and> findPublicKey s keyID = Inr key")
    case True
    with jwks_cache.get_hit [of "OIDCJWKSKey provider" w _ w1] c show ?thesis by blast
  next
    case False
    obtain f w2 where f: "run_state (fetchJWKSet http_Do url) w1 = (f, w2)" by fastforce
    from False assms c f obtain s where s: "f = Inr s" "findPublicKey s keyID = Inr key"
      by (cases f; cases c) (auto simp: GetPublicKey_def Let_def split: sum.splits prod.splits)
    with fetchJWKSet_run f show ?thesis by blast
  qed
qed

text \<open>
  The documented behaviour of \<^verbatim>\<open>jwt.Parse\<close>: it touches the world only through one call of the key
  function, and a token it returns carries the header the key function saw and a signature that
  verifies under the key the function gave.  \<open>verifies\<close> is the signature check.
\<close>

definition jwt_library :: "jwt_parser \<Rightarrow> (string \<Rightarrow> RSAPublicKey \<Rightarrow> jwt_Token \<Rightarrow> bool) \<Rightarrow> bool" where
  "jwt_library jwt_Parse verifies \<longleftrightarrow> (\<forall>s kf w r w'. run_state (jwt_Parse s kf) w = (r, w') \<longrightarrow>
     (w' = w \<or> (\<exists>t0 q. run_state (kf t0) w = (q, w'))) \<and>
     (\<forall>t. r = Inr t \<longrightarrow> (\<exists>t0 key. run_state (kf t0) w = (Inr key, w') \<and>
        jt_MethodRSA t0 = jt_MethodRSA t \<and> jt_kid t0 = jt_kid t \<and> verifies s key t)))"

lemma jwt_library_token:
  assumes "jwt_library jwt_Parse verifies" and "run_state (jwt_Parse s kf) w = (Inr t, w')"
  shows "\<exists>t0 key. run_state (kf t0) w = (Inr key, w') \<and> jt_MethodRSA t0 = jt_MethodRSA t \<and>
    jt_kid t0 = jt_kid t \<and> verifies s key t"
  using assms unfolding jwt_library_def by blast

lemma jwt_library_frames:
  assumes lib: "jwt_library jwt_Parse verifies" and R: "reflp R" and kf: "\<And>t. frames R (kf t)"
  shows "frames R (jwt_Parse s kf)"
proof (rule framesI)
  fix w r w'
  assume "run_state (jwt_Parse s kf) w = (r, w')"
  with lib have "w' = w \<or> (\<exists>t0 q. run_state (kf t0) w = (q, w'))" unfolding jwt_library_def by blast
  then show "R w w'" using framesD [OF kf] R by (auto simp: reflp_def)
qed

lemma verification_key_run:
  assumes "run_state (verification_key http_Do cache url provider t) w = (Inr key, w')"
  shows "jt_MethodRSA t \<and> (\<exists>keyID. jt_kid t = Some (JString keyID) \<and>
    run_state (GetPublicKey http_Do cache url keyID provider) w = (Inr key, w'))"
proof -
  from assms have rsa: "jt_MethodRSA t" by (auto simp: verification_key_def split: if_splits)
  with assms obtain keyID where kid: "jt_kid t = Some (JString keyID)"
    by (auto simp: verification_key_def split: option.splits json.splits)
  obtain q v where "run_state (GetPublicKey http_Do cache url keyID provider) w = (q, v)" by fastforce
  with assms rsa kid show ?thesis by (cases q) (auto simp: verification_key_def)
qed

text \<open>The evidence behind an accepted token: a signature under an RSA key that the issuer's key set
  lists under the token's key identifier, the issuer and the audience.\<close>

definition evidence ::
  "http_client \<Rightarrow> (string \<Rightarrow> RSAPublicKey \<Rightarrow> jwt_Token \<Rightarrow> bool) \<Rightarrow> world \<Rightarrow> GitHubOIDCProvider \<Rightarrow> string \<Rightarrow>
     (string \<times> json) list \<Rightarrow> bool" where
  "evidence http_Do verifies w p tok claims \<longleftrightarrow> (\<exists>t keyID s key. jt_Claims t = Some claims \<and> jt_Valid t \<and>
     jt_MethodRSA t \<and> jt_kid t = Some (JString keyID) \<and> verifies tok key t \<and> findPublicKey s keyID = Inr key \<and>
     (redis_read decode_JWKSet w (OIDCJWKSKey ''github'') = Some s \<or> endpoint_serves http_Do (op_jwksURL p) s) \<and>
     map_of claims ''iss'' = Some (JString (op_issuer p)) \<and> audience_ok claims (op_audience p))"

lemma VerifyJWT_run:
  assumes lib: "jwt_library jwt_Parse verifies"
    and run: "run_state (VerifyJWT http_Do jwt_Parse redis_jwks_cache tok (op_jwksURL p) (op_audience p) (op_issuer p)
      ''github'') w = (Inr t, w')"
  shows "\<exists>claims. jt_Claims t = Some claims \<and> evidence http_Do verifies w p tok claims"
proof -
  let ?kf = "verification_key http_Do redis_jwks_cache (op_jwksURL p) ''github''"
  obtain q v where q: "run_state (jwt_Parse tok ?kf) w = (q, v)" by fastforce
  with run obtain claims where t: "q = Inr t" "v = w'" and valid: "jt_Valid t" and claims: "jt_Claims t = Some claims"
    and iss: "validateIssuer claims (op_issuer p) = None" and aud: "validateAudience claims (op_audience p) = None"
    by (cases q) (auto simp: VerifyJWT_def split: if_splits option.splits)
  from jwt_library_token [OF lib q [unfolded t]] obtain t0 key where kf: "run_state (?kf t0) w = (Inr key, w')"
    and same: "jt_MethodRSA t0 = jt_MethodRSA t" "jt_kid t0 = jt_kid t" and sig: "verifies tok key t" by auto
  from verification_key_run [OF kf] obtain keyID where rsa: "jt_MethodRSA t0" and kid: "jt_kid t0 = Some (JString keyID)"
    and key: "run_state (GetPublicKey http_Do redis_jwks_cache (op_jwksURL p) keyID ''github'') w = (Inr key, w')" by blast
  from GetPublicKey_run [OF key] obtain s where "findPublicKey s keyID = Inr key"
    "redis_read decode_JWKSet w (OIDCJWKSKey ''github'') = Some s \<or> endpoint_serves http_Do (op_jwksURL p) s" by blast
  moreover have "jt_kid t = Some (JString keyID)" "jt_MethodRSA t" using same kid rsa by simp_all
  ultimately show ?thesis using valid claims iss aud sig
    unfolding evidence_def validateIssuer_None validateAudience_None by blast
qed

lemma VerifyIDToken_run:
  assumes lib: "jwt_library jwt_Parse verifies" and p: "op_cacheClient p = redis_jwks_cache"
    and run: "run_state (VerifyIDToken http_Do jwt_Parse (Some p) tok) w = (Inr og, w')"
  shows "\<exists>g claims. og = Some g \<and> evidence http_Do verifies w p tok claims \<and>
    claim_string claims ''sub'' = Some (gh_sub g) \<and> claim_string claims ''repository'' = Some (gh_repository g)"
proof -
  obtain q v where q: "run_state (VerifyJWT http_Do jwt_Parse redis_jwks_cache tok (op_jwksURL p) (op_audience p)
      (op_issuer p) ''github'') w = (q, v)" by fastforce
  with run p obtain t where t: "q = Inr t" by (cases q) (auto simp: VerifyIDToken_def)
  from VerifyJWT_run [OF lib q [unfolded t]] obtain claims where c: "jt_Claims t = Some claims"
    "evidence http_Do verifies w p tok claims" by blast
  with run p q t show ?thesis
    by (auto simp: VerifyIDToken_def NewGitHubUserInfo_def split: option.splits)
qed

end
