(* ===== verification/Oauth.thy ===== *)
theory Oauth
  imports Github
begin

text \<open>
  The OAuth provider behind the sign-in: \<^verbatim>\<open>github_token_exchanger.go\<close>,
  \<^verbatim>\<open>github_user_info_provider.go\<close>, \<^verbatim>\<open>github_repository_checker.go\<close>, and the two layers over them,
  \<^verbatim>\<open>github_oauth_provider.go\<close> and \<^verbatim>\<open>github_oauth_provider_adapter.go\<close>.  The exchanger's
  \<^verbatim>\<open>redirectURI\<close> is one field of the process, so it lives in the world.
\<close>

definition GitHubOAuthAuthorizeURL :: string where
  "GitHubOAuthAuthorizeURL = ''https://github.com/login/oauth/authorize''"
definition GitHubOAuthTokenURL :: string where
  "GitHubOAuthTokenURL = ''https://github.com/login/oauth/access_token''"
definition GitHubAPIUserURL :: string where "GitHubAPIUserURL = ''https://api.github.com/user''"
definition GitHubAPIBaseURL :: string where "GitHubAPIBaseURL = ''https://api.github.com''"

record oauthToken =
  at_AccessToken :: string
  at_TokenType :: string
  at_Scope :: string

record gitHubUser =
  hu_ID :: int
  hu_Login :: string
  hu_Name :: string

section \<open>The token exchanger\<close>

definition maxResponseSize :: nat where "maxResponseSize = 1048576"

record gitHubTokenExchanger =
  te_clientID :: string
  te_clientSecret :: string
  te_tokenEndpoint :: string

definition set_redirectURI :: "string \<Rightarrow> (world, unit) state" where
  "set_redirectURI redirectURI = State (\<lambda>w. ((), w\<lparr>w_redirectURI := strings_TrimSpace redirectURI\<rparr>))"

definition get_redirectURI :: "(world, string) state" where
  "get_redirectURI = State (\<lambda>w. (w_redirectURI w, w))"

definition NewGitHubTokenExchanger :: "string \<Rightarrow> string \<Rightarrow> string \<Rightarrow> gitHubTokenExchanger io" where
  "NewGitHubTokenExchanger clientID clientSecret redirectURI =
     (let clientID = strings_TrimSpace clientID in
      if clientID = [] then lift_result (Inl (Plain ''clientID is required''))
      else let clientSecret = strings_TrimSpace clientSecret in
      if clientSecret = [] then lift_result (Inl (Plain ''clientSecret is required''))
      else do {
        set_redirectURI redirectURI;
        lift_result (Inr \<lparr>te_clientID = clientID, te_clientSecret = clientSecret, te_tokenEndpoint = GitHubOAuthTokenURL\<rparr>)
      })"

definition exchanger_GetAuthorizationURL :: "gitHubTokenExchanger \<Rightarrow> string \<Rightarrow> (world, string) state" where
  "exchanger_GetAuthorizationURL e st = do {
     redirectURI \<leftarrow> get_redirectURI;
     let params = Values_Set ''state'' st (Values_Set ''redirect_uri'' redirectURI
       (Values_Set ''client_id'' (te_clientID e) []));
     State_Monad.return (GitHubOAuthAuthorizeURL @ ''?'' @ Values_Encode params)
   }"

record tokenResponse =
  tr_AccessToken :: string
  tr_TokenType :: string
  tr_Scope :: string
  tr_Error :: string
  tr_ErrorDescription :: string

definition decode_tokenResponse :: "json \<Rightarrow> tokenResponse option" where
  "decode_tokenResponse = decode_struct
     [(''access_token'', into_string (\<lambda>v s. s\<lparr>tr_AccessToken := v\<rparr>)),
      (''token_type'', into_string (\<lambda>v s. s\<lparr>tr_TokenType := v\<rparr>)),
      (''scope'', into_string (\<lambda>v s. s\<lparr>tr_Scope := v\<rparr>)),
      (''error'', into_string (\<lambda>v s. s\<lparr>tr_Error := v\<rparr>)),
      (''error_description'', into_string (\<lambda>v s. s\<lparr>tr_ErrorDescription := v\<rparr>))]
     \<lparr>tr_AccessToken = [], tr_TokenType = [], tr_Scope = [], tr_Error = [], tr_ErrorDescription = []\<rparr>"

definition exchanger_ExchangeCode :: "http_client \<Rightarrow> gitHubTokenExchanger \<Rightarrow> string \<Rightarrow> oauthToken io" where
  "exchanger_ExchangeCode http_Do e code = do {
     redirectURI \<leftarrow> get_redirectURI;
     let form = Values_Set ''redirect_uri'' redirectURI (Values_Set ''code'' code
       (Values_Set ''client_secret'' (te_clientSecret e) (Values_Set ''client_id'' (te_clientID e) [])));
     case http_NewRequest ''POST'' (te_tokenEndpoint e) (Values_Encode form) of
       Inl err \<Rightarrow> lift_result (Inl (Wrap err))
     | Inr req \<Rightarrow> do {
         r \<leftarrow> httpClient_Do http_Do (set_header ''Accept'' ''application/json''
           (set_header ''Content-Type'' ''application/x-www-form-urlencoded'' req));
         case r of
           Inl err \<Rightarrow> lift_result (Inl (Wrap err))
         | Inr resp \<Rightarrow>
             if hs_StatusCode resp \<noteq> 200 then lift_result (Inl (Plain ''token request failed''))
             else (case read_limited (maxResponseSize + 1) (hs_Body resp) of
               None \<Rightarrow> lift_result (Inl (Wrap (Plain ''read error'')))
             | Some text \<Rightarrow>
                 if length text > maxResponseSize then lift_result (Inl (Plain ''response too large''))
                 else (case Unmarshal_body (hs_Body resp) text decode_tokenResponse of
                   Inl err \<Rightarrow> lift_result (Inl (Wrap err))
                 | Inr tokenResp \<Rightarrow>
                     if tr_Error tokenResp \<noteq> [] then lift_result (Inl (Plain ''token request error''))
                     else lift_result (Inr \<lparr>at_AccessToken = tr_AccessToken tokenResp,
                       at_TokenType = tr_TokenType tokenResp, at_Scope = tr_Scope tokenResp\<rparr>)))
       }
   }"

section \<open>User and repository\<close>

definition api_request :: "string \<Rightarrow> string \<Rightarrow> gerror + HttpRequest" where
  "api_request url accessToken = (case http_NewRequest ''GET'' url [] of
     Inl err \<Rightarrow> Inl (Wrap err)
   | Inr req \<Rightarrow> Inr (set_header ''Accept'' ''application/json''
       (set_header ''Authorization'' (''Bearer '' @ accessToken) req)))"

record userResponse =
  ur_ID :: int
  ur_Login :: string
  ur_Name :: string

definition decode_userResponse :: "json \<Rightarrow> userResponse option" where
  "decode_userResponse = decode_struct
     [(''id'', into_int64 (\<lambda>v s. s\<lparr>ur_ID := v\<rparr>)), (''login'', into_string (\<lambda>v s. s\<lparr>ur_Login := v\<rparr>)),
      (''name'', into_string (\<lambda>v s. s\<lparr>ur_Name := v\<rparr>))]
     \<lparr>ur_ID = 0, ur_Login = [], ur_Name = []\<rparr>"

definition provider_GetUserInfo :: "http_client \<Rightarrow> string \<Rightarrow> oauthToken option \<Rightarrow> gitHubUser io" where
  "provider_GetUserInfo http_Do userInfoEndpoint tok = (case tok of
     None \<Rightarrow> lift_result (Inl (Plain ''token is required''))
   | Some token \<Rightarrow>
       if at_AccessToken token = [] then lift_result (Inl (Plain ''access token is required''))
       else (case api_request userInfoEndpoint (at_AccessToken token) of
         Inl err \<Rightarrow> lift_result (Inl err)
       | Inr req \<Rightarrow> do {
           r \<leftarrow> httpClient_Do http_Do req;
           case r of
             Inl err \<Rightarrow> lift_result (Inl (Wrap err))
           | Inr resp \<Rightarrow>
               if hs_StatusCode resp \<noteq> 200 then lift_result (Inl (Plain ''user request failed''))
               else (case ReadAll (hs_Body resp) of
                 None \<Rightarrow> lift_result (Inl (Wrap (Plain ''read error'')))
               | Some text \<Rightarrow> (case Unmarshal_body (hs_Body resp) text decode_userResponse of
                   Inl err \<Rightarrow> lift_result (Inl (Wrap err))
                 | Inr userResp \<Rightarrow> lift_result (Inr \<lparr>hu_ID = ur_ID userResp, hu_Login = ur_Login userResp,
                     hu_Name = ur_Name userResp\<rparr>)))
         }))"

definition repository_url :: "string \<Rightarrow> RepositoryIdentifier \<Rightarrow> string" where
  "repository_url apiEndpoint repo = apiEndpoint @ ''/repos/'' @ ri_owner repo @ ''/'' @ ri_name repo"

definition checker_CanAccessRepository ::
  "http_client \<Rightarrow> string \<Rightarrow> oauthToken option \<Rightarrow> RepositoryIdentifier option \<Rightarrow> bool io" where
  "checker_CanAccessRepository http_Do apiEndpoint tok repository = (case tok of
     None \<Rightarrow> lift_result (Inl (Plain ''token is required''))
   | Some token \<Rightarrow>
       if at_AccessToken token = [] then lift_result (Inl (Plain ''access token is required''))
       else (case repository of
         None \<Rightarrow> lift_result (Inl (Plain ''repository is required''))
       | Some repo \<Rightarrow> (case api_request (repository_url apiEndpoint repo) (at_AccessToken token) of
           Inl err \<Rightarrow> lift_result (Inl err)
         | Inr req \<Rightarrow> do {
             r \<leftarrow> httpClient_Do http_Do req;
             case r of
               Inl err \<Rightarrow> lift_result (Inl (Wrap err))
             | Inr resp \<Rightarrow>
                 if hs_StatusCode resp = 200 then lift_result (Inr True)
                 else if hs_StatusCode resp = 404 \<or> hs_StatusCode resp = 403 then lift_result (Inr False)
                 else lift_result (Inl (Plain ''repository check failed''))
           })))"

record repositoryResponse =
  rr_Permissions :: RepositoryPermissions

definition permission_tags :: "RepositoryPermissions field list" where
  "permission_tags =
     [(''admin'', into_bool (\<lambda>v s. s\<lparr>rp_admin := v\<rparr>)), (''maintain'', into_bool (\<lambda>v s. s\<lparr>rp_maintain := v\<rparr>)),
      (''push'', into_bool (\<lambda>v s. s\<lparr>rp_push := v\<rparr>)), (''triage'', into_bool (\<lambda>v s. s\<lparr>rp_triage := v\<rparr>)),
      (''pull'', into_bool (\<lambda>v s. s\<lparr>rp_pull := v\<rparr>))]"

text \<open>The nested struct is decoded in place: a later member refines what an earlier one set.\<close>

definition decode_repositoryResponse :: "json \<Rightarrow> repositoryResponse option" where
  "decode_repositoryResponse = decode_struct
     [(''permissions'', \<lambda>j s. map_option (\<lambda>p. s\<lparr>rr_Permissions := p\<rparr>)
        (decode_struct permission_tags (rr_Permissions s) j))]
     \<lparr>rr_Permissions = NewRepositoryPermissions False False False False False\<rparr>"

definition checker_GetRepositoryPermissions ::
  "http_client \<Rightarrow> string \<Rightarrow> oauthToken option \<Rightarrow> RepositoryIdentifier option \<Rightarrow> RepositoryPermissions io" where
  "checker_GetRepositoryPermissions http_Do apiEndpoint tok repository = (case tok of
     None \<Rightarrow> lift_result (Inl (Plain ''token is required''))
   | Some token \<Rightarrow>
       if at_AccessToken token = [] then lift_result (Inl (Plain ''access token is required''))
       else (case repository of
         None \<Rightarrow> lift_result (Inl (Plain ''repository is required''))
       | Some repo \<Rightarrow> (case api_request (repository_url apiEndpoint repo) (at_AccessToken token) of
           Inl err \<Rightarrow> lift_result (Inl err)
         | Inr req \<Rightarrow> do {
             r \<leftarrow> httpClient_Do http_Do req;
             case r of
               Inl err \<Rightarrow> lift_result (Inl (Wrap err))
             | Inr resp \<Rightarrow>
                 if hs_StatusCode resp \<noteq> 200 then lift_result (Inl (Plain ''permission request failed''))
                 else (case Option.bind (bd_first (hs_Body resp)) decode_repositoryResponse of
                   None \<Rightarrow> lift_result (Inl (Wrap (Plain ''invalid JSON'')))
                 | Some repoResp \<Rightarrow> (let p = rr_Permissions repoResp in
                     lift_result (Inr (NewRepositoryPermissions (rp_admin p) (rp_push p) (rp_pull p)
                       (rp_maintain p) (rp_triage p)))))
           })))"

section \<open>The provider and its adapter\<close>

record GitHubOAuthProvider =
  gp_tokenExchanger :: gitHubTokenExchanger
  gp_userInfoEndpoint :: string
  gp_apiEndpoint :: string

definition NewGitHubOAuthProvider :: "string \<Rightarrow> string \<Rightarrow> string \<Rightarrow> GitHubOAuthProvider io" where
  "NewGitHubOAuthProvider clientID clientSecret redirectURI = do {
     r \<leftarrow> NewGitHubTokenExchanger clientID clientSecret redirectURI;
     case r of
       Inl err \<Rightarrow> lift_result (Inl err)
     | Inr tokenExchanger \<Rightarrow> lift_result (Inr \<lparr>gp_tokenExchanger = tokenExchanger,
         gp_userInfoEndpoint = GitHubAPIUserURL, gp_apiEndpoint = GitHubAPIBaseURL\<rparr>)
   }"

definition SetTokenEndpoint :: "string \<Rightarrow> GitHubOAuthProvider \<Rightarrow> GitHubOAuthProvider" where
  "SetTokenEndpoint endpoint p = p\<lparr>gp_tokenExchanger := (gp_tokenExchanger p)\<lparr>te_tokenEndpoint := endpoint\<rparr>\<rparr>"

definition SetUserInfoEndpoint :: "string \<Rightarrow> GitHubOAuthProvider \<Rightarrow> GitHubOAuthProvider" where
  "SetUserInfoEndpoint endpoint p = p\<lparr>gp_userInfoEndpoint := endpoint\<rparr>"

definition SetAPIEndpoint :: "string \<Rightarrow> GitHubOAuthProvider \<Rightarrow> GitHubOAuthProvider" where
  "SetAPIEndpoint endpoint p = p\<lparr>gp_apiEndpoint := endpoint\<rparr>"

record GitHubOAuthProviderInternal =
  int_SetRedirectURI :: "string \<Rightarrow> (world, unit) state"
  int_GetAuthorizationURL :: "string \<Rightarrow> (world, string) state"
  int_ExchangeCode :: "string \<Rightarrow> oauthToken io"
  int_GetUserInfo :: "oauthToken option \<Rightarrow> gitHubUser io"
  int_CanAccessRepository :: "oauthToken option \<Rightarrow> RepositoryIdentifier option \<Rightarrow> bool io"
  int_GetRepositoryPermissions :: "oauthToken option \<Rightarrow> RepositoryIdentifier option \<Rightarrow> RepositoryPermissions io"

definition provider_internal :: "http_client \<Rightarrow> GitHubOAuthProvider \<Rightarrow> GitHubOAuthProviderInternal" where
  "provider_internal http_Do p =
     \<lparr>int_SetRedirectURI = set_redirectURI,
      int_GetAuthorizationURL = exchanger_GetAuthorizationURL (gp_tokenExchanger p),
      int_ExchangeCode = exchanger_ExchangeCode http_Do (gp_tokenExchanger p),
      int_GetUserInfo = provider_GetUserInfo http_Do (gp_userInfoEndpoint p),
      int_CanAccessRepository = checker_CanAccessRepository http_Do (gp_apiEndpoint p),
      int_GetRepositoryPermissions = checker_GetRepositoryPermissions http_Do (gp_apiEndpoint p)\<rparr>"

text \<open>The adapter dereferences the token it is given.\<close>

definition internal_token :: "OAuthTokenResult \<Rightarrow> oauthToken" where
  "internal_token token = \<lparr>at_AccessToken = ot_AccessToken token, at_TokenType = ot_TokenType token,
     at_Scope = ot_Scope token\<rparr>"

definition adapter_ExchangeCode :: "GitHubOAuthProviderInternal \<Rightarrow> string \<Rightarrow> OAuthTokenResult io" where
  "adapter_ExchangeCode provider code = do {
     r \<leftarrow> int_ExchangeCode provider code;
     case r of
       Inl err \<Rightarrow> lift_result (Inl err)
     | Inr token \<Rightarrow> lift_result (Inr \<lparr>ot_AccessToken = at_AccessToken token, ot_TokenType = at_TokenType token,
         ot_Scope = at_Scope token\<rparr>)
   }"

definition adapter_GetUserInfo :: "GitHubOAuthProviderInternal \<Rightarrow> OAuthTokenResult option \<Rightarrow> GitHubUserResult io" where
  "adapter_GetUserInfo provider tok = (case tok of
     None \<Rightarrow> lift_result (Inl (Panic ''nil pointer dereference''))
   | Some token \<Rightarrow> do {
       r \<leftarrow> int_GetUserInfo provider (Some (internal_token token));
       case r of
         Inl err \<Rightarrow> lift_result (Inl err)
       | Inr user \<Rightarrow> lift_result (Inr \<lparr>gu_ID = hu_ID user, gu_Login = hu_Login user, gu_Name = hu_Name user\<rparr>)
     })"

definition adapter_CanAccessRepository ::
  "GitHubOAuthProviderInternal \<Rightarrow> OAuthTokenResult option \<Rightarrow> RepositoryIdentifier option \<Rightarrow> bool io" where
  "adapter_CanAccessRepository provider tok repo = (case tok of
     None \<Rightarrow> lift_result (Inl (Panic ''nil pointer dereference''))
   | Some token \<Rightarrow> int_CanAccessRepository provider (Some (internal_token token)) repo)"

definition adapter_GetRepositoryPermissions ::
  "GitHubOAuthProviderInternal \<Rightarrow> OAuthTokenResult option \<Rightarrow> RepositoryIdentifier option \<Rightarrow> RepositoryPermissions io" where
  "adapter_GetRepositoryPermissions provider tok repo = (case tok of
     None \<Rightarrow> lift_result (Inl (Panic ''nil pointer dereference''))
   | Some token \<Rightarrow> int_GetRepositoryPermissions provider (Some (internal_token token)) repo)"

definition NewGitHubOAuthProviderAdapter :: "GitHubOAuthProviderInternal \<Rightarrow> GitHubOAuthProviderInterface" where
  "NewGitHubOAuthProviderAdapter provider =
     \<lparr>oauth_SetRedirectURI = int_SetRedirectURI provider,
      oauth_GetAuthorizationURL = int_GetAuthorizationURL provider,
      oauth_ExchangeCode = adapter_ExchangeCode provider,
      oauth_GetUserInfo = adapter_GetUserInfo provider,
      oauth_CanAccessRepository = adapter_CanAccessRepository provider,
      oauth_GetRepositoryPermissions = adapter_GetRepositoryPermissions provider\<rparr>"

definition github_oauth :: "http_client \<Rightarrow> GitHubOAuthProvider \<Rightarrow> GitHubOAuthProviderInterface" where
  "github_oauth http_Do p = NewGitHubOAuthProviderAdapter (provider_internal http_Do p)"

section \<open>The provider keeps the contract of the sign-in\<close>

definition only_called :: "world \<Rightarrow> world \<Rightarrow> bool" where
  "only_called w w' \<longleftrightarrow> (\<exists>n fs. w' = w\<lparr>w_calls := n, w_faults := fs\<rparr>)"

lemma only_called_refl [simp]: "only_called w w"
  unfolding only_called_def by (rule exI [of _ "w_calls w"], rule exI [of _ "w_faults w"]) simp

lemma reflp_only_called [simp, intro]: "reflp only_called"
  by (simp add: reflp_def)

lemma transp_only_called [simp, intro]: "transp only_called"
proof (rule transpI)
  fix u v w
  assume "only_called u v" "only_called v w"
  then obtain n fs m gs where "v = u\<lparr>w_calls := n, w_faults := fs\<rparr>" "w = v\<lparr>w_calls := m, w_faults := gs\<rparr>"
    by (auto simp: only_called_def)
  then have "w = u\<lparr>w_calls := m, w_faults := gs\<rparr>" by simp
  then show "only_called u w" unfolding only_called_def by blast
qed

lemma only_called_pure [simp]: "frames only_called (lift_result r)"
  by (rule frames_lift_result) simp

lemma frames_httpClient [intro]: "frames only_called (httpClient_Do http_Do req)"
  unfolding httpClient_Do_def
proof (rule external_frames)
  fix w v :: world and fs
  have "(w\<lparr>w_faults := fs\<rparr>)\<lparr>w_calls := n, w_faults := gs\<rparr> = w\<lparr>w_calls := n, w_faults := gs\<rparr>" for n gs by simp
  then show "only_called (w\<lparr>w_faults := fs\<rparr>) v = only_called w v" by (simp add: only_called_def)
next
  fix w :: world
  have "w\<lparr>w_calls := Suc (w_calls w)\<rparr> = w\<lparr>w_calls := Suc (w_calls w), w_faults := w_faults w\<rparr>" by simp
  then show "only_called w (snd (http_Do req w, w\<lparr>w_calls := Suc (w_calls w)\<rparr>))"
    unfolding only_called_def snd_conv by blast
qed simp

lemma frames_get_redirectURI [intro]: "frames only_called get_redirectURI"
  by (rule framesI) (auto simp: get_redirectURI_def)

lemma frames_exchange: "frames only_called (exchanger_ExchangeCode http_Do e code)"
  unfolding exchanger_ExchangeCode_def Let_def
  by (intro frames_bind frames_httpClient frames_get_redirectURI transp_only_called)
    (auto split: sum.splits option.splits if_splits intro!: frames_bind)

lemma frames_user: "frames only_called (provider_GetUserInfo http_Do ep tok)"
  unfolding provider_GetUserInfo_def
  by (auto split: sum.splits option.splits if_splits intro!: frames_bind)

lemma frames_permissions: "frames only_called (checker_GetRepositoryPermissions http_Do ep tok repo)"
  unfolding checker_GetRepositoryPermissions_def Let_def
  by (auto split: sum.splits option.splits if_splits intro!: frames_bind)

lemmas adapter_defs = github_oauth_def NewGitHubOAuthProviderAdapter_def provider_internal_def
  adapter_ExchangeCode_def adapter_GetUserInfo_def adapter_GetRepositoryPermissions_def

interpretation github: oauth_provider "github_oauth http_Do p" for http_Do p
proof unfold_locales
  fix uri w x w'
  assume "run_state (oauth_SetRedirectURI (github_oauth http_Do p) uri) w = (x, w')"
  then show "\<exists>v. w' = w\<lparr>w_redirectURI := v\<rparr>" by (auto simp: adapter_defs set_redirectURI_def)
next
  fix st w y w'
  assume "run_state (oauth_GetAuthorizationURL (github_oauth http_Do p) st) w = (y, w')"
  then show "w' = w" by (simp add: adapter_defs exchanger_GetAuthorizationURL_def get_redirectURI_def Let_def)
next
  fix code w rt w'
  assume run: "run_state (oauth_ExchangeCode (github_oauth http_Do p) code) w = (rt, w')"
  have "frames only_called (oauth_ExchangeCode (github_oauth http_Do p) code)"
    by (auto simp: adapter_defs frames_exchange intro!: frames_bind split: sum.splits)
  from framesD [OF this run] show "\<exists>n fs. w' = w\<lparr>w_calls := n, w_faults := fs\<rparr>" by (simp add: only_called_def)
next
  fix tok w rg w'
  assume run: "run_state (oauth_GetUserInfo (github_oauth http_Do p) tok) w = (rg, w')"
  have "frames only_called (oauth_GetUserInfo (github_oauth http_Do p) tok)"
    by (auto simp: adapter_defs frames_user intro!: frames_bind split: sum.splits option.splits)
  from framesD [OF this run] show "\<exists>n fs. w' = w\<lparr>w_calls := n, w_faults := fs\<rparr>" by (simp add: only_called_def)
next
  fix tok orepo w rp w'
  assume run: "run_state (oauth_GetRepositoryPermissions (github_oauth http_Do p) tok orepo) w = (rp, w')"
  have "frames only_called (oauth_GetRepositoryPermissions (github_oauth http_Do p) tok orepo)"
    by (auto simp: adapter_defs frames_permissions split: option.splits)
  from framesD [OF this run] show "\<exists>n fs. w' = w\<lparr>w_calls := n, w_faults := fs\<rparr>" by (simp add: only_called_def)
qed

text \<open>Signing in with GitHub over Redis.\<close>

lemma redis_pending_kept:
  assumes "w_redis w' = w_redis w" and "w_now w' = w_now w"
  shows "redis_pending w' = redis_pending w"
  using assms by (auto simp: redis_pending_def redis_read_def redis_live_def fun_eq_iff split: option.splits)

lemma redis_pending_session:
  assumes "\<And>k. k \<noteq> SessionKey sid \<Longrightarrow> redis_live w' k = redis_live w k"
  shows "redis_pending w' = redis_pending w"
  using assms by (auto simp: redis_pending_def redis_read_def fun_eq_iff)

lemma RedisClient_SetSession_pending:
  assumes "run_state (RedisClient_SetSession sid ou ttl) w = (r, w')"
  shows "redis_pending w' = redis_pending w"
proof (cases ou)
  case None
  then show ?thesis using assms by (auto simp: RedisClient_SetSession_def)
next
  case (Some u)
  obtain data where data: "UserInfo_Serialize (Some u) = Inr data" using UserInfo_Serialize_Some by blast
  let ?ttl = "if ttl = 0 then SessionTTL else ttl"
  obtain q w1 where q: "run_state (redis_cmd_set (SessionKey sid) data ?ttl) w = (q, w1)" by fastforce
  have "w1 = w'" using assms q Some data
    by (auto simp: RedisClient_SetSession_def RedisClient_Set_def Let_def split: sum.splits)
  with redis_cmd_set_run [OF q] obtain fs where
    "w' = w\<lparr>w_faults := fs\<rparr> \<or> w' = w\<lparr>w_faults := fs,
       w_redis := (w_redis w)(SessionKey sid \<mapsto> (data, if 0 < ?ttl then Some (w_now w + ?ttl) else None))\<rparr>" by auto
  then have "\<And>k. k \<noteq> SessionKey sid \<Longrightarrow> redis_live w' k = redis_live w k"
    by (elim disjE) (simp_all add: redis_live_write)
  then show ?thesis by (rule redis_pending_session)
qed

interpretation signin: oauth_signin "github_oauth http_Do p" NewSessionStore redis_session NewOIDCStateStore redis_pending
  for http_Do p
proof unfold_locales
  fix ou ttl w rs w'
  assume "run_state (store_CreateSession NewSessionStore ou ttl) w = (rs, w')"
  then have "run_state (SessionStore_CreateSession ou ttl) w = (rs, w')" by (simp add: NewSessionStore_def)
  from CreateSession_run [OF this] obtain q where
    "run_state (RedisClient_SetSession (w_uuid w (w_uuid_next w)) ou ttl) (w\<lparr>w_uuid_next := Suc (w_uuid_next w)\<rparr>) = (q, w')"
    by blast
  from RedisClient_SetSession_pending [OF this] redis_pending_kept [of "w\<lparr>w_uuid_next := Suc (w_uuid_next w)\<rparr>" w]
  show "redis_pending w' = redis_pending w" by simp
qed (auto intro: redis_pending_kept)

end
