(* ===== verification/Program.thy ===== *)
theory Program
  imports Access Oauth
begin

text \<open>
  The program \<^verbatim>\<open>cmd/cargohold/main.go\<close> puts together: the use cases over Postgres, Redis and the
  object store, the handlers over the use cases, and the routes.  \<open>initial_world\<close> is a fresh
  deployment: migrated tables with no rows, an empty keyspace, an empty bucket.
\<close>

section \<open>A fresh deployment\<close>

definition initial_world :: "instant \<Rightarrow> (nat \<Rightarrow> string) \<Rightarrow> fault list \<Rightarrow> world" where
  "initial_world now uuid faults =
     \<lparr>w_objects = (\<lambda>k. None), w_policies = (\<lambda>k. None), w_policy_seq = 0, w_allowlist = [], w_allowlist_seq = 0,
      w_redis = (\<lambda>k. None), w_storage = (\<lambda>k. None), w_now = now, w_uuid = uuid, w_uuid_next = 0,
      w_redirectURI = [], w_calls = 0, w_faults = faults\<rparr>"

lemma initial_world_sound [simp]: "sound_world (initial_world now uuid faults)"
  by (simp add: sound_world_def coherent_world_def wf_objects_def wf_policies_def coherent_def initial_world_def
      redis_peek_def redis_read_def redis_live_def)

lemma initial_world_stored [simp]: "stored (initial_world now uuid faults) = (\<lambda>oid. None)"
  by (rule ext) (simp add: stored_def initial_world_def)

lemma initial_world_owner [simp]: "owner_of (initial_world now uuid faults) = (\<lambda>oid. None)"
  by (rule ext) (simp add: owner_of_def initial_world_def)

section \<open>Use cases\<close>

definition program_batch :: BatchUseCase where
  "program_batch = NewBatchUseCase cached_repository NewProxyActionURLGenerator NewAccessPolicyRepository
     GenerateStorageKey pg_authorization"

definition program_upload :: "string \<Rightarrow> string \<Rightarrow> OID \<Rightarrow> string \<Rightarrow> unit io" where
  "program_upload = ProxyUpload_Execute cached_repository NewS3Client pg_authorization"

definition program_download :: "string \<Rightarrow> string \<Rightarrow> OID \<Rightarrow> (string \<times> int) io" where
  "program_download = ProxyDownload_Execute cached_repository NewS3Client pg_authorization"

definition program_verify :: "string \<Rightarrow> int \<Rightarrow> unit io" where
  "program_verify = VerifyUpload cached_repository redis_deleteBatchUploadKey"

definition program_readiness :: "(world, HealthCheckResult list \<times> gerror option) state" where
  "program_readiness = ExecuteDetails program_checkers"

text \<open>The OIDC provider pointer stays nil when OIDC is switched off, and goes into the use case's
  interface parameter either way.\<close>

definition program_oidc :: "bool \<Rightarrow> string \<Rightarrow> string \<Rightarrow> gerror + GitHubOIDCProvider option" where
  "program_oidc enabled audience jwksURL =
     (if enabled then (case NewGitHubOIDCProvider audience (Some redis_jwks_cache) jwksURL of
        Inl err \<Rightarrow> Inl err | Inr p \<Rightarrow> Inr (Some p))
      else Inr None)"

definition program_auth :: "http_client \<Rightarrow> jwt_parser \<Rightarrow> GitHubOIDCProvider option \<Rightarrow> AuthUseCase" where
  "program_auth http_Do jwt_Parse githubProvider =
     NewAuthUseCase (Some (oidc_interface http_Do jwt_Parse githubProvider)) (Some cached_allowlist)
       SessionStore_GetSession"

section \<open>Routes\<close>

datatype route = Batch | Verify | Upload | Download | Login | Callback | SessionPage | Healthz | Readyz

record program =
  pg_auth :: AuthUseCase
  pg_oauth :: "GitHubOAuthUseCase option"
  pg_login :: GitHubLoginHandlerConfig
  pg_error_text :: "gerror \<Rightarrow> string"

text \<open>The handler behind a route; the sign-in routes exist only when OAuth is configured.  The text
  of an error is what the libraries make of it.\<close>

fun serve :: "program \<Rightarrow> route \<Rightarrow> request \<Rightarrow> (world, reply) state" where
  "serve p Batch c = AuthDispatcher (pg_auth p) (BatchHandler_Handle (HandleBatchRequest program_batch)) c"
| "serve p Verify c = AuthDispatcher (pg_auth p) (VerifyHandler program_verify) c"
| "serve p Upload c = AuthDispatcher (pg_auth p) (HandleUpload program_upload) c"
| "serve p Download c = AuthDispatcher (pg_auth p) (HandleDownload program_download) c"
| "serve p Login c = (case pg_oauth p of
     None \<Rightarrow> State_Monad.return (Failed (HTTPError 404 (Some (MsgText ''Not Found''))))
   | Some uc \<Rightarrow> GitHubLoginHandler uc (pg_login p) c None)"
| "serve p Callback c = (case pg_oauth p of
     None \<Rightarrow> State_Monad.return (Failed (HTTPError 404 (Some (MsgText ''Not Found''))))
   | Some uc \<Rightarrow> GitHubCallbackHandler uc c None)"
| "serve p SessionPage c = SessionDisplayHandler c None"
| "serve p Healthz c = HealthHandler c None"
| "serve p Readyz c = ReadyzHandler_Handle (pg_error_text p) program_readiness c None"

section \<open>What authentication touches\<close>

text \<open>
  Authentication reads sessions and fills two families of cache entries: the allowlist answers and
  the key sets.  Everything else of the world stays, apart from the failure schedule and the
  count of HTTP calls.
\<close>

definition auth_frame :: "world \<Rightarrow> world \<Rightarrow> bool" where
  "auth_frame w w' \<longleftrightarrow> w_objects w' = w_objects w \<and> w_policies w' = w_policies w \<and> w_policy_seq w' = w_policy_seq w \<and>
     w_allowlist w' = w_allowlist w \<and> w_allowlist_seq w' = w_allowlist_seq w \<and> w_storage w' = w_storage w \<and>
     w_now w' = w_now w \<and> w_uuid w' = w_uuid w \<and> w_uuid_next w' = w_uuid_next w \<and>
     w_redirectURI w' = w_redirectURI w \<and>
     (\<forall>k. (\<forall>s. k \<noteq> OIDCGitHubRepoKey s) \<longrightarrow> (\<forall>s. k \<noteq> OIDCJWKSKey s) \<longrightarrow> w_redis w' k = w_redis w k)"

lemma reflp_auth_frame [simp, intro]: "reflp auth_frame"
  by (simp add: reflp_def auth_frame_def)

lemma transp_auth_frame [simp, intro]: "transp auth_frame"
  by (rule transpI) (simp add: auth_frame_def)

lemma auth_frame_faults [simp]: "auth_frame (w\<lparr>w_faults := fs\<rparr>) v = auth_frame w v"
  by (simp add: auth_frame_def)

lemma auth_frame_pure [simp, intro]: "frames auth_frame (lift_result r)" "frames auth_frame (State_Monad.return x)"
  by (rule frames_lift_result frames_return; simp)+

lemma auth_frame_external:
  assumes "\<And>w. auth_frame w (snd (f w))"
  shows "frames auth_frame (external f)"
  using assms by (rule external_frames) simp_all

lemma auth_frame_get: "frames auth_frame (redis_cmd_get k)"
  unfolding redis_cmd_get_def by (rule auth_frame_external) (simp add: auth_frame_def split: option.split)

lemma auth_frame_set:
  "frames auth_frame (redis_cmd_set (OIDCGitHubRepoKey s) v ttl)"
  "frames auth_frame (redis_cmd_set (OIDCJWKSKey s) v ttl)"
  unfolding redis_cmd_set_def by (rule auth_frame_external; auto simp: auth_frame_def)+

lemma auth_frame_http: "frames auth_frame (httpClient_Do http_Do req)"
  unfolding httpClient_Do_def by (rule auth_frame_external) (simp add: auth_frame_def)

lemma auth_frame_listed: "frames auth_frame (sql_allowlist_exists s)"
  unfolding sql_allowlist_exists_def by (rule auth_frame_external) (simp add: auth_frame_def)

lemmas auth_frames = auth_frame_get auth_frame_set auth_frame_http auth_frame_listed

lemma auth_frame_bind:
  assumes "frames auth_frame m" and "\<And>x. frames auth_frame (f x)"
  shows "frames auth_frame (State_Monad.bind m f)"
  using assms by (intro frames_bind) simp_all

lemma auth_frame_GetSession: "frames auth_frame (SessionStore_GetSession sid)"
  unfolding SessionStore_GetSession_def RedisClient_GetSession_def RedisClient_Get_def
  by (auto intro!: auth_frame_bind auth_frame_get split: sum.split)

lemma auth_frame_session: "frames auth_frame (AuthenticateSession (program_auth http_Do jwt_Parse p) sid)"
  by (auto simp: AuthenticateSession_def program_auth_def NewAuthUseCase_def SessionAuth_Authenticate_def
      intro!: auth_frame_bind auth_frame_GetSession split: sum.split)

lemma auth_frame_IsAllowed: "frames auth_frame (allowlist_IsAllowed cached_allowlist (Some ar))"
  by (auto simp: cached_allowlist_def NewCachingRepositoryAllowlist_def NewCachingRepositoryAllowlistWithTTL_def
      caching_IsAllowed_def getCacheKey_def checkCache_def setCache_def redis_AllowlistCacheClient_def
      RedisClient_Get_def RedisClient_Set_def NewRepositoryAllowlistRepository_def pg_IsAllowed_def
      RepositoryAllowlistDAO_Exists_def intro!: auth_frame_bind auth_frames split: sum.split)

lemma auth_frame_fetch: "frames auth_frame (fetchJWKSet http_Do url)"
  by (auto simp: fetchJWKSet_def intro!: auth_frame_bind auth_frames split: sum.split option.split)

lemma auth_frame_key: "frames auth_frame (GetPublicKey http_Do redis_jwks_cache url keyID provider)"
  by (auto simp: GetPublicKey_def Let_def redis_jwks_cache_def redis_CacheClient_def RedisClient_GetJSON_def
      RedisClient_SetJSON_def intro!: auth_frame_bind auth_frames auth_frame_fetch split: sum.split)

lemma auth_frame_verification_key: "frames auth_frame (verification_key http_Do redis_jwks_cache url provider t)"
  by (auto simp: verification_key_def intro!: auth_frame_bind auth_frame_key split: sum.split option.split json.split)

lemma auth_frame_oidc:
  assumes lib: "jwt_library jwt_Parse verifies" and p: "p = None \<or> op_cacheClient (the p) = redis_jwks_cache"
  shows "frames auth_frame (AuthenticateGitHubOIDC (program_auth http_Do jwt_Parse p) tok)"
proof -
  have "frames auth_frame (VerifyJWT http_Do jwt_Parse redis_jwks_cache tok url aud iss prov)" for url aud iss prov
    unfolding VerifyJWT_def
    by (auto intro!: auth_frame_bind jwt_library_frames [OF lib] auth_frame_verification_key
        split: sum.split option.split)
  then have "frames auth_frame (VerifyIDToken http_Do jwt_Parse p tok)"
    using p by (cases p) (auto simp: VerifyIDToken_def intro!: auth_frame_bind split: sum.split option.split)
  then show ?thesis
    by (auto simp: AuthenticateGitHubOIDC_def program_auth_def NewAuthUseCase_def GitHubOIDC_Authenticate_def
        oidc_interface_def Let_def intro!: auth_frame_bind auth_frame_IsAllowed split: sum.split option.split)
qed

lemma program_oidc_cache:
  "program_oidc enabled audience jwksURL = Inr p \<Longrightarrow> p = None \<or> op_cacheClient (the p) = redis_jwks_cache"
  by (auto simp: program_oidc_def NewGitHubOIDCProvider_def Let_def split: if_splits option.splits sum.splits)

text \<open>So authentication keeps every invariant of the tables, the content and the metadata cache.\<close>

lemma auth_frame_sound: "auth_frame w w' \<Longrightarrow> sound_world w \<Longrightarrow> sound_world w'"
proof -
  assume f: "auth_frame w w'" and s: "sound_world w"
  have st: "stored w' = stored w" using f by (simp add: auth_frame_def stored_def fun_eq_iff)
  have now: "w_now w' = w_now w" using f by (simp add: auth_frame_def)
  have "w_redis w' (MetadataKey k) = w_redis w (MetadataKey k)" for k
    using f by (simp add: auth_frame_def)
  then have "redis_peek w' (MetadataKey k) = redis_peek w (MetadataKey k)" for k
    by (simp only: redis_peek_def redis_read_def redis_live_def now)
  moreover have "behind w' = behind w" by (rule ext) (simp add: behind_def st)
  moreover have "wf_objects w' = wf_objects w" "wf_policies w' = wf_policies w"
    using f by (simp_all add: auth_frame_def wf_objects_def wf_policies_def)
  ultimately show "sound_world w'" using s
    by (simp add: sound_world_def coherent_world_def coherent_def NewCacheKeyGenerator_def MetadataKey_def)
qed

lemma auth_frame_owner: "auth_frame w w' \<Longrightarrow> owner_of w' = owner_of w"
  by (rule ext) (simp add: auth_frame_def owner_of_def)

lemma auth_frame_stored: "auth_frame w w' \<Longrightarrow> stored w' = stored w"
  by (rule ext) (simp add: auth_frame_def stored_def)

end
