(* ===== verification/Lifecycle.thy ===== *)
theory Lifecycle
  imports Program
begin

text \<open>
  The running program: requests, the clock, failures of the services behind it, evictions from the
  cache and changes of the allowlist, in any order.  Requests are served one at a time.  The section
  ends with the invariants of the tables and the bucket over everything reachable, and with a
  specification that only knows owners, sizes, flags and contents, which every request refines.
\<close>

section \<open>Operations that leave the objects alone\<close>

definition quiet :: "world \<Rightarrow> world \<Rightarrow> bool" where
  "quiet w w' \<longleftrightarrow> w_objects w' = w_objects w \<and> w_policies w' = w_policies w \<and> w_policy_seq w' = w_policy_seq w \<and>
     w_storage w' = w_storage w \<and> w_now w' = w_now w \<and>
     (\<forall>k. w_redis w' (MetadataKey k) = w_redis w (MetadataKey k))"

lemma reflp_quiet [simp, intro]: "reflp quiet"
  by (simp add: reflp_def quiet_def)

lemma transp_quiet [simp, intro]: "transp quiet"
  by (rule transpI) (simp add: quiet_def)

lemma quiet_faults [simp]: "quiet (w\<lparr>w_faults := fs\<rparr>) v = quiet w v"
  by (simp add: quiet_def)

lemma quiet_refl [simp]: "quiet w w"
  by (simp add: quiet_def)

lemma auth_frame_quiet: "auth_frame w w' \<Longrightarrow> quiet w w'"
  by (simp add: auth_frame_def quiet_def)

lemma quiet_stored: "quiet w w' \<Longrightarrow> stored w' = stored w"
  by (rule ext) (simp add: quiet_def stored_def)

lemma quiet_owner: "quiet w w' \<Longrightarrow> owner_of w' = owner_of w"
  by (rule ext) (simp add: quiet_def owner_of_def)

lemma quiet_storage: "quiet w w' \<Longrightarrow> w_storage w' = w_storage w"
  by (simp add: quiet_def)

lemma sound_world_quieter:
  assumes tabs: "w_objects w' = w_objects w" "w_policies w' = w_policies w" "w_policy_seq w' = w_policy_seq w"
    and pk: "\<And>k. redis_peek w' (MetadataKey k) \<in> {redis_peek w (MetadataKey k), None}"
    and s: "sound_world w"
  shows "sound_world w'"
proof -
  have st: "stored w' = stored w" by (rule ext) (simp add: stored_def tabs)
  have "behind w' = behind w" by (rule ext) (simp add: behind_def st)
  moreover have held: "redis_peek w' (MetadataKey k) = Some m \<Longrightarrow> redis_peek w (MetadataKey k) = Some m" for k m
    using pk [of k] by auto
  moreover have "wf_objects w' = wf_objects w" "wf_policies w' = wf_policies w"
    by (simp_all add: wf_objects_def wf_policies_def tabs)
  ultimately show ?thesis using s
    by (auto simp: sound_world_def coherent_world_def coherent_def NewCacheKeyGenerator_def
        dest!: held [unfolded MetadataKey_def])
qed

lemma quiet_sound:
  assumes "quiet w w'" and "sound_world w"
  shows "sound_world w'"
proof (rule sound_world_quieter [OF _ _ _ _ assms(2)])
  from assms(1) have now: "w_now w' = w_now w" by (simp add: quiet_def)
  fix k
  from assms(1) have "w_redis w' (MetadataKey k) = w_redis w (MetadataKey k)" by (simp add: quiet_def)
  then have "redis_peek w' (MetadataKey k) = redis_peek w (MetadataKey k)"
    by (simp only: redis_peek_def redis_read_def redis_live_def now)
  then show "redis_peek w' (MetadataKey k) \<in> {redis_peek w (MetadataKey k), None}" by simp
qed (use assms(1) in \<open>simp_all add: quiet_def\<close>)

lemma quiet_pure [simp, intro]: "frames quiet (lift_result r)" "frames quiet (State_Monad.return x)"
  by (rule frames_lift_result frames_return; simp)+

lemma quiet_bind:
  assumes "frames quiet m" and "\<And>x. frames quiet (f x)"
  shows "frames quiet (State_Monad.bind m f)"
  using assms by (intro frames_bind) simp_all

lemma quiet_try_bind:
  assumes "frames quiet m" and "\<And>x. frames quiet (f x)"
  shows "frames quiet (try_bind m f)"
  using assms by (intro frames_try_bind) simp_all

lemma quiet_external:
  assumes "\<And>w. quiet w (snd (f w))"
  shows "frames quiet (external f)"
  using assms by (rule external_frames) simp_all

lemma quiet_set: "frames quiet (redis_cmd_set (SessionKey s) v ttl)" "frames quiet (redis_cmd_set (OIDCStateKey s) v ttl)"
    "frames quiet (redis_cmd_set (OIDCGitHubRepoKey s) v ttl)"
  unfolding redis_cmd_set_def by (rule quiet_external; simp add: quiet_def)+

lemma quiet_del: "frames quiet (redis_cmd_del (OIDCGitHubRepoKey s))"
  unfolding redis_cmd_del_def by (rule quiet_external) (simp add: quiet_def)

lemma quiet_getdel: "frames quiet (redis_cmd_getdel (OIDCStateKey s))"
  unfolding redis_cmd_getdel_def by (rule quiet_external) (simp add: quiet_def split: option.split)

lemma quiet_uuid: "frames quiet new_uuid"
  by (rule framesI) (auto simp: quiet_def)

lemmas quiet_commands = quiet_set quiet_del quiet_getdel quiet_uuid quiet_pure

section \<open>Signing in\<close>

lemma quiet_SaveState: "frames quiet (SaveState st d ttl)"
  by (auto simp: SaveState_def Let_def RedisClient_SetJSON_def intro!: quiet_bind quiet_commands split: sum.split)

lemma quiet_GetAndDeleteState: "frames quiet (GetAndDeleteState st)"
  by (auto simp: GetAndDeleteState_def Let_def RedisClient_GetDelJSON_def intro!: quiet_bind quiet_commands split: sum.split)

lemma quiet_CreateSession: "frames quiet (SessionStore_CreateSession ou ttl)"
  by (auto simp: SessionStore_CreateSession_def RedisClient_SetSession_def Let_def RedisClient_Set_def
      intro!: quiet_bind quiet_commands split: sum.split)

lemma quiet_github:
  "frames quiet (oauth_SetRedirectURI (github_oauth http_Do gp) uri)"
  "frames quiet (oauth_GetAuthorizationURL (github_oauth http_Do gp) st)"
  "frames quiet (oauth_ExchangeCode (github_oauth http_Do gp) code)"
  "frames quiet (oauth_GetUserInfo (github_oauth http_Do gp) tok)"
  "frames quiet (oauth_GetRepositoryPermissions (github_oauth http_Do gp) tok orepo)"
  by (rule framesI, (drule github.redirect_state github.url_state github.exchange_state github.user_state
      github.permissions_state, auto simp: quiet_def))+

text \<open>How \<^verbatim>\<open>main\<close> builds the sign-in use case, whatever the configuration.\<close>

definition github_signin :: "http_client \<Rightarrow> GitHubOAuthUseCase \<Rightarrow> bool" where
  "github_signin http_Do uc \<longleftrightarrow> (\<exists>gp uris. uc = \<lparr>ou_oauthProvider = github_oauth http_Do gp,
     ou_sessionStore = NewSessionStore, ou_stateStore = NewOIDCStateStore, ou_allowedRedirectURIs = uris\<rparr>)"

lemma quiet_StartAuthentication:
  assumes "github_signin http_Do uc"
  shows "frames quiet (StartAuthentication uc orepo uri shell)"
  using assms
  by (auto simp: github_signin_def StartAuthentication_def Let_def NewOIDCStateStore_def
      intro!: quiet_try_bind quiet_bind quiet_commands quiet_SaveState quiet_github split: option.split sum.split)

lemma quiet_HandleCallback:
  assumes "github_signin http_Do uc"
  shows "frames quiet (HandleCallback uc code st)"
  using assms
  by (auto simp: github_signin_def HandleCallback_def NewOIDCStateStore_def NewSessionStore_def
      intro!: quiet_bind quiet_commands quiet_GetAndDeleteState quiet_CreateSession quiet_github split: sum.split)

lemma quiet_login:
  assumes "github_signin http_Do uc"
  shows "frames quiet (GitHubLoginHandler uc cfg c u)"
  using quiet_StartAuthentication [OF assms]
  by (auto simp: GitHubLoginHandler_def Let_def intro!: quiet_bind split: sum.split)

lemma quiet_callback:
  assumes "github_signin http_Do uc"
  shows "frames quiet (GitHubCallbackHandler uc c u)"
  using quiet_HandleCallback [OF assms]
  by (auto simp: GitHubCallbackHandler_def Let_def intro!: quiet_bind split: sum.split prod.split)

section \<open>Probes and the allowlist\<close>

lemma quiet_checkers:
  assumes "\<forall>c \<in> set checkers. one_call c"
  shows "frames quiet (run_checkers checkers)"
  using assms
proof (induction checkers)
  case (Cons c checkers)
  have "frames quiet (hc_Check c)"
  proof (rule framesI)
    fix w r w'
    assume "run_state (hc_Check c) w = (r, w')"
    moreover from Cons.prems have "one_call c" by simp
    then obtain q where "run_state (hc_Check c) w = (q, w\<lparr>w_faults := tl (w_faults w)\<rparr>)"
      unfolding one_call_def by blast
    ultimately show "quiet w w'" by (auto simp: quiet_def)
  qed
  with Cons show ?case by (auto intro!: quiet_bind split: sum.split)
qed simp

lemma quiet_readyz: "frames quiet (ReadyzHandler_Handle f program_readiness c u)"
  using quiet_checkers [of program_checkers] program_checkers_one_call
  by (auto simp: ReadyzHandler_Handle_def program_readiness_def ExecuteDetails_def Let_def
      intro!: quiet_bind split: prod.split)

lemma quiet_allowlist_Add: "frames quiet (allowlist_Add cached_allowlist a)"
proof -
  have "frames quiet (sql_insert_allowlist s)" for s
    unfolding sql_insert_allowlist_def by (rule quiet_external) (simp add: quiet_def insert_allowlist_def)
  then show ?thesis
    by (auto simp: cached_allowlist_def NewCachingRepositoryAllowlist_def NewCachingRepositoryAllowlistWithTTL_def
        caching_Add_def getCacheKey_def setCache_def redis_AllowlistCacheClient_def RedisClient_Set_def
        NewRepositoryAllowlistRepository_def pg_Add_def RepositoryAllowlistDAO_Insert_def
        intro!: quiet_bind quiet_commands split: sum.split option.split)
qed

lemma quiet_allowlist_Remove: "frames quiet (allowlist_Remove cached_allowlist a)"
proof -
  have "frames quiet (sql_delete_allowlist s)" for s
    unfolding sql_delete_allowlist_def by (rule quiet_external) (simp add: quiet_def)
  then show ?thesis
    by (auto simp: cached_allowlist_def NewCachingRepositoryAllowlist_def NewCachingRepositoryAllowlistWithTTL_def
        caching_Remove_def getCacheKey_def redis_AllowlistCacheClient_def RedisClient_Delete_def
        NewRepositoryAllowlistRepository_def pg_Remove_def RepositoryAllowlistDAO_Delete_def
        intro!: quiet_bind quiet_commands split: sum.split option.split)
qed

section \<open>What a request does to the objects\<close>

text \<open>A program as \<^verbatim>\<open>main\<close> wires it: the authentication over the session store and the cached
  allowlist, with or without an OIDC provider, and sign-in over GitHub when it is configured.\<close>

definition wired :: "http_client \<Rightarrow> jwt_parser \<Rightarrow> program \<Rightarrow> bool" where
  "wired http_Do jwt_Parse p \<longleftrightarrow>
     (\<exists>prov. (prov = None \<or> op_cacheClient (the prov) = redis_jwks_cache) \<and>
        pg_auth p = program_auth http_Do jwt_Parse prov) \<and>
     (\<forall>uc. pg_oauth p = Some uc \<longrightarrow> github_signin http_Do uc)"

lemma wired_dispatched:
  assumes lib: "jwt_library jwt_Parse verifies" and p: "wired http_Do jwt_Parse p"
    and run: "run_state (AuthDispatcher (pg_auth p) next_handler c) w = (r, w')"
  shows "dispatched auth_frame (pg_auth p) next_handler c w r w'"
proof -
  from p obtain prov where prov: "prov = None \<or> op_cacheClient (the prov) = redis_jwks_cache"
    and uc: "pg_auth p = program_auth http_Do jwt_Parse prov" by (auto simp: wired_def)
  show ?thesis unfolding uc
    by (rule AuthDispatcher_run [OF transp_auth_frame reflp_auth_frame auth_frame_session
          auth_frame_oidc [OF lib prov] run [unfolded uc]])
qed

lemma ExtractRepositoryIdentifier_valid:
  "ExtractRepositoryIdentifier c = Inr ri \<Longrightarrow> valid_repository ri"
  by (auto simp: ExtractRepositoryIdentifier_def NewRepositoryIdentifier_Inr Let_def split: if_splits)

text \<open>A batch request changes metadata and ownership only for a user who may upload, in the name of
  the repository of the URL.\<close>

definition may_upload :: "UserInfo option \<Rightarrow> bool" where
  "may_upload ou \<longleftrightarrow> (\<exists>u perms. ou = Some u \<and> ui_permissions u = Some perms \<and> CanUpload perms)"

lemma checkPermissions_upload: "checkPermissions ou ''upload'' = None \<longleftrightarrow> may_upload ou"
  by (auto simp: checkPermissions_def may_upload_def split: option.splits)

lemma batch_request_run:
  assumes s: "sound_world w" and req: "br_repository req = Some ri" "valid_repository ri"
    and run: "run_state (HandleBatchRequest program_batch baseURL ow re req ah) w = (r, w')"
  shows "sound_world w' \<and> upload_effect GenerateStorageKey ''sha256'' ri w w' \<and>
    (br_operation req \<noteq> OperationUpload \<longrightarrow> stored w' = stored w \<and> owner_of w' = owner_of w)"
proof (cases "br_operation req = OperationDownload")
  case True
  with run have "run_state (HandleBatchDownload (HandleDownloadObject cached_repository NewProxyActionURLGenerator)
      (NewAccessAuthorizationService NewAccessPolicyRepository) baseURL ow re req ah) w = (r, w')"
    by (simp add: HandleBatchRequest_def program_batch_def NewBatchUseCase_def pg_authorization_def)
  from service.HandleBatchDownload_run [OF _ _ this] s show ?thesis
    by (simp add: sound_world_def upload_effect_def)
next
  case False
  with run have up: "run_state (HandleBatchUpload (HandleUploadObject cached_repository NewProxyActionURLGenerator
      GenerateStorageKey) (NewAccessAuthorizationService NewAccessPolicyRepository) NewAccessPolicyRepository
      baseURL ow re req ah) w = (r, w')"
    by (simp add: HandleBatchRequest_def program_batch_def NewBatchUseCase_def pg_authorization_def)
  from service.HandleBatchUpload_run [OF _ _ req up] s
  have "sound_world w' \<and> upload_effect GenerateStorageKey ''sha256'' ri w w'" by (simp add: sound_world_def)
  moreover have "w' = w" if "br_operation req \<noteq> OperationUpload"
    using up that by (auto simp: HandleBatchUpload_def split: option.splits)
  ultimately show ?thesis by auto
qed

lemma batch_handler_run:
  assumes s: "sound_world w"
    and run: "run_state (BatchHandler_Handle (HandleBatchRequest program_batch) c ou) w = (r, w')"
  shows "sound_world w' \<and>
    (stored w' = stored w \<and> owner_of w' = owner_of w \<and> w_storage w' = w_storage w \<or>
     (\<exists>ri. ExtractRepositoryIdentifier c = Inr ri \<and> may_upload ou \<and>
        upload_effect GenerateStorageKey ''sha256'' ri w w'))"
proof (cases "w' = w")
  case True
  with s show ?thesis by simp
next
  case False
  with run obtain ri d req where ri: "ExtractRepositoryIdentifier c = Inr ri"
    and req: "ToBatchRequest (Some ri) d = Inr req" and perm: "checkPermissions ou (bd_Operation d) = None"
    and uc: "\<exists>q. run_state (HandleBatchRequest program_batch (getBaseURL c) (ri_owner ri) (ri_name ri) req
      (rq_header c ''Authorization'')) w = (q, w')"
    by (auto simp: BatchHandler_Handle_def Let_def split: option.splits sum.splits if_splits prod.splits)
  from ToBatchRequest_Inr [OF req] have br: "br_repository req = Some ri"
    and oper: "bd_Operation d = Operation_String (br_operation req)" by auto
  from uc obtain q where "run_state (HandleBatchRequest program_batch (getBaseURL c) (ri_owner ri) (ri_name ri) req
      (rq_header c ''Authorization'')) w = (q, w')" by blast
  from batch_request_run [OF s br ExtractRepositoryIdentifier_valid [OF ri] this]
  have b: "sound_world w'" "upload_effect GenerateStorageKey ''sha256'' ri w w'"
    "br_operation req \<noteq> OperationUpload \<Longrightarrow> stored w' = stored w \<and> owner_of w' = owner_of w" by auto
  show ?thesis
  proof (cases "br_operation req = OperationUpload")
    case True
    with perm oper have "may_upload ou" by (simp add: OperationUpload_def checkPermissions_upload)
    with b ri show ?thesis by blast
  next
    case False
    with b show ?thesis by (auto simp: upload_effect_def)
  qed
qed

section \<open>Objects and their content\<close>

text \<open>Every object is stored under the key generated for it, and the bucket holds nothing but
  contents of known objects, of the announced size.\<close>

definition keyed :: "world \<Rightarrow> bool" where
  "keyed w \<longleftrightarrow> (\<forall>oid d. stored w oid = Some d \<longrightarrow>
     GenerateStorageKey (OID_String oid) ''sha256'' = Inr (GetStorageKey d))"

definition filed :: "world \<Rightarrow> bool" where
  "filed w \<longleftrightarrow> (\<forall>key body. w_storage w key = Some body \<longrightarrow>
     (\<exists>oid d. stored w oid = Some d \<and> GetStorageKey d = key \<and> int (length body) = Size_Int64 (lo_size d)))"

text \<open>An object marked as uploaded has its content.\<close>

definition backed :: "world \<Rightarrow> bool" where
  "backed w \<longleftrightarrow> (\<forall>oid d. stored w oid = Some d \<longrightarrow> lo_uploaded d \<longrightarrow> w_storage w (GetStorageKey d) \<noteq> None)"

definition consistent :: "world \<Rightarrow> bool" where
  "consistent w \<longleftrightarrow> sound_world w \<and> keyed w \<and> filed w"

lemma initial_world_consistent [simp]: "consistent (initial_world now uuid faults)"
  by (simp add: consistent_def keyed_def filed_def) (simp add: initial_world_def)

lemma initial_world_backed [simp]: "backed (initial_world now uuid faults)"
  by (simp add: backed_def)

lemma GenerateStorageKey_inj:
  assumes "GenerateStorageKey (OID_String a) h = Inr k" and "GenerateStorageKey (OID_String b) h' = Inr k"
  shows "a = b"
  using GenerateStorageKey_components [OF assms(1)] GenerateStorageKey_components [OF assms(2)]
  by (cases a; cases b) simp

lemma keyed_inj:
  assumes "keyed w" "stored w a = Some d" "stored w b = Some e" "GetStorageKey d = GetStorageKey e"
  shows "a = b"
  using assms GenerateStorageKey_inj unfolding keyed_def by metis

text \<open>What an upload batch, an upload of content, a mark and anything else make of them.\<close>

lemma upload_effect_consistent:
  assumes e: "upload_effect GenerateStorageKey ''sha256'' ri w w'" and "keyed w" "filed w"
  shows "keyed w' \<and> filed w'"
proof
  show "keyed w'" using e \<open>keyed w\<close> unfolding keyed_def upload_effect_def by (metis option.inject)
  show "filed w'" using upload_effect_stored [OF e] e \<open>filed w\<close> unfolding filed_def upload_effect_def by metis
qed

lemma marked_consistent:
  assumes m: "marked oid w w'" and s: "w_storage w' = w_storage w" and "keyed w" "filed w"
  shows "keyed w' \<and> filed w'"
proof -
  from m obtain d d' where d: "stored w oid = Some d" "same_object d' d" "stored w' = (stored w)(oid \<mapsto> d')"
    by (auto simp: marked_def)
  then have key: "GetStorageKey d' = GetStorageKey d" "lo_size d' = lo_size d"
    by (simp_all add: same_object_def getter_simps)
  have "keyed w'" using \<open>keyed w\<close> d key by (simp add: keyed_def)
  moreover have "filed w'" unfolding filed_def
  proof (intro allI impI)
    fix k body assume "w_storage w' k = Some body"
    with s \<open>filed w\<close> obtain o' e where e: "stored w o' = Some e" "GetStorageKey e = k"
      "int (length body) = Size_Int64 (lo_size e)" unfolding filed_def by metis
    show "\<exists>o' e. stored w' o' = Some e \<and> GetStorageKey e = k \<and> int (length body) = Size_Int64 (lo_size e)"
      by (rule exI [of _ o'], rule exI [of _ "if o' = oid then d' else e"]) (use e d key in auto)
  qed
  ultimately show ?thesis ..
qed

lemma put_effect_consistent:
  assumes p: "put_effect oid body w w'" and k: "keyed w" "filed w"
  shows "keyed w' \<and> filed w'"
proof (cases "w_storage w' = w_storage w \<and> stored w' = stored w")
  case True
  then show ?thesis using k by (simp add: keyed_def filed_def)
next
  case False
  with p obtain d where d: "stored w oid = Some d" "int (length body) = Size_Int64 (lo_size d)"
    and st: "w_storage w' = (w_storage w)(GetStorageKey d \<mapsto> body)" and mv: "stored w' = stored w \<or> marked oid w w'"
    by (auto simp: put_effect_def)
  let ?v = "w\<lparr>w_storage := (w_storage w)(GetStorageKey d \<mapsto> body)\<rparr>"
  have v: "stored ?v = stored w" by (rule ext) (simp add: stored_def)
  have "keyed ?v" using k(1) by (simp add: keyed_def v)
  moreover have "filed ?v" using k(2) d by (auto simp: filed_def v)
  moreover have "stored w' = stored ?v \<or> marked oid ?v w'" using mv by (simp add: v marked_def)
  moreover have "w_storage w' = w_storage ?v" using st by simp
  ultimately show ?thesis using marked_consistent [of oid ?v w'] by (auto simp: keyed_def filed_def)
qed

lemma put_effect_backed:
  assumes p: "put_effect oid body w w'" and k: "backed w"
  shows "backed w'"
proof (cases "w_storage w' = w_storage w \<and> stored w' = stored w")
  case True
  then show ?thesis using k by (simp add: backed_def)
next
  case False
  with p obtain d where d: "stored w oid = Some d"
    and st: "w_storage w' = (w_storage w)(GetStorageKey d \<mapsto> body)" and mv: "stored w' = stored w \<or> marked oid w w'"
    by (auto simp: put_effect_def)
  have "stored w = (stored w)(oid \<mapsto> d)" using d by (simp add: fun_upd_idem)
  with mv d obtain d' where "same_object d' d" "stored w' = (stored w)(oid \<mapsto> d')"
    unfolding marked_def by (metis option.inject same_object_refl)
  then show ?thesis using k d st by (auto simp: backed_def same_object_def getter_simps)
qed

lemma upload_effect_backed: "upload_effect kg h ri w w' \<Longrightarrow> backed w \<Longrightarrow> backed w'"
  unfolding backed_def upload_effect_def by (metis option.inject)

lemma same_consistent: "stored w' = stored w \<Longrightarrow> w_storage w' = w_storage w \<Longrightarrow> keyed w \<Longrightarrow> filed w \<Longrightarrow> keyed w' \<and> filed w'"
  by (simp add: keyed_def filed_def)

section \<open>The specification\<close>

text \<open>A depot knows the owner, the size and the content of an object, and which are reported as
  uploaded.\<close>

record depot =
  dp_owner :: "OID \<Rightarrow> RepositoryIdentifier option"
  dp_size :: "OID \<Rightarrow> int option"
  dp_body :: "OID \<Rightarrow> string option"
  dp_done :: "OID set"

definition depot_of :: "world \<Rightarrow> depot" where
  "depot_of w = \<lparr>dp_owner = owner_of w, dp_size = (\<lambda>oid. map_option (\<lambda>d. Size_Int64 (lo_size d)) (stored w oid)),
     dp_body = (\<lambda>oid. Option.bind (stored w oid) (\<lambda>d. w_storage w (GetStorageKey d))),
     dp_done = {oid. \<exists>d. stored w oid = Some d \<and> lo_uploaded d}\<rparr>"

datatype act = Idle | Enroll RepositoryIdentifier | Receive RepositoryIdentifier OID string | Confirm OID

inductive depot_step :: "act \<Rightarrow> depot \<Rightarrow> depot \<Rightarrow> bool" where
  idle: "depot_step Idle s s"
| enroll: "dp_size s \<subseteq>\<^sub>m size' \<Longrightarrow> dp_owner s \<subseteq>\<^sub>m owner' \<Longrightarrow>
    (\<And>oid x. dp_owner s oid = None \<Longrightarrow> owner' oid = Some x \<Longrightarrow> x = ri) \<Longrightarrow>
    depot_step (Enroll ri) s (s\<lparr>dp_size := size', dp_owner := owner'\<rparr>)"
| receive: "dp_size s oid = Some n \<Longrightarrow> int (length body) = n \<Longrightarrow> dp_owner s oid \<in> {None, Some ri} \<Longrightarrow>
    reported \<in> {dp_done s, insert oid (dp_done s)} \<Longrightarrow>
    depot_step (Receive ri oid body) s (s\<lparr>dp_body := (dp_body s)(oid \<mapsto> body), dp_done := reported\<rparr>)"
| confirm: "dp_size s oid \<noteq> None \<Longrightarrow> depot_step (Confirm oid) s (s\<lparr>dp_done := insert oid (dp_done s)\<rparr>)"

inductive_cases depot_stepE: "depot_step a s s'"

inductive_simps depot_step_simps [simp]:
  "depot_step Idle s s'"
  "depot_step (Enroll ri) s s'"
  "depot_step (Receive ri oid body) s s'"
  "depot_step (Confirm oid) s s'"

lemma depot_of_simps [simp]:
  "dp_owner (depot_of w) = owner_of w"
  "dp_size (depot_of w) oid = map_option (\<lambda>d. Size_Int64 (lo_size d)) (stored w oid)"
  "dp_body (depot_of w) oid = Option.bind (stored w oid) (\<lambda>d. w_storage w (GetStorageKey d))"
  "oid \<in> dp_done (depot_of w) \<longleftrightarrow> (\<exists>d. stored w oid = Some d \<and> lo_uploaded d)"
  by (simp_all add: depot_of_def)

lemma depot_eqI:
  fixes s t :: depot
  assumes "\<And>oid. dp_owner s oid = dp_owner t oid" "\<And>oid. dp_size s oid = dp_size t oid"
    and "\<And>oid. dp_body s oid = dp_body t oid" "\<And>oid. oid \<in> dp_done s \<longleftrightarrow> oid \<in> dp_done t"
  shows "s = t"
proof -
  have "dp_owner s = dp_owner t" "dp_size s = dp_size t" "dp_body s = dp_body t" "dp_done s = dp_done t"
    using assms by auto
  then show ?thesis by (cases s; cases t) simp
qed

lemma depot_same:
  assumes "stored w' = stored w" "owner_of w' = owner_of w" "w_storage w' = w_storage w"
  shows "depot_of w' = depot_of w"
  using assms by (simp add: depot_of_def)

lemma depot_quiet: "quiet w w' \<Longrightarrow> depot_of w' = depot_of w"
  by (rule depot_same) (simp_all add: quiet_stored quiet_owner quiet_storage)

text \<open>The steps of the program, seen on the depot.\<close>

lemma enroll_refines:
  assumes e: "upload_effect GenerateStorageKey ''sha256'' ri w w'" and c: "keyed w" "filed w"
  shows "depot_step (Enroll ri) (depot_of w) (depot_of w')"
proof -
  have size: "dp_size (depot_of w) \<subseteq>\<^sub>m dp_size (depot_of w')"
    unfolding map_le_def by (auto simp: upload_effect_stored [OF e])
  have owner: "dp_owner (depot_of w) \<subseteq>\<^sub>m dp_owner (depot_of w')"
    unfolding map_le_def by (auto simp: upload_effect_owner [OF e])
  have fresh: "\<And>oid x. owner_of w oid = None \<Longrightarrow> owner_of w' oid = Some x \<Longrightarrow> x = ri"
    using e unfolding upload_effect_def by (metis option.distinct(1) option.inject)
  have body: "dp_body (depot_of w') oid = dp_body (depot_of w) oid" for oid
  proof (cases "stored w oid")
    case (Some d)
    with upload_effect_stored [OF e] e show ?thesis by (simp add: upload_effect_def)
  next
    case None
    have "w_storage w (GetStorageKey d) = None" if d: "stored w' oid = Some d" for d
    proof (rule ccontr)
      assume "w_storage w (GetStorageKey d) \<noteq> None"
      with c(2) obtain k x where k: "stored w k = Some x" "GetStorageKey x = GetStorageKey d"
        unfolding filed_def by (metis not_None_eq)
      from upload_effect_stored [OF e k(1)] keyed_inj [of w' k x oid d] d k(2)
        upload_effect_consistent [OF e c] have "k = oid" by blast
      with None k(1) show False by simp
    qed
    with None e show ?thesis by (cases "stored w' oid") (auto simp: upload_effect_def)
  qed
  have reported: "oid \<in> dp_done (depot_of w') \<longleftrightarrow> oid \<in> dp_done (depot_of w)" for oid
    using e unfolding upload_effect_def depot_of_simps by (metis option.distinct(1) option.inject)
  have "depot_of w' = (depot_of w)\<lparr>dp_size := dp_size (depot_of w'), dp_owner := dp_owner (depot_of w')\<rparr>"
    by (rule depot_eqI) (simp_all add: body reported del: depot_of_simps(2-4))
  then show ?thesis using size owner fresh unfolding depot_step_simps depot_of_simps by metis
qed

lemma content_after_put:
  assumes k: "keyed w" and d: "stored w oid = Some d" and st: "w_storage w' = (w_storage w)(GetStorageKey d \<mapsto> body)"
    and mv: "stored w' = stored w \<or> marked oid w w'"
  shows "dp_body (depot_of w') = (dp_body (depot_of w))(oid \<mapsto> body)"
    and "dp_size (depot_of w') = dp_size (depot_of w)"
    and "dp_done (depot_of w') \<in> {dp_done (depot_of w), insert oid (dp_done (depot_of w))}"
proof -
  have "stored w = (stored w)(oid \<mapsto> d)" using d by (simp add: fun_upd_idem)
  with mv d obtain d' where d': "same_object d' d" "stored w' = (stored w)(oid \<mapsto> d')" "d' = d \<or> lo_uploaded d'"
    unfolding marked_def by (metis option.inject same_object_refl)
  then have key: "GetStorageKey d' = GetStorageKey d" "lo_size d' = lo_size d"
    by (simp_all add: same_object_def getter_simps)
  show "dp_size (depot_of w') = dp_size (depot_of w)"
    by (rule ext) (simp add: d' d key)
  show "dp_body (depot_of w') = (dp_body (depot_of w))(oid \<mapsto> body)"
  proof (rule ext)
    fix o'
    show "dp_body (depot_of w') o' = ((dp_body (depot_of w))(oid \<mapsto> body)) o'"
      using keyed_inj [OF k _ d, of o'] by (cases "stored w o'") (auto simp: d' st key)
  qed
  show "dp_done (depot_of w') \<in> {dp_done (depot_of w), insert oid (dp_done (depot_of w))}"
    using d' d by (cases "lo_uploaded d") (auto simp: depot_of_def)
qed

lemma receive_refines:
  assumes p: "put_effect oid body w w'" and k: "keyed w"
    and own: "w_storage w' \<noteq> w_storage w \<or> stored w' \<noteq> stored w \<Longrightarrow> may_access w OperationUpload ri oid"
  shows "depot_of w' = depot_of w \<or> depot_step (Receive ri oid body) (depot_of w) (depot_of w')"
proof (cases "w_storage w' = w_storage w \<and> stored w' = stored w")
  case True
  with p show ?thesis by (auto intro: depot_same simp: put_effect_def)
next
  case False
  with p obtain d where d: "stored w oid = Some d" "int (length body) = Size_Int64 (lo_size d)"
    and st: "w_storage w' = (w_storage w)(GetStorageKey d \<mapsto> body)" and mv: "stored w' = stored w \<or> marked oid w w'"
    and ow: "owner_of w' = owner_of w" by (auto simp: put_effect_def)
  note c = content_after_put [OF k d(1) st mv]
  have eq: "depot_of w' = (depot_of w)\<lparr>dp_body := (dp_body (depot_of w))(oid \<mapsto> body), dp_done := dp_done (depot_of w')\<rparr>"
    using c(1,2) ow by (intro depot_eqI) (simp_all del: depot_of_simps(2-4) add: ow)
  have "dp_size (depot_of w) oid = Some (int (length body))" using d by simp
  moreover have "dp_owner (depot_of w) oid \<in> {None, Some ri}" using own False by (auto simp: may_access_def)
  ultimately show ?thesis using depot_step.receive [where ri = ri and body = body, OF _ refl _ c(3)]
    unfolding eq [symmetric] by blast
qed

lemma confirm_refines:
  assumes m: "marked oid w w'" and s: "w_storage w' = w_storage w" "owner_of w' = owner_of w"
  shows "depot_step (Confirm oid) (depot_of w) (depot_of w')"
proof -
  from m obtain d d' where d: "stored w oid = Some d" "same_object d' d" "lo_uploaded d'" "stored w' = (stored w)(oid \<mapsto> d')"
    by (auto simp: marked_def)
  then have key: "GetStorageKey d' = GetStorageKey d" "lo_size d' = lo_size d"
    by (simp_all add: same_object_def getter_simps)
  have "depot_of w' = (depot_of w)\<lparr>dp_done := insert oid (dp_done (depot_of w))\<rparr>"
    by (rule depot_eqI) (auto simp: d key s)
  with d(1) show ?thesis by simp
qed

section \<open>Requests\<close>

definition program_handler :: "route \<Rightarrow> handler option" where
  "program_handler rt = (case rt of
     Batch \<Rightarrow> Some (BatchHandler_Handle (HandleBatchRequest program_batch))
   | Verify \<Rightarrow> Some (VerifyHandler program_verify)
   | Upload \<Rightarrow> Some (HandleUpload program_upload)
   | Download \<Rightarrow> Some (HandleDownload program_download)
   | _ \<Rightarrow> None)"

lemma serve_handler: "program_handler rt = Some h \<Longrightarrow> serve p rt c = AuthDispatcher (pg_auth p) h c"
  by (cases rt) (auto simp: program_handler_def)

text \<open>The acts a request may cause, from its route, its URL and its body.\<close>

fun allows :: "route \<Rightarrow> request \<Rightarrow> act \<Rightarrow> bool" where
  "allows rt c Idle = True"
| "allows rt c (Enroll ri) = (rt = Batch \<and> ExtractRepositoryIdentifier c = Inr ri)"
| "allows rt c (Receive ri oid body) = (rt = Upload \<and> oid = OID (rq_param c ''oid'') \<and> body = bd_bytes (rq_body c) \<and>
     NewRepositoryIdentifier (rq_param c ''owner'' @ ''/'' @ rq_param c ''repo'') = Inr ri)"
| "allows rt c (Confirm oid) = (rt = Verify)"

text \<open>What a handler does to a consistent world, for the user it was given.\<close>

definition acts :: "route \<Rightarrow> request \<Rightarrow> UserInfo option \<Rightarrow> world \<Rightarrow> world \<Rightarrow> bool" where
  "acts rt c ou w w' \<longleftrightarrow> consistent w' \<and> (rt \<noteq> Verify \<longrightarrow> backed w \<longrightarrow> backed w') \<and>
     (\<exists>a. allows rt c a \<and> ((\<exists>ri. a = Enroll ri) \<longrightarrow> may_upload ou) \<and> depot_step a (depot_of w) (depot_of w'))"

lemma acts_idle:
  assumes "consistent w" "sound_world w'" "stored w' = stored w" "owner_of w' = owner_of w" "w_storage w' = w_storage w"
  shows "acts rt c ou w w'"
proof -
  have "consistent w'" using assms same_consistent [of w' w] by (simp add: consistent_def)
  moreover have "backed w \<longrightarrow> backed w'" using assms by (simp add: backed_def)
  moreover have "depot_step Idle (depot_of w) (depot_of w')" using depot_same [OF assms(3-5)] by simp
  ultimately show ?thesis unfolding acts_def by (intro conjI exI [of _ Idle]) simp_all
qed

lemma acts_batch:
  assumes c: "consistent w"
    and run: "run_state (BatchHandler_Handle (HandleBatchRequest program_batch) c ou) w = (r, w')"
  shows "acts Batch c ou w w'"
proof -
  from c have s: "sound_world w" "keyed w" "filed w" by (simp_all add: consistent_def)
  from batch_handler_run [OF s(1) run] show ?thesis
  proof (elim conjE disjE exE)
    assume "sound_world w'" "stored w' = stored w" "owner_of w' = owner_of w" "w_storage w' = w_storage w"
    with c show ?thesis by (rule acts_idle)
  next
    fix ri
    assume a: "sound_world w'" "ExtractRepositoryIdentifier c = Inr ri" "may_upload ou"
      and e: "upload_effect GenerateStorageKey ''sha256'' ri w w'"
    have "consistent w'" using a(1) upload_effect_consistent [OF e s(2,3)] by (simp add: consistent_def)
    moreover have "backed w \<longrightarrow> backed w'" using upload_effect_backed [OF e] by blast
    moreover have "allows Batch c (Enroll ri)" using a(2) by simp
    ultimately show ?thesis unfolding acts_def using enroll_refines [OF e s(2,3)] a(3) by blast
  qed
qed

lemma acts_upload:
  assumes c: "consistent w" and run: "run_state (HandleUpload program_upload c ou) w = (r, w')"
  shows "acts Upload c ou w w'"
proof (cases "NewOID (rq_param c ''oid'')")
  case (Inl e)
  with run have "w' = w" by (simp add: HandleUpload_def Let_def)
  with c show ?thesis by (intro acts_idle) (simp_all add: consistent_def)
next
  case (Inr oid)
  then have oid: "oid = OID (rq_param c ''oid'')" by (simp add: NewOID_Inr)
  from c have s: "coherent_world w" "wf_policies w" "keyed w" "filed w" by (simp_all add: consistent_def sound_world_def)
  obtain q where "run_state (ProxyUpload_Execute cached_repository NewS3Client
      (NewAccessAuthorizationService NewAccessPolicyRepository) (rq_param c ''owner'') (rq_param c ''repo'') oid
      (bd_bytes (rq_body c))) w = (q, w')"
    using run Inr by (cases "run_state (program_upload (rq_param c ''owner'') (rq_param c ''repo'') oid (bd_bytes (rq_body c))) w")
      (auto simp: HandleUpload_def Let_def program_upload_def pg_authorization_def split: sum.splits)
  from transfers.ProxyUpload_run [OF s(1,2) this]
  have u: "sound_world w'" and e: "put_effect oid (bd_bytes (rq_body c)) w w'"
    and own: "w_storage w' \<noteq> w_storage w \<or> stored w' \<noteq> stored w \<Longrightarrow>
      \<exists>ri. NewRepositoryIdentifier (rq_param c ''owner'' @ ''/'' @ rq_param c ''repo'') = Inr ri \<and>
        may_access w OperationUpload ri oid" by (auto simp: sound_world_def)
  show ?thesis
  proof (cases "w_storage w' \<noteq> w_storage w \<or> stored w' \<noteq> stored w")
    case False
    with c u e show ?thesis by (intro acts_idle) (simp_all add: put_effect_def)
  next
    case True
    from own [OF True] obtain ri where
      ri: "NewRepositoryIdentifier (rq_param c ''owner'' @ ''/'' @ rq_param c ''repo'') = Inr ri"
      and acc: "may_access w OperationUpload ri oid" by blast
    have "consistent w'" using u put_effect_consistent [OF e s(3,4)] by (simp add: consistent_def)
    moreover have "backed w \<longrightarrow> backed w'" using put_effect_backed [OF e] by blast
    moreover from receive_refines [OF e s(3) acc]
    have "depot_step Idle (depot_of w) (depot_of w') \<or>
        depot_step (Receive ri oid (bd_bytes (rq_body c))) (depot_of w) (depot_of w')" by auto
    moreover have "allows Upload c Idle" "allows Upload c (Receive ri oid (bd_bytes (rq_body c)))"
      using ri by (simp_all add: oid)
    ultimately show ?thesis unfolding acts_def by blast
  qed
qed

lemma acts_download:
  assumes c: "consistent w" and run: "run_state (HandleDownload program_download c ou) w = (r, w')"
  shows "acts Download c ou w w'"
proof (cases "NewOID (rq_param c ''oid'')")
  case (Inl e)
  with run have "w' = w" by (simp add: HandleDownload_def Let_def)
  with c show ?thesis by (intro acts_idle) (simp_all add: consistent_def)
next
  case (Inr oid)
  from c have s: "coherent_world w" "wf_policies w" by (simp_all add: consistent_def sound_world_def)
  obtain q where "run_state (ProxyDownload_Execute cached_repository NewS3Client
      (NewAccessAuthorizationService NewAccessPolicyRepository) (rq_param c ''owner'') (rq_param c ''repo'') oid) w = (q, w')"
    using run Inr by (cases "run_state (program_download (rq_param c ''owner'') (rq_param c ''repo'') oid) w")
      (auto simp: HandleDownload_def Let_def program_download_def pg_authorization_def split: sum.splits)
  from transfers.ProxyDownload_run [OF s this] c show ?thesis
    by (intro acts_idle) (simp_all add: sound_world_def)
qed

lemma acts_verify:
  assumes c: "consistent w" and run: "run_state (VerifyHandler program_verify c ou) w = (r, w')"
  shows "acts Verify c ou w w'"
proof (cases "w' = w")
  case True
  with c show ?thesis by (intro acts_idle) (simp_all add: consistent_def)
next
  case False
  from c have s: "coherent_world w" "wf_policies w" "keyed w" "filed w" by (simp_all add: consistent_def sound_world_def)
  from False run obtain oid sz q where
    "run_state (VerifyUpload cached_repository redis_deleteBatchUploadKey oid sz) w = (q, w')"
    by (auto simp: VerifyHandler_def program_verify_def split: option.splits sum.splits prod.splits)
  from transfers.VerifyUpload_run [OF s(1,2) this]
  have u: "sound_world w'" "owner_of w' = owner_of w" "w_storage w' = w_storage w"
    "stored w' = stored w \<or> marked (OID oid) w w'" by (auto simp: sound_world_def)
  from u(4) show ?thesis
  proof
    assume "stored w' = stored w"
    with c u show ?thesis by (intro acts_idle)
  next
    assume m: "marked (OID oid) w w'"
    have "consistent w'" using u(1) marked_consistent [OF m u(3) s(3,4)] by (simp add: consistent_def)
    moreover have "allows Verify c (Confirm (OID oid))" by simp
    ultimately show ?thesis unfolding acts_def using confirm_refines [OF m u(3,2)] by blast
  qed
qed

lemma acts_handler:
  assumes "program_handler rt = Some h" and "consistent w" and "run_state (h c ou) w = (r, w')"
  shows "acts rt c ou w w'"
  using assms acts_batch acts_upload acts_download acts_verify
  by (cases rt) (auto simp: program_handler_def)

lemma quiet_backed: "quiet w w' \<Longrightarrow> backed w' = backed w"
  by (simp add: backed_def quiet_stored quiet_storage)

lemma quiet_consistent:
  assumes "quiet w w'" and "consistent w"
  shows "consistent w'"
  using assms quiet_sound [OF assms(1)] same_consistent [of w' w]
  by (simp add: consistent_def quiet_stored quiet_storage)

text \<open>The act of a request, and the signed-in user behind it.\<close>

definition accounted :: "program \<Rightarrow> route \<Rightarrow> request \<Rightarrow> world \<Rightarrow> act \<Rightarrow> bool" where
  "accounted p rt c w a \<longleftrightarrow> allows rt c a \<and> (a = Idle \<or>
     (\<exists>u w1. signed_in (pg_auth p) c w u w1 \<and> admits c u \<and> ((\<exists>ri. a = Enroll ri) \<longrightarrow> may_upload (Some u))))"

lemma serve_quiet:
  assumes "wired http_Do jwt_Parse p" and "program_handler rt = None"
  shows "frames quiet (serve p rt c)"
proof (cases rt)
  case Login
  with assms quiet_login show ?thesis by (auto simp: wired_def split: option.split)
next
  case Callback
  with assms quiet_callback show ?thesis by (auto simp: wired_def split: option.split)
next
  case SessionPage
  then show ?thesis by (auto simp: SessionDisplayHandler_def Let_def)
next
  case Healthz
  then show ?thesis by (simp add: HealthHandler_def)
next
  case Readyz
  then show ?thesis by (simp add: quiet_readyz)
qed (use assms(2) in \<open>simp_all add: program_handler_def\<close>)

lemma serve_run:
  assumes lib: "jwt_library jwt_Parse verifies" and p: "wired http_Do jwt_Parse p"
    and c: "consistent w" and run: "run_state (serve p rt c) w = (r, w')"
  shows "consistent w' \<and> (rt \<noteq> Verify \<longrightarrow> backed w \<longrightarrow> backed w') \<and>
    (\<exists>a. accounted p rt c w a \<and> depot_step a (depot_of w) (depot_of w'))"
proof -
  have idle: ?thesis if q: "quiet w w'"
    using quiet_consistent [OF q c] quiet_backed [OF q] depot_quiet [OF q]
    by (auto simp: accounted_def intro!: exI [of _ Idle])
  show ?thesis
  proof (cases "program_handler rt")
    case None
    from framesD [OF serve_quiet [OF p None] run] show ?thesis by (rule idle)
  next
    case (Some h)
    from wired_dispatched [OF lib p] run serve_handler [OF Some]
    have "dispatched auth_frame (pg_auth p) h c w r w'" by simp
    then show ?thesis unfolding dispatched_def
    proof (elim disjE exE conjE)
      assume "auth_frame w w'"
      then show ?thesis by (rule idle [OF auth_frame_quiet])
    next
      fix u w1
      assume u: "signed_in (pg_auth p) c w u w1" "admits c u" and f: "auth_frame w w1"
        and h: "run_state (h c (Some u)) w1 = (r, w')"
      note q = auth_frame_quiet [OF f]
      from acts_handler [OF Some quiet_consistent [OF q c] h] obtain a where
        a: "consistent w'" "rt \<noteq> Verify \<Longrightarrow> backed w1 \<Longrightarrow> backed w'" "allows rt c a"
          "(\<exists>ri. a = Enroll ri) \<longrightarrow> may_upload (Some u)" "depot_step a (depot_of w1) (depot_of w')"
        unfolding acts_def by blast
      from u a(3,4) have "accounted p rt c w a" unfolding accounted_def by blast
      with a depot_quiet [OF q] quiet_backed [OF q] show ?thesis by auto
    qed
  qed
qed

section \<open>Everything reachable\<close>

text \<open>What may happen: a request, time passing, an outage or its end, an eviction, a change of the
  allowlist.\<close>

datatype event = Request route request | Tick duration | Outage "fault list" | Evict string
  | Allow AllowedRepository | Disallow AllowedRepository

inductive happens :: "program \<Rightarrow> world \<Rightarrow> event \<Rightarrow> world \<Rightarrow> bool" for p where
  request: "run_state (serve p rt c) w = (r, w') \<Longrightarrow> happens p w (Request rt c) w'"
| tick: "0 \<le> d \<Longrightarrow> happens p w (Tick d) (w\<lparr>w_now := w_now w + d\<rparr>)"
| outage: "happens p w (Outage fs) (w\<lparr>w_faults := fs\<rparr>)"
| evict: "happens p w (Evict k) (w\<lparr>w_redis := (w_redis w)(k := None)\<rparr>)"
| allow: "run_state (allowlist_Add cached_allowlist (Some ar)) w = (r, w') \<Longrightarrow> happens p w (Allow ar) w'"
| disallow: "run_state (allowlist_Remove cached_allowlist (Some ar)) w = (r, w') \<Longrightarrow> happens p w (Disallow ar) w'"

inductive_cases happensE: "happens p w e w'"

inductive_simps happens_simps [simp]:
  "happens p w (Request rt c) w'"
  "happens p w (Tick d) w'"
  "happens p w (Outage fs) w'"
  "happens p w (Evict k) w'"
  "happens p w (Allow ar) w'"
  "happens p w (Disallow ar) w'"

inductive reaches :: "program \<Rightarrow> world \<Rightarrow> event list \<Rightarrow> world \<Rightarrow> bool" for p where
  start: "reaches p w [] w"
| more: "reaches p w es v \<Longrightarrow> happens p v e w' \<Longrightarrow> reaches p w (es @ [e]) w'"

lemma peek_later:
  assumes "0 \<le> d"
  shows "redis_peek (w\<lparr>w_now := w_now w + d\<rparr>) k \<in> {redis_peek w k, None}"
  using assms by (auto simp: redis_peek_def redis_read_def redis_live_def split: option.splits prod.splits)

lemma peek_evicted: "redis_peek (w\<lparr>w_redis := (w_redis w)(j := None)\<rparr>) k \<in> {redis_peek w k, None}"
  by (auto simp: redis_peek_def redis_read_def redis_live_def split: option.splits prod.splits)

lemma environment_consistent:
  assumes tabs: "w_objects w' = w_objects w" "w_policies w' = w_policies w" "w_policy_seq w' = w_policy_seq w"
      "w_storage w' = w_storage w"
    and pk: "\<And>k. redis_peek w' k \<in> {redis_peek w k, None}" and c: "consistent w"
  shows "consistent w' \<and> backed w' = backed w \<and> depot_of w' = depot_of w"
proof -
  have st: "stored w' = stored w" by (rule ext) (simp add: stored_def tabs)
  have ow: "owner_of w' = owner_of w" by (rule ext) (simp add: owner_of_def tabs)
  from c have "sound_world w'" using sound_world_quieter [OF tabs(1-3) pk] by (simp add: consistent_def)
  with c same_consistent [OF st tabs(4)] have "consistent w'" by (simp add: consistent_def)
  then show ?thesis using depot_same [OF st ow tabs(4)] by (simp add: backed_def st tabs)
qed

definition confirms :: "event \<Rightarrow> bool" where
  "confirms e \<longleftrightarrow> (\<exists>c. e = Request Verify c)"

lemma happens_run:
  assumes lib: "jwt_library jwt_Parse verifies" and p: "wired http_Do jwt_Parse p"
    and c: "consistent w" and e: "happens p w e w'"
  shows "consistent w' \<and> (\<not> confirms e \<longrightarrow> backed w \<longrightarrow> backed w') \<and>
    (\<exists>a. depot_step a (depot_of w) (depot_of w') \<and> (a = Idle \<or> (\<exists>rt c. e = Request rt c \<and> accounted p rt c w a)))"
proof -
  have idle: ?thesis if "consistent w'" "backed w' = backed w" "depot_of w' = depot_of w"
    using that by (auto intro!: exI [of _ Idle])
  have still: ?thesis if q: "quiet w w'"
    by (rule idle [OF quiet_consistent [OF q c] quiet_backed [OF q] depot_quiet [OF q]])
  from e show ?thesis
  proof (cases rule: happens.cases)
    case (request rt c r)
    from serve_run [OF lib p \<open>consistent w\<close> request(2)] request(1) show ?thesis
      unfolding confirms_def by blast
  next
    case (tick d)
    from environment_consistent [of w' w, OF _ _ _ _ _ c] tick peek_later have
      "consistent w' \<and> backed w' = backed w \<and> depot_of w' = depot_of w" by simp
    then show ?thesis using idle by blast
  next
    case (outage fs)
    then show ?thesis by (intro still) (simp add: quiet_def)
  next
    case (evict k)
    from environment_consistent [of w' w, OF _ _ _ _ _ c] evict peek_evicted have
      "consistent w' \<and> backed w' = backed w \<and> depot_of w' = depot_of w" by simp
    then show ?thesis using idle by blast
  next
    case (allow ar r)
    from framesD [OF quiet_allowlist_Add allow(2)] show ?thesis by (rule still)
  next
    case (disallow ar r)
    from framesD [OF quiet_allowlist_Remove disallow(2)] show ?thesis by (rule still)
  qed
qed

text \<open>Runs of the specification, and what none of them takes back.\<close>

inductive depot_run :: "depot \<Rightarrow> act list \<Rightarrow> depot \<Rightarrow> bool" where
  stop: "depot_run s [] s"
| go: "depot_run s as t \<Longrightarrow> depot_step a t u \<Longrightarrow> depot_run s (as @ [a]) u"

definition extends :: "depot \<Rightarrow> depot \<Rightarrow> bool" where
  "extends s t \<longleftrightarrow> dp_owner s \<subseteq>\<^sub>m dp_owner t \<and> dp_size s \<subseteq>\<^sub>m dp_size t \<and> dom (dp_body s) \<subseteq> dom (dp_body t) \<and>
     dp_done s \<subseteq> dp_done t"

lemma extends_refl [simp]: "extends s s"
  by (simp add: extends_def)

lemma extends_trans [trans]: "extends s t \<Longrightarrow> extends t u \<Longrightarrow> extends s u"
  unfolding extends_def by (blast intro: map_le_trans)

lemma depot_step_extends: "depot_step a s t \<Longrightarrow> extends s t"
  by (induction rule: depot_step.induct) (auto simp: extends_def)

lemma depot_run_extends: "depot_run s as t \<Longrightarrow> extends s t"
  by (induction rule: depot_run.induct) (auto intro: extends_trans depot_step_extends)

lemma reaches_consistent:
  assumes lib: "jwt_library jwt_Parse verifies" and p: "wired http_Do jwt_Parse p"
    and r: "reaches p w es w'" and c: "consistent w"
  shows "consistent w'"
  using r c by (induction rule: reaches.induct) (auto dest: happens_run [OF lib p])

lemma reaches_backed:
  assumes lib: "jwt_library jwt_Parse verifies" and p: "wired http_Do jwt_Parse p"
    and r: "reaches p w es w'" and c: "consistent w" "backed w" and e: "\<forall>e \<in> set es. \<not> confirms e"
  shows "backed w'"
  using r c e
proof (induction rule: reaches.induct)
  case (more w es v e w')
  then have "consistent v" using reaches_consistent [OF lib p] by blast
  with more happens_run [OF lib p this more.hyps(2)] show ?case by simp
qed

lemma reaches_depot_run:
  assumes lib: "jwt_library jwt_Parse verifies" and p: "wired http_Do jwt_Parse p"
    and r: "reaches p w es w'" and c: "consistent w"
  shows "\<exists>as. length as = length es \<and> depot_run (depot_of w) as (depot_of w')"
  using r c
proof (induction rule: reaches.induct)
  case (start w)
  then show ?case using depot_run.stop by auto
next
  case (more w es v e w')
  then obtain as where as: "length as = length es" "depot_run (depot_of w) as (depot_of v)" by blast
  from happens_run [OF lib p reaches_consistent [OF lib p more.hyps(1) more.prems] more.hyps(2)]
  obtain a where "depot_step a (depot_of v) (depot_of w')" by blast
  from depot_run.go [OF as(2) this] as(1) show ?case by (intro exI [of _ "as @ [a]"]) simp
qed

end
