(* ===== verification/Tasks.thy ===== *)
theory Tasks
  imports Prelude
begin

text \<open>
  Requests served at the same time.  The server runs every request in a goroutine of its own, and
  between two calls to Postgres, Redis or the object store another request may run.  A task is what a
  request has left to do: nothing but its answer, or a call and then a task that depends on what the
  call returned.  \<open>turn\<close> lets one task of a pool make its next call.  A request that runs alone is
  \<open>run_task\<close>, and the theories that follow show that this is the function the rest of the
  development is about.
\<close>

section \<open>Tasks\<close>

datatype ('w, 'a) task = Done 'a | Call "'w \<Rightarrow> ('w, 'a) task \<times> 'w"

primrec task_bind :: "('w, 'a) task \<Rightarrow> ('a \<Rightarrow> ('w, 'b) task) \<Rightarrow> ('w, 'b) task" where
  "task_bind (Done a) k = k a"
| "task_bind (Call f) k = Call (\<lambda>w. map_prod (\<lambda>t. task_bind t k) id (f w))"

definition call :: "('w, 'a) state \<Rightarrow> ('w, 'a) task" where
  "call m = Call (\<lambda>w. map_prod Done id (run_state m w))"

definition and_then :: "('w, 'a) state \<Rightarrow> ('a \<Rightarrow> ('w, 'b) task) \<Rightarrow> ('w, 'b) task" where
  "and_then m k = Call (\<lambda>w. map_prod k id (run_state m w))"

lemma call_and_then: "task_bind (call m) k = and_then m k"
  by (simp add: call_def and_then_def prod.map_comp comp_def id_def)

lemma and_then_bind: "task_bind (and_then m k) h = and_then m (\<lambda>a. task_bind (k a) h)"
  by (simp add: and_then_def prod.map_comp comp_def id_def)

text \<open>A task on its own.\<close>

primrec exec :: "('w, 'a) task \<Rightarrow> 'w \<Rightarrow> 'a \<times> 'w" where
  "exec (Done a) = (\<lambda>w. (a, w))"
| "exec (Call f) = (\<lambda>w. case map_prod exec id (f w) of (g, v) \<Rightarrow> g v)"

definition run_task :: "('w, 'a) task \<Rightarrow> ('w, 'a) state" where
  "run_task t = State (exec t)"

lemma exec_bind: "exec (task_bind t k) w = (case exec t w of (a, v) \<Rightarrow> exec (k a) v)"
proof (induction t arbitrary: w)
  case (Call f)
  obtain t v where f: "f w = (t, v)" by fastforce
  then have "t \<in> Basic_BNFs.fsts (f w)" by (simp add: fsts.simps)
  from Call [OF rangeI this] f show ?case by simp
qed simp

lemma run_task_Done [simp]: "run_task (Done a) = State_Monad.return a"
  by (rule state.expand) (simp add: run_task_def fun_eq_iff)

lemma run_task_bind [simp]: "run_task (task_bind t k) = State_Monad.bind (run_task t) (\<lambda>a. run_task (k a))"
  by (rule state.expand) (simp add: run_task_def fun_eq_iff exec_bind)

lemma run_task_and_then [simp]: "run_task (and_then m k) = State_Monad.bind m (\<lambda>a. run_task (k a))"
  by (rule state.expand) (simp add: run_task_def and_then_def fun_eq_iff split: prod.split)

lemma run_task_call [simp]: "run_task (call m) = m"
  by (rule state.expand) (simp add: run_task_def call_def fun_eq_iff case_prod_beta map_prod_def)

section \<open>A pool of tasks\<close>

text \<open>One task makes its next call.\<close>

inductive turn :: "('w, 'a) task list \<Rightarrow> 'w \<Rightarrow> ('w, 'a) task list \<Rightarrow> 'w \<Rightarrow> bool" where
  turn: "i < length ts \<Longrightarrow> ts ! i = Call f \<Longrightarrow> f w = (t, w') \<Longrightarrow> turn ts w (ts[i := t]) w'"

inductive_cases turnE: "turn ts w ts' w'"

fun finished :: "('w, 'a) task \<Rightarrow> bool" where
  "finished (Done a) = True"
| "finished (Call f) = False"

lemma turn_or_finished: "(\<exists>ts' w'. turn ts w ts' w') \<longleftrightarrow> \<not> list_all finished ts"
proof
  assume "\<exists>ts' w'. turn ts w ts' w'"
  then show "\<not> list_all finished ts" by (auto elim!: turnE simp: list_all_length)
next
  assume "\<not> list_all finished ts"
  then obtain i where i: "i < length ts" "\<not> finished (ts ! i)" by (auto simp: list_all_length)
  then obtain f where "ts ! i = Call f" by (cases "ts ! i") auto
  moreover obtain t w' where "f w = (t, w')" by fastforce
  ultimately show "\<exists>ts' w'. turn ts w ts' w'" using turn.turn [OF i(1)] by blast
qed

text \<open>A task with a bound on its calls, whatever they return, and the turns a pool has made while anything
  at all may have happened to the world between them.\<close>

primrec at_most :: "('w, 'a) task \<Rightarrow> nat \<Rightarrow> bool" where
  "at_most (Done a) = (\<lambda>n. True)"
| "at_most (Call f) = (\<lambda>n. n \<noteq> 0 \<and> (\<forall>w. case map_prod at_most id (f w) of (g, v) \<Rightarrow> g (n - 1)))"

inductive after_turns :: "('w, 'a) task list \<Rightarrow> nat \<Rightarrow> ('w, 'a) task list \<Rightarrow> bool" for ts where
  no_turn: "after_turns ts 0 ts"
| one_more: "after_turns ts n us \<Longrightarrow> turn us w us' w' \<Longrightarrow> after_turns ts (Suc n) us'"

lemma at_most_Call: "at_most (Call f) n \<longleftrightarrow> n \<noteq> 0 \<and> (\<forall>w. at_most (fst (f w)) (n - 1))"
  by (simp add: case_prod_beta map_prod_def)

lemma at_most_and_then [intro]: "(\<And>a. at_most (k a) n) \<Longrightarrow> at_most (and_then m k) (Suc n)"
  by (simp add: and_then_def at_most_Call del: at_most.simps(2))

lemma at_most_mono: "at_most t m \<Longrightarrow> m \<le> n \<Longrightarrow> at_most t n"
proof (induction t arbitrary: m n)
  case (Call f)
  have "at_most (fst (f w)) (n - 1)" for w
    using Call.IH [OF rangeI, of "fst (f w)" w "m - 1" "n - 1"] Call.prems
    by (auto simp: fsts.simps at_most_Call simp del: at_most.simps(2))
  then show ?case using Call.prems by (simp add: at_most_Call del: at_most.simps(2))
qed simp

lemma at_most_bind:
  assumes "at_most t m" and k: "\<And>a. at_most (k a) n"
  shows "at_most (task_bind t k) (m + n)"
  using assms(1)
proof (induction t arbitrary: m)
  case (Done a)
  show ?case using at_most_mono [OF k] by simp
next
  case (Call f)
  from Call.prems have m: "m \<noteq> 0" "at_most (fst (f w)) (m - 1)" for w
    by (simp_all add: at_most_Call del: at_most.simps(2))
  have "at_most (task_bind (fst (f w)) k) (m - 1 + n)" for w
    using Call.IH [OF rangeI _ m(2), of w] by (simp add: fsts.simps prod_eq_iff)
  then have "at_most (task_bind (fst (f w)) k) (m + n - 1)" for w
    using m(1) by (metis Nat.add_diff_assoc2 One_nat_def Suc_leI neq0_conv)
  then show ?case using m(1) unfolding task_bind.simps at_most_Call fst_map_prod by simp
qed

lemma turn_at_most:
  assumes "list_all2 at_most ts ns" and "turn ts w us w'"
  shows "\<exists>ms. list_all2 at_most us ms \<and> sum_list ns = Suc (sum_list (ms :: nat list))"
  using assms(2)
proof (rule turnE)
  fix i f t
  assume i: "i < length ts" "ts ! i = Call f" "f w = (t, w')" and us: "us = ts[i := t]"
  from assms(1) i(1) have n: "i < length ns" "at_most (ts ! i) (ns ! i)"
    by (auto simp: list_all2_lengthD list_all2_nthD)
  then have pos: "ns ! i \<noteq> 0" and rest: "at_most t (ns ! i - 1)"
    using i(2,3) by (auto simp: at_most_Call simp del: at_most.simps(2) dest: spec [of _ w])
  have "list_all2 at_most us (ns[i := ns ! i - 1])" unfolding us
    by (rule list_all2_update_cong [OF assms(1) rest])
  moreover have "ns ! i \<le> sum_list ns" using n(1) by (simp add: member_le_sum_list)
  then have "sum_list ns = Suc (sum_list (ns[i := ns ! i - 1]))"
    using pos n(1) by (simp add: sum_list_update)
  ultimately show ?thesis by blast
qed

lemma after_turns_bound:
  assumes "list_all2 at_most ts ns" and "after_turns ts n us"
  shows "n \<le> sum_list ns"
proof -
  from assms(2) have "\<exists>ms. list_all2 at_most us ms \<and> sum_list ns = n + sum_list ms"
  proof induction
    case no_turn
    with assms(1) show ?case by auto
  next
    case (one_more n us w us' w')
    then obtain ms where "list_all2 at_most us ms" "sum_list ns = n + sum_list ms" by blast
    with turn_at_most [OF this(1) one_more.hyps(2)] show ?case by force
  qed
  then show ?thesis by auto
qed

section \<open>What a task may assume and must keep\<close>

text \<open>
  \<open>I\<close> is an invariant of the world, and \<open>R\<close> how everybody else may move it between two calls.  A
  task is safe when each of its calls keeps \<open>I\<close> and moves the world along \<open>R\<close> too, and when its answer
  fits the world at the end, however the others have moved it meanwhile.
\<close>

primrec safe ::
  "('w \<Rightarrow> bool) \<Rightarrow> ('w \<Rightarrow> 'w \<Rightarrow> bool) \<Rightarrow> ('a \<Rightarrow> 'w \<Rightarrow> bool) \<Rightarrow> ('w, 'a) task \<Rightarrow> 'w \<Rightarrow> bool" where
  "safe I R Q (Done a) = (\<lambda>w. \<forall>v. I v \<longrightarrow> R w v \<longrightarrow> Q a v)"
| "safe I R Q (Call f) = (\<lambda>w. \<forall>v. I v \<longrightarrow> R w v \<longrightarrow>
     (case map_prod (safe I R Q) id (f v) of (s, v') \<Rightarrow> I v' \<and> R v v' \<and> s v'))"

lemma safe_Call:
  assumes "safe I R Q (Call f) w" and v: "I v" "R w v" and f: "f v = (t, v')"
  shows "I v' \<and> R v v' \<and> safe I R Q t v'"
proof -
  from assms(1) have "\<forall>v. I v \<longrightarrow> R w v \<longrightarrow> (case map_prod (safe I R Q) id (f v) of (s, v') \<Rightarrow> I v' \<and> R v v' \<and> s v')"
    by (simp only: safe.simps)
  from this [rule_format, OF v] show ?thesis by (simp only: f map_prod_simp prod.case id_apply)
qed

lemma safe_DoneI: "(\<And>v. I v \<Longrightarrow> R w v \<Longrightarrow> Q a v) \<Longrightarrow> safe I R Q (Done a) w"
  by simp

lemma safe_and_then:
  assumes "\<And>v a v'. I v \<Longrightarrow> R w v \<Longrightarrow> run_state m v = (a, v') \<Longrightarrow> I v' \<and> R v v' \<and> safe I R Q (k a) v'"
  shows "safe I R Q (and_then m k) w"
  unfolding and_then_def safe.simps
proof (intro allI impI)
  fix v assume v: "I v" "R w v"
  obtain a v' where run: "run_state m v = (a, v')" by fastforce
  from assms [OF v run] show "case map_prod (safe I R Q) id (map_prod k id (run_state m v)) of
      (s, v') \<Rightarrow> I v' \<and> R v v' \<and> s v'" by (simp only: run map_prod_simp prod.case id_apply)
qed

lemma safe_later:
  assumes "transp R" and "R w v"
  shows "safe I R Q t w \<Longrightarrow> safe I R Q t v"
  using assms by (cases t) (auto dest: transpD)

lemma safe_bind:
  assumes "reflp R" and "I w" and "safe I R (\<lambda>a. safe I R Q (k a)) t w"
  shows "safe I R Q (task_bind t k) w"
  using assms(2,3)
proof (induction t arbitrary: w)
  case (Done a)
  with assms(1) show ?case by (simp add: reflp_def)
next
  case (Call f)
  show ?case unfolding task_bind.simps safe.simps
  proof (intro allI impI)
    fix v assume v: "I v" "R w v"
    obtain t v' where f: "f v = (t, v')" by fastforce
    have "I v' \<and> R v v' \<and> safe I R (\<lambda>a. safe I R Q (k a)) t v'" by (rule safe_Call [OF Call(3) v f])
    moreover have "t \<in> Basic_BNFs.fsts (f v)" using f by (simp add: fsts.simps)
    ultimately have "I v' \<and> R v v' \<and> safe I R Q (task_bind t k) v'" using Call(1) [OF rangeI] by blast
    then show "case map_prod (safe I R Q) id (map_prod (\<lambda>t. task_bind t k) id (f v)) of
        (s, v') \<Rightarrow> I v' \<and> R v v' \<and> s v'"
      using f by simp
  qed
qed

text \<open>Nothing is lost by only looking at worlds that satisfy the invariant.\<close>

lemma safe_start:
  assumes "transp R" and "\<And>v. I v \<Longrightarrow> R w v \<Longrightarrow> safe I R Q t v" and "reflp R"
  shows "safe I R Q t w"
proof (cases t)
  case (Done a)
  show ?thesis unfolding Done
    by (rule safe_DoneI) (use assms(2,3) Done in \<open>auto dest: reflpD\<close>)
next
  case (Call f)
  show ?thesis unfolding Call safe.simps
  proof (intro allI impI)
    fix v assume v: "I v" "R w v"
    obtain s v' where f: "f v = (s, v')" by fastforce
    from safe_Call [OF assms(2) [OF v, unfolded Call] v(1) reflpD [OF assms(3)] f]
    show "case map_prod (safe I R Q) id (f v) of (s, v') \<Rightarrow> I v' \<and> R v v' \<and> s v'" using f by simp
  qed
qed

lemma safe_weaken:
  assumes "transp R" and "safe I R P t w" and "\<And>a v. I v \<Longrightarrow> R w v \<Longrightarrow> P a v \<Longrightarrow> Q a v"
  shows "safe I R Q t w"
  using assms(2,3)
proof (induction t arbitrary: w)
  case (Done a)
  show ?case by (rule safe_DoneI) (use Done in simp)
next
  case (Call f)
  show ?case unfolding safe.simps
  proof (intro allI impI)
    fix v assume v: "I v" "R w v"
    obtain t v' where f: "f v = (t, v')" by fastforce
    from safe_Call [OF Call(2) v f] have st: "I v'" "R v v'" "safe I R P t v'" by auto
    have "t \<in> Basic_BNFs.fsts (f v)" using f by (simp add: fsts.simps)
    moreover have "Q a u" if "I u" "R v' u" "P a u" for a u
      using Call(3) [OF that(1) _ that(3)] v(2) st(2) that(2) assms(1) by (meson transpD)
    ultimately have "safe I R Q t v'" using Call(1) [OF rangeI] st(3) by blast
    then show "case map_prod (safe I R Q) id (f v) of (s, v') \<Rightarrow> I v' \<and> R v v' \<and> s v'"
      using st f by simp
  qed
qed

text \<open>A task after a task: the first promises \<open>P\<close>, and the second starts from there.\<close>

lemma safe_seq:
  assumes "reflp R" and "transp R" and "I w" and "safe I R P t w"
    and "\<And>a v. I v \<Longrightarrow> R w v \<Longrightarrow> P a v \<Longrightarrow> safe I R Q (k a) v"
  shows "safe I R Q (task_bind t k) w"
  using safe_bind [OF assms(1,3) safe_weaken [OF assms(2,4,5)]] .

section \<open>Everything that may happen at the same time\<close>

text \<open>Between the turns new tasks may arrive, and the environment may move the world.\<close>

inductive interleaved ::
  "('w, 'a) task set \<Rightarrow> ('w \<Rightarrow> 'w \<Rightarrow> bool) \<Rightarrow> ('w, 'a) task list \<Rightarrow> 'w \<Rightarrow> ('w, 'a) task list \<Rightarrow> 'w \<Rightarrow> bool"
  for T env ts w where
  still: "interleaved T env ts w ts w"
| turns: "interleaved T env ts w us v \<Longrightarrow> turn us v us' v' \<Longrightarrow> interleaved T env ts w us' v'"
| arrives: "interleaved T env ts w us v \<Longrightarrow> t \<in> T \<Longrightarrow> interleaved T env ts w (us @ [t]) v"
| moves: "interleaved T env ts w us v \<Longrightarrow> env v v' \<Longrightarrow> interleaved T env ts w us v'"

lemma interleaved_length: "interleaved {} env ts w us v \<Longrightarrow> length us = length ts"
  by (induction rule: interleaved.induct) (auto elim!: turnE)

lemma interleaved_arrived: "set ts \<subseteq> T \<Longrightarrow> interleaved T env [] w ts w"
proof (induction ts rule: rev_induct)
  case (snoc t ts)
  then show ?case by (auto intro: interleaved.arrives)
qed (rule interleaved.still)

lemma interleaved_from_start:
  assumes "interleaved {} env ts w us v" and "set ts \<subseteq> T"
  shows "interleaved T env [] w us v"
  using assms(1) by (induction rule: interleaved.induct) (auto intro: interleaved.intros interleaved_arrived [OF assms(2)])

lemma turn_safe:
  assumes R: "transp R" and I: "I w" and all: "\<forall>t \<in> set ts. safe I R Q t w" and turn: "turn ts w ts' w'"
    and refl: "reflp R"
  shows "I w' \<and> R w w' \<and> (\<forall>t \<in> set ts'. safe I R Q t w')"
  using turn
proof (rule turnE)
  fix i f t
  assume i: "i < length ts" "ts ! i = Call f" "f w = (t, w')" and ts': "ts' = ts[i := t]"
  from all i(1,2) have "safe I R Q (Call f) w" by (metis nth_mem)
  from safe_Call [OF this I reflpD [OF refl] i(3)] have st: "I w'" "R w w'" "safe I R Q t w'" by auto
  moreover have "safe I R Q u w'" if "u \<in> set ts'" for u
    using that set_update_subset_insert [of ts i t] st(3) all safe_later [OF R st(2)] unfolding ts' by blast
  ultimately show ?thesis by blast
qed

text \<open>Safe tasks stay safe together.\<close>

lemma interleaved_safe:
  assumes "interleaved T env ts w us v" and refl: "reflp R" and R: "transp R"
    and T: "\<And>t u. t \<in> T \<Longrightarrow> I u \<Longrightarrow> safe I R Q t u"
    and env: "\<And>u u'. env u u' \<Longrightarrow> I u \<Longrightarrow> I u' \<and> R u u'"
    and start: "I w" "\<forall>t \<in> set ts. safe I R Q t w"
  shows "I v \<and> R w v \<and> (\<forall>t \<in> set us. safe I R Q t v)"
  using assms(1)
proof induction
  case still
  with start refl show ?case by (simp add: reflp_def)
next
  case (turns us v us' v')
  then show ?case using turn_safe [OF R, of I v us Q us' v'] refl transpD [OF R] by blast
next
  case (arrives us v t)
  then show ?case using T by auto
next
  case (moves us v v')
  then have "I v' \<and> R v v'" using env by blast
  with moves show ?case using transpD [OF R] safe_later [OF R] by blast
qed

text \<open>Schedules: one call of the task at a place, and all that is left of it.\<close>

lemma interleaved_call:
  assumes "interleaved T env ts w us v" and "i < length us" "us ! i = and_then m k" and "run_state m v = (a, v')"
  shows "interleaved T env ts w (us[i := k a]) v'"
proof (rule interleaved.turns [OF assms(1)])
  show "turn us v (us[i := k a]) v'"
    by (rule turn.turn [OF assms(2), of "\<lambda>w. map_prod k id (run_state m w)"]) (simp_all add: assms(3,4) and_then_def)
qed

lemma interleaved_next:
  assumes "interleaved T env ts w (us[i := and_then m k]) v" and "i < length us" and "run_state m v = (a, v')"
  shows "interleaved T env ts w (us[i := k a]) v'"
  using interleaved_call [OF assms(1), of i m k a v'] assms(2,3) by simp

lemma interleaved_rest:
  assumes "interleaved T env ts w us v" and "i < length us" and "run_state (run_task (us ! i)) v = (a, v')"
  shows "interleaved T env ts w (us[i := Done a]) v'"
proof -
  have "interleaved T env ts w us v \<Longrightarrow> i < length us \<Longrightarrow> us ! i = t \<Longrightarrow> exec t v = (a, v') \<Longrightarrow>
      interleaved T env ts w (us[i := Done a]) v'" for t
  proof (induction t arbitrary: us v)
    case (Done x)
    then show ?case by (metis exec.simps(1) list_update_id prod.inject)
  next
    case (Call f)
    obtain t u where f: "f v = (t, u)" by fastforce
    then have t: "t \<in> Basic_BNFs.fsts (f v)" by (simp add: fsts.simps)
    have "interleaved T env ts w (us[i := t]) u"
      by (rule interleaved.turns [OF Call.prems(1) turn.turn [OF Call.prems(2,3) f]])
    from Call.IH [OF rangeI t this] Call.prems(2,4) f show ?case by simp
  qed
  with assms show ?thesis by (simp add: run_task_def)
qed

end
