(* ===== verification/Turns.thy ===== *)
theory Turns
  imports Lifecycle Tasks
begin

text \<open>
  The requests that touch objects, as tasks: the same functions as in Caching, Batch and Content_Transfer, over
  the program's own repositories, with a turn for each call to Postgres, Redis or the object store.
  Reading the clock before a write belongs to no other request and goes with the call that follows, or
  is a turn of its own.  Each task, run alone, is the function it cuts into turns.
\<close>

section \<open>The metadata repository\<close>

type_synonym 'a turns = "(world, gerror + 'a) task"

definition cached_entry :: "OID \<Rightarrow> cachedMetadata io" where
  "cached_entry oid = cache_GetJSON redis_metadata_cache (gen_MetadataKey NewCacheKeyGenerator (OID_String oid))"

definition fill_entry :: "LFSObject \<Rightarrow> OID \<Rightarrow> unit io" where
  "fill_entry obj oid = cacheMetadata redis_metadata_cache NewCacheKeyGenerator CacheConfig_MetadataTTL oid obj"

definition find_turns :: "OID \<Rightarrow> LFSObject turns" where
  "find_turns oid = and_then (cached_entry oid) (\<lambda>c.
     case (case c of Inl err \<Rightarrow> None | Inr cached \<Rightarrow> cached_object cached) of
       Some obj \<Rightarrow> Done (Inr obj)
     | None \<Rightarrow> and_then (repo_FindByOID NewLFSObjectRepository oid) (\<lambda>r. case r of
         Inl err \<Rightarrow> Done (Inl err)
       | Inr obj \<Rightarrow> and_then (fill_entry obj oid) (\<lambda>u. Done (Inr obj))))"

definition save_turns :: "LFSObject \<Rightarrow> unit turns" where
  "save_turns obj = and_then (repo_Save NewLFSObjectRepository obj) (\<lambda>r. case r of
     Inl err \<Rightarrow> Done (Inl err)
   | Inr u \<Rightarrow> and_then (fill_entry obj (lo_oid obj)) (\<lambda>u. Done (Inr ())))"

definition update_turns :: "LFSObject \<Rightarrow> unit turns" where
  "update_turns obj = and_then (repo_Update NewLFSObjectRepository obj) (\<lambda>r. case r of
     Inl err \<Rightarrow> Done (Inl err)
   | Inr u \<Rightarrow> and_then (fill_entry obj (lo_oid obj)) (\<lambda>u. Done (Inr ())))"

definition clock :: "(world, instant) state" where
  "clock = State (\<lambda>w. (w_now w, w))"

lemma run_clock [simp]: "run_state clock w = (w_now w, w)"
  by (simp add: clock_def)

lemmas run_task_cases = if_distrib [of run_task] option.case_distrib [of run_task] sum.case_distrib [of run_task]
  prod.case_distrib [of run_task] json.case_distrib [of run_task]

lemma run_find_turns [simp]: "run_task (find_turns oid) = repo_FindByOID cached_repository oid"
  by (simp add: find_turns_def cached_entry_def fill_entry_def cached_repository_def NewCachingLFSObjectRepository_def
      caching_FindByOID_def lift_result_def run_task_cases cong: sum.case_cong option.case_cong if_cong)

lemma run_save_turns [simp]: "run_task (save_turns obj) = repo_Save cached_repository obj"
  by (simp add: save_turns_def fill_entry_def cached_repository_def NewCachingLFSObjectRepository_def
      caching_Save_def lift_result_def run_task_cases cong: sum.case_cong option.case_cong if_cong)

lemma run_update_turns [simp]: "run_task (update_turns obj) = repo_Update cached_repository obj"
  by (simp add: update_turns_def fill_entry_def cached_repository_def NewCachingLFSObjectRepository_def
      caching_Update_def lift_result_def run_task_cases cong: sum.case_cong option.case_cong if_cong)

section \<open>Contents\<close>

definition proxy_upload_turns :: "string \<Rightarrow> string \<Rightarrow> OID \<Rightarrow> string \<Rightarrow> unit turns" where
  "proxy_upload_turns owner repo oid body =
     (case NewRepositoryIdentifier (owner @ ''/'' @ repo) of
        Inl err \<Rightarrow> Done (Inl (Usecase UErrAccessDenied))
      | Inr repoIdentifier \<Rightarrow>
          and_then (CheckAuthorization pg_authorization OperationUpload (Some repoIdentifier) oid) (\<lambda>a. case a of
            Inl err \<Rightarrow> Done (Inl err)
          | Inr authResult \<Rightarrow>
              if \<not> auth_Allowed authResult then Done (Inl (Usecase UErrAccessDenied))
              else task_bind (find_turns oid) (\<lambda>f. case f of
                Inl err \<Rightarrow>
                  if errors_Is err (Domain ErrNotFound) then Done (Inl (Usecase UErrObjectNotFound))
                  else Done (Inl err)
              | Inr lfsObject \<Rightarrow>
                  and_then (storage_PutObject NewS3Client (GetStorageKey lfsObject) body (Size_Int64 (lo_size lfsObject)))
                    (\<lambda>put. case put of
                      Inl err \<Rightarrow> Done (Inl err)
                    | Inr u \<Rightarrow> and_then clock (\<lambda>now. task_bind (update_turns (MarkAsUploaded now lfsObject)) (\<lambda>upd.
                        case upd of Inl err \<Rightarrow> Done (Inl err) | Inr u \<Rightarrow> Done (Inr ())))))))"

definition proxy_download_turns :: "string \<Rightarrow> string \<Rightarrow> OID \<Rightarrow> (string \<times> int) turns" where
  "proxy_download_turns owner repo oid =
     (case NewRepositoryIdentifier (owner @ ''/'' @ repo) of
        Inl err \<Rightarrow> Done (Inl (Usecase UErrAccessDenied))
      | Inr repoIdentifier \<Rightarrow>
          and_then (CheckAuthorization pg_authorization OperationDownload (Some repoIdentifier) oid) (\<lambda>a. case a of
            Inl err \<Rightarrow> Done (Inl err)
          | Inr authResult \<Rightarrow>
              if \<not> auth_Allowed authResult then Done (Inl (Usecase UErrAccessDenied))
              else task_bind (find_turns oid) (\<lambda>f. case f of
                Inl err \<Rightarrow>
                  if errors_Is err (Domain ErrNotFound) then Done (Inl (Usecase UErrObjectNotFound))
                  else Done (Inl err)
              | Inr obj \<Rightarrow>
                  if \<not> lo_uploaded obj then Done (Inl (Usecase UErrNotUploaded))
                  else and_then (storage_GetObject NewS3Client (GetStorageKey obj)) (\<lambda>s. case s of
                    Inl err \<Rightarrow> Done (Inl err)
                  | Inr stream \<Rightarrow> Done (Inr (stream, Size_Int64 (lo_size obj)))))))"

definition verify_turns :: "string \<Rightarrow> int \<Rightarrow> unit turns" where
  "verify_turns oid sz = (case NewOID oid of
     Inl err \<Rightarrow>
       if errors_Is err (Domain ErrInvalidOIDFormat) then Done (Inl (Usecase UErrInvalidOID))
       else Done (Inl (Wrap err))
   | Inr domainOID \<Rightarrow> (case NewSize sz of
       Inl err \<Rightarrow>
         if errors_Is err (Domain domain_error.ErrInvalidSize) then Done (Inl (Usecase UErrInvalidSize))
         else Done (Inl (Wrap err))
     | Inr domainSize \<Rightarrow> task_bind (find_turns domainOID) (\<lambda>f. case f of
           Inl err \<Rightarrow>
             if errors_Is err (Domain ErrNotFound) then Done (Inl (Usecase UErrObjectNotFound))
             else Done (Inl (Wrap err))
         | Inr obj \<Rightarrow>
             if Size_Int64 (lo_size obj) \<noteq> Size_Int64 domainSize then Done (Inl (Usecase UErrSizeMismatch))
             else and_then clock (\<lambda>now. task_bind (update_turns (MarkAsUploaded now obj)) (\<lambda>upd. case upd of
                 Inl err \<Rightarrow> Done (Inl (Wrap err))
               | Inr u \<Rightarrow> and_then (redis_deleteBatchUploadKey oid) (\<lambda>warn. Done (Inr ())))))))"

lemma run_proxy_upload_turns: "run_task (proxy_upload_turns ow re oid body) = program_upload ow re oid body"
  by (simp add: proxy_upload_turns_def program_upload_def ProxyUpload_Execute_def clock_def lift_result_def
      run_task_cases cong: sum.case_cong option.case_cong if_cong)

lemma run_proxy_download_turns: "run_task (proxy_download_turns ow re oid) = program_download ow re oid"
  by (simp add: proxy_download_turns_def program_download_def ProxyDownload_Execute_def lift_result_def
      run_task_cases cong: sum.case_cong option.case_cong if_cong)

lemma run_verify_turns: "run_task (verify_turns oid sz) = program_verify oid sz"
  by (simp add: verify_turns_def program_verify_def VerifyUpload_def clock_def lift_result_def
      run_task_cases cong: sum.case_cong option.case_cong if_cong)

section \<open>Batches\<close>

definition upload_object_turns ::
  "string \<Rightarrow> string \<Rightarrow> string \<Rightarrow> OID \<Rightarrow> Size \<Rightarrow> string \<Rightarrow> string \<Rightarrow> (world, ResponseObject) task" where
  "upload_object_turns baseURL owner repo oid sz hashAlgo authHeader =
     task_bind (find_turns oid) (\<lambda>found. case found of
       Inl err \<Rightarrow>
         if \<not> errors_Is err (Domain ErrNotFound)
         then Done (object_failure oid sz 500 MsgMetadataFetchFailed)
         else (case GenerateStorageKey (OID_String oid) hashAlgo of
           Inl err \<Rightarrow> Done (object_failure oid sz 400 MsgInvalidStorageKeyParameter)
         | Inr storageKey \<Rightarrow> (case NewHashAlgorithm hashAlgo of
             Inl err \<Rightarrow> Done (object_failure oid sz 400 MsgInvalidHashAlgorithmObject)
           | Inr hashAlgorithm \<Rightarrow> and_then clock (\<lambda>now. case NewLFSObject now oid sz hashAlgorithm storageKey of
                 Inl err \<Rightarrow> Done (object_failure oid sz 500 MsgMetadataCreateFailed)
               | Inr newObj \<Rightarrow> task_bind (save_turns newObj) (\<lambda>saved. case saved of
                     Inl saveErr \<Rightarrow> Done (object_failure oid sz 500 MsgMetadataSaveFailed)
                   | Inr u \<Rightarrow> Done (upload_response NewProxyActionURLGenerator baseURL owner repo oid sz authHeader)))))
     | Inr obj \<Rightarrow>
         if lo_uploaded obj then
           (if Size_Int64 (lo_size obj) \<noteq> Size_Int64 sz
            then Done (object_failure oid sz 409 MsgSizeConflict)
            else Done (NewResponseObject (OID_String oid) (Size_Int64 sz) True None None))
         else Done (upload_response NewProxyActionURLGenerator baseURL owner repo oid sz authHeader))"

definition claim_turns :: "AuthorizationResult \<Rightarrow> ResponseObject \<Rightarrow> OID \<Rightarrow> RepositoryIdentifier option \<Rightarrow> unit turns" where
  "claim_turns authResult respObj oid repository =
     (if auth_IsNewObject authResult \<and> rs_error respObj = None
      then call (createAccessPolicy NewAccessPolicyRepository oid repository) else Done (Inr ()))"

fun upload_batch_turns ::
  "string \<Rightarrow> string \<Rightarrow> string \<Rightarrow> RepositoryIdentifier option \<Rightarrow> string \<Rightarrow> string \<Rightarrow> RequestObject list \<Rightarrow>
     ResponseObject list turns" where
  "upload_batch_turns baseURL owner repo repository hashAlgo authHeader [] = Done (Inr [])"
| "upload_batch_turns baseURL owner repo repository hashAlgo authHeader (reqObj # reqObjs) =
    (case NewOID (ro_oid reqObj) of
       Inl err \<Rightarrow> Done (Inl (Wrap err))
     | Inr oid \<Rightarrow> (case NewSize (ro_size reqObj) of
         Inl err \<Rightarrow> Done (Inl (Wrap err))
       | Inr sz \<Rightarrow> and_then (CheckAuthorization pg_authorization OperationUpload repository oid) (\<lambda>a. case a of
             Inl err \<Rightarrow> Done (Inl err)
           | Inr authResult \<Rightarrow>
               if \<not> auth_Allowed authResult then Done (Inl (Usecase UErrAccessDenied))
               else task_bind (upload_object_turns baseURL owner repo oid sz hashAlgo authHeader) (\<lambda>respObj.
                 task_bind (claim_turns authResult respObj oid repository) (\<lambda>p. case p of
                   Inl err \<Rightarrow> Done (Inl (Wrap err))
                 | Inr u \<Rightarrow>
                     task_bind (upload_batch_turns baseURL owner repo repository hashAlgo authHeader reqObjs) (\<lambda>rest.
                       case rest of
                         Inl err \<Rightarrow> Done (Inl err)
                       | Inr respObjs \<Rightarrow> Done (Inr (respObj # respObjs))))))))"

definition download_object_turns ::
  "string \<Rightarrow> string \<Rightarrow> string \<Rightarrow> OID \<Rightarrow> Size \<Rightarrow> string \<Rightarrow> (world, ResponseObject) task" where
  "download_object_turns baseURL owner repo oid sz authHeader =
     task_bind (find_turns oid) (\<lambda>found. case found of
       Inl err \<Rightarrow>
         if errors_Is err (Domain ErrNotFound) then Done (object_failure oid sz 404 MsgObjectMissing)
         else Done (object_failure oid sz 500 MsgMetadataFetchFailed)
     | Inr obj \<Rightarrow>
         if \<not> lo_uploaded obj then Done (object_failure oid sz 404 MsgNotUploadedYet)
         else (let downloadURL = url_Download NewProxyActionURLGenerator baseURL owner repo (OID_String oid);
                   downloadAction = NewAction downloadURL (auth_header authHeader) (PresignedURLTTL div Second);
                   actions = NewActions None (Some downloadAction)
               in Done (NewResponseObject (OID_String oid) (Size_Int64 sz) True (Some actions) None)))"

fun download_batch_turns ::
  "string \<Rightarrow> string \<Rightarrow> string \<Rightarrow> RepositoryIdentifier option \<Rightarrow> string \<Rightarrow> RequestObject list \<Rightarrow>
     ResponseObject list turns" where
  "download_batch_turns baseURL owner repo repository authHeader [] = Done (Inr [])"
| "download_batch_turns baseURL owner repo repository authHeader (reqObj # reqObjs) =
    (case NewOID (ro_oid reqObj) of
       Inl err \<Rightarrow> Done (Inl (Wrap err))
     | Inr oid \<Rightarrow> (case NewSize (ro_size reqObj) of
         Inl err \<Rightarrow> Done (Inl (Wrap err))
       | Inr sz \<Rightarrow> and_then (CheckAuthorization pg_authorization OperationDownload repository oid) (\<lambda>a. case a of
             Inl err \<Rightarrow> Done (Inl err)
           | Inr authResult \<Rightarrow>
               if \<not> auth_Allowed authResult then Done (Inl (Usecase UErrAccessDenied))
               else task_bind (download_object_turns baseURL owner repo oid sz authHeader) (\<lambda>respObj.
                 task_bind (download_batch_turns baseURL owner repo repository authHeader reqObjs) (\<lambda>rest.
                   case rest of
                     Inl err \<Rightarrow> Done (Inl err)
                   | Inr respObjs \<Rightarrow> Done (Inr (respObj # respObjs)))))))"

definition batch_turns :: "string \<Rightarrow> string \<Rightarrow> string \<Rightarrow> BatchRequest \<Rightarrow> string \<Rightarrow> BatchResponse turns" where
  "batch_turns baseURL owner repo req authHeader =
     (let hashAlgo = (if br_hashAlgo req = [] then DefaultHashAlgorithm else br_hashAlgo req);
          finish = (\<lambda>r. case r of
            Inl err \<Rightarrow> Done (Inl err)
          | Inr objects \<Rightarrow> Done (Inr (NewBatchResponse DefaultTransferType objects hashAlgo)))
      in case BatchRequest_Validate req of
        Some err \<Rightarrow> Done (Inl err)
      | None \<Rightarrow>
          if br_operation req = OperationDownload
          then task_bind (download_batch_turns baseURL owner repo (br_repository req) authHeader (br_objects req)) finish
          else if br_operation req \<noteq> OperationUpload then Done (Inl (Usecase UErrInvalidOperation))
          else task_bind (upload_batch_turns baseURL owner repo (br_repository req) hashAlgo authHeader (br_objects req)) finish)"

lemma run_upload_object_turns [simp]:
  "run_task (upload_object_turns baseURL ow re oid sz h ah) =
     HandleUploadObject cached_repository NewProxyActionURLGenerator GenerateStorageKey baseURL ow re oid sz h ah"
  by (simp add: upload_object_turns_def HandleUploadObject_def clock_def run_task_cases
      cong: sum.case_cong option.case_cong if_cong)

lemma run_download_object_turns [simp]:
  "run_task (download_object_turns baseURL ow re oid sz ah) =
     HandleDownloadObject cached_repository NewProxyActionURLGenerator baseURL ow re oid sz ah"
  by (simp add: download_object_turns_def HandleDownloadObject_def Let_def run_task_cases
      cong: sum.case_cong option.case_cong if_cong)

lemma run_claim_turns [simp]:
  "run_task (claim_turns a resp oid orepo) = (if auth_IsNewObject a \<and> rs_error resp = None
     then createAccessPolicy NewAccessPolicyRepository oid orepo else lift_result (Inr ()))"
  by (simp add: claim_turns_def lift_result_def)

lemma run_upload_batch_turns [simp]:
  "run_task (upload_batch_turns baseURL ow re orepo h ah objs) =
     batch_upload_objects (HandleUploadObject cached_repository NewProxyActionURLGenerator GenerateStorageKey)
       pg_authorization NewAccessPolicyRepository baseURL ow re orepo h ah objs"
  by (induction objs) (simp_all add: lift_result_def run_task_cases cong: sum.case_cong option.case_cong if_cong)

lemma run_download_batch_turns [simp]:
  "run_task (download_batch_turns baseURL ow re orepo ah objs) =
     batch_download_objects (HandleDownloadObject cached_repository NewProxyActionURLGenerator)
       pg_authorization baseURL ow re orepo ah objs"
  by (induction objs) (simp_all add: lift_result_def run_task_cases cong: sum.case_cong option.case_cong if_cong)

lemma run_batch_turns:
  "run_task (batch_turns baseURL ow re req ah) = HandleBatchRequest program_batch baseURL ow re req ah"
  by (simp add: batch_turns_def HandleBatchRequest_def program_batch_def NewBatchUseCase_def HandleBatchUpload_def
      HandleBatchDownload_def Let_def lift_result_def run_task_cases cong: sum.case_cong option.case_cong if_cong)

end
