(* ===== verification/Concurrency.thy ===== *)
theory Concurrency
  imports Turns
begin

text \<open>
  What the requests of Turns keep while they run at the same time.  Every single call keeps the
  consistency of theory Lifecycle and only lets the tables and the bucket grow; a request relies on
  nothing more about the others.  So the pool of all requests in flight keeps it too, the answers are
  true when they are given and stay true, and an owner that was there when the requests started is
  there at the end.
\<close>

section \<open>The invariant and the growth of the world\<close>

text \<open>\<open>b\<close> asks that uploaded objects have their content; \<open>S\<close> are owners that are settled.\<close>

definition held :: "bool \<Rightarrow> (OID \<Rightarrow> RepositoryIdentifier option) \<Rightarrow> world \<Rightarrow> bool" where
  "held b S w \<longleftrightarrow> consistent w \<and> (b \<longrightarrow> backed w) \<and> S \<subseteq>\<^sub>m owner_of w"

definition grown :: "world \<Rightarrow> world \<Rightarrow> bool" where
  "grown w w' \<longleftrightarrow>
     (\<forall>oid d. stored w oid = Some d \<longrightarrow>
        (\<exists>d'. stored w' oid = Some d' \<and> same_object d' d \<and> (lo_uploaded d \<longrightarrow> lo_uploaded d'))) \<and>
     (\<forall>k. w_storage w k \<noteq> None \<longrightarrow> w_storage w' k \<noteq> None) \<and>
     (\<forall>oid. owner_of w oid \<noteq> None \<longrightarrow> owner_of w' oid \<noteq> None)"

lemma grown_refl [simp]: "grown w w"
  by (auto simp: grown_def)

lemma reflp_grown [simp]: "reflp grown"
  by (simp add: reflp_def)

lemma grown_stored:
  assumes "grown w w'" and "stored w oid = Some d"
  obtains d' where "stored w' oid = Some d'" "same_object d' d" "lo_uploaded d \<Longrightarrow> lo_uploaded d'"
  using assms unfolding grown_def by blast

lemma grown_trans [trans]: "grown u v \<Longrightarrow> grown v w \<Longrightarrow> grown u w"
  unfolding grown_def by (meson same_object_trans)

lemma transp_grown [simp]: "transp grown"
  by (rule transpI) (rule grown_trans)

lemma grown_table:
  assumes "table_step oid w w'" and "w_storage w' = w_storage w" and "owner_of w' = owner_of w"
  shows "grown w w'"
  using assms table_step_other [OF assms(1)] unfolding grown_def table_step_def
  by (metis same_object_refl)

lemma behind_grown: "behind w obj \<Longrightarrow> grown w w' \<Longrightarrow> behind w' obj"
  unfolding behind_def by (meson grown_stored same_object_trans same_object_sym)

lemma held_sound: "held b S w \<Longrightarrow> coherent_world w" "held b S w \<Longrightarrow> wf_policies w"
  by (simp_all add: held_def consistent_def sound_world_def)

lemma held_coherent: "held b S w \<Longrightarrow> wf_objects w" "held b S w \<Longrightarrow> coherent redis_peek NewCacheKeyGenerator w"
  by (simp_all add: held_def consistent_def sound_world_def coherent_world_def)

lemma held_still:
  assumes "held b S w" and "sound_world w'" "stored w' = stored w" "owner_of w' = owner_of w" "w_storage w' = w_storage w"
  shows "held b S w' \<and> grown w w'"
  using assms same_consistent [of w' w] by (auto simp: held_def consistent_def backed_def grown_def)

section \<open>One call\<close>

lemma tables_still:
  assumes h: "held b S w" and t: "same_tables w w'" and c: "coherent redis_peek NewCacheKeyGenerator w'"
  shows "held b S w' \<and> grown w w'"
proof (rule held_still [OF h])
  show "stored w' = stored w" using t by (rule same_tables_stored)
  show "owner_of w' = owner_of w" using t same_elsewhere_owner by (simp add: same_tables_def)
  show "w_storage w' = w_storage w" using t by (simp add: same_tables_def same_elsewhere_def)
  have "wf_policies w'" using held_sound(2) [OF h] t by (simp add: wf_policies_def same_tables_def same_elsewhere_def)
  then show "sound_world w'" using held_coherent(1) [OF h] same_tables_wf [OF t] c
    by (simp add: sound_world_def coherent_world_def)
qed

lemma entry_turn:
  assumes h: "held b S w" and run: "run_state (cached_entry oid) w = (c, w')"
  shows "held b S w' \<and> grown w w' \<and>
    (\<forall>m obj. c = Inr m \<longrightarrow> cached_object m = Some obj \<longrightarrow> lo_oid obj = oid \<and> behind w' obj)"
proof -
  note run' = run [unfolded cached_entry_def]
  from metadata_cache.get_state [OF run'] have t: "same_tables w w'" "redis_peek w' = redis_peek w" by auto
  have "coherent redis_peek NewCacheKeyGenerator w'"
    using held_coherent(2) [OF h] coherent_same_stored [OF same_tables_stored [OF t(1)] t(2)] by blast
  note still = tables_still [OF h t(1) this]
  have "lo_oid obj = oid \<and> behind w' obj" if "c = Inr m" "cached_object m = Some obj" for m obj
    using metadata_cache.get_hit [OF run' [unfolded that(1)]] coherentD [OF held_coherent(2) [OF h] _ that(2)] still
      behind_grown by blast
  with still show ?thesis by blast
qed

lemma load_turn:
  assumes h: "held b S w" and run: "run_state (repo_FindByOID NewLFSObjectRepository oid) w = (r, w')"
  shows "held b S w' \<and> grown w w' \<and> (\<forall>obj. r = Inr obj \<longrightarrow> lo_oid obj = oid \<and> behind w' obj)"
proof -
  note wf = held_coherent(1) [OF h]
  from pg_objects.find_state [OF wf run] have st: "wf_objects w'" "same_elsewhere w w'" "stored w' = stored w" by auto
  have "coherent redis_peek NewCacheKeyGenerator w'"
    using held_coherent(2) [OF h] coherent_same_stored [OF st(3) caching_objects.inner_find [OF wf run]] by blast
  moreover have "wf_policies w'"
    using wf_policies_kept [OF st(2) table_step_cong held_sound(2) [OF h]] st(3) by simp
  ultimately have "sound_world w'" using st(1) by (simp add: sound_world_def coherent_world_def)
  moreover have "w_storage w' = w_storage w" using st(2) by (simp add: same_elsewhere_def)
  ultimately have still: "held b S w' \<and> grown w w'"
    using held_still [OF h _ st(3) same_elsewhere_owner [OF st(2)]] by blast
  moreover have "lo_oid obj = oid \<and> behind w' obj" if "r = Inr obj" for obj
    using pg_objects.find_sound [OF wf run [unfolded that]] behind_grown still by blast
  ultimately show ?thesis by blast
qed

lemma fill_turn:
  assumes h: "held b S w" and obj: "behind w obj" and run: "run_state (fill_entry obj (lo_oid obj)) w = (u, w')"
  shows "held b S w' \<and> grown w w'"
  using caching_objects.fill_keeps [OF held_coherent [OF h] obj run [unfolded fill_entry_def]] tables_still [OF h] by blast

lemma check_turn:
  assumes h: "held b S w" and run: "run_state (CheckAuthorization pg_authorization oper orepo oid) w = (a, w')"
  shows "held b S w' \<and> grown w w' \<and> (\<forall>res. a = Inr res \<longrightarrow> (\<exists>ri. orepo = Some ri \<and> may_access w' oper ri oid) \<and>
    auth_Allowed res \<and> (auth_IsNewObject res \<longleftrightarrow> owner_of w' oid = None))"
proof -
  note run' = run [unfolded pg_authorization_def]
  from service.check_keeps [OF held_sound [OF h] run'] have st: "sound_world w'" "same_metadata w w'"
    "owner_of w' = owner_of w" "stored w' = stored w" by (auto simp: sound_world_def)
  have "w_storage w' = w_storage w" using st(2) by (simp add: same_metadata_def)
  with held_still [OF h st(1,4,3)] have "held b S w' \<and> grown w w'" by blast
  moreover have "may_access w' op' ri oid = may_access w op' ri oid" for op' ri using st(3) by (simp add: may_access_def)
  ultimately show ?thesis using pg_policies.check_sound [OF held_sound(2) [OF h], of oper orepo oid _ w'] run' st(3) by auto
qed

text \<open>A new entry, and the mark on one that is there.\<close>

lemma save_turn:
  assumes h: "held b S w" and wf: "wf_object obj" "\<not> lo_uploaded obj"
    and key: "GenerateStorageKey (OID_String (lo_oid obj)) ''sha256'' = Inr (GetStorageKey obj)"
    and run: "run_state (repo_Save NewLFSObjectRepository obj) w = (r, w')"
  shows "held b S w' \<and> grown w w' \<and> (r = Inr () \<longrightarrow> behind w' obj)"
proof -
  note good = held_coherent(1) [OF h]
  from pg_objects.save_state [OF good wf(1) run] have st: "wf_objects w'" "same_elsewhere w w'" "table_write obj w w'"
    "stored w (lo_oid obj) \<noteq> None \<longrightarrow> stored w' = stored w" by auto
  have step: "table_step (lo_oid obj) w w'" by (rule table_write_new [OF st(3,4)])
  have same: "w_storage w' = w_storage w" "owner_of w' = owner_of w"
    using st(2) same_elsewhere_owner [OF st(2)] by (simp_all add: same_elsewhere_def)
  have "coherent redis_peek NewCacheKeyGenerator w'"
    by (rule coherent_table_step [OF held_coherent(2) [OF h] step caching_objects.inner_save [OF good wf(1) run]])
  then have sound: "sound_world w'" using st(1) wf_policies_kept [OF st(2) step held_sound(2) [OF h]]
    by (simp add: sound_world_def coherent_world_def)
  have cases: "stored w' = stored w \<or> stored w (lo_oid obj) = None \<and>
      (\<exists>d. same_state d obj \<and> stored w' = (stored w)(lo_oid obj \<mapsto> d))"
    using st(3,4) by (auto simp: table_write_def)
  have "keyed w' \<and> filed w' \<and> (backed w \<longrightarrow> backed w')"
    using cases
  proof (elim disjE conjE exE)
    assume "stored w' = stored w"
    then show ?thesis using h same same_consistent [of w' w] by (simp add: held_def consistent_def backed_def)
  next
    fix d assume new: "stored w (lo_oid obj) = None" "same_state d obj" "stored w' = (stored w)(lo_oid obj \<mapsto> d)"
    then have d: "GetStorageKey d = GetStorageKey obj" "\<not> lo_uploaded d"
      using wf(2) by (simp_all add: same_state_def same_object_def getter_simps)
    from h have k: "keyed w" "filed w" by (simp_all add: held_def consistent_def)
    have kept: "stored w' oid = Some x" if "stored w oid = Some x" for oid x using that new by auto
    have "keyed w'" using k(1) d(1) key by (simp add: keyed_def new(3))
    moreover have "filed w'" using k(2) kept unfolding filed_def same by blast
    moreover have "backed w \<longrightarrow> backed w'" using d(2) by (simp add: backed_def new(3) same)
    ultimately show ?thesis by blast
  qed
  then have "held b S w'" using h sound same by (auto simp: held_def consistent_def)
  moreover have "behind w' obj" if "r = Inr ()"
    using pg_objects.save_done [OF good wf(1), of w'] run that by (auto simp: behind_def same_state_def intro: same_object_sym)
  ultimately show ?thesis using grown_table [OF step same] by blast
qed

lemma update_turn:
  assumes h: "held b S w" and obj: "behind w obj"
    and full: "b \<Longrightarrow> w_storage w (GetStorageKey obj) \<noteq> None"
    and run: "run_state (repo_Update NewLFSObjectRepository (MarkAsUploaded now obj)) w = (r, w')"
  shows "held b S w' \<and> grown w w' \<and> (r = Inr () \<longrightarrow> behind w' (MarkAsUploaded now obj))"
proof -
  let ?m = "MarkAsUploaded now obj"
  note good = held_coherent(1) [OF h]
  have m: "lo_oid ?m = lo_oid obj" "lo_uploaded ?m" "same_object ?m obj"
    by (simp_all add: MarkAsUploaded_def same_object_def)
  from obj obtain d where d: "stored w (lo_oid obj) = Some d" "same_object obj d" by (auto simp: behind_def)
  have ahead: "ahead w ?m" using d m by (auto simp: ahead_def same_object_def)
  from pg_objects.update_state [OF good ahead run] have st: "wf_objects w'" "same_elsewhere w w'" "table_write ?m w w'" by auto
  have step: "table_step (lo_oid obj) w w'" using table_write_ahead [OF st(3) ahead] m(1) by simp
  have same: "w_storage w' = w_storage w" "owner_of w' = owner_of w"
    using st(2) same_elsewhere_owner [OF st(2)] by (simp_all add: same_elsewhere_def)
  have "coherent redis_peek NewCacheKeyGenerator w'"
    by (rule coherent_table_step [OF held_coherent(2) [OF h] step caching_objects.inner_update [OF good ahead run]])
  then have sound: "sound_world w'" using st(1) wf_policies_kept [OF st(2) step held_sound(2) [OF h]]
    by (simp add: sound_world_def coherent_world_def)
  have mv: "stored w' = stored w \<or> marked (lo_oid obj) w w'"
    using st(3) m d by (auto simp: table_write_def marked_def same_state_def same_object_def)
  have kf: "keyed w' \<and> filed w'"
    using mv h same marked_consistent same_consistent [of w' w] by (auto simp: held_def consistent_def)
  have "backed w'" if b: "b"
  proof -
    from full [OF b] d(2) have "w_storage w (GetStorageKey d) \<noteq> None" by (simp add: same_object_def getter_simps)
    moreover from h b have "backed w" by (simp add: held_def)
    ultimately show ?thesis using mv d(1) same(1)
      by (auto simp: backed_def marked_def same_object_def getter_simps split: if_splits)
  qed
  with kf have "held b S w'" using h sound same by (auto simp: held_def consistent_def)
  moreover have "behind w' ?m" if "r = Inr ()"
    using pg_objects.update_done [OF good ahead, of w'] run that by (auto simp: behind_def same_state_def intro: same_object_sym)
  ultimately show ?thesis using grown_table [OF step same] by blast
qed

text \<open>Content under the key of a known object, and reading it.\<close>

lemma put_turn:
  assumes h: "held b S w" and obj: "behind w obj"
    and run: "run_state (storage_PutObject NewS3Client (GetStorageKey obj) body (Size_Int64 (lo_size obj))) w = (r, w')"
  shows "held b S w' \<and> grown w w' \<and>
    (r = Inr () \<longrightarrow> w_storage w' (GetStorageKey obj) \<noteq> None \<and> int (length body) = Size_Int64 (lo_size obj))"
proof -
  from obj obtain d where d: "stored w (lo_oid obj) = Some d" "same_object obj d" by (auto simp: behind_def)
  then have key: "GetStorageKey obj = GetStorageKey d" "lo_size obj = lo_size d"
    by (simp_all add: same_object_def getter_simps)
  from transfers.put_kept [OF held_sound [OF h] run] have st: "sound_world w'" "stored w' = stored w" "owner_of w' = owner_of w"
    and sto: "w_storage w' = w_storage w \<or> int (length body) = Size_Int64 (lo_size d) \<and>
      w_storage w' = (w_storage w)(GetStorageKey d \<mapsto> body)" by (auto simp: sound_world_def key)
  then have "put_effect (lo_oid obj) body w w'" using d(1) by (auto simp: put_effect_def)
  with h st have "held b S w'" using put_effect_consistent put_effect_backed unfolding held_def consistent_def by metis
  moreover have "grown w w'" using st sto by (auto simp: grown_def)
  moreover have "w_storage w' (GetStorageKey obj) \<noteq> None \<and> int (length body) = Size_Int64 (lo_size obj)" if "r = Inr ()"
    using s3_objects.put_done run that by (metis option.distinct(1))
  ultimately show ?thesis by blast
qed

lemma fetch_turn:
  assumes h: "held b S w" and run: "run_state (storage_GetObject NewS3Client key) w = (r, w')"
  shows "held b S w' \<and> grown w w' \<and> (\<forall>body. r = Inr body \<longrightarrow> w_storage w' key = Some body)"
proof -
  from transfers.get_kept [OF held_sound [OF h] run] have st: "sound_world w'" "stored w' = stored w" "owner_of w' = owner_of w"
    "w_storage w' = w_storage w" by (auto simp: sound_world_def)
  with held_still [OF h] s3_objects.object_get_sound [of key w _ w'] run show ?thesis by metis
qed

text \<open>A claim, for an object whose owner is not settled.\<close>

lemma claim_turn:
  assumes h: "held b S w" and ri: "valid_repository ri" and oid: "oidPattern (OID_String oid)" "oid \<notin> dom S"
    and run: "run_state (createAccessPolicy NewAccessPolicyRepository oid (Some ri)) w = (r, w')"
  shows "held b S w' \<and> grown w w' \<and> (r = Inr () \<longrightarrow> owner_of w' oid \<noteq> None)"
proof -
  from service.create_policy [OF held_sound [OF h] ri oid(1) run]
  have st: "sound_world w'" "same_metadata w w'" and own: "owner_of w' = owner_of w \<and> r \<noteq> Inr () \<or> owner_of w' = (owner_of w)(oid \<mapsto> ri)"
    by (auto simp: sound_world_def)
  have same: "stored w' = stored w" "w_storage w' = w_storage w"
    using st(2) same_metadata_stored [OF st(2)] by (simp_all add: same_metadata_def)
  have "consistent w'" "b \<longrightarrow> backed w'"
    using h st(1) same same_consistent [OF same] by (auto simp: held_def consistent_def backed_def)
  moreover have "S \<subseteq>\<^sub>m owner_of w'" using h oid(2) own by (auto simp: held_def map_le_def)
  ultimately have "held b S w'" by (simp add: held_def)
  moreover have "grown w w'" using same own by (auto simp: grown_def)
  ultimately show ?thesis using own by auto
qed

lemma forget_turn:
  assumes h: "held b S w" and run: "run_state (redis_deleteBatchUploadKey oid) w = (r, w')"
  shows "held b S w' \<and> grown w w'"
proof -
  from delete_batch_key_kept [OF held_sound(1) [OF h] run] have "coherent_world w'" "same_tables w w'" by auto
  with tables_still [OF h] show ?thesis by (simp add: coherent_world_def)
qed

section \<open>The requests\<close>

text \<open>What the parts of a request promise the rest of it.\<close>

abbreviation safely :: "bool \<Rightarrow> (OID \<Rightarrow> RepositoryIdentifier option) \<Rightarrow> ('a \<Rightarrow> world \<Rightarrow> bool) \<Rightarrow> (world, 'a) task \<Rightarrow> world \<Rightarrow> bool" where
  "safely b S \<equiv> safe (held b S) grown"

lemma safely_seq:
  assumes "held b S w" and "safely b S P t w"
    and "\<And>a v. held b S v \<Longrightarrow> grown w v \<Longrightarrow> P a v \<Longrightarrow> safely b S Q (k a) v"
  shows "safely b S Q (task_bind t k) w"
  using safe_seq [OF reflp_grown transp_grown assms] .

definition found :: "OID \<Rightarrow> gerror + LFSObject \<Rightarrow> world \<Rightarrow> bool" where
  "found oid r w \<longleftrightarrow> (\<forall>obj. r = Inr obj \<longrightarrow> lo_oid obj = oid \<and> behind w obj)"

lemma found_simps [simp]: "found oid (Inl e) w" "found oid (Inr obj) w \<longleftrightarrow> lo_oid obj = oid \<and> behind w obj"
  by (simp_all add: found_def)

lemma find_safe: "safely b S (found oid) (find_turns oid) w"
  unfolding find_turns_def
proof (rule safe_and_then)
  fix v c v'
  assume v: "held b S v" "grown w v" and run: "run_state (cached_entry oid) v = (c, v')"
  note e = entry_turn [OF v(1) run]
  have "safely b S (found oid) (case (case c of Inl err \<Rightarrow> None | Inr cached \<Rightarrow> cached_object cached) of
       Some obj \<Rightarrow> Done (Inr obj)
     | None \<Rightarrow> and_then (repo_FindByOID NewLFSObjectRepository oid) (\<lambda>r. case r of
         Inl err \<Rightarrow> Done (Inl err) | Inr obj \<Rightarrow> and_then (fill_entry obj oid) (\<lambda>u. Done (Inr obj)))) v'"
  proof (cases "case c of Inl err \<Rightarrow> None | Inr cached \<Rightarrow> cached_object cached")
    case (Some obj)
    then have "lo_oid obj = oid" "behind v' obj" using e by (auto split: sum.splits)
    then show ?thesis using behind_grown by (auto simp: Some intro!: safe_DoneI simp del: safe.simps)
  next
    case None
    show ?thesis unfolding None option.case
    proof (rule safe_and_then)
      fix u r u'
      assume u: "held b S u" "grown v' u" and load: "run_state (repo_FindByOID NewLFSObjectRepository oid) u = (r, u')"
      note l = load_turn [OF u(1) load]
      have "safely b S (found oid) (case r of Inl err \<Rightarrow> Done (Inl err)
          | Inr obj \<Rightarrow> and_then (fill_entry obj oid) (\<lambda>u. Done (Inr obj))) u'"
      proof (cases r)
        case (Inl e)
        then show ?thesis by simp
      next
        case (Inr obj)
        then have obj: "lo_oid obj = oid" "behind u' obj" using l by auto
        show ?thesis unfolding Inr sum.case
        proof (rule safe_and_then)
          fix x q x'
          assume x: "held b S x" "grown u' x" and fill: "run_state (fill_entry obj oid) x = (q, x')"
          from fill_turn [OF x(1) behind_grown [OF obj(2) x(2)]] fill obj(1) have "held b S x' \<and> grown x x'" by simp
          moreover from this have "behind x' obj" using behind_grown obj(2) x(2) by blast
          ultimately show "held b S x' \<and> grown x x' \<and> safely b S (found oid) (Done (Inr obj)) x'"
            using obj(1) behind_grown by (auto intro!: safe_DoneI simp del: safe.simps)
        qed
      qed
      with l show "held b S u' \<and> grown u u' \<and> safely b S (found oid) (case r of Inl err \<Rightarrow> Done (Inl err)
          | Inr obj \<Rightarrow> and_then (fill_entry obj oid) (\<lambda>u. Done (Inr obj))) u'" by blast
    qed
  qed
  with e show "held b S v' \<and> grown v v' \<and> safely b S (found oid)
      (case (case c of Inl err \<Rightarrow> None | Inr cached \<Rightarrow> cached_object cached) of
         None \<Rightarrow> and_then (repo_FindByOID NewLFSObjectRepository oid) (\<lambda>r. case r of
           Inl err \<Rightarrow> Done (Inl err) | Inr obj \<Rightarrow> and_then (fill_entry obj oid) (\<lambda>u. Done (Inr obj)))
       | Some obj \<Rightarrow> Done (Inr obj)) v'" by blast
qed

text \<open>Both writers: the inner write, then the copy when it succeeded.\<close>

lemma write_safe:
  assumes "\<And>v r v'. held b S v \<Longrightarrow> grown w v \<Longrightarrow> run_state m v = (r, v') \<Longrightarrow>
    held b S v' \<and> grown v v' \<and> (r = Inr () \<longrightarrow> behind v' obj)"
  shows "safely b S (\<lambda>r v. r = Inr () \<longrightarrow> behind v obj) (and_then m (\<lambda>r. case r of
     Inl err \<Rightarrow> Done (Inl err) | Inr u \<Rightarrow> and_then (fill_entry obj (lo_oid obj)) (\<lambda>u. Done (Inr ())))) w"
proof (rule safe_and_then)
  fix v r v'
  assume v: "held b S v" "grown w v" and run: "run_state m v = (r, v')"
  note st = assms [OF v run]
  have "safely b S (\<lambda>r v. r = Inr () \<longrightarrow> behind v obj) (case r of Inl err \<Rightarrow> Done (Inl err)
      | Inr u \<Rightarrow> and_then (fill_entry obj (lo_oid obj)) (\<lambda>u. Done (Inr ()))) v'"
  proof (cases r)
    case (Inl e)
    then show ?thesis by simp
  next
    case (Inr u)
    then have obj: "behind v' obj" using st by simp
    show ?thesis unfolding Inr sum.case
    proof (rule safe_and_then)
      fix x q x'
      assume x: "held b S x" "grown v' x" and fill: "run_state (fill_entry obj (lo_oid obj)) x = (q, x')"
      from fill_turn [OF x(1) behind_grown [OF obj x(2)] fill] have f: "held b S x' \<and> grown x x'" .
      then have "behind x' obj" using behind_grown obj x(2) by blast
      with f show "held b S x' \<and> grown x x' \<and> safely b S (\<lambda>r v. r = Inr () \<longrightarrow> behind v obj) (Done (Inr ())) x'"
        using behind_grown by (auto intro!: safe_DoneI simp del: safe.simps)
    qed
  qed
  with st show "held b S v' \<and> grown v v' \<and> safely b S (\<lambda>r v. r = Inr () \<longrightarrow> behind v obj) (case r of
     Inl err \<Rightarrow> Done (Inl err) | Inr u \<Rightarrow> and_then (fill_entry obj (lo_oid obj)) (\<lambda>u. Done (Inr ()))) v'" by blast
qed

lemma behind_uploaded: "behind w (MarkAsUploaded now obj) \<Longrightarrow>
    \<exists>d. stored w (lo_oid obj) = Some d \<and> lo_uploaded d \<and> same_object obj d"
  by (auto simp: behind_def MarkAsUploaded_def same_object_def)

lemma update_safe:
  assumes obj: "behind w obj" and full: "b \<Longrightarrow> w_storage w (GetStorageKey obj) \<noteq> None"
  shows "safely b S (\<lambda>r v. r = Inr () \<longrightarrow> behind v (MarkAsUploaded now obj)) (update_turns (MarkAsUploaded now obj)) w"
  unfolding update_turns_def
proof (rule write_safe)
  fix v r v'
  assume v: "held b S v" "grown w v" and run: "run_state (repo_Update NewLFSObjectRepository (MarkAsUploaded now obj)) v = (r, v')"
  have "w_storage v (GetStorageKey obj) \<noteq> None" if b using full [OF that] v(2) by (simp add: grown_def)
  then show "held b S v' \<and> grown v v' \<and> (r = Inr () \<longrightarrow> behind v' (MarkAsUploaded now obj))"
    by (rule update_turn [OF v(1) behind_grown [OF obj v(2)] _ run])
qed

lemma save_safe:
  assumes "wf_object obj" "\<not> lo_uploaded obj"
    and "GenerateStorageKey (OID_String (lo_oid obj)) ''sha256'' = Inr (GetStorageKey obj)"
  shows "safely b S (\<lambda>r v. r = Inr () \<longrightarrow> behind v obj) (save_turns obj) w"
  unfolding save_turns_def
  by (rule write_safe) (rule save_turn [OF _ assms])

text \<open>The answers, and what each of them says of the world.\<close>

definition reported :: "world \<Rightarrow> OID \<Rightarrow> int \<Rightarrow> bool" where
  "reported w oid n \<longleftrightarrow> (\<exists>d. stored w oid = Some d \<and> lo_uploaded d \<and> Size_Int64 (lo_size d) = n)"

definition filled :: "world \<Rightarrow> OID \<Rightarrow> bool" where
  "filled w oid \<longleftrightarrow> (\<exists>d. stored w oid = Some d \<and> w_storage w (GetStorageKey d) \<noteq> None)"

definition claimed :: "world \<Rightarrow> OID \<Rightarrow> bool" where
  "claimed w oid \<longleftrightarrow> owner_of w oid \<noteq> None"

definition put_truth :: "OID \<Rightarrow> string \<Rightarrow> gerror + unit \<Rightarrow> world \<Rightarrow> bool" where
  "put_truth oid body r w \<longleftrightarrow> (r = Inr () \<longrightarrow> reported w oid (int (length body)) \<and> filled w oid)"

definition get_truth :: "OID \<Rightarrow> gerror + string \<times> int \<Rightarrow> world \<Rightarrow> bool" where
  "get_truth oid r w \<longleftrightarrow> (\<forall>body n. r = Inr (body, n) \<longrightarrow> claimed w oid \<and> reported w oid n \<and>
     filled w oid \<and> int (length body) = n)"

definition verify_truth :: "string \<Rightarrow> int \<Rightarrow> gerror + unit \<Rightarrow> world \<Rightarrow> bool" where
  "verify_truth oid sz r w \<longleftrightarrow> (r = Inr () \<longrightarrow> reported w (OID oid) sz)"

lemma same_fields: "same_object a b \<Longrightarrow> GetStorageKey a = GetStorageKey b \<and> lo_size a = lo_size b"
  by (simp add: same_object_def getter_simps)

lemma reported_grown: "reported w oid n \<Longrightarrow> grown w v \<Longrightarrow> reported v oid n"
  unfolding reported_def by (elim exE conjE, erule (1) grown_stored) (auto dest: same_fields)

lemma filled_grown: "filled w oid \<Longrightarrow> grown w v \<Longrightarrow> filled v oid"
proof -
  assume "filled w oid" and g: "grown w v"
  then obtain d where d: "stored w oid = Some d" "w_storage w (GetStorageKey d) \<noteq> None" by (auto simp: filled_def)
  from g d(1) obtain d' where "stored v oid = Some d'" "same_object d' d" by (rule grown_stored)
  moreover have "w_storage v (GetStorageKey d) \<noteq> None" using g d(2) by (simp add: grown_def)
  ultimately show ?thesis using same_fields by (auto simp: filled_def)
qed

lemma claimed_grown: "claimed w oid \<Longrightarrow> grown w v \<Longrightarrow> claimed v oid"
  unfolding grown_def claimed_def by blast

lemma put_truth_grown: "put_truth oid body r w \<Longrightarrow> grown w v \<Longrightarrow> put_truth oid body r v"
  unfolding put_truth_def by (auto intro: reported_grown filled_grown)

lemma get_truth_grown: "get_truth oid r w \<Longrightarrow> grown w v \<Longrightarrow> get_truth oid r v"
  unfolding get_truth_def by (auto intro: reported_grown filled_grown claimed_grown)

lemma verify_truth_grown: "verify_truth oid sz r w \<Longrightarrow> grown w v \<Longrightarrow> verify_truth oid sz r v"
  unfolding verify_truth_def using reported_grown by blast

lemma truth_failed [simp]: "put_truth oid body (Inl e) w" "get_truth oid (Inl e) w" "verify_truth o' sz (Inl e) w"
  by (simp_all add: put_truth_def get_truth_def verify_truth_def)

lemma Done_safe:
  assumes "Q a w" and "\<And>v. Q a w \<Longrightarrow> grown w v \<Longrightarrow> Q a v"
  shows "safely b S Q (Done a) w"
  by (rule safe_DoneI) (rule assms(2) [OF assms(1)])

lemma failed_safe [simp]:
  "safely b S (put_truth oid body) (Done (Inl e)) w" "safely b S (get_truth oid) (Done (Inl e)) w"
  "safely b S (verify_truth o' sz) (Done (Inl e)) w"
  by (rule Done_safe; simp)+

section \<open>Contents at the same time\<close>

text \<open>The read content has the registered size.\<close>

lemma filed_content:
  assumes "held b S w" and "behind w obj" and "w_storage w (GetStorageKey obj) = Some body"
  shows "int (length body) = Size_Int64 (lo_size obj)"
proof -
  from assms(1) have k: "keyed w" "filed w" by (simp_all add: held_def consistent_def)
  from assms(2) obtain d where d: "stored w (lo_oid obj) = Some d" "same_object obj d" by (auto simp: behind_def)
  from k(2) assms(3) obtain o' e where e: "stored w o' = Some e" "GetStorageKey e = GetStorageKey obj"
    "int (length body) = Size_Int64 (lo_size e)" unfolding filed_def by blast
  with same_fields [OF d(2)] have "GetStorageKey e = GetStorageKey d" by simp
  from keyed_inj [OF k(1) e(1) d(1) this] e(1) d(1) have "e = d" by simp
  with e(3) same_fields [OF d(2)] show ?thesis by simp
qed

lemma put_safe:
  assumes "held b S w" and obj: "lo_oid obj = oid" "behind w obj"
  shows "safely b S (put_truth oid body) (and_then (storage_PutObject NewS3Client (GetStorageKey obj) body (Size_Int64 (lo_size obj)))
     (\<lambda>put. case put of
       Inl err \<Rightarrow> Done (Inl err)
     | Inr u \<Rightarrow> and_then clock (\<lambda>now. task_bind (update_turns (MarkAsUploaded now obj)) (\<lambda>upd.
         case upd of Inl err \<Rightarrow> Done (Inl err) | Inr u \<Rightarrow> Done (Inr ()))))) w"
proof (rule safe_and_then)
  fix v r v'
  assume v: "held b S v" "grown w v"
    and run: "run_state (storage_PutObject NewS3Client (GetStorageKey obj) body (Size_Int64 (lo_size obj))) v = (r, v')"
  note put = put_turn [OF v(1) behind_grown [OF obj(2) v(2)] run]
  then have obj': "behind v' obj" using behind_grown [OF obj(2)] v(2) grown_trans by blast
  have "safely b S (put_truth oid body) (case r of Inl err \<Rightarrow> Done (Inl err)
     | Inr u \<Rightarrow> and_then clock (\<lambda>now. task_bind (update_turns (MarkAsUploaded now obj)) (\<lambda>upd.
         case upd of Inl err \<Rightarrow> Done (Inl err) | Inr u \<Rightarrow> Done (Inr ())))) v'"
  proof (cases r)
    case (Inl e)
    then show ?thesis by simp
  next
    case (Inr u)
    then have sto: "w_storage v' (GetStorageKey obj) \<noteq> None" "int (length body) = Size_Int64 (lo_size obj)" using put by auto
    show ?thesis unfolding Inr sum.case
    proof (rule safe_and_then)
      fix x now x'
      assume x: "held b S x" "grown v' x" and "run_state clock x = (now, x')"
      then have x': "x' = x" by simp
      have keep: "w_storage y (GetStorageKey obj) \<noteq> None" if "grown v' y" for y using that sto(1) by (simp add: grown_def)
      have "safely b S (put_truth oid body) (task_bind (update_turns (MarkAsUploaded now obj)) (\<lambda>upd.
         case upd of Inl err \<Rightarrow> Done (Inl err) | Inr u \<Rightarrow> Done (Inr ()))) x"
      proof (rule safely_seq [OF x(1) update_safe [OF behind_grown [OF obj' x(2)] keep [OF x(2)]]])
        fix q :: "gerror + unit" and y
        assume y: "held b S y" "grown x y" and q: "q = Inr () \<longrightarrow> behind y (MarkAsUploaded now obj)"
        show "safely b S (put_truth oid body) (case q of Inl err \<Rightarrow> Done (Inl err) | Inr u \<Rightarrow> Done (Inr ())) y"
        proof (cases q)
          case (Inr u)
          with q have "behind y (MarkAsUploaded now obj)" by simp
          from behind_uploaded [OF this] obtain d where d: "stored y oid = Some d" "lo_uploaded d" "same_object obj d"
            using obj(1) by auto
          with keep [OF grown_trans [OF x(2) y(2)]] sto(2) same_fields [OF d(3)]
          have "put_truth oid body (Inr ()) y" by (auto simp: put_truth_def reported_def filled_def)
          with Inr show ?thesis using Done_safe put_truth_grown by simp
        qed simp
      qed
      with x show "held b S x' \<and> grown x x' \<and> safely b S (put_truth oid body)
          (task_bind (update_turns (MarkAsUploaded now obj)) (\<lambda>upd.
             case upd of Inl err \<Rightarrow> Done (Inl err) | Inr u \<Rightarrow> Done (Inr ()))) x'" by (simp add: x')
    qed
  qed
  with put show "held b S v' \<and> grown v v' \<and> safely b S (put_truth oid body) (case r of Inl err \<Rightarrow> Done (Inl err)
     | Inr u \<Rightarrow> and_then clock (\<lambda>now. task_bind (update_turns (MarkAsUploaded now obj)) (\<lambda>upd.
         case upd of Inl err \<Rightarrow> Done (Inl err) | Inr u \<Rightarrow> Done (Inr ())))) v'" by blast
qed

text \<open>The two ways every request begins: the check of access, and the lookup.\<close>

lemma checked_safe:
  assumes failed: "\<And>e v. safely b S Q (Done (Inl e)) v"
    and granted: "\<And>res ri v. held b S v \<Longrightarrow> grown w v \<Longrightarrow> orepo = Some ri \<Longrightarrow> may_access v oper ri oid \<Longrightarrow>
      (auth_IsNewObject res \<longleftrightarrow> owner_of v oid = None) \<Longrightarrow> safely b S Q (k res) v"
  shows "safely b S Q (and_then (CheckAuthorization pg_authorization oper orepo oid) (\<lambda>a. case a of
     Inl err \<Rightarrow> Done (Inl err)
   | Inr authResult \<Rightarrow> if \<not> auth_Allowed authResult then Done (Inl (Usecase UErrAccessDenied)) else k authResult)) w"
proof (rule safe_and_then)
  fix v a v'
  assume v: "held b S v" "grown w v" and run: "run_state (CheckAuthorization pg_authorization oper orepo oid) v = (a, v')"
  note c = check_turn [OF v(1) run]
  from c have gr: "grown w v'" using grown_trans [OF v(2), of v'] by simp
  have "safely b S Q (case a of Inl err \<Rightarrow> Done (Inl err)
   | Inr authResult \<Rightarrow> if \<not> auth_Allowed authResult then Done (Inl (Usecase UErrAccessDenied)) else k authResult) v'"
  proof (cases a)
    case (Inr res)
    with c obtain ri where "orepo = Some ri" "may_access v' oper ri oid" "auth_Allowed res"
      "auth_IsNewObject res \<longleftrightarrow> owner_of v' oid = None" by blast
    with granted [of v' ri res] c gr Inr show ?thesis by simp
  qed (simp add: failed del: safe.simps)
  with c show "held b S v' \<and> grown v v' \<and> safely b S Q (case a of Inl err \<Rightarrow> Done (Inl err)
   | Inr authResult \<Rightarrow> if \<not> auth_Allowed authResult then Done (Inl (Usecase UErrAccessDenied)) else k authResult) v'" by blast
qed

lemma found_safe:
  assumes "held b S w" and missing: "\<And>e v. safely b S Q (h e) v"
    and there: "\<And>obj v. held b S v \<Longrightarrow> grown w v \<Longrightarrow> lo_oid obj = oid \<Longrightarrow> behind v obj \<Longrightarrow> safely b S Q (k obj) v"
  shows "safely b S Q (task_bind (find_turns oid) (\<lambda>f. case f of Inl err \<Rightarrow> h err | Inr obj \<Rightarrow> k obj)) w"
proof (rule safely_seq [OF assms(1) find_safe])
  fix f v assume v: "held b S v" "grown w v" "found oid f v"
  show "safely b S Q (case f of Inl err \<Rightarrow> h err | Inr obj \<Rightarrow> k obj) v"
    using there [OF v(1,2)] v(3) missing by (cases f) simp_all
qed

lemma proxy_upload_safe: "safely b S (put_truth oid body) (proxy_upload_turns ow re oid body) w"
proof (cases "NewRepositoryIdentifier (ow @ ''/'' @ re)")
  case (Inl e)
  then show ?thesis by (simp add: proxy_upload_turns_def)
next
  case (Inr ri)
  show ?thesis unfolding proxy_upload_turns_def Inr sum.case
  proof (rule checked_safe [OF failed_safe(1)], rule found_safe)
    fix e v show "safely b S (put_truth oid body) (if errors_Is e (Domain ErrNotFound)
        then Done (Inl (Usecase UErrObjectNotFound)) else Done (Inl e)) v" by simp
  qed (assumption, rule put_safe)
qed

lemma proxy_download_safe: "safely b S (get_truth oid) (proxy_download_turns ow re oid) w"
proof (cases "NewRepositoryIdentifier (ow @ ''/'' @ re)")
  case (Inl e)
  then show ?thesis by (simp add: proxy_download_turns_def)
next
  case (Inr ri)
  show ?thesis unfolding proxy_download_turns_def Inr sum.case
  proof (rule checked_safe [OF failed_safe(2)], rule found_safe)
    fix e v show "safely b S (get_truth oid) (if errors_Is e (Domain ErrNotFound)
        then Done (Inl (Usecase UErrObjectNotFound)) else Done (Inl e)) v" by simp
  next
    fix res rj obj and v u
    assume own: "may_access u OperationDownload rj oid" and v: "grown u v" and obj: "lo_oid obj = oid" "behind v obj"
    show "safely b S (get_truth oid) (if \<not> lo_uploaded obj then Done (Inl (Usecase UErrNotUploaded))
        else and_then (storage_GetObject NewS3Client (GetStorageKey obj)) (\<lambda>s. case s of
          Inl err \<Rightarrow> Done (Inl err) | Inr stream \<Rightarrow> Done (Inr (stream, Size_Int64 (lo_size obj))))) v"
    proof (cases "lo_uploaded obj")
      case False
      then show ?thesis by simp
    next
      case up: True
      have "claimed u oid" using own by (auto simp: may_access_def claimed_def)
      then have cl: "claimed v oid" using v claimed_grown by blast
      show ?thesis
      proof (simp only: up not_True_eq_False if_False, rule safe_and_then)
        fix x s x'
        assume x: "held b S x" "grown v x" and run: "run_state (storage_GetObject NewS3Client (GetStorageKey obj)) x = (s, x')"
        note f = fetch_turn [OF x(1) run]
        then have gr: "grown v x'" using x(2) grown_trans by blast
        have "get_truth oid (Inr (stream, Size_Int64 (lo_size obj))) x'" if "s = Inr stream" for stream
        proof -
          have b': "behind x' obj" by (rule behind_grown [OF obj(2) gr])
          then obtain d where d: "stored x' oid = Some d" "same_object obj d" "lo_uploaded d"
            using obj(1) up by (auto simp: behind_def)
          moreover have st: "w_storage x' (GetStorageKey obj) = Some stream" using f that by blast
          moreover have "int (length stream) = Size_Int64 (lo_size obj)" using filed_content [OF _ b' st] f by blast
          ultimately show ?thesis using same_fields [OF d(2)] claimed_grown [OF cl gr]
            by (auto simp: get_truth_def reported_def filled_def)
        qed
        then have "safely b S (get_truth oid) (case s of Inl err \<Rightarrow> Done (Inl err)
            | Inr stream \<Rightarrow> Done (Inr (stream, Size_Int64 (lo_size obj)))) x'"
          using Done_safe [of "get_truth oid", OF _ get_truth_grown] by (cases s) (simp_all del: safe.simps)
        with f show "held b S x' \<and> grown x x' \<and> safely b S (get_truth oid) (case s of Inl err \<Rightarrow> Done (Inl err)
            | Inr stream \<Rightarrow> Done (Inr (stream, Size_Int64 (lo_size obj)))) x'" by blast
      qed
    qed
  qed
qed

lemma clock_safe:
  assumes "\<And>now v. held b S v \<Longrightarrow> grown w v \<Longrightarrow> safely b S Q (k now) v"
  shows "safely b S Q (and_then clock k) w"
  by (rule safe_and_then) (use assms in simp)

text \<open>Verification does not look for the content, so it only fits where nobody asks for it.\<close>

lemma verify_safe: "safely False S (verify_truth oid sz) (verify_turns oid sz) w"
proof (cases "oidPattern oid \<and> 0 \<le> sz")
  case False
  then show ?thesis by (auto simp: verify_turns_def NewOID_def NewSize_def simp del: safe.simps)
next
  case True
  then have ctor: "NewOID oid = Inr (OID oid)" "NewSize sz = Inr (Size sz)" by (auto simp: NewOID_def NewSize_def)
  note failed = failed_safe(3) [of False S]
  show ?thesis unfolding verify_turns_def ctor sum.case
  proof (rule safe_start [OF transp_grown _ reflp_grown], rule found_safe)
    fix e v show "safely False S (verify_truth oid sz) (if errors_Is e (Domain ErrNotFound)
        then Done (Inl (Usecase UErrObjectNotFound)) else Done (Inl (Wrap e))) v" by (simp add: failed del: safe.simps)
  next
    fix obj v
    assume obj: "lo_oid obj = OID oid" "behind v obj"
    let ?rest = "and_then clock (\<lambda>now. task_bind (update_turns (MarkAsUploaded now obj)) (\<lambda>upd. case upd of
        Inl err \<Rightarrow> Done (Inl (Wrap err)) | Inr u \<Rightarrow> and_then (redis_deleteBatchUploadKey oid) (\<lambda>warn. Done (Inr ()))))"
    have "safely False S (verify_truth oid sz) ?rest v" if size: "Size_Int64 (lo_size obj) = sz"
    proof (rule clock_safe)
      fix now x assume x: "held False S x" "grown v x"
      show "safely False S (verify_truth oid sz) (task_bind (update_turns (MarkAsUploaded now obj)) (\<lambda>upd. case upd of
        Inl err \<Rightarrow> Done (Inl (Wrap err)) | Inr u \<Rightarrow> and_then (redis_deleteBatchUploadKey oid) (\<lambda>warn. Done (Inr ())))) x"
      proof (rule safely_seq [OF x(1) update_safe [OF behind_grown [OF obj(2) x(2)]]], simp)
        fix q :: "gerror + unit" and y
        assume y: "grown x y" and q: "q = Inr () \<longrightarrow> behind y (MarkAsUploaded now obj)"
        show "safely False S (verify_truth oid sz) (case q of
            Inl err \<Rightarrow> Done (Inl (Wrap err)) | Inr u \<Rightarrow> and_then (redis_deleteBatchUploadKey oid) (\<lambda>warn. Done (Inr ()))) y"
        proof (cases q)
          case (Inr u)
          with q behind_uploaded obj(1) size have "verify_truth oid sz (Inr ()) y"
            by (auto simp: verify_truth_def reported_def dest!: behind_uploaded dest: same_fields)
          then show ?thesis unfolding Inr sum.case
            by (intro safe_and_then) (blast intro: Done_safe verify_truth_grown dest: forget_turn)
        qed (simp add: failed del: safe.simps)
      qed
    qed
    then show "safely False S (verify_truth oid sz) (if Size_Int64 (lo_size obj) \<noteq> Size_Int64 (Size sz)
        then Done (Inl (Usecase UErrSizeMismatch)) else ?rest) v" by (simp add: failed del: safe.simps)
  qed
qed

section \<open>Batches at the same time\<close>

definition object_truth :: "OID \<Rightarrow> ResponseObject \<Rightarrow> world \<Rightarrow> bool" where
  "object_truth oid resp w \<longleftrightarrow> rs_oid resp = OID_String oid \<and> (rs_error resp = None \<longrightarrow> stored w oid \<noteq> None)"

lemma object_truth_grown: "object_truth oid resp w \<Longrightarrow> grown w v \<Longrightarrow> object_truth oid resp v"
  unfolding object_truth_def by (metis grown_stored not_None_eq)

lemma object_done_safe: "object_truth oid resp w \<Longrightarrow> safely b S (object_truth oid) (Done resp) w"
  by (rule Done_safe) (assumption, rule object_truth_grown)

lemma object_failure_truth [simp]: "object_truth oid (object_failure oid sz c m) w"
  by (simp add: object_truth_def)

lemma upload_object_safe:
  assumes h: "held b S w" and oid: "oidPattern (OID_String oid)" and sz: "0 \<le> Size_Int64 sz"
  shows "safely b S (object_truth oid) (upload_object_turns baseURL ow re oid sz hashAlgo ah) w"
  unfolding upload_object_turns_def
proof (rule found_safe [OF h])
  fix e v
  show "safely b S (object_truth oid) (if \<not> errors_Is e (Domain ErrNotFound)
         then Done (object_failure oid sz 500 MsgMetadataFetchFailed)
         else (case GenerateStorageKey (OID_String oid) hashAlgo of
           Inl err \<Rightarrow> Done (object_failure oid sz 400 MsgInvalidStorageKeyParameter)
         | Inr storageKey \<Rightarrow> (case NewHashAlgorithm hashAlgo of
             Inl err \<Rightarrow> Done (object_failure oid sz 400 MsgInvalidHashAlgorithmObject)
           | Inr hashAlgorithm \<Rightarrow> and_then clock (\<lambda>now. case NewLFSObject now oid sz hashAlgorithm storageKey of
                 Inl err \<Rightarrow> Done (object_failure oid sz 500 MsgMetadataCreateFailed)
               | Inr newObj \<Rightarrow> task_bind (save_turns newObj) (\<lambda>saved. case saved of
                     Inl saveErr \<Rightarrow> Done (object_failure oid sz 500 MsgMetadataSaveFailed)
                   | Inr u \<Rightarrow> Done (upload_response NewProxyActionURLGenerator baseURL ow re oid sz ah)))))) v"
  proof (cases "errors_Is e (Domain ErrNotFound) \<and> (\<exists>k hs. GenerateStorageKey (OID_String oid) hashAlgo = Inr k \<and>
      NewHashAlgorithm hashAlgo = Inr hs)")
    case False
    then show ?thesis by (auto intro!: object_done_safe simp del: safe.simps split: sum.split)
  next
    case True
    then obtain k hs where e: "errors_Is e (Domain ErrNotFound)" and k: "GenerateStorageKey (OID_String oid) hashAlgo = Inr k"
      and hs: "NewHashAlgorithm hashAlgo = Inr hs" by blast
    then have sha: "hashAlgo = ''sha256''" "hs = HashAlgorithm ''sha256''"
      by (auto simp: NewHashAlgorithm_Inr GenerateStorageKey_def validateHashAlgo_def split: option.splits if_splits)
    show ?thesis unfolding k hs sum.case using e
    proof (simp only: simp_thms if_False, intro clock_safe)
      fix now x assume x: "held b S x"
      show "safely b S (object_truth oid) (case NewLFSObject now oid sz hs k of
                 Inl err \<Rightarrow> Done (object_failure oid sz 500 MsgMetadataCreateFailed)
               | Inr newObj \<Rightarrow> task_bind (save_turns newObj) (\<lambda>saved. case saved of
                     Inl saveErr \<Rightarrow> Done (object_failure oid sz 500 MsgMetadataSaveFailed)
                   | Inr u \<Rightarrow> Done (upload_response NewProxyActionURLGenerator baseURL ow re oid sz ah))) x"
      proof (cases "NewLFSObject now oid sz hs k")
        case (Inl err)
        then show ?thesis by (auto intro!: object_done_safe simp del: safe.simps)
      next
        case (Inr obj)
        with oid sz sha(2) have obj: "lo_oid obj = oid" "\<not> lo_uploaded obj" "wf_object obj" "GetStorageKey obj = k"
          by (auto simp: NewLFSObject_Inr wf_object_def getter_simps)
        show ?thesis unfolding Inr sum.case
        proof (rule safely_seq [OF x save_safe [OF obj(3,2)]])
          show "GenerateStorageKey (OID_String (lo_oid obj)) ''sha256'' = Inr (GetStorageKey obj)" using k sha obj by simp
        next
          fix q :: "gerror + unit" and y
          assume "q = Inr () \<longrightarrow> behind y obj"
          then have "q = Inr () \<longrightarrow> stored y oid \<noteq> None" using obj(1) by (auto simp: behind_def)
          then show "safely b S (object_truth oid) (case q of
              Inl saveErr \<Rightarrow> Done (object_failure oid sz 500 MsgMetadataSaveFailed)
            | Inr u \<Rightarrow> Done (upload_response NewProxyActionURLGenerator baseURL ow re oid sz ah)) y"
            by (cases q) (auto intro!: object_done_safe simp: object_truth_def simp del: safe.simps)
        qed
      qed
    qed
  qed
next
  fix obj v
  assume "lo_oid obj = oid" "behind v obj"
  then have "stored v oid \<noteq> None" by (auto simp: behind_def)
  then show "safely b S (object_truth oid) (if lo_uploaded obj then
           (if Size_Int64 (lo_size obj) \<noteq> Size_Int64 sz
            then Done (object_failure oid sz 409 MsgSizeConflict)
            else Done (NewResponseObject (OID_String oid) (Size_Int64 sz) True None None))
         else Done (upload_response NewProxyActionURLGenerator baseURL ow re oid sz ah)) v"
    by (auto intro!: object_done_safe simp: object_truth_def NewResponseObject_def simp del: safe.simps)
qed

text \<open>An object of a download answered without an error is uploaded; of an upload, known and owned.\<close>

definition item_truth :: "bool \<Rightarrow> ResponseObject \<Rightarrow> world \<Rightarrow> bool" where
  "item_truth down resp w \<longleftrightarrow> (rs_error resp = None \<longrightarrow> claimed w (OID (rs_oid resp)) \<and>
     (\<exists>d. stored w (OID (rs_oid resp)) = Some d \<and> (down \<longrightarrow> lo_uploaded d)))"

definition list_truth :: "bool \<Rightarrow> gerror + ResponseObject list \<Rightarrow> world \<Rightarrow> bool" where
  "list_truth down r w \<longleftrightarrow> (\<forall>resps. r = Inr resps \<longrightarrow> (\<forall>resp \<in> set resps. item_truth down resp w))"

lemma item_truth_grown: "item_truth down resp w \<Longrightarrow> grown w v \<Longrightarrow> item_truth down resp v"
  unfolding item_truth_def by (metis grown_stored claimed_grown)

lemma list_truth_grown: "list_truth down r w \<Longrightarrow> grown w v \<Longrightarrow> list_truth down r v"
  unfolding list_truth_def using item_truth_grown by blast

lemma list_truth_simps [simp]:
  "list_truth down (Inl e) w"
  "list_truth down (Inr []) w"
  "list_truth down (Inr (resp # resps)) w \<longleftrightarrow> item_truth down resp w \<and> list_truth down (Inr resps) w"
  by (auto simp: list_truth_def)

lemma list_done_safe: "list_truth down r w \<Longrightarrow> safely b S (list_truth down) (Done r) w"
  by (rule Done_safe) (assumption, rule list_truth_grown)

lemma rest_safe:
  assumes h: "held b S w" and item: "item_truth down resp w" and rest: "\<And>v. held b S v \<Longrightarrow> safely b S (list_truth down) t v"
  shows "safely b S (list_truth down) (task_bind t (\<lambda>rest. case rest of
     Inl err \<Rightarrow> Done (Inl err) | Inr respObjs \<Rightarrow> Done (Inr (resp # respObjs)))) w"
proof (rule safely_seq [OF h rest [OF h]])
  fix r v assume v: "grown w v" "list_truth down r v"
  then show "safely b S (list_truth down) (case r of
     Inl err \<Rightarrow> Done (Inl err) | Inr respObjs \<Rightarrow> Done (Inr (resp # respObjs))) v"
    using item_truth_grown [OF item v(1)] by (cases r) (auto intro!: list_done_safe simp del: safe.simps)
qed

lemma claim_safe:
  assumes h: "held b S w" and new: "auth_IsNewObject res \<Longrightarrow> oid \<notin> dom S" "\<not> auth_IsNewObject res \<Longrightarrow> claimed w oid"
    and ri: "valid_repository ri" "oidPattern (OID_String oid)"
  shows "safely b S (\<lambda>r v. r = Inr () \<longrightarrow> rs_error resp = None \<longrightarrow> claimed v oid) (claim_turns res resp oid (Some ri)) w"
proof (cases "auth_IsNewObject res \<and> rs_error resp = None")
  case False
  with new(2) have "rs_error resp = None \<longrightarrow> claimed w oid" by blast
  then show ?thesis using False by (auto simp: claim_turns_def intro!: safe_DoneI intro: claimed_grown simp del: safe.simps)
next
  case True
  have "safely b S (\<lambda>r v. r = Inr () \<longrightarrow> rs_error resp = None \<longrightarrow> claimed v oid)
      (task_bind (call (createAccessPolicy NewAccessPolicyRepository oid (Some ri))) Done) w"
    unfolding call_and_then
  proof (rule safe_and_then)
    fix v r v'
    assume v: "held b S v" "grown w v" and run: "run_state (createAccessPolicy NewAccessPolicyRepository oid (Some ri)) v = (r, v')"
    from True new(1) have "oid \<notin> dom S" by blast
    from claim_turn [OF v(1) ri this run] have c: "held b S v'" "grown v v'" "r = Inr () \<longrightarrow> claimed v' oid"
      by (auto simp: claimed_def)
    then show "held b S v' \<and> grown v v' \<and> safely b S (\<lambda>r v. r = Inr () \<longrightarrow> rs_error resp = None \<longrightarrow> claimed v oid) (Done r) v'"
      by (auto intro!: safe_DoneI intro: claimed_grown simp del: safe.simps)
  qed
  moreover have "task_bind (call m) Done = call m" for m :: "unit io" by (simp add: call_def comp_def prod.map_comp id_def)
  ultimately show ?thesis using True by (simp add: claim_turns_def)
qed

lemma upload_batch_safe:
  assumes ri: "\<And>ri. orepo = Some ri \<Longrightarrow> valid_repository ri"
  shows "safely b S (list_truth False) (upload_batch_turns baseURL ow re orepo hashAlgo ah objs) w"
proof (induction objs arbitrary: w)
  case Nil
  show ?case by (auto intro!: list_done_safe simp del: safe.simps)
next
  case (Cons obj objs)
  show ?case
  proof (cases "oidPattern (ro_oid obj) \<and> 0 \<le> ro_size obj")
    case False
    then show ?thesis by (auto simp: NewOID_def NewSize_def intro!: list_done_safe simp del: safe.simps)
  next
    case True
    let ?oid = "OID (ro_oid obj)"
    from True have ctor: "NewOID (ro_oid obj) = Inr ?oid" "NewSize (ro_size obj) = Inr (Size (ro_size obj))"
      and ok: "oidPattern (OID_String ?oid)" "0 \<le> Size_Int64 (Size (ro_size obj))"
      by (auto simp: NewOID_def NewSize_def)
    show ?thesis unfolding upload_batch_turns.simps ctor sum.case
    proof (rule checked_safe)
      fix e v show "safely b S (list_truth False) (Done (Inl e)) v" by (rule list_done_safe) simp
    next
      fix res :: AuthorizationResult and rj v
      assume v: "held b S v" and rj: "orepo = Some rj" and new: "auth_IsNewObject res \<longleftrightarrow> owner_of v ?oid = None"
      show "safely b S (list_truth False) (task_bind (upload_object_turns baseURL ow re ?oid (Size (ro_size obj)) hashAlgo ah) (\<lambda>respObj.
           task_bind (claim_turns res respObj ?oid orepo) (\<lambda>p. case p of Inl err \<Rightarrow> Done (Inl (Wrap err))
           | Inr u \<Rightarrow> task_bind (upload_batch_turns baseURL ow re orepo hashAlgo ah objs) (\<lambda>rest. case rest of
               Inl err \<Rightarrow> Done (Inl err) | Inr respObjs \<Rightarrow> Done (Inr (respObj # respObjs)))))) v"
      proof (rule safely_seq [OF v upload_object_safe [OF v ok]])
        fix resp x assume x: "held b S x" "grown v x" and resp: "object_truth ?oid resp x"
        have "auth_IsNewObject res \<Longrightarrow> ?oid \<notin> dom S" using new v by (auto simp: held_def map_le_def dom_def)
        moreover have "claimed x ?oid" if "\<not> auth_IsNewObject res"
        proof -
          from that new have "claimed v ?oid" by (simp add: claimed_def)
          then show ?thesis using x(2) claimed_grown by blast
        qed
        ultimately have c: "safely b S (\<lambda>r u. r = Inr () \<longrightarrow> rs_error resp = None \<longrightarrow> claimed u ?oid) (claim_turns res resp ?oid orepo) x"
          unfolding rj by (rule claim_safe [OF x(1) _ _ ri [OF rj] ok(1)])
        show "safely b S (list_truth False) (task_bind (claim_turns res resp ?oid orepo) (\<lambda>p. case p of Inl err \<Rightarrow> Done (Inl (Wrap err))
           | Inr u \<Rightarrow> task_bind (upload_batch_turns baseURL ow re orepo hashAlgo ah objs) (\<lambda>rest. case rest of
               Inl err \<Rightarrow> Done (Inl err) | Inr respObjs \<Rightarrow> Done (Inr (resp # respObjs))))) x"
        proof (rule safely_seq [OF x(1) c])
          fix p :: "gerror + unit" and y
          assume y: "held b S y" "grown x y" and p: "p = Inr () \<longrightarrow> rs_error resp = None \<longrightarrow> claimed y ?oid"
          show "safely b S (list_truth False) (case p of Inl err \<Rightarrow> Done (Inl (Wrap err))
           | Inr u \<Rightarrow> task_bind (upload_batch_turns baseURL ow re orepo hashAlgo ah objs) (\<lambda>rest. case rest of
               Inl err \<Rightarrow> Done (Inl err) | Inr respObjs \<Rightarrow> Done (Inr (resp # respObjs)))) y"
          proof (cases p)
            case (Inl e)
            then show ?thesis by (auto intro!: list_done_safe simp del: safe.simps)
          next
            case (Inr u)
            from object_truth_grown [OF resp y(2)] p Inr have "item_truth False resp y"
              by (auto simp: item_truth_def object_truth_def)
            then show ?thesis unfolding Inr sum.case by (rule rest_safe [OF y(1) _ Cons.IH])
          qed
        qed
      qed
    qed
  qed
qed

lemma download_object_safe:
  assumes h: "held b S w" and cl: "claimed w oid"
  shows "safely b S (item_truth True) (download_object_turns baseURL ow re oid sz ah) w"
  unfolding download_object_turns_def
proof (rule found_safe [OF h])
  fix e v
  show "safely b S (item_truth True) (if errors_Is e (Domain ErrNotFound) then Done (object_failure oid sz 404 MsgObjectMissing)
      else Done (object_failure oid sz 500 MsgMetadataFetchFailed)) v"
    by (auto intro!: Done_safe intro: item_truth_grown simp: item_truth_def simp del: safe.simps)
next
  fix obj v
  assume v: "grown w v" and obj: "lo_oid obj = oid" "behind v obj"
  have "lo_uploaded obj \<Longrightarrow> \<exists>d. stored v oid = Some d \<and> lo_uploaded d" using obj by (auto simp: behind_def)
  with claimed_grown [OF cl v] show "safely b S (item_truth True) (if \<not> lo_uploaded obj then Done (object_failure oid sz 404 MsgNotUploadedYet)
         else (let downloadURL = url_Download NewProxyActionURLGenerator baseURL ow re (OID_String oid);
                   downloadAction = NewAction downloadURL (auth_header ah) (PresignedURLTTL div Second);
                   actions = NewActions None (Some downloadAction)
               in Done (NewResponseObject (OID_String oid) (Size_Int64 sz) True (Some actions) None))) v"
    by (cases oid) (auto intro!: Done_safe intro: item_truth_grown simp: item_truth_def NewResponseObject_def Let_def
        simp del: safe.simps)
qed

lemma download_batch_safe: "safely b S (list_truth True) (download_batch_turns baseURL ow re orepo ah objs) w"
proof (induction objs arbitrary: w)
  case Nil
  show ?case by (auto intro!: list_done_safe simp del: safe.simps)
next
  case (Cons obj objs)
  show ?case
  proof (cases "oidPattern (ro_oid obj) \<and> 0 \<le> ro_size obj")
    case False
    then show ?thesis by (auto simp: NewOID_def NewSize_def intro!: list_done_safe simp del: safe.simps)
  next
    case True
    let ?oid = "OID (ro_oid obj)"
    from True have ctor: "NewOID (ro_oid obj) = Inr ?oid" "NewSize (ro_size obj) = Inr (Size (ro_size obj))"
      by (auto simp: NewOID_def NewSize_def)
    show ?thesis unfolding download_batch_turns.simps ctor sum.case
    proof (rule checked_safe)
      fix e v show "safely b S (list_truth True) (Done (Inl e)) v" by (rule list_done_safe) simp
    next
      fix res :: AuthorizationResult and rj v
      assume v: "held b S v" and "may_access v OperationDownload rj ?oid"
      then have cl: "claimed v ?oid" by (auto simp: may_access_def claimed_def)
      show "safely b S (list_truth True) (task_bind (download_object_turns baseURL ow re ?oid (Size (ro_size obj)) ah) (\<lambda>respObj.
           task_bind (download_batch_turns baseURL ow re orepo ah objs) (\<lambda>rest. case rest of
               Inl err \<Rightarrow> Done (Inl err) | Inr respObjs \<Rightarrow> Done (Inr (respObj # respObjs))))) v"
        by (rule safely_seq [OF v download_object_safe [OF v cl]]) (rule rest_safe [OF _ _ Cons.IH])
    qed
  qed
qed

definition batch_truth :: "BatchRequest \<Rightarrow> gerror + BatchResponse \<Rightarrow> world \<Rightarrow> bool" where
  "batch_truth req r w \<longleftrightarrow> list_truth (br_operation req = OperationDownload) (map_sum id bs_objects r) w"

lemma batch_truth_failed [simp]: "batch_truth req (Inl e) w"
  by (simp add: batch_truth_def)

lemma batch_truth_grown: "batch_truth req r w \<Longrightarrow> grown w v \<Longrightarrow> batch_truth req r v"
  unfolding batch_truth_def by (rule list_truth_grown)

lemma batch_done_safe: "batch_truth req r w \<Longrightarrow> safely b S (batch_truth req) (Done r) w"
  by (rule Done_safe) (assumption, rule batch_truth_grown)

lemma batch_safe:
  assumes ri: "\<And>ri. br_repository req = Some ri \<Longrightarrow> valid_repository ri"
  shows "safely b S (batch_truth req) (batch_turns baseURL ow re req ah) w"
proof -
  have finish: "safely b S (batch_truth req) (task_bind t (\<lambda>r. case r of Inl err \<Rightarrow> Done (Inl err)
      | Inr objects \<Rightarrow> Done (Inr (NewBatchResponse DefaultTransferType objects h)))) w"
    if t: "\<And>v. safely b S (list_truth down) t v" and down: "down = (br_operation req = OperationDownload)" for t h down
  proof (rule safe_start [OF transp_grown _ reflp_grown], rule safely_seq [OF _ t])
    fix r v assume "list_truth down r v"
    then show "safely b S (batch_truth req) (case r of Inl err \<Rightarrow> Done (Inl err)
        | Inr objects \<Rightarrow> Done (Inr (NewBatchResponse DefaultTransferType objects h))) v"
      by (cases r) (auto intro!: batch_done_safe simp: batch_truth_def NewBatchResponse_def down simp del: safe.simps)
  qed
  show ?thesis unfolding batch_turns_def Let_def
    using finish [OF download_batch_safe] finish [OF upload_batch_safe [OF ri]]
    by (auto intro!: batch_done_safe simp del: safe.simps split: option.split)
qed

end
