(* ===== verification/Interleaving.thy ===== *)
theory Interleaving
  imports Concurrency
begin

text \<open>
  The pool of all requests in flight: batches, proxied uploads and downloads, and verifications, each
  cut into turns, arriving at any moment and advancing in any order, while everything else the program
  does (sign-in, probes, authentication, the allowlist) and the outside (the clock, failures,
  evictions) goes on between them.
\<close>

section \<open>Requests and their answers\<close>

datatype transfer = Announce string string string BatchRequest string | Send string string OID string
  | Fetch string string OID | Confirm string int

datatype answer = Announced "gerror + BatchResponse" | Sent "gerror + unit" | Fetched "gerror + string \<times> int"
  | Confirmed "gerror + unit"

fun transfer_turns :: "transfer \<Rightarrow> (world, answer) task" where
  "transfer_turns (Announce baseURL owner repo req authHeader) =
     task_bind (batch_turns baseURL owner repo req authHeader) (\<lambda>r. Done (Announced r))"
| "transfer_turns (Send owner repo oid body) = task_bind (proxy_upload_turns owner repo oid body) (\<lambda>r. Done (Sent r))"
| "transfer_turns (Fetch owner repo oid) = task_bind (proxy_download_turns owner repo oid) (\<lambda>r. Done (Fetched r))"
| "transfer_turns (Confirm oid sz) = task_bind (verify_turns oid sz) (\<lambda>r. Done (Confirmed r))"

definition in_flight :: "transfer \<Rightarrow> (world, transfer \<times> answer) task" where
  "in_flight q = task_bind (transfer_turns q) (\<lambda>a. Done (q, a))"

text \<open>A request alone is the use case \<^verbatim>\<open>main\<close> put together.\<close>

fun serve_transfer :: "transfer \<Rightarrow> (world, answer) state" where
  "serve_transfer (Announce baseURL owner repo req authHeader) =
     State_Monad.bind (HandleBatchRequest program_batch baseURL owner repo req authHeader) (\<lambda>r. State_Monad.return (Announced r))"
| "serve_transfer (Send owner repo oid body) =
     State_Monad.bind (program_upload owner repo oid body) (\<lambda>r. State_Monad.return (Sent r))"
| "serve_transfer (Fetch owner repo oid) =
     State_Monad.bind (program_download owner repo oid) (\<lambda>r. State_Monad.return (Fetched r))"
| "serve_transfer (Confirm oid sz) =
     State_Monad.bind (program_verify oid sz) (\<lambda>r. State_Monad.return (Confirmed r))"

lemma run_transfer_turns: "run_task (transfer_turns q) = serve_transfer q"
  by (cases q) (simp_all add: run_batch_turns run_proxy_upload_turns run_proxy_download_turns run_verify_turns)

text \<open>What an answer says: an object announced without an error is known and owned; what was sent is
  uploaded, of that size, and there; what was fetched is uploaded and owned, and the body has its size;
  a confirmed object is uploaded with the confirmed size.\<close>

fun truth :: "transfer \<Rightarrow> answer \<Rightarrow> world \<Rightarrow> bool" where
  "truth (Announce baseURL owner repo req authHeader) (Announced r) = batch_truth req r"
| "truth (Send owner repo oid body) (Sent r) = put_truth oid body r"
| "truth (Fetch owner repo oid) (Fetched r) = get_truth oid r"
| "truth (Confirm oid sz) (Confirmed r) = verify_truth oid sz r"
| "truth q a = (\<lambda>w. False)"

fun proper :: "transfer \<Rightarrow> bool" where
  "proper (Announce baseURL owner repo req authHeader) = (\<forall>ri. br_repository req = Some ri \<longrightarrow> valid_repository ri)"
| "proper q = True"

fun is_confirm :: "transfer \<Rightarrow> bool" where
  "is_confirm (Confirm oid sz) = True"
| "is_confirm q = False"

definition said :: "transfer \<times> answer \<Rightarrow> world \<Rightarrow> bool" where
  "said = (\<lambda>(q, a). truth q a)"

lemma finish_safe:
  assumes "safely b S P t w" and "\<And>r v u. P r v \<Longrightarrow> grown v u \<Longrightarrow> Q (g r) u"
  shows "safely b S Q (task_bind t (\<lambda>r. Done (g r))) w"
proof (rule safe_start [OF transp_grown _ reflp_grown])
  fix v assume v: "held b S v" "grown w v"
  from assms(1) v(2) have "safely b S P t v" by (rule safe_later [OF transp_grown, rotated])
  then show "safely b S Q (task_bind t (\<lambda>r. Done (g r))) v"
    by (rule safely_seq [OF v(1)]) (use assms(2) in \<open>auto intro!: safe_DoneI simp del: safe.simps\<close>)
qed

lemma transfer_safe:
  assumes "proper q" and "b \<Longrightarrow> \<not> is_confirm q"
  shows "safely b S (truth q) (transfer_turns q) w"
proof (cases q)
  case (Announce baseURL ow re req ah)
  with assms(1) have ri: "\<And>ri. br_repository req = Some ri \<Longrightarrow> valid_repository ri" by simp
  show ?thesis unfolding Announce transfer_turns.simps
    by (rule finish_safe [OF batch_safe [OF ri]]) (simp, simp add: batch_truth_grown)
next
  case (Send ow re oid body)
  show ?thesis unfolding Send transfer_turns.simps
    by (rule finish_safe [OF proxy_upload_safe]) (simp add: put_truth_grown)
next
  case (Fetch ow re oid)
  show ?thesis unfolding Fetch transfer_turns.simps
    by (rule finish_safe [OF proxy_download_safe]) (simp add: get_truth_grown)
next
  case (Confirm oid sz)
  with assms(2) have "b = False" by auto
  then show ?thesis unfolding Confirm transfer_turns.simps
    by (simp only:) (rule finish_safe [OF verify_safe], simp add: verify_truth_grown)
qed

lemma truth_grown: "truth q a w \<Longrightarrow> grown w v \<Longrightarrow> truth q a v"
  by (induction q a rule: truth.induct)
    (auto elim: batch_truth_grown put_truth_grown get_truth_grown verify_truth_grown)

lemma in_flight_safe:
  assumes "proper q" and "b \<Longrightarrow> \<not> is_confirm q"
  shows "safely b S said (in_flight q) w"
  unfolding in_flight_def
  by (rule finish_safe [OF transfer_safe [OF assms]]) (auto simp: said_def elim: truth_grown)

section \<open>The environment\<close>

text \<open>Between two turns: anything Lifecycle knows except a request for objects, and the authentication
  of the requests, which moves at most the cached allowlist answers and key sets.\<close>

definition meanwhile :: "program \<Rightarrow> world \<Rightarrow> world \<Rightarrow> bool" where
  "meanwhile p w w' \<longleftrightarrow> auth_frame w w' \<or>
     (\<exists>e. happens p w e w' \<and> (\<forall>rt c. e = Request rt c \<longrightarrow> program_handler rt = None))"

lemma quiet_held:
  assumes "quiet w w'" and "held b S w"
  shows "held b S w' \<and> grown w w'"
proof (rule held_still [OF assms(2)])
  show "sound_world w'" using quiet_sound [OF assms(1)] assms(2) by (simp add: held_def consistent_def)
qed (simp_all add: quiet_stored [OF assms(1)] quiet_owner [OF assms(1)] quiet_storage [OF assms(1)])

lemma outside_held:
  assumes tabs: "w_objects w' = w_objects w" "w_policies w' = w_policies w" "w_policy_seq w' = w_policy_seq w"
      "w_storage w' = w_storage w"
    and pk: "\<And>k. redis_peek w' k \<in> {redis_peek w k, None}" and h: "held b S w"
  shows "held b S w' \<and> grown w w'"
proof (rule held_still [OF h])
  show "sound_world w'" using environment_consistent [OF tabs pk] h by (simp add: held_def consistent_def)
  show "stored w' = stored w" by (rule ext) (simp add: stored_def tabs)
  show "owner_of w' = owner_of w" by (rule ext) (simp add: owner_of_def tabs)
qed (rule tabs(4))

lemma meanwhile_held:
  assumes p: "wired http_Do jwt_Parse p" and "meanwhile p w w'" and h: "held b S w"
  shows "held b S w' \<and> grown w w'"
  using assms(2) unfolding meanwhile_def
proof (elim disjE exE conjE)
  assume "auth_frame w w'"
  then show ?thesis by (rule quiet_held [OF auth_frame_quiet h])
next
  fix e assume "happens p w e w'" and other: "\<forall>rt c. e = Request rt c \<longrightarrow> program_handler rt = None"
  then show ?thesis
  proof (cases rule: happens.cases)
    case (request rt c r)
    then have "program_handler rt = None" using other by blast
    from framesD [OF serve_quiet [OF p this] request(2)] show ?thesis by (rule quiet_held [OF _ h])
  next
    case (tick d)
    then show ?thesis by (intro outside_held [OF _ _ _ _ _ h]) (simp_all add: peek_later del: insert_iff)
  next
    case (outage fs)
    then show ?thesis by (intro quiet_held [OF _ h]) (simp add: quiet_def)
  next
    case (evict k)
    then show ?thesis by (intro outside_held [OF _ _ _ _ _ h]) (simp_all add: peek_evicted del: insert_iff)
  next
    case (allow ar r)
    from framesD [OF quiet_allowlist_Add allow(2)] show ?thesis by (rule quiet_held [OF _ h])
  next
    case (disallow ar r)
    from framesD [OF quiet_allowlist_Remove disallow(2)] show ?thesis by (rule quiet_held [OF _ h])
  qed
qed

section \<open>All of them at once\<close>

definition requests :: "bool \<Rightarrow> (world, transfer \<times> answer) task set" where
  "requests b = in_flight ` {q. proper q \<and> (b \<longrightarrow> \<not> is_confirm q)}"

lemma served_together:
  assumes p: "wired http_Do jwt_Parse p" and run: "interleaved (requests b) (meanwhile p) [] w us v"
    and w: "consistent w" "b \<Longrightarrow> backed w"
  shows "held b (owner_of w) v \<and> grown w v \<and> (\<forall>q a. Done (q, a) \<in> set us \<longrightarrow> truth q a v)"
proof -
  have "held b (owner_of w) w" using w by (simp add: held_def)
  from interleaved_safe [OF run reflp_grown transp_grown, of "held b (owner_of w)" said, OF _ meanwhile_held [OF p] this]
  have "held b (owner_of w) v \<and> grown w v \<and> (\<forall>t \<in> set us. safely b (owner_of w) said t v)"
    by (auto simp: requests_def intro!: in_flight_safe simp del: safe.simps)
  moreover from this have "truth q a v" if "Done (q, a) \<in> set us" for q a
    using that by (fastforce simp: said_def)
  ultimately show ?thesis by blast
qed

section \<open>How many calls a request makes\<close>

text \<open>A lookup needs three calls, a write two; an object of an upload batch makes at most eight, of a
  download batch four.\<close>

fun cost :: "transfer \<Rightarrow> nat" where
  "cost (Announce baseURL owner repo req authHeader) = 8 * length (br_objects req)"
| "cost (Send owner repo oid body) = 8"
| "cost (Fetch owner repo oid) = 5"
| "cost (Confirm oid sz) = 7"

lemma find_calls: "at_most (find_turns oid) 3"
  by (auto simp: find_turns_def eval_nat_numeral intro!: at_most_and_then split: sum.split option.split)

lemma write_calls: "at_most (save_turns obj) 2" "at_most (update_turns obj) 2"
  by (auto simp: save_turns_def update_turns_def eval_nat_numeral intro!: at_most_and_then split: sum.split)

lemma at_most_seq:
  "at_most t m \<Longrightarrow> m + n \<le> l \<Longrightarrow> (\<And>a. at_most (k a) n) \<Longrightarrow> at_most (task_bind t k) l"
  using at_most_mono at_most_bind by blast

lemma at_most_step: "0 < l \<Longrightarrow> (\<And>a. at_most (k a) (l - 1)) \<Longrightarrow> at_most (and_then m k) l"
  using at_most_and_then [of k "l - 1" m] by simp

lemma upload_object_calls: "at_most (upload_object_turns baseURL ow re oid sz h ah) 6"
  unfolding upload_object_turns_def
  by (rule at_most_seq [OF find_calls, of 3])
    (auto intro!: at_most_step at_most_seq [OF write_calls(1), of 0] split: sum.split)

lemma download_object_calls: "at_most (download_object_turns baseURL ow re oid sz ah) 3"
  unfolding download_object_turns_def
  by (rule at_most_seq [OF find_calls, of 0]) (auto simp: Let_def split: sum.split)

lemma claim_calls: "at_most (claim_turns a resp oid orepo) 1"
  by (simp add: claim_turns_def call_def at_most_Call del: at_most.simps(2))

lemma upload_batch_calls: "at_most (upload_batch_turns baseURL ow re orepo h ah objs) (8 * length objs)"
proof (induction objs)
  case (Cons obj objs)
  have rest: "at_most (task_bind (upload_batch_turns baseURL ow re orepo h ah objs) (\<lambda>rest. case rest of
      Inl err \<Rightarrow> Done (Inl err) | Inr respObjs \<Rightarrow> Done (Inr (resp # respObjs)))) (8 * length objs)" for resp
    by (rule at_most_seq [OF Cons.IH, of 0]) (auto split: sum.split)
  have claim: "at_most (task_bind (claim_turns res resp oid orepo) (\<lambda>p. case p of Inl err \<Rightarrow> Done (Inl (Wrap err))
      | Inr u \<Rightarrow> task_bind (upload_batch_turns baseURL ow re orepo h ah objs) (\<lambda>rest. case rest of
          Inl err \<Rightarrow> Done (Inl err) | Inr respObjs \<Rightarrow> Done (Inr (resp # respObjs))))) (1 + 8 * length objs)" for res resp oid
    by (rule at_most_seq [OF claim_calls, of "8 * length objs"]) (auto split: sum.split intro: rest)
  show ?case
    by (auto intro!: at_most_step at_most_seq [OF upload_object_calls, of "1 + 8 * length objs"] claim
        simp del: One_nat_def split: sum.split)
qed simp

lemma download_batch_calls: "at_most (download_batch_turns baseURL ow re orepo ah objs) (8 * length objs)"
proof (induction objs)
  case (Cons obj objs)
  have rest: "at_most (task_bind (download_batch_turns baseURL ow re orepo ah objs) (\<lambda>rest. case rest of
      Inl err \<Rightarrow> Done (Inl err) | Inr respObjs \<Rightarrow> Done (Inr (resp # respObjs)))) (8 * length objs)" for resp
    by (rule at_most_seq [OF Cons.IH, of 0]) (auto split: sum.split)
  show ?case
    by (auto intro!: at_most_step at_most_seq [OF download_object_calls, of "8 * length objs"] rest
        split: sum.split)
qed simp

lemma transfer_calls: "at_most (in_flight q) (cost q)"
  unfolding in_flight_def
proof (rule at_most_seq [of _ "cost q" 0])
  show "at_most (transfer_turns q) (cost q)"
  proof (cases q)
    case (Announce baseURL ow re req ah)
    show ?thesis unfolding Announce transfer_turns.simps cost.simps batch_turns_def Let_def
      by (rule at_most_seq [of _ "8 * length (br_objects req)" 0])
        (auto intro!: at_most_seq [OF upload_batch_calls, where n = 0] at_most_seq [OF download_batch_calls, where n = 0]
          split: option.split sum.split)
  next
    case (Send ow re oid body)
    have put: "at_most (and_then (storage_PutObject NewS3Client (GetStorageKey obj) body (Size_Int64 (lo_size obj)))
        (\<lambda>put. case put of Inl err \<Rightarrow> Done (Inl err)
         | Inr u \<Rightarrow> and_then clock (\<lambda>now. task_bind (update_turns (MarkAsUploaded now obj)) (\<lambda>upd.
             case upd of Inl err \<Rightarrow> Done (Inl err) | Inr u \<Rightarrow> Done (Inr ()))))) 4" for obj
      by (auto intro!: at_most_step at_most_seq [OF write_calls(2), of 0] split: sum.split)
    show ?thesis unfolding Send transfer_turns.simps cost.simps proxy_upload_turns_def
      by (rule at_most_seq [of _ 8 0])
        (auto intro!: at_most_step at_most_seq [OF find_calls, of 4] put split: sum.split)
  next
    case (Fetch ow re oid)
    show ?thesis unfolding Fetch transfer_turns.simps cost.simps proxy_download_turns_def
      by (rule at_most_seq [of _ 5 0])
        (auto intro!: at_most_step at_most_seq [OF find_calls, of 1] split: sum.split)
  next
    case (Confirm oid sz)
    have mark: "at_most (and_then clock (\<lambda>now. task_bind (update_turns (MarkAsUploaded now obj)) (\<lambda>upd. case upd of
        Inl err \<Rightarrow> Done (Inl (Wrap err)) | Inr u \<Rightarrow> and_then (redis_deleteBatchUploadKey oid) (\<lambda>warn. Done (Inr ()))))) 4" for obj
      by (auto intro!: at_most_step at_most_seq [OF write_calls(2), of 1] split: sum.split)
    show ?thesis unfolding Confirm transfer_turns.simps cost.simps verify_turns_def
      by (rule at_most_seq [of _ 7 0])
        (auto intro!: at_most_seq [OF find_calls, of 4] mark split: sum.split)
  qed
qed simp_all

lemma pool_calls: "list_all2 at_most (map in_flight qs) (map cost qs)"
  by (induction qs) (simp_all add: transfer_calls)

end
