(* ===== verification/Availability.thy ===== *)
theory Availability
  imports Lifecycle
begin

text \<open>
  What works when nothing fails: with an empty failure schedule the repositories and the use cases
  go through.  A lookup finds what is stored, an upload of the announced size succeeds and leaves
  a fresh cache entry, and a download then gives the content back.
\<close>

section \<open>Redis and the cached repository\<close>

definition cache_put :: "OID \<Rightarrow> LFSObject \<Rightarrow> world \<Rightarrow> world" where
  "cache_put oid obj w = w\<lparr>w_redis := (w_redis w)(MetadataKey (OID_String oid) \<mapsto>
     (RDoc (cachedMetadata_json (metadata_of obj)), Some (w_now w + MetadataTTL)))\<rparr>"

lemma MetadataTTL_pos [simp]: "0 < MetadataTTL"
  by (simp add: MetadataTTL_def Minute_def Second_def)

lemma cache_put_simps [simp]:
  "w_faults (cache_put oid obj w) = w_faults w" "stored (cache_put oid obj w) = stored w"
  "owner_of (cache_put oid obj w) = owner_of w" "w_storage (cache_put oid obj w) = w_storage w"
  "w_now (cache_put oid obj w) = w_now w" "wf_objects (cache_put oid obj w) = wf_objects w"
  "w_policies (cache_put oid obj w) = w_policies w"
  by (simp_all add: cache_put_def stored_def owner_of_def wf_objects_def fun_eq_iff)

text \<open>The object a reader of the cache gets, if any.\<close>

definition cache_hit :: "world \<Rightarrow> OID \<Rightarrow> LFSObject option" where
  "cache_hit w oid = Option.bind (redis_peek w (MetadataKey (OID_String oid))) cached_object"

lemma cache_hit_put:
  assumes "wf_object obj"
  shows "cache_hit (cache_put oid obj w) oid \<in> {Some obj, None}"
proof -
  have "redis_live (cache_put oid obj w) (MetadataKey (OID_String oid)) = Some (RDoc (cachedMetadata_json (metadata_of obj)))"
    by (simp add: redis_live_def cache_put_def)
  then have "redis_peek (cache_put oid obj w) (MetadataKey (OID_String oid)) \<in> {Some (metadata_of obj), None}"
    by (simp add: redis_peek_def redis_read_def redis_doc_def cachedMetadata_roundtrip)
  moreover have "cached_object (metadata_of obj) \<in> {Some obj, None}"
    using cached_object_metadata_of [of obj] assms by (cases "cached_object (metadata_of obj)") (auto simp: wf_object_def)
  ultimately show ?thesis by (auto simp: cache_hit_def)
qed

lemma GetJSON_calm:
  assumes "w_faults w = []"
  shows "run_state (RedisClient_GetJSON dec k) w = (case redis_read dec w k of
     Some v \<Rightarrow> (Inr v, w) | None \<Rightarrow> (fst (run_state (RedisClient_GetJSON dec k) w), w))"
    and "redis_read dec w k = None \<Longrightarrow> \<exists>e. run_state (RedisClient_GetJSON dec k) w = (Inl e, w)"
  using assms
  by (auto simp: RedisClient_GetJSON_def redis_cmd_get_def run_external_ok redis_read_def json_Unmarshal_def
      split: option.splits)

lemma cache_selectors:
  "cache_GetJSON redis_metadata_cache = RedisClient_GetJSON decode_cachedMetadata"
  "gen_MetadataKey NewCacheKeyGenerator = MetadataKey"
  by (rule ext; simp add: redis_metadata_cache_def redis_CacheClient_def NewCacheKeyGenerator_def MetadataKey_def)+

lemma cacheMetadata_calm:
  assumes "w_faults w = []"
  shows "run_state (cacheMetadata redis_metadata_cache NewCacheKeyGenerator CacheConfig_MetadataTTL oid obj) w =
     (Inr (), cache_put oid obj w)"
  using assms
  by (simp add: cacheMetadata_def Let_def redis_metadata_cache_def redis_CacheClient_def RedisClient_SetJSON_def
      redis_cmd_set_def run_external_ok NewCacheKeyGenerator_def MetadataKey_def CacheConfig_MetadataTTL_def cache_put_def)

lemma pg_FindByOID_calm:
  assumes "w_faults w = []" and "wf_objects w"
  shows "run_state (repo_FindByOID NewLFSObjectRepository oid) w = (case stored w oid of
     None \<Rightarrow> (Inl (Domain ErrNotFound), w) | Some d \<Rightarrow> (Inr d, w))"
proof (cases "w_objects w (OID_String oid)")
  case None
  with assms show ?thesis
    by (simp add: NewLFSObjectRepository_def pg_FindByOID_def LFSObjectDAO_FindByOID_def sql_select_object_def
        run_external_ok stored_def)
next
  case (Some row)
  with assms(2) have "rowToDomain row = Inr (row_object row)" by (intro rowToDomain_wf) (auto simp: wf_objects_def)
  with assms Some show ?thesis
    by (simp add: NewLFSObjectRepository_def pg_FindByOID_def LFSObjectDAO_FindByOID_def sql_select_object_def
        run_external_ok stored_def)
qed

lemma cached_find_calm:
  assumes "w_faults w = []" and "wf_objects w"
  shows "run_state (repo_FindByOID cached_repository oid) w = (case cache_hit w oid of
     Some obj \<Rightarrow> (Inr obj, w)
   | None \<Rightarrow> (case stored w oid of None \<Rightarrow> (Inl (Domain ErrNotFound), w) | Some d \<Rightarrow> (Inr d, cache_put oid d w)))"
proof -
  let ?get = "run_state (RedisClient_GetJSON decode_cachedMetadata (MetadataKey (OID_String oid))) w"
  have unf: "run_state (repo_FindByOID cached_repository oid) w =
      run_state (caching_FindByOID NewLFSObjectRepository redis_metadata_cache NewCacheKeyGenerator
        CacheConfig_MetadataTTL oid) w"
    by (simp add: cached_repository_def NewCachingLFSObjectRepository_def)
  have miss: "run_state (do {
       r \<leftarrow> repo_FindByOID NewLFSObjectRepository oid;
       case r of
         Inl err \<Rightarrow> lift_result (Inl err)
       | Inr obj \<Rightarrow> do {
           u \<leftarrow> cacheMetadata redis_metadata_cache NewCacheKeyGenerator CacheConfig_MetadataTTL oid obj;
           lift_result (Inr obj)
         }
     }) w = (case stored w oid of None \<Rightarrow> (Inl (Domain ErrNotFound), w) | Some d \<Rightarrow> (Inr d, cache_put oid d w))"
    using assms by (simp add: pg_FindByOID_calm cacheMetadata_calm split: option.split)
  show ?thesis
  proof (cases "redis_peek w (MetadataKey (OID_String oid))")
    case (Some m)
    with GetJSON_calm(1) [OF assms(1), of decode_cachedMetadata "MetadataKey (OID_String oid)"]
    have "?get = (Inr m, w)" by (simp add: redis_peek_def)
    then show ?thesis unfolding unf
      using Some miss by (cases "cached_object m")
        (simp_all add: caching_FindByOID_def Let_def cache_selectors cache_hit_def)
  next
    case None
    with GetJSON_calm(2) [OF assms(1), of decode_cachedMetadata "MetadataKey (OID_String oid)"]
    obtain e where "?get = (Inl e, w)" by (auto simp: redis_peek_def)
    then show ?thesis unfolding unf
      using None miss by (simp add: caching_FindByOID_def Let_def cache_selectors cache_hit_def)
  qed
qed

lemma cached_find_uploaded:
  assumes "w_faults w = []" and "coherent_world w" and "stored w oid = Some d"
  obtains obj w' where "run_state (repo_FindByOID cached_repository oid) w = (Inr obj, w')" "w_faults w' = []"
    "same_object obj d" "cache_hit w oid \<in> {Some obj, None}" "cache_hit w oid = None \<Longrightarrow> obj = d"
proof (cases "cache_hit w oid")
  case (Some obj)
  from assms(2) have wf: "wf_objects w" by (simp add: coherent_world_def)
  have run: "run_state (repo_FindByOID cached_repository oid) w = (Inr obj, w)"
    using cached_find_calm [OF assms(1) wf] Some by simp
  from metadata.find_sound [OF assms(2) run] assms(3) have "same_object obj d" by (auto simp: behind_def)
  with run assms(1) Some show thesis by (intro that) simp_all
next
  case None
  from assms(2) have wf: "wf_objects w" by (simp add: coherent_world_def)
  have "run_state (repo_FindByOID cached_repository oid) w = (Inr d, cache_put oid d w)"
    using cached_find_calm [OF assms(1) wf] None assms(3) by simp
  with assms(1) None show thesis by (intro that [of d "cache_put oid d w"]) simp_all
qed

text \<open>An update without failures: the row changes and the cache holds the new object.\<close>

lemma cached_update_calm:
  assumes calm: "w_faults w = []" and good: "coherent_world w" and obj: "ahead w obj" "wf_object obj"
  obtains w' where "run_state (repo_Update cached_repository obj) w = (Inr (), cache_put (lo_oid obj) obj w')"
    "w_faults w' = []"
proof -
  from obj(1) obtain row where row: "w_objects w (OID_String (lo_oid obj)) = Some row"
    by (auto simp: ahead_def stored_def)
  have "\<not> 16 < length (LFSObject_HashAlgo obj)" using obj(2) by (simp add: wf_object_def getter_simps)
  with row obtain v where "update_object (domainToRow obj) w = (Inr 1, v)" "w_faults v = w_faults w"
    by (simp add: update_object_def domainToRow_def)
  with calm have "run_state (repo_Update NewLFSObjectRepository obj) w = (Inr (), v)" "w_faults v = []"
    by (simp_all add: NewLFSObjectRepository_def pg_Update_def LFSObjectDAO_Update_def sql_update_object_def run_external_ok)
  then show thesis using cacheMetadata_calm [of v "lo_oid obj" obj] caching_objects.caching_Update_run [of obj w]
    by (intro that [of v]) (simp_all add: cached_repository_def NewCachingLFSObjectRepository_def)
qed

section \<open>Authorization\<close>

lemma check_calm:
  assumes calm: "w_faults w = []" and wf: "wf_policies w" and acc: "may_access w oper ri oid"
  obtains res where "run_state (CheckAuthorization pg_authorization oper (Some ri) oid) w = (Inr res, w)"
    "auth_Allowed res" "auth_IsNewObject res \<longleftrightarrow> owner_of w oid = None"
proof -
  from pg_policy_find_ok [OF wf calm, of oid] obtain q where
    q: "run_state (policy_FindByOID NewAccessPolicyRepository oid) w = (q, w)"
      "q = Inl (Domain ErrAccessPolicyNotFound) \<or> (\<exists>p. q = Inr (Some p))" by blast
  have "\<exists>res. authorize_answer oper ri q = Inr res"
    using q(2)
  proof
    assume m: "q = Inl (Domain ErrAccessPolicyNotFound)"
    with pg_policies.pfind_missing [OF wf q(1) [unfolded m]] acc show ?thesis
      by (auto simp: may_access_def authorize_answer_def)
  next
    assume "\<exists>p. q = Inr (Some p)"
    then obtain p where p: "q = Inr (Some p)" by blast
    with pg_policies.pfind_sound [OF wf q(1) [unfolded p]] acc show ?thesis
      by (auto simp: may_access_def authorize_answer_def)
  qed
  then obtain res where res: "authorize_answer oper ri q = Inr res" by blast
  have "run_state (Authorize NewAccessPolicyRepository oper (Some ri) oid) w = (Inr res, w)"
    using q(1) res by (auto simp: Authorize_def authorize_answer_def split: sum.splits option.splits if_splits)
  then have run: "run_state (CheckAuthorization pg_authorization oper (Some ri) oid) w = (Inr res, w)"
    by (simp add: CheckAuthorization_def pg_authorization_def NewAccessAuthorizationService_def)
  from pg_policies.check_sound [OF wf run [unfolded pg_authorization_def]] run show thesis by (intro that) auto
qed

section \<open>Upload, then download\<close>

text \<open>The cache does not hold an older state of the object.\<close>

definition fresh :: "world \<Rightarrow> OID \<Rightarrow> bool" where
  "fresh w oid \<longleftrightarrow> (\<forall>obj. cache_hit w oid = Some obj \<longrightarrow> lo_uploaded obj)"

lemma put_calm:
  assumes "w_faults w = []" and "int (length body) = len"
  shows "run_state (storage_PutObject NewS3Client key body len) w =
    (Inr (), w\<lparr>w_storage := (w_storage w)(key \<mapsto> body)\<rparr>)"
  using assms by (simp add: NewS3Client_def S3Client_PutObject_def s3_put_def run_external_ok)

lemma get_calm:
  assumes "w_faults w = []" and "w_storage w key = Some body"
  shows "run_state (storage_GetObject NewS3Client key) w = (Inr body, w)"
  using assms by (simp add: NewS3Client_def S3Client_GetObject_def s3_get_def run_external_ok)

lemma upload_available:
  assumes calm: "w_faults w = []" and s: "sound_world w" and d: "stored w oid = Some d"
    and ri: "NewRepositoryIdentifier (ow @ ''/'' @ re) = Inr ri" "may_access w OperationUpload ri oid"
    and size: "int (length body) = Size_Int64 (lo_size d)"
  obtains w' where "run_state (program_upload ow re oid body) w = (Inr (), w')" "w_faults w' = []" "fresh w' oid"
proof -
  from s have good: "coherent_world w" and wf: "wf_policies w" by (simp_all add: sound_world_def)
  from check_calm [OF calm wf ri(2)] obtain res where
    a: "run_state (CheckAuthorization pg_authorization OperationUpload (Some ri) oid) w = (Inr res, w)" "auth_Allowed res"
    by blast
  from cached_find_uploaded [OF calm good d] obtain obj w1 where
    f: "run_state (repo_FindByOID cached_repository oid) w = (Inr obj, w1)" "w_faults w1 = []" "same_object obj d"
    by blast
  let ?w2 = "w1\<lparr>w_storage := (w_storage w1)(GetStorageKey obj \<mapsto> body)\<rparr>"
  have len: "int (length body) = Size_Int64 (lo_size obj)" using f(3) size by (simp add: same_object_def)
  note p = put_calm [OF f(2) len, of "GetStorageKey obj"]
  from metadata.find_state [OF good f(1)] have good1: "coherent_world w1" by simp
  then have good2: "coherent_world ?w2" by simp
  let ?m = "MarkAsUploaded (w_now ?w2) obj"
  have "ahead w1 ?m" by (rule metadata.found_marked_ahead [OF good f(1)])
  then have ah: "ahead ?w2 ?m" by (simp add: ahead_def stored_def)
  have wfm: "wf_object ?m" using metadata.found_wf [OF good f(1)] by (simp add: wf_object_def MarkAsUploaded_def)
  have oid: "lo_oid ?m = oid" using metadata.find_sound [OF good f(1)] by (simp add: MarkAsUploaded_def)
  from cached_update_calm [OF _ good2 ah wfm] f(2) obtain v where
    u: "run_state (repo_Update cached_repository ?m) ?w2 = (Inr (), cache_put oid ?m v)" "w_faults v = []"
    unfolding oid by auto
  have "run_state (program_upload ow re oid body) w = (Inr (), cache_put oid ?m v)"
    using ri(1) a f(1) p u(1) by (simp add: program_upload_def ProxyUpload_Execute_def)
  moreover have "fresh (cache_put oid ?m v) oid"
    using cache_hit_put [OF wfm, of oid v] by (auto simp: fresh_def MarkAsUploaded_def)
  ultimately show thesis using u(2) by (intro that) simp_all
qed

lemma download_available:
  assumes calm: "w_faults w = []" and s: "sound_world w" and d: "stored w oid = Some d" "lo_uploaded d"
    and fresh: "fresh w oid" and ri: "NewRepositoryIdentifier (ow @ ''/'' @ re) = Inr ri" "owner_of w oid = Some ri"
    and body: "w_storage w (GetStorageKey d) = Some body"
  obtains w' where "run_state (program_download ow re oid) w = (Inr (body, Size_Int64 (lo_size d)), w')"
proof -
  from s have good: "coherent_world w" and wf: "wf_policies w" by (simp_all add: sound_world_def)
  have acc: "may_access w OperationDownload ri oid" using ri(2) by (simp add: may_access_def)
  from check_calm [OF calm wf acc] obtain res where
    a: "run_state (CheckAuthorization pg_authorization OperationDownload (Some ri) oid) w = (Inr res, w)" "auth_Allowed res"
    by blast
  from cached_find_uploaded [OF calm good d(1)] obtain obj w1 where
    f: "run_state (repo_FindByOID cached_repository oid) w = (Inr obj, w1)" "w_faults w1 = []" "same_object obj d"
      "cache_hit w oid \<in> {Some obj, None}" "cache_hit w oid = None \<Longrightarrow> obj = d"
    by blast
  have up: "lo_uploaded obj" using f(4,5) d(2) fresh by (cases "cache_hit w oid") (auto simp: fresh_def)
  have key: "GetStorageKey obj = GetStorageKey d" "lo_size obj = lo_size d"
    using f(3) by (simp_all add: same_object_def getter_simps)
  have "w_storage w1 = w_storage w" using metadata.find_state [OF good f(1)] by (simp add: same_elsewhere_def)
  then have g: "run_state (storage_GetObject NewS3Client (GetStorageKey obj)) w1 = (Inr body, w1)"
    using body key by (intro get_calm [OF f(2)]) simp
  have "run_state (program_download ow re oid) w = (Inr (body, Size_Int64 (lo_size d)), w1)"
    using ri(1) a f(1) up g key by (simp add: program_download_def ProxyDownload_Execute_def)
  then show thesis by (rule that)
qed

section \<open>Verification asks for no content\<close>

lemma verify_available:
  assumes calm: "w_faults w = []" and s: "sound_world w" and d: "stored w (OID oid) = Some d"
    and size: "Size_Int64 (lo_size d) = sz"
  obtains w' where "run_state (program_verify oid sz) w = (Inr (), w')" "w_storage w' = w_storage w"
proof -
  from s have good: "coherent_world w" by (simp add: sound_world_def)
  from metadata.stored_wf(1) [OF good d] have "wf_object d" .
  moreover from metadata.stored_wf(2) [OF good d] have "lo_oid d = OID oid" .
  ultimately have ctor: "NewOID oid = Inr (OID oid)" "NewSize sz = Inr (Size sz)"
    using size by (auto simp: wf_object_def NewOID_def NewSize_def)
  from cached_find_uploaded [OF calm good d] obtain obj w1 where
    f: "run_state (repo_FindByOID cached_repository (OID oid)) w = (Inr obj, w1)" "w_faults w1 = []" "same_object obj d"
    by blast
  from metadata.find_state [OF good f(1)] have w1: "coherent_world w1" "w_storage w1 = w_storage w"
    by (auto simp: same_elsewhere_def)
  let ?m = "MarkAsUploaded (w_now w1) obj"
  have ah: "ahead w1 ?m" by (rule metadata.found_marked_ahead [OF good f(1)])
  have wfm: "wf_object ?m" using metadata.found_wf [OF good f(1)] by (simp add: wf_object_def MarkAsUploaded_def)
  from cached_update_calm [OF f(2) w1(1) ah wfm] obtain v where
    u: "run_state (repo_Update cached_repository ?m) w1 = (Inr (), cache_put (lo_oid ?m) ?m v)" .
  obtain q w3 where q: "run_state (redis_deleteBatchUploadKey oid) (cache_put (lo_oid ?m) ?m v) = (q, w3)" by fastforce
  have run: "run_state (program_verify oid sz) w = (Inr (), w3)"
    using f(1) u q size f(3) by (simp add: program_verify_def VerifyUpload_def ctor same_object_def)
  from transfers.VerifyUpload_run [OF good _ run [unfolded program_verify_def]] s
  have "w_storage w3 = w_storage w" by (simp add: sound_world_def)
  with run show thesis by (rule that)
qed

section \<open>A first upload request\<close>

lemma cached_save_calm:
  assumes calm: "w_faults w = []" and obj: "wf_object obj" and none: "stored w (lo_oid obj) = None"
  obtains w' where "run_state (repo_Save cached_repository obj) w = (Inr (), cache_put (lo_oid obj) obj w')"
    "w_faults w' = []"
proof -
  have "\<not> 64 < length (OID_String (lo_oid obj))" "\<not> 16 < length (LFSObject_HashAlgo obj)"
    using obj by (auto simp: wf_object_def getter_simps oidPattern_def)
  with none obtain v where "insert_object (domainToRow obj) w = (Inr (), v)" "w_faults v = w_faults w"
    by (auto simp: insert_object_def domainToRow_def stored_def)
  with calm have "run_state (repo_Save NewLFSObjectRepository obj) w = (Inr (), v)" "w_faults v = []"
    by (simp_all add: NewLFSObjectRepository_def pg_Save_def LFSObjectDAO_Insert_def sql_insert_object_def run_external_ok)
  then show thesis using cacheMetadata_calm [of v "lo_oid obj" obj] caching_objects.caching_Save_run [of obj w]
    by (intro that [of v]) (simp_all add: cached_repository_def NewCachingLFSObjectRepository_def)
qed

lemma policy_save_calm:
  assumes calm: "w_faults w = []" and row: "w_objects w (OID_String oid) \<noteq> None" "oidPattern (OID_String oid)"
    and ri: "length (FullName ri) \<le> 255"
  obtains w' where "run_state (createAccessPolicy NewAccessPolicyRepository oid (Some ri)) w = (Inr (), w')" "w_faults w' = []"
proof -
  have "\<not> 64 < length (OID_String oid)" using row(2) by (simp add: oidPattern_def)
  then obtain v where "upsert_policy \<lparr>pr_ID = 0, pr_LfsObjectOid = OID_String oid, pr_Repository = FullName ri,
      pr_CreatedAt = w_now w\<rparr> w = (Inr (), v)" "w_faults v = w_faults w"
    using row ri by (cases "w_policies w (OID_String oid)") (auto simp: upsert_policy_def)
  with calm show thesis
    by (intro that [of v]) (simp_all add: createAccessPolicy_def NewAccessPolicyID_def NewAccessPolicy_def
        NewAccessPolicyRepository_def pg_policy_Save_def accessPolicyToRow_def AccessPolicyDAO_Upsert_def
        sql_upsert_policy_def run_external_ok)
qed

lemma cache_hit_stored:
  assumes "coherent_world w" and "stored w oid = None"
  shows "cache_hit w oid = None"
proof (cases "cache_hit w oid")
  case (Some obj)
  then obtain m where "redis_peek w (gen_MetadataKey NewCacheKeyGenerator (OID_String oid)) = Some m" "cached_object m = Some obj"
    by (auto simp: cache_hit_def cache_selectors bind_eq_Some_conv)
  from coherentD [where peek = redis_peek, OF _ this] assms show ?thesis by (auto simp: coherent_world_def behind_def)
qed simp

lemma upload_object_available:
  assumes calm: "w_faults w = []" and good: "coherent_world w" and none: "stored w oid = None"
    and oid: "oidPattern (OID_String oid)" "0 \<le> Size_Int64 sz"
  obtains w' where "run_state (HandleUploadObject cached_repository NewProxyActionURLGenerator GenerateStorageKey
      baseURL ow re oid sz ''sha256'' ah) w =
      (upload_response NewProxyActionURLGenerator baseURL ow re oid sz ah, w')" "w_faults w' = []"
proof -
  from good have wf: "wf_objects w" by (simp add: coherent_world_def)
  have f: "run_state (repo_FindByOID cached_repository oid) w = (Inl (Domain ErrNotFound), w)"
    using cached_find_calm [OF calm wf] cache_hit_stored [OF good none] none by simp
  from GenerateStorageKey_sha256 [OF oid(1)] obtain k where k: "GenerateStorageKey (OID_String oid) ''sha256'' = Inr k" "k \<noteq> []"
    by auto
  have h: "NewHashAlgorithm ''sha256'' = Inr (HashAlgorithm ''sha256'')" by (simp add: NewHashAlgorithm_Inr)
  obtain obj where obj: "NewLFSObject (w_now w) oid sz (HashAlgorithm ''sha256'') k = Inr obj" "lo_oid obj = oid" "wf_object obj"
    using k(2) oid by (cases "NewLFSObject (w_now w) oid sz (HashAlgorithm ''sha256'') k")
      (auto simp: NewLFSObject_Inr wf_object_def NewLFSObject_def NewStorageKey_def split: if_splits)
  from cached_save_calm [OF calm obj(3)] none obj(2) obtain v where
    "run_state (repo_Save cached_repository obj) w = (Inr (), cache_put oid obj v)" "w_faults v = []" by auto
  then show thesis
    by (intro that [of "cache_put oid obj v"]) (simp_all add: HandleUploadObject_def f k h obj)
qed

lemma unknown_unowned:
  assumes wf: "wf_policies w" and none: "stored w oid = None"
  shows "owner_of w oid = None"
proof (cases "w_policies w (OID_String oid)")
  case (Some row)
  with wf have "w_objects w (OID_String oid) \<noteq> None" unfolding wf_policies_def by blast
  with none show ?thesis by (simp add: stored_def)
qed (simp add: owner_of_def)

definition first_upload :: "RepositoryIdentifier \<Rightarrow> RequestObject \<Rightarrow> BatchRequest" where
  "first_upload ri obj = \<lparr>br_operation = OperationUpload, br_objects = [obj], br_transfers = [''basic''], br_ref = None,
     br_hashAlgo = ''sha256'', br_repository = Some ri\<rparr>"

lemma batch_available:
  assumes calm: "w_faults w = []" and s: "sound_world w" and none: "stored w (OID (ro_oid obj)) = None"
    and obj: "oidPattern (ro_oid obj)" "0 \<le> ro_size obj" and ri: "valid_repository ri" "length (FullName ri) \<le> 255"
  obtains b w' where "run_state (uc_upload program_batch baseURL ow re (first_upload ri obj) ah) w = (Inr b, w')"
    "w_faults w' = []" "sound_world w'" "owner_of w' (OID (ro_oid obj)) = Some ri"
    "\<exists>d. stored w' (OID (ro_oid obj)) = Some d \<and> Size_Int64 (lo_size d) = ro_size obj"
    "\<exists>resp a u. bs_objects b = [resp] \<and> rs_actions resp = Some a \<and> as_upload a = Some u \<and>
       ac_href u = GenerateUploadURL baseURL ow re (ro_oid obj)"
proof -
  let ?oid = "OID (ro_oid obj)" and ?sz = "Size (ro_size obj)"
  from s have good: "coherent_world w" and wf: "wf_policies w" by (simp_all add: sound_world_def)
  have own: "owner_of w ?oid = None" by (rule unknown_unowned [OF wf none])
  have acc: "may_access w OperationUpload ri ?oid" using own by (simp add: may_access_def)
  from check_calm [OF calm wf acc] own obtain res where
    a: "run_state (CheckAuthorization pg_authorization OperationUpload (Some ri) ?oid) w = (Inr res, w)"
      "auth_Allowed res" "auth_IsNewObject res" by blast
  from upload_object_available [OF calm good none, of ?sz baseURL ow re ah] obj obtain w1 where
    u: "run_state (HandleUploadObject cached_repository NewProxyActionURLGenerator GenerateStorageKey
      baseURL ow re ?oid ?sz ''sha256'' ah) w =
      (upload_response NewProxyActionURLGenerator baseURL ow re ?oid ?sz ah, w1)" "w_faults w1 = []" by auto
  from metadata.HandleUploadObject_run [OF good _ _ u(1)] obj none obtain d where
    d: "stored w1 ?oid = Some d" "lo_size d = ?sz" by auto
  then have row: "w_objects w1 (OID_String ?oid) \<noteq> None" by (auto simp: stored_def)
  from policy_save_calm [OF u(2) row _ ri(2)] obj(1) obtain w2 where
    p: "run_state (createAccessPolicy NewAccessPolicyRepository ?oid (Some ri)) w1 = (Inr (), w2)" "w_faults w2 = []" by auto
  let ?resp = "upload_response NewProxyActionURLGenerator baseURL ow re ?oid ?sz ah"
  let ?b = "NewBatchResponse DefaultTransferType [?resp] ''sha256''"
  have v: "BatchRequest_Validate (first_upload ri obj) = None"
    using obj by (simp add: BatchRequest_Validate_None first_upload_def)
  have ctor: "NewOID (ro_oid obj) = Inr ?oid" "NewSize (ro_size obj) = Inr ?sz"
    using obj by (simp_all add: NewOID_Inr NewSize_Inr)
  have run: "run_state (uc_upload program_batch baseURL ow re (first_upload ri obj) ah) w = (Inr ?b, w2)"
    using v ctor a u(1) p(1)
    by (simp add: program_batch_def NewBatchUseCase_def HandleBatchUpload_def first_upload_def Let_def)
  then have up: "run_state (HandleBatchUpload (HandleUploadObject cached_repository NewProxyActionURLGenerator
      GenerateStorageKey) (NewAccessAuthorizationService NewAccessPolicyRepository) NewAccessPolicyRepository
      baseURL ow re (first_upload ri obj) ah) w = (Inr ?b, w2)"
    by (simp add: program_batch_def NewBatchUseCase_def pg_authorization_def)
  have br: "br_repository (first_upload ri obj) = Some ri" by (simp add: first_upload_def)
  from service.HandleBatchUpload_run [OF good wf br ri(1) up]
  have e: "sound_world w2" "upload_granted ri w2 ?resp" "upload_effect GenerateStorageKey ''sha256'' ri w w2"
    by (auto simp: sound_world_def NewBatchResponse_def)
  from metadata.HandleUploadObject_run [OF good _ _ u(1)] obj
  have w1: "coherent_world w1" "same_elsewhere w w1" "table_step ?oid w w1" by auto
  from service.create_policy [OF w1(1) wf_policies_kept [OF w1(2,3) wf] ri(1) _ p(1)] obj(1)
  have "same_metadata w1 w2" "owner_of w2 = (owner_of w1)(?oid \<mapsto> ri)" by auto
  then have fin: "owner_of w2 ?oid = Some ri" "stored w2 ?oid = Some d"
    using d(1) by (simp_all add: same_metadata_stored)
  show thesis
  proof (rule that [OF run p(2) e(1) fin(1)])
    show "\<exists>d. stored w2 ?oid = Some d \<and> Size_Int64 (lo_size d) = ro_size obj" using fin(2) d(2) by simp
    show "\<exists>resp a u. bs_objects ?b = [resp] \<and> rs_actions resp = Some a \<and> as_upload a = Some u \<and>
        ac_href u = GenerateUploadURL baseURL ow re (ro_oid obj)"
      by (simp add: NewBatchResponse_def upload_response_def NewResponseObject_def NewActions_def NewAction_def
          Let_def NewProxyActionURLGenerator_def)
  qed
qed

end
