(* ===== verification/Races.thy ===== *)
theory Races
  imports Interleaving Availability
begin

text \<open>
  What requests can do to each other, as schedules of the turns of Interleaving with nothing failing: two
  repositories that announce the same new object, a lookup overtaken by an upload, and two sign-ins that
  share the redirect URI of the token exchanger.
\<close>

section \<open>Two claims\<close>

text \<open>An announcement of one object, cut after the check of access.\<close>

definition announce :: "RepositoryIdentifier \<Rightarrow> RequestObject \<Rightarrow> transfer" where
  "announce ri obj = Announce [] (ri_owner ri) (ri_name ri) (first_upload ri obj) []"

definition announce_rest :: "RepositoryIdentifier \<Rightarrow> RequestObject \<Rightarrow> gerror + AuthorizationResult \<Rightarrow> (world, transfer \<times> answer) task" where
  "announce_rest ri obj a = task_bind (task_bind (task_bind (case a of
       Inl err \<Rightarrow> Done (Inl err)
     | Inr authResult \<Rightarrow>
         if \<not> auth_Allowed authResult then Done (Inl (Usecase UErrAccessDenied))
         else task_bind (upload_object_turns [] (ri_owner ri) (ri_name ri) (OID (ro_oid obj)) (Size (ro_size obj)) ''sha256'' [])
           (\<lambda>respObj. task_bind (claim_turns authResult respObj (OID (ro_oid obj)) (Some ri)) (\<lambda>p. case p of
              Inl err \<Rightarrow> Done (Inl (Wrap err))
            | Inr u \<Rightarrow> task_bind (upload_batch_turns [] (ri_owner ri) (ri_name ri) (Some ri) ''sha256'' [] []) (\<lambda>rest. case rest of
                Inl err \<Rightarrow> Done (Inl err) | Inr respObjs \<Rightarrow> Done (Inr (respObj # respObjs))))))
     (\<lambda>r. case r of Inl err \<Rightarrow> Done (Inl err)
        | Inr objects \<Rightarrow> Done (Inr (NewBatchResponse DefaultTransferType objects ''sha256''))))
     (\<lambda>r. Done (Announced r))) (\<lambda>x. Done (announce ri obj, x))"

lemma announce_cut:
  assumes "oidPattern (ro_oid obj)" "0 \<le> ro_size obj"
  shows "in_flight (announce ri obj) =
    and_then (CheckAuthorization pg_authorization OperationUpload (Some ri) (OID (ro_oid obj))) (announce_rest ri obj)"
proof -
  have v: "BatchRequest_Validate (first_upload ri obj) = None"
    using assms by (simp add: BatchRequest_Validate_None first_upload_def)
  have ctor: "NewOID (ro_oid obj) = Inr (OID (ro_oid obj))" "NewSize (ro_size obj) = Inr (Size (ro_size obj))"
    using assms by (simp_all add: NewOID_Inr NewSize_Inr)
  show ?thesis
    by (simp add: in_flight_def announce_def batch_turns_def v Let_def ctor and_then_bind announce_rest_def [abs_def])
      (simp add: first_upload_def announce_def ctor and_then_bind)
qed

lemma in_flight_rest: "run_task (in_flight q) = State_Monad.bind (serve_transfer q) (\<lambda>a. State_Monad.return (q, a))"
  by (simp add: in_flight_def run_transfer_turns)

text \<open>The object is known and unclaimed for the request, so it only looks it up and claims it.\<close>

lemma announce_rest_known:
  assumes calm: "w_faults w = []" and s: "sound_world w" and obj: "oidPattern (ro_oid obj)" "0 \<le> ro_size obj"
    and d: "stored w (OID (ro_oid obj)) = Some d" "Size_Int64 (lo_size d) = ro_size obj"
    and ri: "valid_repository ri" "length (FullName ri) \<le> 255"
    and res: "auth_Allowed res" "auth_IsNewObject res"
  obtains b w' where "run_state (run_task (announce_rest ri obj (Inr res))) w = ((announce ri obj, Announced (Inr b)), w')"
    "\<forall>resp \<in> set (bs_objects b). rs_error resp = None" "owner_of w' = (owner_of w)(OID (ro_oid obj) \<mapsto> ri)" "w_faults w' = []"
proof -
  let ?oid = "OID (ro_oid obj)" and ?sz = "Size (ro_size obj)"
  from s have good: "coherent_world w" and wf: "wf_policies w" by (simp_all add: sound_world_def)
  from cached_find_uploaded [OF calm good d(1)] obtain e v where
    f: "run_state (repo_FindByOID cached_repository ?oid) w = (Inr e, v)" "w_faults v = []" "same_object e d" by blast
  then have size: "Size_Int64 (lo_size e) = ro_size obj" using d(2) same_fields by metis
  obtain resp where u: "run_state (HandleUploadObject cached_repository NewProxyActionURLGenerator GenerateStorageKey
      [] (ri_owner ri) (ri_name ri) ?oid ?sz ''sha256'' []) w = (resp, v)" "rs_error resp = None"
    using f(1) size by (cases "lo_uploaded e") (auto simp: HandleUploadObject_def NewResponseObject_def)
  from metadata.HandleUploadObject_run [OF good _ _ u(1)] obj d(1)
  have v: "coherent_world v" "same_elsewhere w v" "table_step ?oid w v" "stored v = stored w" by auto
  then have wfv: "wf_policies v" using wf_policies_kept wf by blast
  have "stored v ?oid = Some d" using d(1) v(4) by simp
  then have "w_objects v (OID_String ?oid) \<noteq> None" by (auto simp: stored_def)
  from policy_save_calm [OF f(2) this _ ri(2)] obj(1) obtain w' where
    p: "run_state (createAccessPolicy NewAccessPolicyRepository ?oid (Some ri)) v = (Inr (), w')" "w_faults w' = []" by auto
  from service.create_policy [OF v(1) wfv ri(1) _ p(1)] obj(1) same_elsewhere_owner [OF v(2)]
  have own: "owner_of w' = (owner_of w)(?oid \<mapsto> ri)" by auto
  show thesis
  proof (rule that [of "NewBatchResponse DefaultTransferType [resp] ''sha256''" w'])
    show "run_state (run_task (announce_rest ri obj (Inr res))) w =
        ((announce ri obj, Announced (Inr (NewBatchResponse DefaultTransferType [resp] ''sha256''))), w')"
      using u p(1) res by (simp add: announce_rest_def run_task_cases cong: sum.case_cong if_cong)
    show "\<forall>r \<in> set (bs_objects (NewBatchResponse DefaultTransferType [resp] ''sha256'')). rs_error r = None"
      using u(2) by (simp add: NewBatchResponse_def)
  qed (fact own, fact p(2))
qed

lemma overtaken:
  fixes body :: string
  assumes calm: "w_faults w = []" and s: "sound_world w" and none: "stored w (OID oid) = None" and oid: "oidPattern oid"
    and ra: "valid_repository ra" "length (FullName ra) \<le> 255" and rb: "valid_repository rb" "length (FullName rb) \<le> 255"
  defines "obj \<equiv> \<lparr>ro_oid = oid, ro_size = int (length body)\<rparr>"
  shows "\<exists>us v us' v' b b'. interleaved {} env
      [in_flight (announce ra obj), in_flight (Send (ri_owner ra) (ri_name ra) (OID oid) body), in_flight (announce rb obj)] w us v \<and>
    us ! 0 = Done (announce ra obj, Announced (Inr b)) \<and>
    us ! 1 = Done (Send (ri_owner ra) (ri_name ra) (OID oid) body, Sent (Inr ())) \<and> owner_of v (OID oid) = Some ra \<and>
    interleaved {} env us v us' v' \<and> us' ! 2 = Done (announce rb obj, Announced (Inr b')) \<and>
    (\<forall>resp \<in> set (bs_objects b'). rs_error resp = None) \<and> owner_of v' (OID oid) = Some rb"
proof -
  let ?A = "in_flight (announce ra obj)" and ?S = "in_flight (Send (ri_owner ra) (ri_name ra) (OID oid) body)"
    and ?B = "in_flight (announce rb obj)"
  have ok: "oidPattern (ro_oid obj)" "0 \<le> ro_size obj" "ro_oid obj = oid" "ro_size obj = int (length body)"
    using oid by (simp_all add: obj_def)
  from s have wf: "wf_policies w" by (simp add: sound_world_def)
  have acc: "may_access w OperationUpload rb (OID oid)" and own: "owner_of w (OID oid) = None"
    using unknown_unowned [OF wf none] by (simp_all add: may_access_def)
  from check_calm [OF calm wf acc] own obtain res where
    res: "run_state (CheckAuthorization pg_authorization OperationUpload (Some rb) (OID oid)) w = (Inr res, w)"
      "auth_Allowed res" "auth_IsNewObject res" by blast
  have one: "interleaved {} env [?A, ?S, ?B] w [?A, ?S, announce_rest rb obj (Inr res)] w"
    using interleaved_call [OF interleaved.still [of "{}" env "[?A, ?S, ?B]" w], of 2, OF _ _ res(1), of "announce_rest rb obj"]
      announce_cut [OF ok(1,2), of rb] ok(3) by simp
  obtain b w1 d where batch: "run_state (uc_upload program_batch [] (ri_owner ra) (ri_name ra) (first_upload ra obj) []) w = (Inr b, w1)"
    and w1: "w_faults w1 = []" "sound_world w1" "owner_of w1 (OID oid) = Some ra" "stored w1 (OID oid) = Some d"
      "Size_Int64 (lo_size d) = int (length body)"
    by (rule batch_available [OF calm s _ ok(1,2) ra, of "[]" "ri_owner ra" "ri_name ra" "[]"]) (use none ok(3,4) in auto)
  have "run_state (run_task ?A) w = ((announce ra obj, Announced (Inr b)), w1)"
    unfolding in_flight_rest announce_def serve_transfer.simps HandleBatchRequest_def
    using batch by (simp add: first_upload_def OperationUpload_def OperationDownload_def)
  with interleaved_rest [OF one, of 0] have two: "interleaved {} env [?A, ?S, ?B] w
      [Done (announce ra obj, Announced (Inr b)), ?S, announce_rest rb obj (Inr res)] w1" by simp
  have name: "NewRepositoryIdentifier (ri_owner ra @ ''/'' @ ri_name ra) = Inr ra"
    using NewRepositoryIdentifier_FullName [OF ra(1)] by (simp add: FullName_def)
  obtain w2 where up: "run_state (program_upload (ri_owner ra) (ri_name ra) (OID oid) body) w1 = (Inr (), w2)" and w2: "w_faults w2 = []"
    by (rule upload_available [OF w1(1,2,4) name]) (simp_all add: may_access_def w1)
  with interleaved_rest [OF two, of 1] have three: "interleaved {} env [?A, ?S, ?B] w
      [Done (announce ra obj, Announced (Inr b)), Done (Send (ri_owner ra) (ri_name ra) (OID oid) body, Sent (Inr ())),
       announce_rest rb obj (Inr res)] w2" by (simp add: in_flight_rest)
  from transfers.ProxyUpload_run [of w1 "ri_owner ra" "ri_name ra" "OID oid" body "Inr ()" w2] up w1(2)
  have u: "sound_world w2" "put_effect (OID oid) body w1 w2"
    and "\<exists>d'. stored w2 (OID oid) = Some d' \<and> int (length body) = Size_Int64 (lo_size d')"
    by (auto simp: sound_world_def program_upload_def pg_authorization_def)
  then obtain d' where d': "stored w2 (OID oid) = Some d'" "Size_Int64 (lo_size d') = int (length body)" by auto
  have own2: "owner_of w2 (OID oid) = Some ra" using u(2) w1(3) by (simp add: put_effect_def)
  obtain b' w3 where last: "run_state (run_task (announce_rest rb obj (Inr res))) w2 = ((announce rb obj, Announced (Inr b')), w3)"
    and b': "\<forall>resp \<in> set (bs_objects b'). rs_error resp = None" and own3: "owner_of w3 = (owner_of w2)(OID oid \<mapsto> rb)"
    by (rule announce_rest_known [OF w2 u(1) ok(1,2) _ _ rb res(2,3), of d']) (use d' ok(3,4) in auto)
  let ?us = "[Done (announce ra obj, Announced (Inr b)), Done (Send (ri_owner ra) (ri_name ra) (OID oid) body, Sent (Inr ())),
      announce_rest rb obj (Inr res)]"
  from interleaved_rest [OF interleaved.still [of "{}" env ?us w2], of 2] last
  have four: "interleaved {} env ?us w2 (?us[2 := Done (announce rb obj, Announced (Inr b'))]) w3" by simp
  show ?thesis
    by (intro exI conjI, rule three, simp, simp, rule own2, rule four, simp, rule b', simp add: own3)
qed

section \<open>A lookup overtaken by an upload\<close>

text \<open>A download whose lookup is done as far as \<open>t\<close>.\<close>

definition fetch :: "RepositoryIdentifier \<Rightarrow> OID \<Rightarrow> transfer" where
  "fetch ri oid = Fetch (ri_owner ri) (ri_name ri) oid"

definition fetch_rest :: "RepositoryIdentifier \<Rightarrow> OID \<Rightarrow> LFSObject turns \<Rightarrow> (world, transfer \<times> answer) task" where
  "fetch_rest ri oid t = task_bind (task_bind (task_bind t (\<lambda>f. case f of
       Inl err \<Rightarrow>
         if errors_Is err (Domain ErrNotFound) then Done (Inl (Usecase UErrObjectNotFound)) else Done (Inl err)
     | Inr obj \<Rightarrow>
         if \<not> lo_uploaded obj then Done (Inl (Usecase UErrNotUploaded))
         else and_then (storage_GetObject NewS3Client (GetStorageKey obj)) (\<lambda>s. case s of
           Inl err \<Rightarrow> Done (Inl err) | Inr stream \<Rightarrow> Done (Inr (stream, Size_Int64 (lo_size obj))))))
     (\<lambda>r. Done (Fetched r))) (\<lambda>x. Done (fetch ri oid, x))"

lemma fetch_rest_call: "fetch_rest ri oid (and_then m k) = and_then m (\<lambda>a. fetch_rest ri oid (k a))"
  by (simp add: fetch_rest_def and_then_bind)

lemma fetch_call:
  assumes "interleaved {} env ts w [x, fetch_rest ri oid (and_then m k)] v" and "run_state m v = (a, v')"
  shows "interleaved {} env ts w [x, fetch_rest ri oid (k a)] v'"
  using interleaved_call [OF assms(1), of 1, OF _ _ assms(2), of "\<lambda>a. fetch_rest ri oid (k a)"] by (simp add: fetch_rest_call)

lemma fetch_cut:
  assumes "valid_repository ri"
  obtains k where "in_flight (fetch ri oid) = and_then (CheckAuthorization pg_authorization OperationDownload (Some ri) oid) k"
    "\<And>res. auth_Allowed res \<Longrightarrow> k (Inr res) = fetch_rest ri oid (find_turns oid)"
proof -
  have name: "NewRepositoryIdentifier (ri_owner ri @ ''/'' @ ri_name ri) = Inr ri"
    using NewRepositoryIdentifier_FullName [OF assms] by (simp add: FullName_def)
  show thesis
    by (rule that, simp add: in_flight_def fetch_def proxy_download_turns_def name [simplified] and_then_bind)
      (simp add: fetch_rest_def fetch_def)
qed

text \<open>The entry a reader puts back is the entry it has read.\<close>

lemma cache_hit_put_back:
  assumes "wf_object d" and "int64_range (Size_Int64 (lo_size d))"
  shows "cache_hit (cache_put oid d w) oid = Some d"
proof -
  have "redis_live (cache_put oid d w) (MetadataKey (OID_String oid)) = Some (RDoc (cachedMetadata_json (metadata_of d)))"
    by (simp add: redis_live_def cache_put_def)
  moreover have "cm_Size (metadata_of d) = Size_Int64 (lo_size d)" by (simp add: metadata_of_def)
  ultimately have "redis_peek (cache_put oid d w) (MetadataKey (OID_String oid)) = Some (metadata_of d)"
    using assms(2) by (simp add: redis_peek_def redis_read_def redis_doc_def cachedMetadata_roundtrip)
  moreover have "cached_object (metadata_of d) = Some d"
    using assms(1) by (cases "lo_oid d"; cases "lo_size d"; cases "lo_hashAlgo d"; cases "lo_storageKey d"; cases d)
      (auto simp: cached_object_def metadata_of_def getter_simps NewOID_def NewSize_def ReconstructLFSObject_def
        NewHashAlgorithm_def NewStorageKey_def allowedHashAlgorithms_def wf_object_def)
  ultimately show ?thesis by (simp add: cache_hit_def)
qed

lemma cached_entry_calm:
  assumes "w_faults w = []"
  shows "\<exists>c. run_state (cached_entry oid) w = (c, w) \<and>
    (case c of Inl err \<Rightarrow> None | Inr cached \<Rightarrow> cached_object cached) = cache_hit w oid"
proof (cases "redis_read decode_cachedMetadata w (MetadataKey (OID_String oid))")
  case None
  with GetJSON_calm(2) [OF assms] show ?thesis
    by (fastforce simp: cached_entry_def cache_selectors cache_hit_def redis_peek_def)
next
  case (Some m)
  with GetJSON_calm(1) [OF assms, of decode_cachedMetadata "MetadataKey (OID_String oid)"] show ?thesis
    by (simp add: cached_entry_def cache_selectors cache_hit_def redis_peek_def)
qed

lemma cache_put_sound:
  assumes calm: "w_faults w = []" and s: "sound_world w" and obj: "behind w obj"
  shows "sound_world (cache_put (lo_oid obj) obj w)"
proof -
  from s have good: "coherent_world w" and wf: "wf_policies w" by (simp_all add: sound_world_def)
  have run: "run_state (fill_entry obj (lo_oid obj)) w = (Inr (), cache_put (lo_oid obj) obj w)"
    using cacheMetadata_calm [OF calm] by (simp add: fill_entry_def)
  have "coherent_world (cache_put (lo_oid obj) obj w)"
    using caching_objects.fill_keeps [OF _ _ obj run [unfolded fill_entry_def]] good by (simp add: coherent_world_def)
  moreover have "wf_policies (cache_put (lo_oid obj) obj w)" using wf by (simp add: wf_policies_def cache_put_def)
  ultimately show ?thesis by (simp add: sound_world_def)
qed

lemma put_effect_behind:
  assumes "put_effect oid body w w'" and d: "stored w oid = Some d" "lo_oid d = oid" "\<not> lo_uploaded d"
  shows "behind w' d"
  using assms by (auto simp: put_effect_def marked_def behind_def same_object_sym)

lemma stale_download:
  assumes calm: "w_faults w = []" and s: "sound_world w" and ri: "valid_repository ri" "owner_of w oid = Some ri"
    and hit: "cache_hit w oid = Some d" "\<not> lo_uploaded d"
  shows "run_state (program_download (ri_owner ri) (ri_name ri) oid) w = (Inl (Usecase UErrNotUploaded), w)"
proof -
  from s have good: "coherent_world w" and wf: "wf_policies w" by (simp_all add: sound_world_def)
  have name: "NewRepositoryIdentifier (ri_owner ri @ ''/'' @ ri_name ri) = Inr ri"
    using NewRepositoryIdentifier_FullName [OF ri(1)] by (simp add: FullName_def)
  have acc: "may_access w OperationDownload ri oid" using ri(2) by (simp add: may_access_def)
  from check_calm [OF calm wf acc] obtain res where
    a: "run_state (CheckAuthorization pg_authorization OperationDownload (Some ri) oid) w = (Inr res, w)" "auth_Allowed res" by blast
  have "run_state (repo_FindByOID cached_repository oid) w = (Inr d, w)"
    using cached_find_calm [OF calm, of oid] good hit(1) by (simp add: coherent_world_def)
  with a hit(2) name show ?thesis by (simp add: program_download_def ProxyDownload_Execute_def)
qed

lemma overtaken_lookup:
  fixes body :: string
  assumes calm: "w_faults w = []" and s: "sound_world w" and d: "stored w oid = Some d" "\<not> lo_uploaded d"
    and ri: "valid_repository ri" "owner_of w oid = Some ri" and hit: "cache_hit w oid = None"
    and size: "int (length body) = Size_Int64 (lo_size d)" "int64_range (Size_Int64 (lo_size d))"
  shows "\<exists>us v v'. interleaved {} env [in_flight (Send (ri_owner ri) (ri_name ri) oid body), in_flight (fetch ri oid)] w us v \<and>
    us ! 0 = Done (Send (ri_owner ri) (ri_name ri) oid body, Sent (Inr ())) \<and> list_all finished us \<and>
    (\<exists>d'. stored v oid = Some d' \<and> lo_uploaded d' \<and> w_storage v (GetStorageKey d') = Some body) \<and>
    run_state (program_download (ri_owner ri) (ri_name ri) oid) v = (Inl (Usecase UErrNotUploaded), v')"
proof -
  let ?q = "Send (ri_owner ri) (ri_name ri) oid body"
  let ?S = "in_flight ?q" and ?F = "in_flight (fetch ri oid)"
  from s have good: "coherent_world w" and wf: "wf_policies w" by (simp_all add: sound_world_def)
  then have wfo: "wf_objects w" by (simp add: coherent_world_def)
  have name: "NewRepositoryIdentifier (ri_owner ri @ ''/'' @ ri_name ri) = Inr ri"
    using NewRepositoryIdentifier_FullName [OF ri(1)] by (simp add: FullName_def)
  have acc: "may_access w OperationDownload ri oid" using ri(2) by (simp add: may_access_def)
  from check_calm [OF calm wf acc] obtain res where
    res: "run_state (CheckAuthorization pg_authorization OperationDownload (Some ri) oid) w = (Inr res, w)" "auth_Allowed res" by blast
  obtain k where k: "?F = and_then (CheckAuthorization pg_authorization OperationDownload (Some ri) oid) k"
    "k (Inr res) = fetch_rest ri oid (find_turns oid)" using fetch_cut [OF ri(1)] res(2) by metis
  have one: "interleaved {} env [?S, ?F] w [?S, fetch_rest ri oid (find_turns oid)] w"
    using interleaved_call [OF interleaved.still [of "{}" env "[?S, ?F]" w], of 1, OF _ _ res(1), of k] k by simp
  obtain c where entry: "run_state (cached_entry oid) w = (c, w)" "(case c of Inl err \<Rightarrow> None | Inr cached \<Rightarrow> cached_object cached) = None"
    using cached_entry_calm [OF calm, of oid] hit by metis
  have two: "interleaved {} env [?S, ?F] w [?S, fetch_rest ri oid (and_then (repo_FindByOID NewLFSObjectRepository oid)
      (\<lambda>r. case r of Inl err \<Rightarrow> Done (Inl err) | Inr obj \<Rightarrow> and_then (fill_entry obj oid) (\<lambda>u. Done (Inr obj))))] w"
    using fetch_call [OF one [unfolded find_turns_def] entry(1)] unfolding entry(2) by simp
  have load: "run_state (repo_FindByOID NewLFSObjectRepository oid) w = (Inr d, w)"
    using pg_FindByOID_calm [OF calm wfo] d(1) by simp
  have three: "interleaved {} env [?S, ?F] w [?S, fetch_rest ri oid (and_then (fill_entry d oid) (\<lambda>u. Done (Inr d)))] w"
    using fetch_call [OF two load] by simp
  obtain w2 where up: "run_state (program_upload (ri_owner ri) (ri_name ri) oid body) w = (Inr (), w2)" and w2: "w_faults w2 = []"
    by (rule upload_available [OF calm s d(1) name _ size(1)]) (use ri(2) in \<open>simp_all add: may_access_def\<close>)
  with interleaved_rest [OF three, of 0] have four: "interleaved {} env [?S, ?F] w
      [Done (?q, Sent (Inr ())), fetch_rest ri oid (and_then (fill_entry d oid) (\<lambda>u. Done (Inr d)))] w2"
    by (simp add: in_flight_rest)
  from transfers.ProxyUpload_run [of w "ri_owner ri" "ri_name ri" oid body "Inr ()" w2] up s
  obtain d' where u: "sound_world w2" "put_effect oid body w w2" "stored w2 oid = Some d'" "lo_uploaded d'" "w_storage w2 (GetStorageKey d') = Some body"
    by (auto simp: sound_world_def program_upload_def pg_authorization_def)
  have own2: "owner_of w2 oid = Some ri" using u(2) ri(2) by (simp add: put_effect_def)
  let ?v = "cache_put oid d w2"
  have "run_state (run_task (fetch_rest ri oid (and_then (fill_entry d oid) (\<lambda>u. Done (Inr d))))) w2 =
      ((fetch ri oid, Fetched (Inl (Usecase UErrNotUploaded))), ?v)"
    using cacheMetadata_calm [OF w2, of oid d] d(2) by (simp add: fetch_rest_def fill_entry_def)
  with interleaved_rest [OF four, of 1] have five: "interleaved {} env [?S, ?F] w
      [Done (?q, Sent (Inr ())), Done (fetch ri oid, Fetched (Inl (Usecase UErrNotUploaded)))] ?v" by simp
  have wfd: "wf_object d" "lo_oid d = oid" using metadata.stored_wf [OF good d(1)] by auto
  have "behind w2 d" using put_effect_behind [OF u(2) d(1)] wfd(2) d(2) by simp
  then have "sound_world ?v" using cache_put_sound [OF w2 u(1)] wfd(2) by blast
  then have "run_state (program_download (ri_owner ri) (ri_name ri) oid) ?v = (Inl (Usecase UErrNotUploaded), ?v)"
    by (rule stale_download [rotated, OF _ ri(1) _ cache_hit_put_back [OF wfd(1) size(2)] d(2)]) (simp_all add: w2 own2)
  then show ?thesis using five u(3-5) by (intro exI conjI) (assumption, simp_all)
qed

section \<open>Two sign-ins\<close>

text \<open>The start of a sign-in as the calls it makes: a state is saved under a UUID the request has just drawn for
  itself, then the redirect URI, a field of the one token exchanger, is set, and then it is read.\<close>

definition issue_state :: "GitHubOAuthUseCase \<Rightarrow> OAuthState \<Rightarrow> string io" where
  "issue_state u stateData = try_bind new_uuid (\<lambda>st. do {
     s \<leftarrow> store_SaveState (ou_stateStore u) st stateData uc_OIDCStateTTL;
     case s of Inl err \<Rightarrow> lift_result (Inl (Wrap (Usecase UErrStateSaveFailed))) | Inr ok \<Rightarrow> lift_result (Inr st)
   })"

definition start_turns :: "GitHubOAuthUseCase \<Rightarrow> RepositoryIdentifier option \<Rightarrow> string \<Rightarrow> ShellType \<Rightarrow> string turns" where
  "start_turns u repository redirectURI shell = (case repository of
     None \<Rightarrow> Done (Inl (Wrap (Usecase UErrInvalidRepository)))
   | Some repo \<Rightarrow>
       if redirectURI = [] then Done (Inl (Wrap (Usecase UErrInvalidRedirectURI)))
       else if \<not> AllowedRedirectURIs_Contains (ou_allowedRedirectURIs u) redirectURI
       then Done (Inl (Wrap (Usecase UErrInvalidRedirectURI)))
       else and_then (issue_state u (NewOAuthState (FullName repo) redirectURI shell)) (\<lambda>r. case r of
           Inl err \<Rightarrow> Done (Inl err)
         | Inr st \<Rightarrow> and_then (oauth_SetRedirectURI (ou_oauthProvider u) redirectURI)
             (\<lambda>x. and_then (oauth_GetAuthorizationURL (ou_oauthProvider u) st) (\<lambda>authURL. Done (Inr authURL)))))"

lemma run_start_turns: "run_task (start_turns u repository redirectURI shell) = StartAuthentication u repository redirectURI shell"
  by (rule state.expand, rule ext)
    (auto simp: start_turns_def StartAuthentication_def issue_state_def lift_result_def run_try_bind run_task_cases Let_def
      split: option.split sum.split prod.split)

definition authorization_URL :: "GitHubOAuthProvider \<Rightarrow> string \<Rightarrow> string \<Rightarrow> string" where
  "authorization_URL gp redirectURI st = GitHubOAuthAuthorizeURL @ ''?'' @ Values_Encode
     (Values_Set ''state'' st (Values_Set ''redirect_uri'' (strings_TrimSpace redirectURI)
       (Values_Set ''client_id'' (te_clientID (gp_tokenExchanger gp)) [])))"

lemma redis_pending_still: "w_redis w' = w_redis w \<Longrightarrow> w_now w' = w_now w \<Longrightarrow> redis_pending w' = redis_pending w"
  by (rule ext) (simp add: redis_pending_def redis_read_def redis_live_def split: option.split prod.split)

lemma SaveState_calm:
  assumes "w_faults w = []"
  obtains w' where "run_state (SaveState st d uc_OIDCStateTTL) w = (Inr (), w')" "w_faults w' = []" "w_uuid w' = w_uuid w"
    "w_uuid_next w' = w_uuid_next w" "w_redirectURI w' = w_redirectURI w"
  by (rule that [of "w\<lparr>w_redis := _\<rparr>"])
    (simp_all add: SaveState_def Let_def RedisClient_SetJSON_def redis_cmd_set_def run_external_ok assms)

text \<open>The calls of a sign-in up to the one that reads the redirect URI.\<close>

lemma start_calls:
  assumes u: "ou_oauthProvider u = github_oauth http_Do gp" "ou_stateStore u = NewOIDCStateStore"
    and uri: "uri \<noteq> []" "AllowedRedirectURIs_Contains (ou_allowedRedirectURIs u) uri"
    and d: "wf_oauth_state (NewOAuthState (FullName ri) uri shell)"
    and calm: "w_faults v = []" and run: "interleaved {} env ts w us v"
    and i: "i < length us" "us ! i = start_turns u (Some ri) uri shell"
  obtains v' where "interleaved {} env ts w (us[i := and_then (oauth_GetAuthorizationURL (github_oauth http_Do gp) (w_uuid v (w_uuid_next v)))
      (\<lambda>authURL. Done (Inr authURL))]) v'"
    "w_redirectURI v' = strings_TrimSpace uri" "w_faults v' = []" "w_uuid v' = w_uuid v" "w_uuid_next v' = Suc (w_uuid_next v)"
    "redis_pending v' = (redis_pending v)(w_uuid v (w_uuid_next v) \<mapsto> NewOAuthState (FullName ri) uri shell)"
proof -
  let ?st = "w_uuid v (w_uuid_next v)" and ?d = "NewOAuthState (FullName ri) uri shell"
  let ?v1 = "v\<lparr>w_uuid_next := Suc (w_uuid_next v)\<rparr>"
  let ?last = "and_then (oauth_GetAuthorizationURL (github_oauth http_Do gp) ?st) (\<lambda>authURL. Done (Inr authURL))"
  let ?set = "and_then (oauth_SetRedirectURI (github_oauth http_Do gp) uri) (\<lambda>x. ?last)"
  let ?start = "and_then (issue_state u ?d) (\<lambda>r. case r of Inl err \<Rightarrow> Done (Inl err)
      | Inr st \<Rightarrow> and_then (oauth_SetRedirectURI (github_oauth http_Do gp) uri)
          (\<lambda>x. and_then (oauth_GetAuthorizationURL (github_oauth http_Do gp) st) (\<lambda>authURL. Done (Inr authURL))))"
  have start: "us ! i = ?start" using i(2) uri u by (simp add: start_turns_def)
  obtain v2 where save: "run_state (SaveState ?st ?d uc_OIDCStateTTL) ?v1 = (Inr (), v2)" and v2: "w_faults v2 = []"
    "w_uuid v2 = w_uuid v" "w_uuid_next v2 = Suc (w_uuid_next v)" by (rule SaveState_calm [of ?v1]) (simp_all add: calm)
  have pend1: "redis_pending ?v1 = redis_pending v" by (rule redis_pending_still) simp_all
  from SaveState_run [OF d save] pend1 have pend: "redis_pending v2 = (redis_pending v)(?st \<mapsto> ?d)" by auto
  have issue: "run_state (issue_state u ?d) v = (Inr ?st, v2)"
    using save by (simp add: issue_state_def run_try_bind u(2) NewOIDCStateStore_def)
  from interleaved_call [OF run i(1) start issue] have two: "interleaved {} env ts w (us[i := ?set]) v2" by simp
  let ?v3 = "v2\<lparr>w_redirectURI := strings_TrimSpace uri\<rparr>"
  have set_uri: "run_state (oauth_SetRedirectURI (github_oauth http_Do gp) uri) v2 = ((), ?v3)"
    by (simp add: github_oauth_def NewGitHubOAuthProviderAdapter_def provider_internal_def set_redirectURI_def)
  from interleaved_next [OF two i(1) set_uri] have three: "interleaved {} env ts w (us[i := ?last]) ?v3" by simp
  have "redis_pending ?v3 = redis_pending v2" by (rule redis_pending_still) simp_all
  with that [OF three] v2 pend show thesis by simp
qed

lemma authorization_url_call:
  "run_state (run_task (and_then (oauth_GetAuthorizationURL (github_oauth http_Do gp) st) (\<lambda>authURL. Done (Inr authURL)))) w =
     (Inr (authorization_URL gp uri st), w)" if "w_redirectURI w = strings_TrimSpace uri"
  using that by (simp add: github_oauth_def NewGitHubOAuthProviderAdapter_def provider_internal_def
      exchanger_GetAuthorizationURL_def get_redirectURI_def Let_def authorization_URL_def)

text \<open>The first sign-in is sent to the redirect URI of the second, while its own state keeps its own.\<close>

lemma crossed_sign_ins:
  assumes u: "ou_oauthProvider u = github_oauth http_Do gp" "ou_stateStore u = NewOIDCStateStore"
    and a: "uri\<^sub>a \<noteq> []" "AllowedRedirectURIs_Contains (ou_allowedRedirectURIs u) uri\<^sub>a" "wf_oauth_state (NewOAuthState (FullName ra) uri\<^sub>a sa)"
    and b: "uri\<^sub>b \<noteq> []" "AllowedRedirectURIs_Contains (ou_allowedRedirectURIs u) uri\<^sub>b" "wf_oauth_state (NewOAuthState (FullName rb) uri\<^sub>b sb)"
    and calm: "w_faults w = []" and fresh: "w_uuid w (w_uuid_next w) \<noteq> w_uuid w (Suc (w_uuid_next w))"
  shows "\<exists>st st' v. interleaved {} env [start_turns u (Some ra) uri\<^sub>a sa, start_turns u (Some rb) uri\<^sub>b sb] w
      [Done (Inr (authorization_URL gp uri\<^sub>b st)), Done (Inr (authorization_URL gp uri\<^sub>b st'))] v \<and>
    redis_pending v st = Some (NewOAuthState (FullName ra) uri\<^sub>a sa)"
proof -
  let ?ts = "[start_turns u (Some ra) uri\<^sub>a sa, start_turns u (Some rb) uri\<^sub>b sb]"
  let ?st = "w_uuid w (w_uuid_next w)" and ?st' = "w_uuid w (Suc (w_uuid_next w))"
  let ?last = "\<lambda>st. and_then (oauth_GetAuthorizationURL (github_oauth http_Do gp) st) (\<lambda>authURL. Done (Inr authURL))"
  obtain v1 where one: "interleaved {} env ?ts w [?last ?st, start_turns u (Some rb) uri\<^sub>b sb] v1"
    and v1: "w_faults v1 = []" "w_uuid v1 = w_uuid w" "w_uuid_next v1 = Suc (w_uuid_next w)"
      "redis_pending v1 = (redis_pending w)(?st \<mapsto> NewOAuthState (FullName ra) uri\<^sub>a sa)"
    by (rule start_calls [OF u a calm interleaved.still, of 0 ?ts]) simp_all
  obtain v2 where two: "interleaved {} env ?ts w [?last ?st, ?last ?st'] v2" and v2: "w_redirectURI v2 = strings_TrimSpace uri\<^sub>b"
      "redis_pending v2 = (redis_pending v1)(?st' \<mapsto> NewOAuthState (FullName rb) uri\<^sub>b sb)"
    by (rule start_calls [OF u b v1(1) one, of 1]) (simp_all add: v1)
  have answer: "run_state (run_task (?last st)) v2 = (Inr (authorization_URL gp uri\<^sub>b st), v2)" for st
    by (rule authorization_url_call [OF v2(1)])
  from interleaved_rest [OF two, of 0 "Inr (authorization_URL gp uri\<^sub>b ?st)" v2] answer [of ?st]
  have "interleaved {} env ?ts w [Done (Inr (authorization_URL gp uri\<^sub>b ?st)), ?last ?st'] v2" by simp
  from interleaved_rest [OF this, of 1 "Inr (authorization_URL gp uri\<^sub>b ?st')" v2] answer [of ?st']
  have "interleaved {} env ?ts w [Done (Inr (authorization_URL gp uri\<^sub>b ?st)), Done (Inr (authorization_URL gp uri\<^sub>b ?st'))] v2" by simp
  moreover have "redis_pending v2 ?st = Some (NewOAuthState (FullName ra) uri\<^sub>a sa)" using v2(2) v1(4) fresh by simp
  ultimately show ?thesis by blast
qed

end
