(* ===== verification/Frames.thy ===== *)
theory Frames
  imports Lifecycle
begin

text \<open>
  What a request may do to the world besides its answer, as one contract.  A relation on worlds that
  is kept by every single update the program makes is kept by every handler, and so by every request.
  The updates are the assumptions of the locale; a start of the sign-in and a lookup in the allowlist
  are whole operations, because what they write depends on what they read.
\<close>

locale request_frame =
  fixes R :: "world \<Rightarrow> world \<Rightarrow> bool"
  assumes order: "reflp R" "transp R"
    and no_faults: "R (w\<lparr>w_faults := fs\<rparr>) w' = R w w'" "R w (w\<lparr>w_faults := fs\<rparr>)"
    and objects: "R w (w\<lparr>w_objects := objs\<rparr>)"
    and policies: "R w (w\<lparr>w_policies := pols, w_policy_seq := n\<rparr>)" "R w (w\<lparr>w_policy_seq := n\<rparr>)"
    and contents: "R w (w\<lparr>w_storage := bodies\<rparr>)"
    and remote: "R w (w\<lparr>w_calls := calls\<rparr>)" "R w (w\<lparr>w_redirectURI := uri\<rparr>)"
    and uuids: "R w (w\<lparr>w_uuid_next := Suc (w_uuid_next w)\<rparr>)"
    and entries: "k \<in> {MetadataKey s, BatchUploadKey s, SessionKey s, OIDCJWKSKey s} \<Longrightarrow>
      R w (w\<lparr>w_redis := (w_redis w)(k := e)\<rparr>)"
    and taken: "R w (w\<lparr>w_redis := (w_redis w)(OIDCStateKey s := None)\<rparr>)"
    and start: "github_signin http_Do uc \<Longrightarrow> frames R (StartAuthentication uc orepo uri shell)"
    and lookup: "frames R (allowlist_IsAllowed cached_allowlist (Some ar))"
begin

section \<open>The calls\<close>

declare order [simp]

lemma frame_refl [simp]: "R w w"
  using order by (simp add: reflp_def)

lemma frame_pure [simp, intro]: "frames R (lift_result r)" "frames R (State_Monad.return x)"
  by (rule frames_lift_result frames_return; simp add: order)+

lemma frame_bind:
  assumes "frames R m" and "\<And>x. frames R (f x)"
  shows "frames R (State_Monad.bind m f)"
  using assms order by (intro frames_bind) simp_all

lemma frame_external:
  assumes "\<And>w. R w (snd (f w))"
  shows "frames R (external f)"
  by (rule external_frames) (simp_all add: assms no_faults order)

lemma frame_reads:
  "frames R (redis_cmd_get k)" "frames R (redis_cmd_exists k)" "frames R (sql_select_object j)"
  "frames R (sql_object_exists j)" "frames R (sql_select_policy j)" "frames R (s3_get j)" "frames R (s3_head j)"
  "frames R s3_head_bucket"
  unfolding redis_cmd_get_def redis_cmd_exists_def sql_select_object_def sql_object_exists_def sql_select_policy_def
    s3_get_def s3_head_def s3_head_bucket_def
  by (rule frame_external; simp split: option.split)+

lemma frame_writes:
  "frames R (sql_insert_object row)" "frames R (sql_update_object row)" "frames R (sql_upsert_policy prow)"
  "frames R (s3_put k body n)"
  unfolding sql_insert_object_def sql_update_object_def sql_upsert_policy_def s3_put_def
  by (rule frame_external; simp add: insert_object_def update_object_def upsert_policy_def objects policies contents split: option.split)+

lemma frame_entries:
  "frames R (redis_cmd_set (MetadataKey s) v ttl)" "frames R (redis_cmd_set (SessionKey s) v ttl)"
  "frames R (redis_cmd_set (OIDCJWKSKey s) v ttl)" "frames R (redis_cmd_del (BatchUploadKey s))"
  "frames R (redis_cmd_del (SessionKey s))" "frames R (redis_cmd_getdel (OIDCStateKey s))"
  unfolding redis_cmd_set_def redis_cmd_del_def redis_cmd_getdel_def
  by (rule frame_external; simp add: entries taken split: option.split)+

lemma frame_remote: "frames R (httpClient_Do http_Do req)" "frames R (set_redirectURI uri)" "frames R get_redirectURI"
proof -
  show "frames R (httpClient_Do http_Do req)"
    unfolding httpClient_Do_def by (rule frame_external) (simp add: remote)
  show "frames R (set_redirectURI uri)" "frames R get_redirectURI"
    by (rule framesI; auto simp: set_redirectURI_def get_redirectURI_def remote)+
qed

lemma frame_clock: "frames R (State (\<lambda>w. (w_now w, w)))" "frames R new_uuid"
  by (rule framesI; auto simp: uuids)+

lemmas frame_calls = frame_reads frame_writes frame_entries frame_entries [unfolded MetadataKey_def BatchUploadKey_def]
  frame_remote frame_clock frame_pure

section \<open>Objects\<close>

lemma frame_find: "frames R (repo_FindByOID cached_repository oid)"
  by (auto simp: cached_repository_def NewCachingLFSObjectRepository_def caching_FindByOID_def cacheMetadata_def Let_def
      redis_metadata_cache_def redis_CacheClient_def RedisClient_GetJSON_def RedisClient_SetJSON_def
      NewCacheKeyGenerator_def NewLFSObjectRepository_def pg_FindByOID_def LFSObjectDAO_FindByOID_def
      intro!: frame_bind frame_calls split: sum.split option.split)

lemma frame_save: "frames R (repo_Save cached_repository obj)"
  by (auto simp: cached_repository_def NewCachingLFSObjectRepository_def caching_Save_def cacheMetadata_def Let_def
      redis_metadata_cache_def redis_CacheClient_def RedisClient_SetJSON_def
      NewCacheKeyGenerator_def NewLFSObjectRepository_def pg_Save_def LFSObjectDAO_Insert_def
      intro!: frame_bind frame_calls split: sum.split)

lemma frame_update: "frames R (repo_Update cached_repository obj)"
  by (auto simp: cached_repository_def NewCachingLFSObjectRepository_def caching_Update_def cacheMetadata_def Let_def
      redis_metadata_cache_def redis_CacheClient_def RedisClient_SetJSON_def
      NewCacheKeyGenerator_def NewLFSObjectRepository_def pg_Update_def LFSObjectDAO_Update_def
      intro!: frame_bind frame_calls split: sum.split)

lemma frame_check: "frames R (CheckAuthorization pg_authorization oper ou oid)"
  by (auto simp: pg_authorization_def CheckAuthorization_def NewAccessAuthorizationService_def Authorize_def
      NewAccessPolicyRepository_def pg_policy_FindByOID_def AccessPolicyDAO_FindByOID_def
      intro!: frame_bind frame_calls split: sum.split option.split)

lemma frame_policy: "frames R (createAccessPolicy NewAccessPolicyRepository oid ou)"
  by (auto simp: createAccessPolicy_def NewAccessPolicyRepository_def pg_policy_Save_def AccessPolicyDAO_Upsert_def
      intro!: frame_bind frame_calls split: sum.split)

lemma frame_content:
  "frames R (storage_PutObject NewS3Client k body n)" "frames R (storage_GetObject NewS3Client k)"
  by (auto simp: NewS3Client_def S3Client_PutObject_def S3Client_GetObject_def
      intro!: frame_bind frame_calls split: sum.split)

lemma frame_deleteBatchUploadKey: "frames R (redis_deleteBatchUploadKey k)"
  by (auto simp: redis_deleteBatchUploadKey_def DeleteBatchUploadKey_def redis_metadata_cache_def redis_CacheClient_def
      RedisClient_Delete_def NewCacheKeyGenerator_def intro!: frame_bind frame_calls split: sum.split)

lemmas frame_parts = frame_find frame_save frame_update frame_check frame_policy
  frame_content frame_deleteBatchUploadKey frame_calls

lemma frame_upload_objects:
  "frames R (batch_upload_objects (HandleUploadObject cached_repository g kg) pg_authorization
     NewAccessPolicyRepository baseURL ow re ou h ah objs)"
proof (induction objs)
  case (Cons obj objs)
  have "frames R (HandleUploadObject cached_repository g kg baseURL ow re oid sz h ah)" for oid sz
    by (auto simp: HandleUploadObject_def intro!: frame_bind frame_parts split: sum.split)
  with Cons show ?case by (auto intro!: frame_bind frame_parts split: sum.split)
qed simp

lemma frame_download_objects:
  "frames R (batch_download_objects (HandleDownloadObject cached_repository g) pg_authorization
     baseURL ow re ou ah objs)"
proof (induction objs)
  case (Cons obj objs)
  have "frames R (HandleDownloadObject cached_repository g baseURL ow re oid sz ah)" for oid sz
    by (auto simp: HandleDownloadObject_def Let_def intro!: frame_bind frame_parts split: sum.split)
  with Cons show ?case by (auto intro!: frame_bind frame_parts split: sum.split)
qed simp

lemma frame_batch: "frames R (HandleBatchRequest program_batch baseURL ow re req ah)"
  by (auto simp: HandleBatchRequest_def program_batch_def NewBatchUseCase_def HandleBatchUpload_def
      HandleBatchDownload_def Let_def
      intro!: frame_bind frame_pure frame_upload_objects frame_download_objects split: sum.split option.split)

lemma frame_transfers:
  "frames R (program_upload ow re oid body)" "frames R (program_download ow re oid)"
  "frames R (program_verify k n)"
  by (auto simp: program_upload_def ProxyUpload_Execute_def program_download_def ProxyDownload_Execute_def
      program_verify_def VerifyUpload_def intro!: frame_bind frame_parts split: sum.split)

lemma frame_handler:
  assumes "program_handler rt = Some h"
  shows "frames R (h c u)"
  using assms
  by (cases rt) (auto simp: program_handler_def BatchHandler_Handle_def VerifyHandler_def HandleUpload_def HandleDownload_def Let_def
      intro!: frame_bind frame_pure frame_batch frame_transfers split: sum.split option.split prod.split)

section \<open>Signing in\<close>

lemma frame_sessions:
  "frames R (GetAndDeleteState st)" "frames R (SessionStore_CreateSession ou ttl)" "frames R (SessionStore_GetSession sid)"
  by (auto simp: GetAndDeleteState_def SessionStore_CreateSession_def SessionStore_GetSession_def
      RedisClient_GetDelJSON_def RedisClient_SetSession_def RedisClient_GetSession_def
      RedisClient_Set_def RedisClient_Get_def Let_def intro!: frame_bind frame_calls split: sum.split)

lemma frame_github:
  "frames R (oauth_SetRedirectURI (github_oauth http_Do gp) uri)"
  "frames R (oauth_GetAuthorizationURL (github_oauth http_Do gp) st)"
  "frames R (oauth_ExchangeCode (github_oauth http_Do gp) code)"
  "frames R (oauth_GetUserInfo (github_oauth http_Do gp) tok)"
  "frames R (oauth_GetRepositoryPermissions (github_oauth http_Do gp) tok orepo)"
proof -
  have called: "R w (w\<lparr>w_calls := n, w_faults := fs\<rparr>)" for w n fs
    using transpD [OF order(2) remote(1) [of w n] no_faults(2) [of "w\<lparr>w_calls := n\<rparr>" fs]] by simp
  show "frames R (oauth_SetRedirectURI (github_oauth http_Do gp) uri)"
    "frames R (oauth_GetAuthorizationURL (github_oauth http_Do gp) st)"
    "frames R (oauth_ExchangeCode (github_oauth http_Do gp) code)"
    "frames R (oauth_GetUserInfo (github_oauth http_Do gp) tok)"
    "frames R (oauth_GetRepositoryPermissions (github_oauth http_Do gp) tok orepo)"
    by (rule framesI, (drule github.redirect_state github.url_state github.exchange_state github.user_state
        github.permissions_state, auto simp: remote called))+
qed

lemma frame_callback:
  assumes "github_signin http_Do uc"
  shows "frames R (HandleCallback uc code st)"
  using assms
  by (auto simp: github_signin_def HandleCallback_def NewOIDCStateStore_def NewSessionStore_def
      intro!: frame_bind frame_sessions frame_github frame_calls split: sum.split)

lemma frame_keys: "frames R (GetPublicKey http_Do redis_jwks_cache url keyID provider)"
  by (auto simp: GetPublicKey_def fetchJWKSet_def Let_def redis_jwks_cache_def redis_CacheClient_def
      RedisClient_GetJSON_def RedisClient_SetJSON_def intro!: frame_bind frame_calls split: sum.split option.split)

lemma frame_VerifyIDToken:
  assumes lib: "jwt_library jwt_Parse verifies" and p: "p = None \<or> op_cacheClient (the p) = redis_jwks_cache"
  shows "frames R (VerifyIDToken http_Do jwt_Parse p tok)"
proof -
  have "frames R (verification_key http_Do redis_jwks_cache url provider t)" for url provider t
    by (auto simp: verification_key_def intro!: frame_bind frame_keys split: sum.split option.split json.split)
  then have "frames R (VerifyJWT http_Do jwt_Parse redis_jwks_cache tok url aud iss prov)" for url aud iss prov
    unfolding VerifyJWT_def
    by (auto intro!: frame_bind jwt_library_frames [OF lib] split: sum.split option.split)
  then show ?thesis
    using p by (cases p) (auto simp: VerifyIDToken_def intro!: frame_bind split: sum.split option.split)
qed

section \<open>A request\<close>

lemma frame_authentication:
  assumes lib: "jwt_library jwt_Parse verifies" and p: "prov = None \<or> op_cacheClient (the prov) = redis_jwks_cache"
  shows "frames R (AuthenticateSession (program_auth http_Do jwt_Parse prov) sid)"
    and "frames R (AuthenticateGitHubOIDC (program_auth http_Do jwt_Parse prov) tok)"
  by (auto simp: AuthenticateSession_def AuthenticateGitHubOIDC_def program_auth_def NewAuthUseCase_def
      SessionAuth_Authenticate_def GitHubOIDC_Authenticate_def oidc_interface_def Let_def
      intro!: frame_bind frame_sessions frame_VerifyIDToken [OF lib p] lookup
      split: sum.split option.split)

lemma frame_open_routes:
  assumes "wired http_Do jwt_Parse p" and "program_handler rt = None"
  shows "frames R (serve p rt c)"
proof -
  have login: "frames R (GitHubLoginHandler uc cfg c u)" "frames R (GitHubCallbackHandler uc c u)"
    if "github_signin http_Do uc" for uc cfg u
    using start [OF that] frame_callback [OF that]
    by (auto simp: GitHubLoginHandler_def GitHubCallbackHandler_def Let_def intro!: frame_bind split: sum.split prod.split)
  have checkers: "frames R (run_checkers checkers)" if "\<forall>k \<in> set checkers. one_call k" for checkers
    using that
  proof (induction checkers)
    case (Cons k checkers)
    have "frames R (hc_Check k)"
    proof (rule framesI)
      fix w r w'
      assume "run_state (hc_Check k) w = (r, w')"
      moreover from Cons.prems have "one_call k" by simp
      then obtain q where "run_state (hc_Check k) w = (q, w\<lparr>w_faults := tl (w_faults w)\<rparr>)"
        unfolding one_call_def by blast
      ultimately show "R w w'" by (auto simp: no_faults)
    qed
    with Cons show ?case by (auto intro!: frame_bind split: sum.split)
  qed simp
  have "frames R (ReadyzHandler_Handle f program_readiness c u)" for f u
    using checkers [of program_checkers] program_checkers_one_call
    by (auto simp: ReadyzHandler_Handle_def program_readiness_def ExecuteDetails_def Let_def intro!: frame_bind
        split: prod.split)
  with assms login show ?thesis
    by (cases rt) (auto simp: wired_def program_handler_def SessionDisplayHandler_def HealthHandler_def Let_def
        split: option.split)
qed

lemma frame_serve:
  assumes lib: "jwt_library jwt_Parse verifies" and p: "wired http_Do jwt_Parse p"
  shows "frames R (serve p rt c)"
proof (cases "program_handler rt")
  case None
  with frame_open_routes [OF p] show ?thesis by blast
next
  case (Some h)
  from p obtain prov where prov: "prov = None \<or> op_cacheClient (the prov) = redis_jwks_cache"
    and uc: "pg_auth p = program_auth http_Do jwt_Parse prov" by (auto simp: wired_def)
  show ?thesis
  proof (rule framesI)
    fix w r w'
    assume "run_state (serve p rt c) w = (r, w')"
    with serve_handler [OF Some] uc have "run_state (AuthDispatcher (program_auth http_Do jwt_Parse prov) h c) w = (r, w')" by simp
    from AuthDispatcher_run [OF order(2) order(1) frame_authentication [OF lib prov] this]
    show "R w w'" unfolding dispatched_def
    proof (elim disjE exE conjE)
      fix u w1
      assume "R w w1" "run_state (h c (Some u)) w1 = (r, w')"
      with framesD [OF frame_handler [OF Some]] order(2) show ?thesis by (meson transpD)
    qed
  qed
qed

end

end
