(* ===== verification/Freshness.thy ===== *)
theory Freshness
  imports Frames
begin

text \<open>
  How long the allowlist cache can be wrong.  No operation of the program touches the cached answers
  but the lookup itself, which copies the table's answer for \<open>repositoryCacheTTL\<close>, and the allowlist's
  own updates.  So a repository that was taken off the list, and not put back, is refused once that
  time has passed, on every run.
\<close>

section \<open>What an operation does to the cached answers\<close>

definition answer_of :: "world \<Rightarrow> AllowedRepository \<Rightarrow> bool \<Rightarrow> redis_value \<times> instant option" where
  "answer_of w ar b = (RText (if b then ''true'' else ''false''), Some (w_now w + repositoryCacheTTL))"

definition refreshed :: "world \<Rightarrow> world \<Rightarrow> bool" where
  "refreshed w w' \<longleftrightarrow> w_allowlist w' = w_allowlist w \<and> w_now w' = w_now w \<and>
     (\<forall>ar. w_redis w' (allow_key ar) = w_redis w (allow_key ar) \<or>
        w_redis w' (allow_key ar) = Some (answer_of w ar (listed w ar)))"

lemma listed_cong: "w_allowlist w' = w_allowlist w \<Longrightarrow> listed w' ar = listed w ar"
  by (simp add: listed_def)

lemma refreshed_refl [simp]: "refreshed w w"
  by (simp add: refreshed_def)

lemma reflp_refreshed [simp, intro]: "reflp refreshed"
  by (simp add: reflp_def)

lemma transp_refreshed [simp, intro]: "transp refreshed"
proof (rule transpI)
  fix u v w
  assume uv: "refreshed u v" and vw: "refreshed v w"
  then have same: "w_allowlist v = w_allowlist u" "w_now v = w_now u" by (simp_all add: refreshed_def)
  then have "answer_of v ar (listed v ar) = answer_of u ar (listed u ar)" for ar
    by (simp add: answer_of_def listed_def)
  with uv vw same show "refreshed u w" unfolding refreshed_def by metis
qed

lemma refreshed_faults [simp]: "refreshed (w\<lparr>w_faults := fs\<rparr>) v = refreshed w v"
  by (simp add: refreshed_def answer_of_def listed_def)

lemma allow_key_other [simp]:
  "allow_key ar \<noteq> MetadataKey k" "allow_key ar \<noteq> SessionKey k" "allow_key ar \<noteq> OIDCStateKey k"
  "allow_key ar \<noteq> BatchUploadKey k" "allow_key ar \<noteq> OIDCJWKSKey k"
  by (simp_all add: allow_key_def)

lemmas allow_key_prefixes [simp] = allow_key_other [unfolded MetadataKey_def BatchUploadKey_def SessionKey_def OIDCStateKey_def OIDCJWKSKey_def]

lemma refreshed_set: "(\<And>ar. allow_key ar \<noteq> k) \<Longrightarrow> refreshed w (w\<lparr>w_redis := (w_redis w)(k := v)\<rparr>)"
  by (simp add: refreshed_def)

lemma refreshed_start:
  assumes "github_signin http_Do uc"
  shows "frames refreshed (StartAuthentication uc orepo uri shell)"
proof -
  have set: "frames refreshed (redis_cmd_set (OIDCStateKey st) v ttl)" for st v ttl
    unfolding redis_cmd_set_def by (rule external_frames) (simp_all add: refreshed_set)
  have bind: "frames refreshed (State_Monad.bind m f)" if "frames refreshed m" "\<And>x. frames refreshed (f x)"
    for m :: "(world, 'x) state" and f :: "'x \<Rightarrow> (world, 'y) state"
    using that by (intro frames_bind) simp_all
  have pure: "frames refreshed (lift_result q)" for q :: "gerror + 'z"
    by (intro frames_lift_result) simp
  have save: "frames refreshed (SaveState st d ttl)" for st d ttl
    by (auto simp: SaveState_def RedisClient_SetJSON_def Let_def intro!: bind set pure split: sum.split)
  have small: "frames refreshed new_uuid" "frames refreshed (oauth_SetRedirectURI (github_oauth http_Do gp) u)"
    "frames refreshed (oauth_GetAuthorizationURL (github_oauth http_Do gp) st)" for gp u st
    by (rule framesI, (drule github.redirect_state github.url_state)?, auto simp: refreshed_def)+
  show ?thesis using assms
    by (auto simp: github_signin_def StartAuthentication_def Let_def NewOIDCStateStore_def
        intro!: frames_try_bind bind small save pure split: option.split sum.split)
qed

text \<open>The lookup is the one operation that fills the cache, and it copies the table.\<close>

lemma refreshed_IsAllowed: "frames refreshed (allowlist_IsAllowed cached_allowlist (Some ar))"
proof (rule framesI)
  fix w r w'
  assume run: "run_state (allowlist_IsAllowed cached_allowlist (Some ar)) w = (r, w')"
  let ?key = "allow_key ar"
  obtain c w1 where c: "run_state (redis_cmd_get ?key) w = (c, w1)" by fastforce
  from redis_cmd_get_run [OF c] obtain fs where w1: "w1 = w\<lparr>w_faults := fs\<rparr>" by auto
  obtain q w2 where q: "run_state (pg_IsAllowed (Some ar)) w1 = (q, w2)" by fastforce
  from pg_IsAllowed_run [OF q] w1 obtain gs where w2: "w2 = w\<lparr>w_faults := gs\<rparr>"
    and ans: "\<And>b. q = Inr b \<Longrightarrow> b = listed w ar" by (auto simp: listed_def)
  note unf = cached_allowlist_def NewCachingRepositoryAllowlist_def NewCachingRepositoryAllowlistWithTTL_def
    caching_IsAllowed_def getCacheKey_def checkCache_def setCache_def redis_AllowlistCacheClient_def
    RedisClient_Get_def RedisClient_Set_def allow_key_def NewRepositoryAllowlistRepository_def
  show "refreshed w w'"
  proof (cases c)
    case (Inr v)
    with run c have "w' = w1" by (auto simp: unf)
    then show ?thesis by (simp add: w1 refreshed_def)
  next
    case miss: (Inl e)
    show ?thesis
    proof (cases q)
      case (Inl e')
      with run c q miss have "w' = w2" by (auto simp: unf split: if_splits)
      then show ?thesis by (simp add: w2 refreshed_def)
    next
      case (Inr b)
      obtain u w3 where u: "run_state (redis_cmd_set ?key (RText (if b then ''true'' else ''false'')) repositoryCacheTTL) w2 = (u, w3)"
        by fastforce
      with run c q miss Inr have w3: "w' = w3" by (cases u) (auto simp: unf split: if_splits)
      from redis_cmd_set_run [OF u] w2 have kept: "w_allowlist w' = w_allowlist w" "w_now w' = w_now w"
        and red: "w_redis w' = w_redis w \<or> w_redis w' = (w_redis w)(?key \<mapsto> answer_of w ar b)"
        unfolding w3 by (auto simp: answer_of_def)
      have "w_redis w' (allow_key ar') = w_redis w (allow_key ar') \<or>
          w_redis w' (allow_key ar') = Some (answer_of w ar' (listed w ar'))" for ar'
      proof (cases "allow_key ar' = ?key")
        case True
        then have "answer_of w ar' (listed w ar') = answer_of w ar b"
          using ans [OF Inr] by (simp add: allow_key_def listed_def answer_of_def)
        with True red show ?thesis by auto
      next
        case False
        with red show ?thesis by auto
      qed
      with kept show ?thesis unfolding refreshed_def by blast
    qed
  qed
qed

interpretation freshness: request_frame refreshed
proof unfold_locales
  show "refreshed (w\<lparr>w_faults := fs\<rparr>) w' = refreshed w w'" "refreshed w (w\<lparr>w_faults := fs\<rparr>)"
    "refreshed w (w\<lparr>w_objects := objs\<rparr>)" "refreshed w (w\<lparr>w_policies := pols, w_policy_seq := n\<rparr>)"
    "refreshed w (w\<lparr>w_policy_seq := n\<rparr>)" "refreshed w (w\<lparr>w_storage := bodies\<rparr>)" "refreshed w (w\<lparr>w_calls := calls\<rparr>)"
    "refreshed w (w\<lparr>w_redirectURI := uri\<rparr>)" "refreshed w (w\<lparr>w_uuid_next := Suc (w_uuid_next w)\<rparr>)"
    "refreshed w (w\<lparr>w_redis := (w_redis w)(OIDCStateKey s := None)\<rparr>)"
    for w w' fs objs pols n bodies calls uri s
    by (simp_all add: refreshed_def answer_of_def listed_def)
  show "refreshed w (w\<lparr>w_redis := (w_redis w)(k := e)\<rparr>)" if "k \<in> {MetadataKey s, BatchUploadKey s, SessionKey s, OIDCJWKSKey s}"
    for k s w e
    using that by (intro refreshed_set) auto
qed (simp_all add: refreshed_start refreshed_IsAllowed)

lemma refreshed_trusted: "refreshed w w' \<Longrightarrow> vouched w' ar \<or> listed w' ar \<Longrightarrow> vouched w ar \<or> listed w ar"
proof -
  assume r: "refreshed w w'" and v: "vouched w' ar \<or> listed w' ar"
  then have same: "w_now w' = w_now w" "listed w' ar = listed w ar"
    and e: "w_redis w' (allow_key ar) = w_redis w (allow_key ar) \<or>
      w_redis w' (allow_key ar) = Some (answer_of w ar (listed w ar))" by (auto simp: refreshed_def listed_def)
  show "vouched w ar \<or> listed w ar"
  proof (cases "listed w ar")
    case False
    with v same have "vouched w' ar" by simp
    from e show ?thesis
    proof
      assume "w_redis w' (allow_key ar) = w_redis w (allow_key ar)"
      then have "vouched w' ar = vouched w ar" by (simp only: vouched_def redis_live_def same)
      with \<open>vouched w' ar\<close> show ?thesis by simp
    next
      assume "w_redis w' (allow_key ar) = Some (answer_of w ar (listed w ar))"
      with \<open>vouched w' ar\<close> False show ?thesis by (simp add: vouched_def redis_live_def answer_of_def split: if_splits)
    qed
  qed simp
qed

section \<open>The allowlist's own updates\<close>

definition shrinks :: "world \<Rightarrow> world \<Rightarrow> bool" where
  "shrinks w w' \<longleftrightarrow> set (w_allowlist w') \<subseteq> set (w_allowlist w) \<and> w_now w' = w_now w \<and>
     w_uuid w' = w_uuid w \<and> w_uuid_next w' = w_uuid_next w \<and>
     (\<forall>k. w_redis w' k = w_redis w k \<or> w_redis w' k = None)"

definition grows :: "AllowedRepository \<Rightarrow> world \<Rightarrow> world \<Rightarrow> bool" where
  "grows ar w w' \<longleftrightarrow> (\<forall>row \<in> set (w_allowlist w'). row \<in> set (w_allowlist w) \<or> al_Repository row = AllowedRepository_String ar) \<and>
     w_now w' = w_now w \<and> w_uuid w' = w_uuid w \<and> w_uuid_next w' = w_uuid_next w \<and> (\<forall>k. k \<noteq> allow_key ar \<longrightarrow> w_redis w' k = w_redis w k) \<and>
     (w_redis w' (allow_key ar) = w_redis w (allow_key ar) \<or> w_redis w' (allow_key ar) = Some (answer_of w ar True))"

lemma shrinks_order: "reflp shrinks" "transp shrinks"
proof -
  show "reflp shrinks" by (rule reflpI) (simp add: shrinks_def)
  show "transp shrinks"
  proof (rule transpI)
    fix u v w
    assume uv: "shrinks u v" and vw: "shrinks v w"
    then have "\<forall>k. w_redis w k = w_redis u k \<or> w_redis w k = None" unfolding shrinks_def by metis
    with uv vw show "shrinks u w" by (auto simp: shrinks_def)
  qed
qed

lemma grows_order: "reflp (grows ar)" "transp (grows ar)"
proof -
  show "reflp (grows ar)" by (rule reflpI) (simp add: grows_def)
  show "transp (grows ar)"
  proof (rule transpI)
    fix u v w
    assume uv: "grows ar u v" and vw: "grows ar v w"
    then have "answer_of v ar True = answer_of u ar True" by (simp add: grows_def answer_of_def)
    with uv vw show "grows ar u w" unfolding grows_def by metis
  qed
qed

lemma shrinks_Remove: "frames shrinks (allowlist_Remove cached_allowlist (Some ar))"
proof -
  have del: "frames shrinks (sql_delete_allowlist s)" for s
    unfolding sql_delete_allowlist_def by (rule external_frames [OF _ _ shrinks_order(1)]) (auto simp: shrinks_def)
  have key: "frames shrinks (redis_cmd_del k)" for k
    unfolding redis_cmd_del_def by (rule external_frames [OF _ _ shrinks_order(1)]) (auto simp: shrinks_def)
  have bind: "frames shrinks (State_Monad.bind m f)" if "frames shrinks m" "\<And>x. frames shrinks (f x)"
    for m :: "(world, 'x) state" and f :: "'x \<Rightarrow> (world, 'y) state"
    using that shrinks_order by (intro frames_bind) simp_all
  have pure: "frames shrinks (lift_result q)" for q :: "gerror + 'z"
    using shrinks_order by (intro frames_lift_result) simp_all
  show ?thesis
    by (auto simp: cached_allowlist_def NewCachingRepositoryAllowlist_def NewCachingRepositoryAllowlistWithTTL_def
        caching_Remove_def getCacheKey_def redis_AllowlistCacheClient_def RedisClient_Delete_def
        NewRepositoryAllowlistRepository_def pg_Remove_def RepositoryAllowlistDAO_Delete_def
        intro!: bind pure del key split: sum.split)
qed

lemma grows_Add: "frames (grows ar) (allowlist_Add cached_allowlist (Some ar))"
proof -
  have ins: "frames (grows ar) (sql_insert_allowlist (AllowedRepository_String ar))"
    unfolding sql_insert_allowlist_def by (rule external_frames [OF _ _ grows_order(1)]) (auto simp: grows_def insert_allowlist_def answer_of_def)
  have key: "frames (grows ar) (redis_cmd_set (allow_key ar) (RText ''true'') repositoryCacheTTL)"
    unfolding redis_cmd_set_def by (rule external_frames [OF _ _ grows_order(1)]) (auto simp: grows_def answer_of_def)
  have bind: "frames (grows ar) (State_Monad.bind m f)" if "frames (grows ar) m" "\<And>x. frames (grows ar) (f x)"
    for m :: "(world, 'x) state" and f :: "'x \<Rightarrow> (world, 'y) state"
    using that grows_order by (intro frames_bind) simp_all
  have pure: "frames (grows ar) (lift_result q)" for q :: "gerror + 'z"
    using grows_order by (intro frames_lift_result) simp_all
  show ?thesis
    by (auto simp: cached_allowlist_def NewCachingRepositoryAllowlist_def NewCachingRepositoryAllowlistWithTTL_def
        caching_Add_def getCacheKey_def setCache_def redis_AllowlistCacheClient_def RedisClient_Set_def
        NewRepositoryAllowlistRepository_def pg_Add_def RepositoryAllowlistDAO_Insert_def allow_key_def [symmetric]
        intro!: bind pure ins key split: sum.split)
qed

section \<open>Runs\<close>

text \<open>\<open>settled T ar w\<close>: the repository is off the list and no cached yes for it outlives \<open>T\<close>.\<close>

definition settled :: "instant \<Rightarrow> AllowedRepository \<Rightarrow> world \<Rightarrow> bool" where
  "settled T ar w \<longleftrightarrow> \<not> listed w ar \<and>
     (\<forall>e. w_redis w (allow_key ar) = Some (RText ''true'', e) \<longrightarrow> (\<exists>t. e = Some t \<and> t \<le> T))"

definition readmits :: "AllowedRepository \<Rightarrow> event \<Rightarrow> bool" where
  "readmits ar e \<longleftrightarrow> (\<exists>ar'. e = Allow ar' \<and> AllowedRepository_String ar' = AllowedRepository_String ar)"

lemma refreshed_settled: "refreshed w w' \<Longrightarrow> settled T ar w \<Longrightarrow> settled T ar w'"
proof -
  assume r: "refreshed w w'" and s: "settled T ar w"
  then have "\<not> listed w ar" "\<not> listed w' ar" by (simp_all add: settled_def refreshed_def listed_def)
  moreover from this(1) have "w_redis w' (allow_key ar) = w_redis w (allow_key ar) \<or>
      w_redis w' (allow_key ar) = Some (answer_of w ar False)" using r unfolding refreshed_def by metis
  ultimately show ?thesis using s by (auto simp: settled_def answer_of_def)
qed

lemma refreshed_fresh: "refreshed w w' \<Longrightarrow> allow_entries_fresh w \<Longrightarrow> allow_entries_fresh w'"
  unfolding allow_entries_fresh_def
proof (intro allI impI)
  fix ar v e
  assume r: "refreshed w w'" and s: "\<forall>ar v e. w_redis w (allow_key ar) = Some (v, e) \<longrightarrow> (\<exists>t. e = Some t \<and> t \<le> w_now w + repositoryCacheTTL)"
    and e: "w_redis w' (allow_key ar) = Some (v, e)"
  have "w_now w' = w_now w" using r by (simp add: refreshed_def)
  moreover from r e have "w_redis w (allow_key ar) = Some (v, e) \<or> (v, e) = answer_of w ar (listed w ar)"
    unfolding refreshed_def by (metis option.inject)
  ultimately show "\<exists>t. e = Some t \<and> t \<le> w_now w' + repositoryCacheTTL" using s by (auto simp: answer_of_def)
qed

lemma happens_settled:
  assumes lib: "jwt_library jwt_Parse verifies" and p: "wired http_Do jwt_Parse p"
    and e: "happens p w e w'" and s: "settled T ar w" and no: "\<not> readmits ar e"
  shows "settled T ar w' \<and> w_now w \<le> w_now w'"
  using e
proof (cases rule: happens.cases)
  case (request rt c r)
  note r = framesD [OF freshness.frame_serve [OF lib p] request(2)]
  with refreshed_settled [OF r s] show ?thesis by (simp add: refreshed_def)
next
  case (allow ar' r)
  with no have "AllowedRepository_String ar' \<noteq> AllowedRepository_String ar" by (auto simp: readmits_def)
  moreover from this have "allow_key ar \<noteq> allow_key ar'" by (simp add: allow_key_def)
  ultimately show ?thesis using s framesD [OF grows_Add allow(2)]
    by (auto simp: settled_def grows_def listed_def list_ex_iff)
next
  case (disallow ar' r)
  with framesD [OF shrinks_Remove disallow(2)] s show ?thesis
    by (auto simp: settled_def shrinks_def listed_def list_ex_iff) (metis option.distinct(1))
qed (use s in \<open>auto simp: settled_def listed_def\<close>)

lemma happens_fresh:
  assumes lib: "jwt_library jwt_Parse verifies" and p: "wired http_Do jwt_Parse p"
    and e: "happens p w e w'" and s: "allow_entries_fresh w"
  shows "allow_entries_fresh w'"
  using e
proof (cases rule: happens.cases)
  case (request rt c r)
  show ?thesis by (rule refreshed_fresh [OF framesD [OF freshness.frame_serve [OF lib p] request(2)] s])
next
  case (tick d)
  with s show ?thesis by (fastforce simp: allow_entries_fresh_def)
next
  case (allow ar r)
  from framesD [OF grows_Add allow(2)] have g: "w_now w' = w_now w"
      "\<And>ar'. w_redis w' (allow_key ar') = w_redis w (allow_key ar') \<or> w_redis w' (allow_key ar') = Some (answer_of w ar True)"
    unfolding grows_def by metis+
  show ?thesis unfolding allow_entries_fresh_def
  proof (intro allI impI)
    fix ar' v e
    assume "w_redis w' (allow_key ar') = Some (v, e)"
    with g(2) [of ar'] have "w_redis w (allow_key ar') = Some (v, e) \<or> (v, e) = answer_of w ar True" by auto
    with s g(1) show "\<exists>t. e = Some t \<and> t \<le> w_now w' + repositoryCacheTTL"
      unfolding allow_entries_fresh_def by (auto simp: answer_of_def)
  qed
next
  case (disallow ar r)
  from framesD [OF shrinks_Remove disallow(2)] have g: "w_now w' = w_now w"
      "\<And>k. w_redis w' k = w_redis w k \<or> w_redis w' k = None"
    unfolding shrinks_def by metis+
  have held: "w_redis w' k = Some q \<Longrightarrow> w_redis w k = Some q" for k q using g(2) [of k] by auto
  from s show ?thesis unfolding allow_entries_fresh_def g(1) using held by blast
qed (use s in \<open>auto simp: allow_entries_fresh_def\<close>)

lemma reaches_fresh:
  assumes lib: "jwt_library jwt_Parse verifies" and p: "wired http_Do jwt_Parse p"
    and r: "reaches p w es w'" and s: "allow_entries_fresh w"
  shows "allow_entries_fresh w'"
  using r s by (induction rule: reaches.induct) (auto dest: happens_fresh [OF lib p])

lemma reaches_settled:
  assumes lib: "jwt_library jwt_Parse verifies" and p: "wired http_Do jwt_Parse p"
    and r: "reaches p w es w'" and s: "settled T ar w" and no: "\<forall>e \<in> set es. \<not> readmits ar e"
  shows "settled T ar w'"
  using r s no
proof (induction rule: reaches.induct)
  case (more w es v e w')
  then show ?case using happens_settled [OF lib p more.hyps(2)] by simp
qed

lemma removed_settled:
  assumes "allow_entries_fresh w" and "run_state (allowlist_Remove cached_allowlist (Some ar)) w = (Inr (), w1)"
  shows "settled (w_now w1 + repositoryCacheTTL) ar w1"
proof -
  from framesD [OF shrinks_Remove assms(2)] have now: "w_now w1 = w_now w"
    and held: "\<And>k. w_redis w1 k = w_redis w k \<or> w_redis w1 k = None" unfolding shrinks_def by metis+
  have "\<not> listed w1 ar" by (rule allowlist.remove_done [OF assms(2)])
  with assms(1) held [of "allow_key ar"] show ?thesis
    by (auto simp: settled_def allow_entries_fresh_def now)
qed

lemma settled_refused:
  assumes "settled T ar w" and "T \<le> w_now w"
    and "run_state (allowlist_IsAllowed cached_allowlist (Some ar)) w = (r, w')"
  shows "r \<noteq> Inr True"
proof
  assume "r = Inr True"
  with allowlist.allowed_sound assms(3) have "vouched w ar \<or> listed w ar" by blast
  with assms(1,2) show False
    by (auto simp: settled_def vouched_def redis_live_def split: option.splits prod.splits if_splits)
qed

end
