(* ===== verification/Single_Use.thy ===== *)
theory Single_Use
  imports Freshness
begin

text \<open>
  A sign-in state is worth one callback.  A request stores a state only under a UUID it has just drawn,
  so a state string that no later UUID repeats, once taken or expired, stays gone on every run.
\<close>

text \<open>The UUID is among those drawn between the two worlds.\<close>

definition drawn :: "string \<Rightarrow> world \<Rightarrow> world \<Rightarrow> bool" where
  "drawn st w w' \<longleftrightarrow> (\<exists>n \<ge> w_uuid_next w. n < w_uuid_next w' \<and> w_uuid w n = st)"

lemma drawn_faults [simp]: "drawn st (w\<lparr>w_faults := fs\<rparr>) w' = drawn st w w'"
  by (simp add: drawn_def)

lemma drawn_trans:
  assumes "drawn st u v \<or> drawn st v w" and "w_uuid v = w_uuid u" "w_uuid_next u \<le> w_uuid_next v" "w_uuid_next v \<le> w_uuid_next w"
  shows "drawn st u w"
  using assms unfolding drawn_def by (metis le_trans less_le_trans)

definition single_use :: "string \<Rightarrow> world \<Rightarrow> world \<Rightarrow> bool" where
  "single_use st w w' \<longleftrightarrow> w_uuid w' = w_uuid w \<and> w_uuid_next w \<le> w_uuid_next w' \<and> w_now w' = w_now w \<and>
     (w_redis w' (OIDCStateKey st) \<in> {w_redis w (OIDCStateKey st), None} \<or>
      drawn st w w')"

lemma single_use_order [simp]: "reflp (single_use st)" "transp (single_use st)"
proof -
  show "reflp (single_use st)" by (rule reflpI) (simp add: single_use_def)
  show "transp (single_use st)"
  proof (rule transpI)
    fix u v w
    assume uv: "single_use st u v" and vw: "single_use st v w"
    from uv vw have "w_uuid v = w_uuid u" "w_uuid_next u \<le> w_uuid_next v" "w_uuid_next v \<le> w_uuid_next w"
      by (simp_all add: single_use_def)
    then have "drawn st u v \<or> drawn st v w \<Longrightarrow> drawn st u w" using drawn_trans by blast
    with uv vw show "single_use st u w" unfolding single_use_def by auto
  qed
qed

text \<open>What is written under other keys does not matter.\<close>

lemma single_use_set: "k \<noteq> OIDCStateKey st \<Longrightarrow> single_use st w (w\<lparr>w_redis := (w_redis w)(k := v)\<rparr>)"
  by (simp add: single_use_def)

text \<open>A state is saved under the UUID drawn for it.\<close>

lemma single_use_save:
  assumes "run_state (SaveState (w_uuid w (w_uuid_next w)) d ttl) (w\<lparr>w_uuid_next := Suc (w_uuid_next w)\<rparr>) = (q, w')"
  shows "single_use st w w'"
proof -
  let ?st = "w_uuid w (w_uuid_next w)" and ?w1 = "w\<lparr>w_uuid_next := Suc (w_uuid_next w)\<rparr>"
  from assms obtain v t u where "run_state (redis_cmd_set (OIDCStateKey ?st) v t) ?w1 = (u, w')"
    by (auto simp: SaveState_def RedisClient_SetJSON_def Let_def split: sum.splits prod.splits)
  from redis_cmd_set_run [OF this] have "w_uuid w' = w_uuid w \<and> w_uuid_next w' = Suc (w_uuid_next w) \<and> w_now w' = w_now w \<and>
      (\<forall>k. k \<noteq> OIDCStateKey ?st \<longrightarrow> w_redis w' k = w_redis w k)" by auto
  then show ?thesis by (cases "?st = st") (auto simp: single_use_def drawn_def)
qed

lemma single_use_start:
  assumes "github_signin http_Do uc"
  shows "frames (single_use st) (StartAuthentication uc orepo uri shell)"
proof (rule framesI)
  fix w r w'
  assume run: "run_state (StartAuthentication uc orepo uri shell) w = (r, w')"
  let ?st = "w_uuid w (w_uuid_next w)" and ?w1 = "w\<lparr>w_uuid_next := Suc (w_uuid_next w)\<rparr>"
  show "single_use st w w'"
  proof (cases "w' = w")
    case False
    from assms obtain gp uris where uc: "uc = \<lparr>ou_oauthProvider = github_oauth http_Do gp,
        ou_sessionStore = NewSessionStore, ou_stateStore = NewOIDCStateStore, ou_allowedRedirectURIs = uris\<rparr>"
      by (auto simp: github_signin_def)
    from run False obtain ri where ri: "orepo = Some ri" "uri \<noteq> []" "AllowedRedirectURIs_Contains uris uri"
      by (auto simp: StartAuthentication_def uc split: option.splits if_splits)
    obtain q w2 where q: "run_state (SaveState ?st (NewOAuthState (FullName ri) uri shell) uc_OIDCStateTTL) ?w1 = (q, w2)"
      by fastforce
    from run ri q have "\<exists>v. w' = w2\<lparr>w_redirectURI := v\<rparr> \<or> w' = w2"
      by (cases q) (auto simp: StartAuthentication_def uc Let_def NewOIDCStateStore_def run_try_bind
          dest: github.redirect_state github.url_state split: prod.splits)
    with single_use_save [OF q, of st] show ?thesis by (auto simp: single_use_def drawn_def)
  qed (simp add: single_use_def)
qed

lemma single_use_IsAllowed: "frames (single_use st) (allowlist_IsAllowed cached_allowlist (Some ar))"
proof -
  have bind: "frames (single_use st) (State_Monad.bind m f)" if "frames (single_use st) m" "\<And>x. frames (single_use st) (f x)"
    for m :: "(world, 'x) state" and f :: "'x \<Rightarrow> (world, 'y) state"
    using that by (intro frames_bind) simp_all
  have pure: "frames (single_use st) (lift_result q)" for q :: "gerror + 'z"
    by (intro frames_lift_result) simp
  have calls: "frames (single_use st) (redis_cmd_get k)" "frames (single_use st) (sql_allowlist_exists s)"
    "frames (single_use st) (redis_cmd_set (OIDCGitHubRepoKey s) v ttl)" for k s v ttl
    unfolding redis_cmd_get_def sql_allowlist_exists_def redis_cmd_set_def
    by (rule external_frames; simp add: single_use_def split: option.split)+
  show ?thesis
    by (auto simp: cached_allowlist_def NewCachingRepositoryAllowlist_def NewCachingRepositoryAllowlistWithTTL_def
        caching_IsAllowed_def getCacheKey_def checkCache_def setCache_def redis_AllowlistCacheClient_def
        RedisClient_Get_def RedisClient_Set_def NewRepositoryAllowlistRepository_def pg_IsAllowed_def
        RepositoryAllowlistDAO_Exists_def intro!: bind pure calls split: sum.split)
qed

interpretation states_once: request_frame "single_use st" for st
proof unfold_locales
  show "single_use st (w\<lparr>w_faults := fs\<rparr>) w' = single_use st w w'" "single_use st w (w\<lparr>w_faults := fs\<rparr>)"
    "single_use st w (w\<lparr>w_objects := objs\<rparr>)" "single_use st w (w\<lparr>w_policies := pols, w_policy_seq := n\<rparr>)"
    "single_use st w (w\<lparr>w_policy_seq := n\<rparr>)" "single_use st w (w\<lparr>w_storage := bodies\<rparr>)"
    "single_use st w (w\<lparr>w_calls := calls\<rparr>)" "single_use st w (w\<lparr>w_redirectURI := uri\<rparr>)"
    "single_use st w (w\<lparr>w_uuid_next := Suc (w_uuid_next w)\<rparr>)"
    "single_use st w (w\<lparr>w_redis := (w_redis w)(OIDCStateKey s := None)\<rparr>)"
    for w w' fs objs pols n bodies calls uri s
    by (simp_all add: single_use_def)
  show "single_use st w (w\<lparr>w_redis := (w_redis w)(k := e)\<rparr>)" if "k \<in> {MetadataKey s, BatchUploadKey s, SessionKey s, OIDCJWKSKey s}"
    for k s w e
    using that by (intro single_use_set) auto
qed (simp_all add: single_use_start single_use_IsAllowed)

section \<open>Runs\<close>

text \<open>The same with time passing, as every event of a run does it.\<close>

definition state_once :: "string \<Rightarrow> world \<Rightarrow> world \<Rightarrow> bool" where
  "state_once st w w' \<longleftrightarrow> w_uuid w' = w_uuid w \<and> w_uuid_next w \<le> w_uuid_next w' \<and> w_now w \<le> w_now w' \<and>
     (w_redis w' (OIDCStateKey st) \<in> {w_redis w (OIDCStateKey st), None} \<or>
      drawn st w w')"

lemma single_use_once: "single_use st w w' \<Longrightarrow> state_once st w w'"
  by (simp add: single_use_def state_once_def)

lemma happens_once:
  assumes lib: "jwt_library jwt_Parse verifies" and p: "wired http_Do jwt_Parse p" and e: "happens p w e w'"
  shows "state_once st w w'"
  using e
proof (cases rule: happens.cases)
  case (request rt c r)
  from framesD [OF states_once.frame_serve [OF lib p] request(2)] show ?thesis by (rule single_use_once)
next
  case (allow ar r)
  moreover have "OIDCStateKey st \<noteq> allow_key ar" using allow_key_other(3) by metis
  ultimately show ?thesis using framesD [OF grows_Add allow(2)] by (auto simp: state_once_def grows_def)
next
  case (disallow ar r)
  from framesD [OF shrinks_Remove disallow(2)] show ?thesis by (auto simp: state_once_def shrinks_def)
qed (auto simp: state_once_def)

text \<open>\<open>spent st w\<close>: the state is worth nothing now, and no UUID still to come repeats it.  \<open>issued st w\<close>:
  no UUID comes twice, and the state, if it is worth something, was drawn.\<close>

definition spent :: "string \<Rightarrow> world \<Rightarrow> bool" where
  "spent st w \<longleftrightarrow> redis_pending w st = None \<and> (\<forall>n \<ge> w_uuid_next w. w_uuid w n \<noteq> st)"

definition issued :: "string \<Rightarrow> world \<Rightarrow> bool" where
  "issued st w \<longleftrightarrow> inj (w_uuid w) \<and> (redis_pending w st \<noteq> None \<longrightarrow> (\<exists>n < w_uuid_next w. w_uuid w n = st))"

lemma pending_gone:
  assumes "w_redis w' (OIDCStateKey st) \<in> {w_redis w (OIDCStateKey st), None}" and "w_now w \<le> w_now w'"
    and "redis_pending w st = None"
  shows "redis_pending w' st = None"
proof -
  have "redis_live w' (OIDCStateKey st) \<in> {redis_live w (OIDCStateKey st), None}"
    using assms(1,2) by (cases "w_redis w' (OIDCStateKey st)") (auto simp: redis_live_def split: option.splits)
  with assms(3) show ?thesis by (auto simp: redis_pending_def redis_read_def)
qed

lemma once_spent: "state_once st w w' \<Longrightarrow> spent st w \<Longrightarrow> spent st w'"
  using pending_gone [of w' st w] by (auto simp: state_once_def spent_def drawn_def)

lemma once_issued:
  assumes "state_once st w w'" and "issued st w"
  shows "issued st w'"
proof (cases "w_redis w' (OIDCStateKey st) \<in> {w_redis w (OIDCStateKey st), None}")
  case True
  with assms pending_gone [OF True] show ?thesis
    unfolding state_once_def issued_def by (metis less_le_trans)
qed (use assms in \<open>auto simp: state_once_def issued_def drawn_def\<close>)

lemma happens_spent:
  assumes "jwt_library jwt_Parse verifies" and "wired http_Do jwt_Parse p" and "happens p w e w'" and "spent st w"
  shows "spent st w'"
  using once_spent [OF happens_once [OF assms(1-3)] assms(4)] .

lemma reaches_spent:
  assumes lib: "jwt_library jwt_Parse verifies" and p: "wired http_Do jwt_Parse p"
    and r: "reaches p w es w'" and s: "spent st w"
  shows "spent st w'"
  using r s by (induction rule: reaches.induct) (auto dest: happens_spent [OF lib p])

end
