(* ===== verification/Exclusion.thy ===== *)
theory Exclusion
  imports Tasks
begin

text \<open>
  Overlapping requests that compete for something only one of them can have.  \<open>spent w\<close> says that it
  is gone for good, \<open>good\<close> is an invariant of the world, and \<open>hit\<close> marks the answers it takes the thing to
  get.  A task is loyal when each of its calls keeps the invariant and what is spent.  It is eager when it is
  loyal and has not got the thing: it ends in no such answer, unless one of its calls takes the thing, which
  was there before and is spent then.  In a pool of tasks that start eager at most one gets such an answer.
\<close>

section \<open>Loyal and eager tasks\<close>

inductive loyal :: "('w \<Rightarrow> bool) \<Rightarrow> ('w \<Rightarrow> bool) \<Rightarrow> ('w, 'a) task \<Rightarrow> bool" for good spent where
  loyal_Done: "loyal good spent (Done a)"
| loyal_Call: "(\<And>w t v. good w \<Longrightarrow> f w = (t, v) \<Longrightarrow> good v \<and> (spent w \<longrightarrow> spent v) \<and> loyal good spent t) \<Longrightarrow>
    loyal good spent (Call f)"

inductive eager :: "('w \<Rightarrow> bool) \<Rightarrow> ('w \<Rightarrow> bool) \<Rightarrow> ('a \<Rightarrow> bool) \<Rightarrow> ('w, 'a) task \<Rightarrow> bool" for good spent hit where
  eager_Done: "\<not> hit a \<Longrightarrow> eager good spent hit (Done a)"
| eager_Call: "(\<And>w t v. good w \<Longrightarrow> f w = (t, v) \<Longrightarrow> good v \<and> (spent w \<longrightarrow> spent v) \<and>
      (eager good spent hit t \<or> loyal good spent t \<and> \<not> spent w \<and> spent v)) \<Longrightarrow>
    eager good spent hit (Call f)"

inductive_simps eager_Done_iff [simp]: "eager good spent hit (Done a)"
inductive_cases loyal_CallE: "loyal good spent (Call f)"
inductive_cases eager_CallE: "eager good spent hit (Call f)"

declare loyal_Done [intro!]

lemma loyal_and_then:
  assumes "\<And>w a v. good w \<Longrightarrow> run_state m w = (a, v) \<Longrightarrow> good v \<and> (spent w \<longrightarrow> spent v)"
    and "\<And>a. loyal good spent (k a)"
  shows "loyal good spent (and_then m k)"
  unfolding and_then_def
proof (rule loyal_Call)
  fix w t v assume "good w" and t: "map_prod k id (run_state m w) = (t, v)"
  then show "good v \<and> (spent w \<longrightarrow> spent v) \<and> loyal good spent t"
    using assms by (cases "run_state m w") auto
qed

lemma eager_and_then:
  assumes "\<And>w a v. good w \<Longrightarrow> run_state m w = (a, v) \<Longrightarrow> good v \<and> (spent w \<longrightarrow> spent v)"
    and "\<And>w a v. good w \<Longrightarrow> run_state m w = (a, v) \<Longrightarrow>
      eager good spent hit (k a) \<or> loyal good spent (k a) \<and> \<not> spent w \<and> spent v"
  shows "eager good spent hit (and_then m k)"
  unfolding and_then_def
proof (rule eager_Call)
  fix w t v assume w: "good w" and "map_prod k id (run_state m w) = (t, v)"
  then obtain a where run: "run_state m w = (a, v)" "t = k a" by (cases "run_state m w") auto
  from assms(1) [OF w run(1)] assms(2) [OF w run(1)]
  show "good v \<and> (spent w \<longrightarrow> spent v) \<and> (eager good spent hit t \<or> loyal good spent t \<and> \<not> spent w \<and> spent v)"
    unfolding run(2) by blast
qed

text \<open>The same call by call, where what is left depends on the world the call was made in.\<close>

lemma loyal_step:
  assumes "\<And>w a v. good w \<Longrightarrow> run_state m w = (a, v) \<Longrightarrow> good v \<and> (spent w \<longrightarrow> spent v) \<and> loyal good spent (k a)"
  shows "loyal good spent (and_then m k)"
  unfolding and_then_def
proof (rule loyal_Call)
  fix w t v assume "good w" and "map_prod k id (run_state m w) = (t, v)"
  then show "good v \<and> (spent w \<longrightarrow> spent v) \<and> loyal good spent t"
    using assms by (cases "run_state m w") auto
qed

lemma eager_step:
  assumes "\<And>w a v. good w \<Longrightarrow> run_state m w = (a, v) \<Longrightarrow> good v \<and> (spent w \<longrightarrow> spent v) \<and> eager good spent hit (k a)"
  shows "eager good spent hit (and_then m k)"
  by (rule eager_and_then) (use assms in blast)+

text \<open>Once something is spent it is part of the invariant.\<close>

lemma loyal_spent: "loyal good spent t \<Longrightarrow> loyal (\<lambda>w. good w \<and> spent w) (\<lambda>w. False) t"
  by (induction rule: loyal.induct) (blast intro: loyal.intros)+

lemma eager_loyal: "eager good spent hit t \<Longrightarrow> loyal good spent t"
  by (induction rule: eager.induct) (blast intro: loyal.intros)+

section \<open>The pool\<close>

text \<open>The contract: whoever else moves the world keeps the invariant and brings nothing spent back.\<close>

locale single_winner =
  fixes good :: "'w \<Rightarrow> bool" and spent :: "'w \<Rightarrow> bool" and hit :: "'a \<Rightarrow> bool" and env :: "'w \<Rightarrow> 'w \<Rightarrow> bool"
  assumes env_good: "good w \<Longrightarrow> env w v \<Longrightarrow> good v"
    and env_spent: "spent w \<Longrightarrow> env w v \<Longrightarrow> spent v"
begin

definition exclusive :: "('w, 'a) task list \<Rightarrow> 'w \<Rightarrow> bool" where
  "exclusive ts w \<longleftrightarrow> good w \<and> (\<forall>t \<in> set ts. eager good spent hit t \<or> loyal good spent t \<and> spent w) \<and>
     (\<forall>i < length ts. \<forall>j < length ts.
        \<not> eager good spent hit (ts ! i) \<longrightarrow> \<not> eager good spent hit (ts ! j) \<longrightarrow> i = j)"

lemma exclusive_start: "good w \<Longrightarrow> (\<And>t. t \<in> set ts \<Longrightarrow> eager good spent hit t) \<Longrightarrow> exclusive ts w"
  using nth_mem unfolding exclusive_def by blast

lemma exclusive_turn:
  assumes ex: "exclusive ts w" and turn: "turn ts w us w'"
  shows "exclusive us w'"
  using turn
proof (rule turnE)
  fix i f t
  assume i: "i < length ts" "ts ! i = Call f" "f w = (t, w')" and us: "us = ts[i := t]"
  let ?eager = "eager good spent hit"
  from ex have good: "good w" and all: "\<And>j. j < length ts \<Longrightarrow> ?eager (ts ! j) \<or> loyal good spent (ts ! j) \<and> spent w"
    and one: "\<And>j l. j < length ts \<Longrightarrow> l < length ts \<Longrightarrow> \<not> ?eager (ts ! j) \<Longrightarrow> \<not> ?eager (ts ! l) \<Longrightarrow> j = l"
    unfolding exclusive_def by (blast dest: nth_mem)+
  have step: "good w'" "spent w \<longrightarrow> spent w'" "?eager t \<or> loyal good spent t \<and> spent w'"
    "?eager (ts ! i) \<longrightarrow> ?eager t \<or> \<not> spent w"
    using all [OF i(1)] good i(2,3) by (auto elim!: eager_CallE loyal_CallE)
  have alone: "?eager (ts ! j)" if "\<not> ?eager t" "j < length ts" "j \<noteq> i" for j
    using one [OF i(1), of j] all [of j] step(4) that by blast
  show ?thesis unfolding exclusive_def us
  proof (intro conjI allI impI ballI)
    fix s assume "s \<in> set (ts[i := t])"
    then obtain j where "j < length ts" "s = ts[i := t] ! j" by (metis in_set_conv_nth length_list_update)
    then show "?eager s \<or> loyal good spent s \<and> spent w'"
      using all [of j] step(2,3) i(1) by (cases "j = i") auto
  next
    fix j l assume jl: "j < length (ts[i := t])" "l < length (ts[i := t])"
      and no: "\<not> ?eager (ts[i := t] ! j)" "\<not> ?eager (ts[i := t] ! l)"
    consider "j = i" "l = i" | "j = i" "l \<noteq> i" | "j \<noteq> i" "l = i" | "j \<noteq> i" "l \<noteq> i" by blast
    then show "j = l" using jl no i(1) alone [of j] alone [of l] one [of j l] by cases (simp_all add: nth_list_update)
  qed (rule step(1))
qed

lemma exclusive_arrives:
  assumes "exclusive ts w" and "eager good spent hit t"
  shows "exclusive (ts @ [t]) w"
  using assms unfolding exclusive_def by (auto simp: nth_append less_Suc_eq)

lemma exclusive_moves:
  assumes "exclusive ts w" and "env w v"
  shows "exclusive ts v"
  using assms env_good env_spent unfolding exclusive_def by blast

text \<open>Whatever the order of the turns, whatever arrives and whatever happens between: one answer at most.\<close>

lemma interleaved_exclusive:
  assumes "interleaved T env ts w us v" and "good w" and "\<And>t. t \<in> T \<union> set ts \<Longrightarrow> eager good spent hit t"
  shows "exclusive us v"
  using assms(1)
proof induction
  case still
  show ?case by (rule exclusive_start) (use assms(2,3) in auto)
next
  case (turns us v us' v')
  from turns(3,2) show ?case by (rule exclusive_turn)
next
  case (arrives us v t)
  with assms(3) show ?case by (intro exclusive_arrives) auto
next
  case (moves us v v')
  from moves(3,2) show ?case by (rule exclusive_moves)
qed

lemma at_most_one:
  assumes "interleaved T env ts w us v" and "good w" and "\<And>t. t \<in> T \<union> set ts \<Longrightarrow> eager good spent hit t"
    and "i < length us" "us ! i = Done a" "hit a" and "j < length us" "us ! j = Done b" "hit b"
  shows "i = j \<and> spent v"
proof -
  have ex: "exclusive us v" by (rule interleaved_exclusive [OF assms(1-3)])
  moreover have "\<not> eager good spent hit (us ! i)" "\<not> eager good spent hit (us ! j)" using assms(5,6,8,9) by simp_all
  ultimately show ?thesis using assms(4,7) nth_mem unfolding exclusive_def by blast
qed

end

lemma interleaved_env: "interleaved T env ts w us v \<Longrightarrow> (\<And>x y. env x y \<Longrightarrow> env' x y) \<Longrightarrow> interleaved T env' ts w us v"
  by (induction rule: interleaved.induct) (auto intro: interleaved.intros)

section \<open>Late arrivals\<close>

text \<open>A pool of loyal tasks keeps the invariant, and what is spent.\<close>

lemma interleaved_loyal:
  assumes "interleaved T env ts w us v" and "good w" and "\<And>t. t \<in> T \<union> set ts \<Longrightarrow> loyal good spent t"
    and env: "\<And>x y. env x y \<Longrightarrow> good x \<Longrightarrow> good y \<and> (spent x \<longrightarrow> spent y)"
  shows "good v \<and> (spent w \<longrightarrow> spent v) \<and> (\<forall>u \<in> set us. loyal good spent u)"
  using assms(1)
proof induction
  case (turns us v us' v')
  from turns(2) obtain i f t where "i < length us" "us ! i = Call f" "f v = (t, v')" "us' = us[i := t]" by (rule turnE)
  moreover from this turns(3) have "loyal good spent (Call f)" using nth_mem by metis
  ultimately show ?case using turns(3) set_update_subset_insert [of us i t] by (auto elim!: loyal_CallE)
qed (use assms in auto)

text \<open>When the invariant rules the answer out, none of those who arrive from then on gets it.\<close>

lemma late_never_hit:
  assumes "interleaved T env ts w us v" and "good w" and old: "\<And>t. t \<in> set ts \<Longrightarrow> loyal good (\<lambda>w. False) t"
    and new: "\<And>t. t \<in> T \<Longrightarrow> eager good (\<lambda>w. False) hit t" and env: "\<And>x y. env x y \<Longrightarrow> good x \<Longrightarrow> good y"
    and i: "length ts \<le> i" "i < length us" "us ! i = Done a"
  shows "\<not> hit a"
proof -
  from assms(1) have "good v \<and> (\<forall>u \<in> set us. loyal good (\<lambda>w. False) u) \<and> length ts \<le> length us \<and>
      (\<forall>j. length ts \<le> j \<and> j < length us \<longrightarrow> eager good (\<lambda>w. False) hit (us ! j))"
  proof induction
    case (turns us v us' v')
    from turns(2) obtain j f t where t: "j < length us" "us ! j = Call f" "f v = (t, v')" "us' = us[j := t]" by (rule turnE)
    with turns(3) have "loyal good (\<lambda>w. False) (Call f)" using nth_mem by metis
    with turns(3) t(3) have "good v'" "loyal good (\<lambda>w. False) t" by (auto elim!: loyal_CallE)
    moreover have "eager good (\<lambda>w. False) hit t" if "length ts \<le> j"
    proof -
      from turns(3) t(1,2) that have "eager good (\<lambda>w. False) hit (Call f)" by metis
      with turns(3) t(3) show ?thesis by (auto elim!: eager_CallE)
    qed
    ultimately show ?case using turns(3) t(1,4) set_update_subset_insert [of us j t] by (auto simp: nth_list_update)
  next
    case (arrives us v t)
    with new eager_loyal [OF new] show ?case by (auto simp: nth_append less_Suc_eq)
  qed (use assms(2) old env in auto)
  then show ?thesis using i eager_Done_iff by metis
qed

end
