(* ===== verification/Callbacks.thy ===== *)
theory Callbacks
  imports Races Single_Use Exclusion
begin

text \<open>
  Sign-ins that overlap: \<^verbatim>\<open>github_oauth_usecase.go\<close> cut into its calls to Redis and GitHub, and the
  proof that a state is worth one callback also then.  What decides is that the state is taken by a single
  command, the first call of a callback.
\<close>

section \<open>The callback in turns\<close>

definition callback_turns :: "GitHubOAuthUseCase \<Rightarrow> string \<Rightarrow> string \<Rightarrow> (string \<times> ShellType) turns" where
  "callback_turns u code st =
     (if code = [] then Done (Inl (Wrap (Usecase UErrInvalidCode)))
      else if st = [] then Done (Inl (Wrap (Usecase UErrInvalidState)))
      else and_then (store_GetAndDeleteState (ou_stateStore u) st) (\<lambda>sd. case sd of
          Inl err \<Rightarrow> Done (Inl (Wrap (Usecase UErrInvalidState)))
        | Inr stateData \<Rightarrow> (case NewRepositoryIdentifier (os_repository stateData) of
            Inl err \<Rightarrow> Done (Inl (Wrap (Usecase UErrInvalidRepository)))
          | Inr repository \<Rightarrow>
              and_then (oauth_SetRedirectURI (ou_oauthProvider u) (os_redirectURI stateData)) (\<lambda>x.
              and_then (oauth_ExchangeCode (ou_oauthProvider u) code) (\<lambda>tk. case tk of
                Inl err \<Rightarrow> Done (Inl (Wrap (Usecase UErrCodeExchangeFailed)))
              | Inr token \<Rightarrow> and_then (oauth_GetUserInfo (ou_oauthProvider u) (Some token)) (\<lambda>gu. case gu of
                  Inl err \<Rightarrow> Done (Inl (Wrap (Usecase UErrUserInfoFailed)))
                | Inr githubUser \<Rightarrow>
                    and_then (oauth_GetRepositoryPermissions (ou_oauthProvider u) (Some token) (Some repository)) (\<lambda>ps. case ps of
                      Inl err \<Rightarrow> Done (Inl (Wrap (Usecase UErrRepositoryAccessCheckFailed)))
                    | Inr permissions \<Rightarrow>
                        if \<not> CanDownload permissions then Done (Inl (Wrap (Usecase UErrRepositoryAccessDenied)))
                        else (case NewUserInfo (FormatInt (gu_ID githubUser)) [] (gu_Name githubUser)
                            ProviderTypeGitHub (Some repository) [] of
                          Inl err \<Rightarrow> Done (Inl (Wrap (Usecase UErrUserInfoCreationFailed)))
                        | Inr userInfo \<Rightarrow> and_then (store_CreateSession (ou_sessionStore u)
                            (Some (SetPermissions (Some permissions) userInfo)) uc_SessionTTL) (\<lambda>sid. case sid of
                              Inl err \<Rightarrow> Done (Inl (Wrap (Usecase UErrSessionCreationFailed)))
                            | Inr sessionID \<Rightarrow> Done (Inr (sessionID, os_shell stateData)))))))))))"

lemma run_callback_turns: "run_task (callback_turns u code st) = HandleCallback u code st"
  by (simp add: callback_turns_def HandleCallback_def lift_result_def run_task_cases
      cong: sum.case_cong if_cong)

section \<open>Visits\<close>

text \<open>The two halves of a sign-in, as requests in a pool.\<close>

datatype visit = Leave "RepositoryIdentifier option" string ShellType | Come_back string string

datatype visit_reply = Sent_off "gerror + string" | Let_in "gerror + string \<times> ShellType"

fun visit_turns :: "GitHubOAuthUseCase \<Rightarrow> visit \<Rightarrow> (world, visit_reply) task" where
  "visit_turns u (Leave repository redirectURI shell) =
     task_bind (start_turns u repository redirectURI shell) (\<lambda>r. Done (Sent_off r))"
| "visit_turns u (Come_back code st) = task_bind (callback_turns u code st) (\<lambda>r. Done (Let_in r))"

fun serve_visit :: "GitHubOAuthUseCase \<Rightarrow> visit \<Rightarrow> (world, visit_reply) state" where
  "serve_visit u (Leave repository redirectURI shell) =
     State_Monad.bind (StartAuthentication u repository redirectURI shell) (\<lambda>r. State_Monad.return (Sent_off r))"
| "serve_visit u (Come_back code st) =
     State_Monad.bind (HandleCallback u code st) (\<lambda>r. State_Monad.return (Let_in r))"

definition visiting :: "GitHubOAuthUseCase \<Rightarrow> visit \<Rightarrow> (world, visit \<times> visit_reply) task" where
  "visiting u q = task_bind (visit_turns u q) (\<lambda>a. Done (q, a))"

lemma run_visit_turns: "run_task (visit_turns u q) = serve_visit u q"
  by (cases q) (simp_all add: run_start_turns run_callback_turns)

lemma run_visiting: "run_task (visiting u q) = State_Monad.bind (serve_visit u q) (\<lambda>a. State_Monad.return (q, a))"
  by (simp add: visiting_def run_visit_turns)

text \<open>A visit that got in with the state.\<close>

fun got_in :: "string \<Rightarrow> visit \<times> visit_reply \<Rightarrow> bool" where
  "got_in st (Come_back code st', Let_in (Inr x)) = (st' = st)"
| "got_in st p = False"

section \<open>One callback for a state\<close>

interpretation state_taker: single_winner "issued st" "spent st" "got_in st" "state_once st" for st
  by unfold_locales (blast intro: once_issued once_spent)+

text \<open>A call that moves the world as every call of a sign-in does.\<close>

lemma once_kept:
  assumes "frames (single_use st) m" and "issued st w" and "run_state m w = (a, v)"
  shows "issued st v \<and> (spent st w \<longrightarrow> spent st v)"
  using single_use_once [OF framesD [OF assms(1,3)]] once_issued once_spent assms(2) by blast

lemma loyal_visit:
  assumes "frames (single_use st) m" and "\<And>a. loyal (issued st) (spent st) (k a)"
  shows "loyal (issued st) (spent st) (and_then m k)"
  by (rule loyal_and_then [OF once_kept [OF assms(1)] assms(2)])

lemma eager_visit:
  assumes "frames (single_use st) m" and "\<And>a. eager (issued st) (spent st) hit (k a)"
  shows "eager (issued st) (spent st) hit (and_then m k)"
  by (rule eager_and_then [OF once_kept [OF assms(1)]]) (simp_all add: assms(2))

text \<open>Taking the state with success finds it worth something and leaves it spent.\<close>

lemma taken_spent:
  assumes "run_state (GetAndDeleteState st) w = (Inr d, v)" and "issued st w"
  shows "\<not> spent st w \<and> spent st v"
proof -
  from GetAndDeleteState_run [OF assms(1)] have p: "redis_pending w st = Some d" "redis_pending v st = None" by auto
  with assms(2) obtain n where n: "n < w_uuid_next w" "w_uuid w n = st" and inj: "inj (w_uuid w)"
    unfolding issued_def by auto
  from framesD [OF states_once.frame_sessions(1) assms(1), of st] have "w_uuid v = w_uuid w" "w_uuid_next w \<le> w_uuid_next v"
    by (simp_all add: single_use_def)
  with n inj have "\<forall>m \<ge> w_uuid_next v. w_uuid v m \<noteq> st" by (metis injD le_trans not_le)
  with p show ?thesis by (simp add: spent_def)
qed

text \<open>The calls of a sign-in other than the taking of the state.\<close>

lemma issue_kept:
  assumes "github_signin http_Do uc"
  shows "frames (single_use st) (issue_state uc d)"
proof (rule framesI)
  fix w r w' assume "run_state (issue_state uc d) w = (r, w')"
  moreover obtain q v where q: "run_state (SaveState (w_uuid w (w_uuid_next w)) d uc_OIDCStateTTL) (w\<lparr>w_uuid_next := Suc (w_uuid_next w)\<rparr>) = (q, v)"
    by fastforce
  ultimately have "w' = v" using assms
    by (cases q) (auto simp: issue_state_def run_try_bind github_signin_def NewOIDCStateStore_def)
  with single_use_save [OF q] show "single_use st w w'" by simp
qed

lemma signin_parts:
  assumes "github_signin http_Do uc"
  obtains gp where "ou_oauthProvider uc = github_oauth http_Do gp" "ou_stateStore uc = NewOIDCStateStore" "ou_sessionStore uc = NewSessionStore"
  using assms by (auto simp: github_signin_def)

lemmas visit_frames = states_once.frame_github states_once.frame_sessions

lemma start_eager:
  assumes "github_signin http_Do uc"
  shows "eager (issued st) (spent st) (got_in st) (visiting uc (Leave repository redirectURI shell))"
  using assms
proof (rule signin_parts)
  fix gp assume uc: "ou_oauthProvider uc = github_oauth http_Do gp" "ou_stateStore uc = NewOIDCStateStore" "ou_sessionStore uc = NewSessionStore"
  show ?thesis
    by (auto simp: visiting_def start_turns_def and_then_bind uc(1) intro!: eager_visit issue_kept [OF assms] visit_frames
        split: option.split sum.split)
qed

lemma callback_eager:
  assumes g: "github_signin http_Do uc"
  shows "eager (issued st) (spent st) (got_in st) (visiting uc (Come_back code st'))"
  using g
proof (rule signin_parts)
  fix gp assume uc: "ou_oauthProvider uc = github_oauth http_Do gp" "ou_stateStore uc = NewOIDCStateStore" "ou_sessionStore uc = NewSessionStore"
  have stores: "store_GetAndDeleteState NewOIDCStateStore = GetAndDeleteState" "store_CreateSession NewSessionStore = SessionStore_CreateSession"
    by (simp_all add: NewOIDCStateStore_def NewSessionStore_def)
  show ?thesis
  proof (cases "st' = st")
    case False
    then show ?thesis
      by (auto simp: visiting_def callback_turns_def and_then_bind uc stores intro!: eager_visit visit_frames split: sum.split)
  next
    case True
    show ?thesis
    proof (cases "code = [] \<or> st = []")
      case True
      then show ?thesis using \<open>st' = st\<close> by (auto simp: visiting_def callback_turns_def)
    next
      case False
      then obtain k where k: "visiting uc (Come_back code st') = and_then (GetAndDeleteState st) k"
        "\<And>err. eager (issued st) (spent st) (got_in st) (k (Inl err))" "\<And>d. loyal (issued st) (spent st) (k (Inr d))"
        using \<open>st' = st\<close> by (rule_tac that, (auto simp: visiting_def callback_turns_def and_then_bind uc stores
          intro!: loyal_visit visit_frames split: sum.split)+)
      show ?thesis unfolding k(1)
      proof (rule eager_and_then)
        fix w a v assume w: "issued st w" and run: "run_state (GetAndDeleteState st) w = (a, v)"
        show "issued st v \<and> (spent st w \<longrightarrow> spent st v)" by (rule once_kept [OF visit_frames(6) w run])
        show "eager (issued st) (spent st) (got_in st) (k a) \<or> loyal (issued st) (spent st) (k a) \<and> \<not> spent st w \<and> spent st v"
          using k(2,3) taken_spent [of st w _ v] w run by (cases a) auto
      qed
    qed
  qed
qed

lemma visiting_eager: "github_signin http_Do uc \<Longrightarrow> eager (issued st) (spent st) (got_in st) (visiting uc q)"
  by (cases q) (simp_all only: start_eager callback_eager)

lemma one_let_in:
  assumes g: "github_signin http_Do uc" and run: "interleaved (range (visiting uc)) env [] w us v"
    and env: "\<And>x y. env x y \<Longrightarrow> state_once st x y" and w: "issued st w"
    and i: "i < length us" "us ! i = Done (Come_back code st, Let_in (Inr x))"
    and j: "j < length us" "us ! j = Done (Come_back code' st, Let_in (Inr y))"
  shows "i = j \<and> redis_pending v st = None"
proof -
  have "interleaved (range (visiting uc)) (state_once st) [] w us v" using interleaved_env [OF run] env by blast
  from state_taker.at_most_one [OF this w _ i _ j] visiting_eager [OF g] show ?thesis by (auto simp: spent_def)
qed

text \<open>A visit makes at most six calls.\<close>

lemma visit_calls: "at_most (visiting uc q) 6"
proof (cases q)
  case (Leave repository redirectURI shell)
  then show ?thesis
    by (auto simp: visiting_def start_turns_def and_then_bind intro!: at_most_step split: option.split sum.split)
next
  case (Come_back code st)
  then show ?thesis
    by (auto simp: visiting_def callback_turns_def and_then_bind intro!: at_most_step split: sum.split)
qed

end
