(* ===== verification/Allow_Turns.thy ===== *)
theory Allow_Turns
  imports Freshness Exclusion Interleaving
begin

text \<open>
  Overlapping lookups of the allowlist: \<^verbatim>\<open>CachingRepositoryAllowlist.IsAllowed\<close> cut into its calls, the
  cache, the table and the cache again.  Lookups that begin after a removal cannot bring the repository
  back; one that had read the table before can, for as long as a cached answer lives.
\<close>

section \<open>A lookup in turns\<close>

definition allowed_turns :: "AllowedRepository \<Rightarrow> (world, gerror + bool) task" where
  "allowed_turns ar = (let cacheKey = allow_key ar in
     and_then (checkCache redis_AllowlistCacheClient cacheKey) (\<lambda>c. case c of
         Inr allowed \<Rightarrow> Done (Inr allowed)
       | Inl miss \<Rightarrow> and_then (allowlist_IsAllowed NewRepositoryAllowlistRepository (Some ar)) (\<lambda>r. case r of
           Inl err \<Rightarrow> Done (Inl (Wrap err))
         | Inr allowed \<Rightarrow> and_then (setCache redis_AllowlistCacheClient repositoryCacheTTL cacheKey allowed)
             (\<lambda>u. Done (Inr allowed)))))"

definition asking :: "AllowedRepository \<Rightarrow> (world, AllowedRepository \<times> (gerror + bool)) task" where
  "asking ar = task_bind (allowed_turns ar) (\<lambda>r. Done (ar, r))"

lemma run_allowed_turns: "run_task (allowed_turns ar) = allowlist_IsAllowed cached_allowlist (Some ar)"
  by (simp add: allowed_turns_def cached_allowlist_def NewCachingRepositoryAllowlist_def NewCachingRepositoryAllowlistWithTTL_def
      caching_IsAllowed_def getCacheKey_def allow_key_def [symmetric] Let_def lift_result_def run_task_cases cong: sum.case_cong)

lemma asking_calls: "at_most (asking ar) 3"
  by (auto simp: asking_def allowed_turns_def Let_def and_then_bind intro!: at_most_step split: sum.split)

definition noted :: "AllowedRepository \<Rightarrow> bool \<Rightarrow> (world, AllowedRepository \<times> (gerror + bool)) task" where
  "noted ar allowed = and_then (setCache redis_AllowlistCacheClient repositoryCacheTTL (allow_key ar) allowed) (\<lambda>u. Done (ar, Inr allowed))"

definition read_table :: "AllowedRepository \<Rightarrow> (world, AllowedRepository \<times> (gerror + bool)) task" where
  "read_table ar = and_then (pg_IsAllowed (Some ar)) (\<lambda>r. case r of
       Inl err \<Rightarrow> Done (ar, Inl (Wrap err))
     | Inr allowed \<Rightarrow> noted ar allowed)"

lemma asking_cut:
  "asking ar = and_then (checkCache redis_AllowlistCacheClient (allow_key ar)) (\<lambda>c. case c of
       Inr allowed \<Rightarrow> Done (ar, Inr allowed) | Inl miss \<Rightarrow> read_table ar)"
  by (auto simp: asking_def allowed_turns_def Let_def and_then_bind read_table_def noted_def NewRepositoryAllowlistRepository_def
      intro!: arg_cong [of _ _ "and_then _"] ext split: sum.split)

lemma asking_answers:
  obtains r w' where "run_state (run_task (asking ar)) w = ((ar, r), w')"
  by (cases "run_state (run_task (allowed_turns ar)) w") (auto simp: asking_def)

section \<open>Its calls\<close>

lemma checkCache_run:
  assumes "run_state (checkCache redis_AllowlistCacheClient (allow_key ar)) w = (c, v)"
  shows "\<exists>fs. v = w\<lparr>w_faults := fs\<rparr> \<and> (c = Inr True \<longrightarrow> vouched w ar)"
proof -
  obtain r v' where r: "run_state (redis_cmd_get (allow_key ar)) w = (r, v')" by fastforce
  from assms r have "v = v'" "c = Inr True \<longrightarrow> r = Inr (RText ''true'')"
    by (cases r; auto simp: checkCache_def redis_AllowlistCacheClient_def RedisClient_Get_def split: if_splits)+
  with redis_cmd_get_run [OF r] show ?thesis by (auto simp: vouched_def)
qed

lemma setCache_run:
  assumes "run_state (setCache redis_AllowlistCacheClient repositoryCacheTTL (allow_key ar) b) w = (u, v)"
  shows "w_allowlist v = w_allowlist w \<and> w_now v = w_now w \<and>
    (w_redis v = w_redis w \<or> w_redis v = (w_redis w)(allow_key ar \<mapsto> answer_of w ar b))"
proof -
  obtain q v' where q: "run_state (redis_cmd_set (allow_key ar) (RText (if b then ''true'' else ''false'')) repositoryCacheTTL) w = (q, v')"
    by fastforce
  from assms q have "v = v'"
    by (cases q; auto simp: setCache_def redis_AllowlistCacheClient_def RedisClient_Set_def)
  with redis_cmd_set_run [OF q] show ?thesis by (auto simp: answer_of_def)
qed

section \<open>After a removal\<close>

definition late :: "instant \<Rightarrow> AllowedRepository \<Rightarrow> world \<Rightarrow> bool" where
  "late T ar w \<longleftrightarrow> settled T ar w \<and> T \<le> w_now w"

definition admitted :: "AllowedRepository \<Rightarrow> AllowedRepository \<times> (gerror + bool) \<Rightarrow> bool" where
  "admitted ar p \<longleftrightarrow> AllowedRepository_String (fst p) = AllowedRepository_String ar \<and> snd p = Inr True"

lemma settled_faults [simp]: "settled T ar (w\<lparr>w_faults := fs\<rparr>) = settled T ar w"
  by (simp add: settled_def listed_def)

lemma same_repository:
  assumes "AllowedRepository_String ar' = AllowedRepository_String ar"
  shows "allow_key ar' = allow_key ar" "listed w ar' = listed w ar" "vouched w ar' = vouched w ar"
  using assms by (simp_all add: allow_key_def listed_def vouched_def)

lemma late_not_vouched: "late T ar w \<Longrightarrow> \<not> vouched w ar"
  by (auto simp: late_def settled_def vouched_def redis_live_def split: option.splits prod.splits if_splits)

lemma settled_set:
  assumes "settled T ar w" and "run_state (setCache redis_AllowlistCacheClient repositoryCacheTTL (allow_key ar') b) w = (u, v)"
    and "AllowedRepository_String ar' = AllowedRepository_String ar \<Longrightarrow> \<not> b"
  shows "settled T ar v \<and> w_now v = w_now w"
proof -
  note set = setCache_run [OF assms(2)]
  have "w_redis v (allow_key ar) = w_redis w (allow_key ar) \<or> w_redis v (allow_key ar) = Some (answer_of w ar False)"
  proof (cases "AllowedRepository_String ar' = AllowedRepository_String ar")
    case True
    with assms(3) same_repository(1) [OF True] have "answer_of w ar' b = answer_of w ar False" "allow_key ar' = allow_key ar"
      by (simp_all add: answer_of_def)
    with set show ?thesis by auto
  next
    case False
    then have "allow_key ar \<noteq> allow_key ar'" by (simp add: allow_key_def)
    with set show ?thesis by auto
  qed
  with assms(1) set show ?thesis by (auto simp: settled_def listed_def answer_of_def)
qed

text \<open>A lookup keeps the repository out, and one that begins late enough does not let it in.\<close>

lemma table_says:
  assumes "run_state (pg_IsAllowed (Some ar')) w = (r, v)" and "settled T ar w"
  shows "\<exists>fs. v = w\<lparr>w_faults := fs\<rparr>" "r = Inr b \<Longrightarrow> AllowedRepository_String ar' = AllowedRepository_String ar \<Longrightarrow> \<not> b"
  using pg_IsAllowed_run [OF assms(1)] assms(2) same_repository(2) [of ar' ar w] by (auto simp: settled_def)

lemma noted_loyal:
  assumes "AllowedRepository_String ar' = AllowedRepository_String ar \<Longrightarrow> \<not> b"
  shows "loyal (settled T ar) (\<lambda>w. T \<le> w_now w) (noted ar' b)"
  unfolding noted_def by (rule loyal_step) (use settled_set [OF _ _ assms] in auto)

lemma read_table_loyal: "loyal (settled T ar) (\<lambda>w. T \<le> w_now w) (read_table ar')"
  unfolding read_table_def
proof (rule loyal_step, goal_cases)
  case (1 w r v)
  with table_says [OF 1(2,1)] noted_loyal show ?case by (cases r) auto
qed

lemma asking_loyal: "loyal (settled T ar) (\<lambda>w. T \<le> w_now w) (asking ar')"
  unfolding asking_cut
proof (rule loyal_step, goal_cases)
  case (1 w c v)
  with checkCache_run [OF 1(2)] read_table_loyal show ?case by (cases c) auto
qed

lemma noted_refused:
  assumes "AllowedRepository_String ar' = AllowedRepository_String ar \<Longrightarrow> \<not> b"
  shows "eager (late T ar) (\<lambda>w. False) (admitted ar) (noted ar' b)"
  unfolding noted_def by (rule eager_step) (use settled_set [OF _ _ assms] assms in \<open>auto simp: late_def admitted_def\<close>)

lemma read_table_refused: "eager (late T ar) (\<lambda>w. False) (admitted ar) (read_table ar')"
  unfolding read_table_def
proof (rule eager_step, goal_cases)
  case (1 w r v)
  then have "settled T ar w" by (simp add: late_def)
  from 1 table_says [OF 1(2) this] noted_refused show ?case by (cases r) (auto simp: late_def admitted_def)
qed

lemma asking_refused: "eager (late T ar) (\<lambda>w. False) (admitted ar) (asking ar')"
  unfolding asking_cut
proof (rule eager_step, goal_cases)
  case (1 w c v)
  from checkCache_run [OF 1(2)] obtain fs where v: "v = w\<lparr>w_faults := fs\<rparr>" and hit: "c = Inr True \<Longrightarrow> vouched w ar'" by blast
  have "\<not> admitted ar (ar', c)"
  proof
    assume "admitted ar (ar', c)"
    with hit have "vouched w ar'" "AllowedRepository_String ar' = AllowedRepository_String ar" by (simp_all add: admitted_def)
    with same_repository(3) late_not_vouched [OF 1(1)] show False by blast
  qed
  with 1(1) v read_table_refused show ?case by (cases c) (auto simp: late_def)
qed

text \<open>Between the turns anything may happen that does not put the repository back.\<close>

lemma stays_refused:
  assumes lib: "jwt_library jwt_Parse verifies" and p: "wired http_Do jwt_Parse p"
    and env: "\<And>x y. env x y \<Longrightarrow> \<exists>e. happens p x e y \<and> \<not> readmits ar e"
    and w: "settled T ar w" and ts: "set ts \<subseteq> range asking"
    and before: "interleaved (range asking) env ts w us v" and T: "T \<le> w_now v"
    and after: "interleaved (range asking) env us v us' v'"
    and i: "length us \<le> i" "i < length us'" "us' ! i = Done (ar', r)" "AllowedRepository_String ar' = AllowedRepository_String ar"
  shows "r \<noteq> Inr True"
proof -
  have moves: "settled T ar y \<and> (T \<le> w_now x \<longrightarrow> T \<le> w_now y)" if e: "env x y" and x: "settled T ar x" for x y
  proof -
    from env [OF e] obtain ev where "happens p x ev y" "\<not> readmits ar ev" by blast
    from happens_settled [OF lib p this(1) x this(2)] show ?thesis by auto
  qed
  have "settled T ar v \<and> (T \<le> w_now w \<longrightarrow> T \<le> w_now v) \<and> (\<forall>u \<in> set us. loyal (settled T ar) (\<lambda>w. T \<le> w_now w) u)"
  proof (rule interleaved_loyal [where good = "settled T ar", OF before w])
    show "loyal (settled T ar) (\<lambda>w. T \<le> w_now w) t" if "t \<in> range asking \<union> set ts" for t using that ts asking_loyal by auto
  qed (rule moves)
  then have v: "late T ar v" and us: "\<And>u. u \<in> set us \<Longrightarrow> loyal (late T ar) (\<lambda>w. False) u"
    using T loyal_spent [of "settled T ar"] by (auto simp: late_def [abs_def])
  have "\<not> admitted ar (ar', r)"
  proof (rule late_never_hit [where good = "late T ar", OF after _ _ _ _ i(1-3)])
    show "late T ar y" if "env x y" "late T ar x" for x y using moves [OF that(1)] that(2) by (simp add: late_def)
  qed (use v us asking_refused in auto)
  with i(4) show ?thesis by (simp add: admitted_def)
qed

section \<open>A lookup overtaken by a removal\<close>

text \<open>It has read the table before the removal and writes its answer after it.\<close>

lemma interleaved_alone:
  assumes "interleaved T env ts w [and_then m k] v" and "run_state m v = (a, v')"
  shows "interleaved T env ts w [k a] v'"
  using interleaved_call [OF assms(1), of 0 m k a v'] assms(2) by simp

lemma overtaken_check:
  assumes calm: "w_faults w = []" and listed: "listed w ar" and none: "redis_live w (allow_key ar) = None"
  shows "\<exists>v. interleaved {} (\<lambda>x y. run_state (allowlist_Remove cached_allowlist (Some ar)) x = (Inr (), y)) [asking ar] w
      [Done (ar, Inr True)] v \<and> \<not> listed v ar \<and> w_now v = w_now w \<and>
    (\<forall>d. 0 \<le> d \<and> d < repositoryCacheTTL \<longrightarrow>
       fst (run_state (allowlist_IsAllowed cached_allowlist (Some ar)) (v\<lparr>w_now := w_now v + d\<rparr>)) = Inr True)"
proof -
  let ?env = "\<lambda>x y. run_state (allowlist_Remove cached_allowlist (Some ar)) x = (Inr (), y)"
  let ?key = "allow_key ar" and ?rows = "filter (\<lambda>row. al_Repository row \<noteq> AllowedRepository_String ar) (w_allowlist w)"
  let ?w1 = "w\<lparr>w_allowlist := ?rows, w_redis := (w_redis w)(?key := None)\<rparr>"
  let ?v = "?w1\<lparr>w_redis := (w_redis ?w1)(?key \<mapsto> answer_of w ar True)\<rparr>"
  have miss: "run_state (checkCache redis_AllowlistCacheClient ?key) w = (Inl (Redis RedisErrCacheMiss), w)"
    by (simp add: checkCache_def redis_AllowlistCacheClient_def RedisClient_Get_def redis_cmd_get_def run_external_ok calm none)
  have yes: "run_state (pg_IsAllowed (Some ar)) w = (Inr True, w)"
    using listed by (simp add: pg_IsAllowed_def RepositoryAllowlistDAO_Exists_def sql_allowlist_exists_def run_external_ok calm listed_def)
  have gone: "?env w ?w1"
    using listed by (simp add: cached_allowlist_def NewCachingRepositoryAllowlist_def NewCachingRepositoryAllowlistWithTTL_def
        caching_Remove_def getCacheKey_def redis_AllowlistCacheClient_def RedisClient_Delete_def NewRepositoryAllowlistRepository_def
        pg_Remove_def RepositoryAllowlistDAO_Delete_def sql_delete_allowlist_def redis_cmd_del_def run_external_ok calm
        allow_key_def [symmetric] listed_def list_ex_iff filter_empty_conv)
  have stores: "run_state (setCache redis_AllowlistCacheClient repositoryCacheTTL ?key True) ?w1 = (Inr (), ?v)"
    by (simp add: setCache_def redis_AllowlistCacheClient_def RedisClient_Set_def redis_cmd_set_def run_external_ok calm answer_of_def
        repositoryCacheTTL_def Minute_def Second_def)
  have "interleaved {} ?env [asking ar] w [read_table ar] w"
    using interleaved_alone [OF interleaved.still [of "{}" ?env "[asking ar]" w, unfolded asking_cut] miss] by (simp add: asking_cut)
  from interleaved_alone [OF this [unfolded read_table_def] yes] have "interleaved {} ?env [asking ar] w [noted ar True] w" by (simp add: read_table_def)
  from interleaved_alone [OF interleaved.moves [OF this gone, unfolded noted_def] stores]
  have run: "interleaved {} ?env [asking ar] w [Done (ar, Inr True)] ?v" by simp
  have "redis_live (?v\<lparr>w_now := w_now ?v + d\<rparr>) ?key = Some (RText ''true'')" if "d < repositoryCacheTTL" for d
    using that by (simp add: redis_live_def answer_of_def)
  then have "fst (run_state (allowlist_IsAllowed cached_allowlist (Some ar)) (?v\<lparr>w_now := w_now ?v + d\<rparr>)) = Inr True"
    if "d < repositoryCacheTTL" for d
    using that by (simp add: cached_allowlist_def NewCachingRepositoryAllowlist_def NewCachingRepositoryAllowlistWithTTL_def
        caching_IsAllowed_def getCacheKey_def allow_key_def [symmetric] checkCache_def redis_AllowlistCacheClient_def RedisClient_Get_def
        redis_cmd_get_def run_external_ok calm)
  with run show ?thesis by (intro exI [of _ ?v]) (auto simp: listed_def list_ex_iff)
qed

end
