(* ===== verification/Wiring.thy ===== *)
theory Wiring
  imports Lifecycle "HOL-Library.Word"
begin

text \<open>
  From the configuration to the running program: \<^verbatim>\<open>internal/config\<close>, the connections of
  \<^verbatim>\<open>postgres/connection.go\<close>, \<^verbatim>\<open>redis/client.go\<close> and \<^verbatim>\<open>s3/client.go\<close>, and \<^verbatim>\<open>cmd/cargohold/main.go\<close> up to
  the point where the server starts to listen.  Reading a file, parsing PEM blocks, URLs and network
  prefixes are arguments.
\<close>

section \<open>Configuration\<close>

record ServerConfig =
  sv_TrustProxy :: bool
  sv_TrustedProxyCIDRs :: "string list"
  sv_ProxyTimeout :: duration

record DatabaseConfig =
  db_Host :: string
  db_Port :: int
  db_User :: string
  db_Password :: string
  db_DBName :: string
  db_SSLMode :: string

record RedisConfig =
  rc_Host :: string
  rc_Port :: int
  rc_Password :: string
  rc_DB :: int

record S3Config =
  sc_Endpoint :: string
  sc_AccessKeyID :: string
  sc_SecretAccessKey :: string
  sc_BucketName :: string
  sc_Region :: string

record GitHubOIDCConfig =
  oc_Enabled :: bool
  oc_Audience :: string
  oc_JWKSURL :: string

record GitHubOAuthConfig =
  oa_Enabled :: bool
  oa_ClientID :: string
  oa_ClientSecret :: string
  oa_AllowedHosts :: "string list"
  oa_AllowedRedirectURIs :: "string list"

record Config =
  cf_Server :: ServerConfig
  cf_Database :: DatabaseConfig
  cf_Redis :: RedisConfig
  cf_S3 :: S3Config
  cf_OIDC :: GitHubOIDCConfig
  cf_OAuth :: GitHubOAuthConfig

text \<open>How a configuration is printed: \<^verbatim>\<open>%v\<close> of a list of strings, \<^verbatim>\<open>%t\<close> of a truth value.\<close>

definition format_strings :: "string list \<Rightarrow> string" where
  "format_strings xs = ''['' @ strings_Join xs '' '' @ '']''"

definition format_bool :: "bool \<Rightarrow> string" where
  "format_bool b = (if b then ''true'' else ''false'')"

definition DatabaseConfig_String :: "DatabaseConfig \<Rightarrow> string" where
  "DatabaseConfig_String c = ''DatabaseConfig{Host: '' @ db_Host c @ '', Port: '' @ FormatInt (db_Port c) @
     '', User: '' @ db_User c @ '', Password: ***, DBName: '' @ db_DBName c @ '', SSLMode: '' @ db_SSLMode c @ ''}''"

definition RedisConfig_String :: "RedisConfig \<Rightarrow> string" where
  "RedisConfig_String c = ''RedisConfig{Host: '' @ rc_Host c @ '', Port: '' @ FormatInt (rc_Port c) @
     '', Password: ***, DB: '' @ FormatInt (rc_DB c) @ ''}''"

definition S3Config_String :: "S3Config \<Rightarrow> string" where
  "S3Config_String c = ''S3Config{Endpoint: '' @ sc_Endpoint c @ '', AccessKeyID: '' @ sc_AccessKeyID c @
     '', SecretAccessKey: ***, BucketName: '' @ sc_BucketName c @ '', Region: '' @ sc_Region c @ ''}''"

definition GitHubOAuthConfig_String :: "GitHubOAuthConfig \<Rightarrow> string" where
  "GitHubOAuthConfig_String c = ''GitHubOAuthConfig{Enabled: '' @ format_bool (oa_Enabled c) @
     '', ClientID: '' @ oa_ClientID c @ '', ClientSecret: ***, AllowedHosts: '' @ format_strings (oa_AllowedHosts c) @
     '', AllowedRedirectURIs: '' @ format_strings (oa_AllowedRedirectURIs c) @ ''}''"

section \<open>Postgres\<close>

record PostgresConfig =
  pc_Host :: string
  pc_Port :: int
  pc_User :: string
  pc_Password :: string
  pc_Database :: string
  pc_PoolSize :: int
  pc_SSLMode :: string
  pc_CAFile :: string

text \<open>The files of the host, and whether a file's content is a list of certificates.\<close>

record host_files =
  os_ReadFile :: "string \<Rightarrow> gerror + string"
  AppendCertsFromPEM :: "string \<Rightarrow> bool"

record TLSConfig =
  tls_RootCAs :: "string option"
  tls_InsecureSkipVerify :: bool
  tls_ServerName :: string

text \<open>The settings a pool is opened with; the port and the size are converted to 16 and 32 bits.\<close>

record PoolSettings =
  ps_Host :: string
  ps_Port :: "16 word"
  ps_User :: string
  ps_Password :: string
  ps_Database :: string
  ps_MaxConns :: "32 word"
  ps_TLSConfig :: "TLSConfig option"

definition createTLSConfigWithCA :: "host_files \<Rightarrow> string \<Rightarrow> gerror + TLSConfig" where
  "createTLSConfigWithCA files caFile = (case os_ReadFile files caFile of
     Inl err \<Rightarrow> Inl (Wrap err)
   | Inr caPEM \<Rightarrow>
       if \<not> AppendCertsFromPEM files caPEM then Inl (Plain ''failed to parse CA certificate'')
       else Inr \<lparr>tls_RootCAs = Some caPEM, tls_InsecureSkipVerify = False, tls_ServerName = []\<rparr>)"

definition postgres_tls :: "host_files \<Rightarrow> PostgresConfig \<Rightarrow> gerror + TLSConfig option" where
  "postgres_tls files cfg =
     (let sslMode = (if pc_SSLMode cfg = [] then ''require'' else pc_SSLMode cfg) in
      if sslMode = ''disable'' then Inr None
      else if sslMode = ''require''
      then Inr (Some \<lparr>tls_RootCAs = None, tls_InsecureSkipVerify = True, tls_ServerName = []\<rparr>)
      else if sslMode = ''verify-ca'' then map_sum id Some (createTLSConfigWithCA files (pc_CAFile cfg))
      else if sslMode = ''verify-full''
      then map_sum id (\<lambda>c. Some (c\<lparr>tls_ServerName := pc_Host cfg\<rparr>)) (createTLSConfigWithCA files (pc_CAFile cfg))
      else Inl (Plain ''unknown sslMode''))"

text \<open>Opening a pool is a call that may fail, and so is the ping that follows.\<close>

definition pgxpool_NewWithConfig :: "unit io" where
  "pgxpool_NewWithConfig = external (\<lambda>w. (Inr (), w))"

definition NewPostgresConnection :: "host_files \<Rightarrow> PostgresConfig \<Rightarrow> PoolSettings io" where
  "NewPostgresConnection files cfg =
     (if pc_Port cfg < 0 \<or> pc_Port cfg > 65535 then lift_result (Inl (Plain ''invalid port number''))
      else let poolSize = (if pc_PoolSize cfg \<le> 0 then 25 else pc_PoolSize cfg) in
        case postgres_tls files cfg of
          Inl err \<Rightarrow> lift_result (Inl err)
        | Inr tls \<Rightarrow> do {
            pool \<leftarrow> pgxpool_NewWithConfig;
            case pool of
              Inl err \<Rightarrow> lift_result (Inl (Wrap err))
            | Inr u \<Rightarrow> do {
                ping \<leftarrow> db_ping;
                case ping of
                  Inl err \<Rightarrow> lift_result (Inl (Wrap err))
                | Inr u \<Rightarrow> lift_result (Inr \<lparr>ps_Host = pc_Host cfg, ps_Port = word_of_int (pc_Port cfg),
                    ps_User = pc_User cfg, ps_Password = pc_Password cfg, ps_Database = pc_Database cfg,
                    ps_MaxConns = word_of_int poolSize, ps_TLSConfig = tls\<rparr>)
              }
          })"

section \<open>Redis and the object store\<close>

record RedisConnConfig =
  rcc_Host :: string
  rcc_Port :: int
  rcc_Password :: string
  rcc_DB :: int
  rcc_PoolSize :: int

record RedisOptions =
  ro_Addr :: string
  ro_Password :: string
  ro_DB :: int
  ro_PoolSize :: int

definition NewRedisConnection :: "RedisConnConfig \<Rightarrow> RedisOptions io" where
  "NewRedisConnection cfg =
     (let options = \<lparr>ro_Addr = rcc_Host cfg @ '':'' @ FormatInt (rcc_Port cfg), ro_Password = rcc_Password cfg,
        ro_DB = rcc_DB cfg, ro_PoolSize = (if rcc_PoolSize cfg = 0 then 10 else rcc_PoolSize cfg)\<rparr> in do {
        ping \<leftarrow> RedisClient_Ping True;
        case ping of Inl err \<Rightarrow> lift_result (Inl (Wrap err)) | Inr u \<Rightarrow> lift_result (Inr options)
      })"

record S3ConnConfig =
  scc_Endpoint :: string
  scc_AccessKeyID :: string
  scc_SecretAccessKey :: string
  scc_Region :: string
  scc_Bucket :: string
  scc_UseSSL :: bool

record S3Options =
  s3o_Region :: string
  s3o_Credentials :: "string \<times> string"
  s3o_BaseEndpoint :: "string option"
  s3o_UsePathStyle :: bool

definition NewS3Connection :: "S3ConnConfig \<Rightarrow> S3Options" where
  "NewS3Connection cfg = \<lparr>s3o_Region = scc_Region cfg, s3o_Credentials = (scc_AccessKeyID cfg, scc_SecretAccessKey cfg),
     s3o_BaseEndpoint = (if scc_Endpoint cfg \<noteq> [] then Some (scc_Endpoint cfg) else None), s3o_UsePathStyle = True\<rparr>"

section \<open>The redirect list and the address of a client\<close>

text \<open>\<^verbatim>\<open>url.Parse\<close> is an argument: the scheme and the host it finds, or nothing when it fails.\<close>

type_synonym url_parser = "string \<Rightarrow> (string \<times> string) option"

fun validate_uris :: "url_parser \<Rightarrow> string list \<Rightarrow> gerror + string list" where
  "validate_uris url_Parse [] = Inr []"
| "validate_uris url_Parse (uri # uris) =
     (if uri = [] then Inl (Wrap (Domain ErrInvalidRedirectURIFormat))
      else case url_Parse uri of
        None \<Rightarrow> Inl (Wrap (Domain ErrInvalidRedirectURIFormat))
      | Some (url_scheme, url_host) \<Rightarrow>
          if url_scheme = [] \<or> url_host = [] then Inl (Wrap (Domain ErrInvalidRedirectURIFormat))
          else map_sum id (\<lambda>validatedURIs. uri # validatedURIs) (validate_uris url_Parse uris))"

definition NewAllowedRedirectURIs :: "url_parser \<Rightarrow> string list \<Rightarrow> gerror + AllowedRedirectURIs" where
  "NewAllowedRedirectURIs url_Parse uris =
     (if uris = [] then Inl (Domain ErrEmptyAllowedRedirectURIs)
      else map_sum id (\<lambda>validatedURIs. \<lparr>au_uris = validatedURIs\<rparr>) (validate_uris url_Parse uris))"

datatype ip_extractor = ExtractIPDirect | ExtractIPFromXFFHeader "string list"

fun trust_options :: "(string \<Rightarrow> bool) \<Rightarrow> string list \<Rightarrow> gerror + string list" where
  "trust_options net_ParseCIDR [] = Inr []"
| "trust_options net_ParseCIDR (cidr # cidrs) =
     (if \<not> net_ParseCIDR cidr then Inl (Wrap (Plain ''invalid trusted proxy CIDR''))
      else map_sum id (\<lambda>opts. cidr # opts) (trust_options net_ParseCIDR cidrs))"

definition buildIPExtractor :: "(string \<Rightarrow> bool) \<Rightarrow> string list \<Rightarrow> gerror + ip_extractor" where
  "buildIPExtractor net_ParseCIDR trustedProxyCIDRs =
     (if trustedProxyCIDRs = [] then Inr ExtractIPDirect
      else map_sum id ExtractIPFromXFFHeader (trust_options net_ParseCIDR trustedProxyCIDRs))"

section \<open>Starting\<close>

text \<open>What \<^verbatim>\<open>main\<close> uses and this library does not define.\<close>

record runtime =
  rt_files :: host_files
  rt_url_Parse :: url_parser
  rt_ParseCIDR :: "string \<Rightarrow> bool"
  rt_http :: http_client
  rt_jwt :: jwt_parser
  rt_error_text :: "gerror \<Rightarrow> string"

definition run_postgres :: "host_files \<Rightarrow> Config \<Rightarrow> PoolSettings io" where
  "run_postgres files cfg = (let d = cf_Database cfg in NewPostgresConnection files
     \<lparr>pc_Host = db_Host d, pc_Port = db_Port d, pc_User = db_User d, pc_Password = db_Password d,
      pc_Database = db_DBName d, pc_PoolSize = 0, pc_SSLMode = db_SSLMode d, pc_CAFile = []\<rparr>)"

definition run_redis :: "Config \<Rightarrow> RedisOptions io" where
  "run_redis cfg = (let r = cf_Redis cfg in NewRedisConnection
     \<lparr>rcc_Host = rc_Host r, rcc_Port = rc_Port r, rcc_Password = rc_Password r, rcc_DB = rc_DB r, rcc_PoolSize = 0\<rparr>)"

definition run_oauth :: "http_client \<Rightarrow> url_parser \<Rightarrow> GitHubOAuthConfig \<Rightarrow> GitHubOAuthUseCase option io" where
  "run_oauth http_Do url_Parse cfg =
     (if \<not> oa_Enabled cfg then lift_result (Inr None)
      else do {
        g \<leftarrow> NewGitHubOAuthProvider (oa_ClientID cfg) (oa_ClientSecret cfg) [];
        case g of
          Inl err \<Rightarrow> lift_result (Inl err)
        | Inr githubOAuthProvider \<Rightarrow> (case NewAllowedRedirectURIs url_Parse (oa_AllowedRedirectURIs cfg) of
            Inl err \<Rightarrow> lift_result (Inl (Wrap err))
          | Inr allowedRedirectURIs \<Rightarrow> lift_result (map_sum id Some (NewGitHubOAuthUseCase
              (Some (github_oauth http_Do githubOAuthProvider)) (Some NewSessionStore) (Some NewOIDCStateStore)
              (Some allowedRedirectURIs))))
      })"

definition run_program :: "runtime \<Rightarrow> Config \<Rightarrow> (program \<times> ip_extractor) io" where
  "run_program rt cfg = do {
     pool \<leftarrow> run_postgres (rt_files rt) cfg;
     case pool of Inl err \<Rightarrow> lift_result (Inl err) | Inr pool \<Rightarrow> do {
     redisConn \<leftarrow> run_redis cfg;
     case redisConn of Inl err \<Rightarrow> lift_result (Inl err) | Inr redisConn \<Rightarrow>
     (case program_oidc (oc_Enabled (cf_OIDC cfg)) (oc_Audience (cf_OIDC cfg)) (oc_JWKSURL (cf_OIDC cfg)) of
       Inl err \<Rightarrow> lift_result (Inl err)
     | Inr githubProvider \<Rightarrow> do {
     oauth \<leftarrow> run_oauth (rt_http rt) (rt_url_Parse rt) (cf_OAuth cfg);
     case oauth of Inl err \<Rightarrow> lift_result (Inl err) | Inr githubOAuthUC \<Rightarrow>
     (case buildIPExtractor (rt_ParseCIDR rt) (sv_TrustedProxyCIDRs (cf_Server cfg)) of
       Inl err \<Rightarrow> lift_result (Inl err)
     | Inr ipExtractor \<Rightarrow> lift_result (Inr
         (\<lparr>pg_auth = program_auth (rt_http rt) (rt_jwt rt) githubProvider, pg_oauth = githubOAuthUC,
           pg_login = \<lparr>cfg_TrustProxy = sv_TrustProxy (cf_Server cfg),
             cfg_AllowedHosts = oa_AllowedHosts (cf_OAuth cfg)\<rparr>,
             pg_error_text = rt_error_text rt\<rparr>, ipExtractor)))
     }) } }"

section \<open>What starting promises\<close>

lemma run_case:
  assumes "run_state (State_Monad.bind m (case_sum (\<lambda>err. lift_result (Inl err)) f)) w = (Inr b, w')"
  obtains a v where "run_state m w = (Inr a, v)" "run_state (f a) v = (Inr b, w')"
  using assms by (cases "run_state m w") (auto split: sum.splits)

lemma map_sum_eq [simp]:
  "map_sum f g s = Inr y \<longleftrightarrow> (\<exists>x. s = Inr x \<and> y = g x)"
  "map_sum f g s = Inl z \<longleftrightarrow> (\<exists>x. s = Inl x \<and> z = f x)"
  by (cases s; auto)+

lemma run_oauth_signin:
  assumes "run_state (run_oauth http_Do url_Parse cfg) w = (Inr (Some uc), w')"
  shows "github_signin http_Do uc \<and> oa_Enabled cfg \<and>
    (\<forall>uri. AllowedRedirectURIs_Contains (ou_allowedRedirectURIs uc) uri \<longrightarrow> uri \<in> set (oa_AllowedRedirectURIs cfg))"
proof -
  have uris: "validate_uris url_Parse us = Inr vs \<Longrightarrow> vs = us" for us vs
    by (induction us arbitrary: vs) (auto split: if_splits option.splits)
  from assms have en: "oa_Enabled cfg" by (auto simp: run_oauth_def split: if_splits)
  with assms obtain gp a where a: "NewAllowedRedirectURIs url_Parse (oa_AllowedRedirectURIs cfg) = Inr a"
    and uc: "uc = \<lparr>ou_oauthProvider = github_oauth http_Do gp, ou_sessionStore = NewSessionStore,
      ou_stateStore = NewOIDCStateStore, ou_allowedRedirectURIs = a\<rparr>"
    by (auto simp: run_oauth_def NewGitHubOAuthUseCase_def split: sum.splits prod.splits)
  from a uris have "au_uris a = oa_AllowedRedirectURIs cfg"
    by (auto simp: NewAllowedRedirectURIs_def split: if_splits)
  with uc en show ?thesis
    by (auto simp: github_signin_def AllowedRedirectURIs_Contains_def list_ex_iff)
qed

text \<open>A program that started is wired as the lifecycle assumes, and starting has touched nothing.\<close>

lemma run_program_parts:
  assumes "run_state (run_program rt cfg) w = (Inr (p, ip), w')"
  obtains pool v1 redisConn v2 prov uc v3 where
    "run_state (run_postgres (rt_files rt) cfg) w = (Inr pool, v1)"
    "run_state (run_redis cfg) v1 = (Inr redisConn, v2)"
    "program_oidc (oc_Enabled (cf_OIDC cfg)) (oc_Audience (cf_OIDC cfg)) (oc_JWKSURL (cf_OIDC cfg)) = Inr prov"
    "run_state (run_oauth (rt_http rt) (rt_url_Parse rt) (cf_OAuth cfg)) v2 = (Inr uc, v3)"
    "buildIPExtractor (rt_ParseCIDR rt) (sv_TrustedProxyCIDRs (cf_Server cfg)) = Inr ip" "w' = v3"
    "p = \<lparr>pg_auth = program_auth (rt_http rt) (rt_jwt rt) prov, pg_oauth = uc,
       pg_login = \<lparr>cfg_TrustProxy = sv_TrustProxy (cf_Server cfg), cfg_AllowedHosts = oa_AllowedHosts (cf_OAuth cfg)\<rparr>,
             pg_error_text = rt_error_text rt\<rparr>"
  using assms unfolding run_program_def
  by (elim run_case) (auto split: sum.splits prod.splits)

lemma quiet_run_oauth: "frames quiet (run_oauth http_Do url_Parse cfg)"
proof -
  have "frames quiet (set_redirectURI uri)" for uri
    by (rule framesI) (auto simp: set_redirectURI_def quiet_def)
  then show ?thesis
    by (auto simp: run_oauth_def NewGitHubOAuthProvider_def NewGitHubTokenExchanger_def Let_def
        intro!: quiet_bind split: sum.split)
qed

lemma quiet_connect: "frames quiet (run_postgres files cfg)" "frames quiet (run_redis cfg)"
proof -
  have ext: "frames quiet (external (\<lambda>w. (Inr (), w)) :: unit io)" by (rule quiet_external) simp
  show "frames quiet (run_postgres files cfg)" "frames quiet (run_redis cfg)"
    by (auto simp: run_postgres_def run_redis_def NewPostgresConnection_def NewRedisConnection_def Let_def
        pgxpool_NewWithConfig_def db_ping_def RedisClient_Ping_def intro!: quiet_bind ext split: sum.split)
qed

lemma run_program_run:
  assumes "run_state (run_program rt cfg) w = (Inr (p, ip), w')"
  shows "wired (rt_http rt) (rt_jwt rt) p \<and> quiet w w'"
  using assms
proof (rule run_program_parts)
  fix pool v1 redisConn v2 prov uc v3
  assume r: "run_state (run_postgres (rt_files rt) cfg) w = (Inr pool, v1)"
    "run_state (run_redis cfg) v1 = (Inr redisConn, v2)"
    "run_state (run_oauth (rt_http rt) (rt_url_Parse rt) (cf_OAuth cfg)) v2 = (Inr uc, v3)" "w' = v3"
    and prov: "program_oidc (oc_Enabled (cf_OIDC cfg)) (oc_Audience (cf_OIDC cfg)) (oc_JWKSURL (cf_OIDC cfg)) = Inr prov"
    and p: "p = \<lparr>pg_auth = program_auth (rt_http rt) (rt_jwt rt) prov, pg_oauth = uc,
       pg_login = \<lparr>cfg_TrustProxy = sv_TrustProxy (cf_Server cfg), cfg_AllowedHosts = oa_AllowedHosts (cf_OAuth cfg)\<rparr>,
             pg_error_text = rt_error_text rt\<rparr>"
  have "quiet w v1" "quiet v1 v2" "quiet v2 v3"
    using framesD [OF quiet_connect(1) r(1)] framesD [OF quiet_connect(2) r(2)] framesD [OF quiet_run_oauth r(3)] by auto
  then have "quiet w w'" using transp_quiet unfolding r(4) by (meson transpD)
  moreover have "github_signin (rt_http rt) u" if "uc = Some u" for u
    using run_oauth_signin r(3) that by blast
  ultimately show ?thesis using program_oidc_cache [OF prov] by (auto simp: wired_def p)
qed

text \<open>The certificate file is never configured, so the modes that check the server's certificate
  cannot be used.\<close>

lemma run_program_verify_mode:
  assumes "db_SSLMode (cf_Database cfg) \<in> {''verify-ca'', ''verify-full''}" and "os_ReadFile (rt_files rt) [] = Inl e"
  shows "\<exists>err. run_state (run_program rt cfg) w = (Inl err, w)"
  using assms
  by (auto simp: run_program_def run_postgres_def Let_def NewPostgresConnection_def postgres_tls_def
      createTLSConfigWithCA_def)

text \<open>What a connection to Postgres is opened with.\<close>

lemma NewPostgresConnection_run:
  assumes "run_state (NewPostgresConnection files cfg) w = (Inr s, w')"
  shows "uint (ps_Port s) = pc_Port cfg \<and>
    (pc_PoolSize cfg < 2 ^ 31 \<longrightarrow> 0 < sint (ps_MaxConns s) \<and> (0 < pc_PoolSize cfg \<longrightarrow> sint (ps_MaxConns s) = pc_PoolSize cfg)) \<and>
    (ps_TLSConfig s = None \<longleftrightarrow> pc_SSLMode cfg = ''disable'') \<and>
    (\<forall>tls. ps_TLSConfig s = Some tls \<longrightarrow> \<not> tls_InsecureSkipVerify tls \<longrightarrow>
       pc_SSLMode cfg \<in> {''verify-ca'', ''verify-full''} \<and> tls_RootCAs tls \<noteq> None \<and>
       (pc_SSLMode cfg = ''verify-full'' \<longrightarrow> tls_ServerName tls = pc_Host cfg))"
proof -
  let ?n = "if pc_PoolSize cfg \<le> 0 then 25 else pc_PoolSize cfg"
  from assms obtain tls where port: "0 \<le> pc_Port cfg" "pc_Port cfg \<le> 65535"
    and tls: "postgres_tls files cfg = Inr tls"
    and s: "ps_Port s = word_of_int (pc_Port cfg)" "ps_MaxConns s = word_of_int ?n" "ps_TLSConfig s = tls"
    by (auto simp: NewPostgresConnection_def Let_def split: if_splits sum.splits prod.splits)
  have "uint (ps_Port s) = pc_Port cfg" using port by (simp add: s uint_word_of_int)
  moreover have "sint (ps_MaxConns s) = ?n" if "pc_PoolSize cfg < 2 ^ 31"
    using that by (simp add: s sint_sbintrunc' signed_take_bit_int_eq_self)
  moreover have "(tls = None \<longleftrightarrow> pc_SSLMode cfg = ''disable'') \<and>
    (\<forall>t. tls = Some t \<longrightarrow> \<not> tls_InsecureSkipVerify t \<longrightarrow>
       pc_SSLMode cfg \<in> {''verify-ca'', ''verify-full''} \<and> tls_RootCAs t \<noteq> None \<and>
       (pc_SSLMode cfg = ''verify-full'' \<longrightarrow> tls_ServerName t = pc_Host cfg))"
    using tls by (auto simp: postgres_tls_def createTLSConfigWithCA_def Let_def split: if_splits sum.splits)
  ultimately show ?thesis by (auto simp: s)
qed

end
