(* ===== verification/Settings.thy ===== *)
theory Settings
  imports Wiring
begin

text \<open>
  The configuration read from the environment, \<^verbatim>\<open>Load\<close> of \<^verbatim>\<open>internal/config/config.go\<close>: the struct tags of
  the configuration records, field by field in the order of the structs.  How \<^verbatim>\<open>envconfig.Process\<close> turns
  the text of a variable into a field of each type is the library's and an argument here; what its manual
  says of the tags \<^verbatim>\<open>default\<close> and \<^verbatim>\<open>required\<close> is \<open>documented_envconfig\<close>.
\<close>

section \<open>Struct tags\<close>

type_synonym environ = "string \<Rightarrow> string option"

record env_tag =
  tag_envconfig :: string
  tag_default :: "string option"
  tag_required :: bool

definition plain_field :: "string \<Rightarrow> env_tag" where
  "plain_field name = \<lparr>tag_envconfig = name, tag_default = None, tag_required = False\<rparr>"

definition required_field :: "string \<Rightarrow> env_tag" where
  "required_field name = \<lparr>tag_envconfig = name, tag_default = None, tag_required = True\<rparr>"

definition default_field :: "string \<Rightarrow> string \<Rightarrow> env_tag" where
  "default_field name dflt = \<lparr>tag_envconfig = name, tag_default = Some dflt, tag_required = False\<rparr>"

lemmas field_defs = plain_field_def required_field_def default_field_def

text \<open>
  The variable the library takes for a tag, and one decoder for each type of field: the variable, if it is
  set, and the field's tags.
\<close>

type_synonym 'a env_decoder = "string option \<Rightarrow> env_tag \<Rightarrow> gerror + 'a"

record envconfig =
  env_var :: "environ \<Rightarrow> string \<Rightarrow> string option"
  env_string :: "string env_decoder"
  env_bool :: "bool env_decoder"
  env_int :: "int env_decoder"
  env_duration :: "duration env_decoder"
  env_strings :: "string list env_decoder"

definition result_bind :: "gerror + 'a \<Rightarrow> ('a \<Rightarrow> gerror + 'b) \<Rightarrow> gerror + 'b" where
  "result_bind r f = (case r of Inl err \<Rightarrow> Inl err | Inr a \<Rightarrow> f a)"

lemma result_bind_simps [simp]:
  "result_bind (Inl e) f = Inl e" "result_bind (Inr a) f = f a"
  "result_bind r f = Inr b \<longleftrightarrow> (\<exists>a. r = Inr a \<and> f a = Inr b)"
  by (cases r; simp add: result_bind_def)+

definition env_field :: "envconfig \<Rightarrow> (envconfig \<Rightarrow> 'a env_decoder) \<Rightarrow> environ \<Rightarrow> env_tag \<Rightarrow> gerror + 'a" where
  "env_field ec dec environ tag = dec ec (env_var ec environ (tag_envconfig tag)) tag"

section \<open>Load\<close>

definition Load_Server :: "envconfig \<Rightarrow> environ \<Rightarrow> gerror + ServerConfig" where
  "Load_Server ec environ =
     result_bind (env_field ec env_bool environ (default_field ''SERVER_TRUST_PROXY'' ''false'')) (\<lambda>trustProxy.
     result_bind (env_field ec env_strings environ (plain_field ''SERVER_TRUSTED_PROXY_CIDRS'')) (\<lambda>trustedProxyCIDRs.
     result_bind (env_field ec env_duration environ (default_field ''SERVER_PROXY_TIMEOUT'' ''10m'')) (\<lambda>proxyTimeout.
     Inr \<lparr>sv_TrustProxy = trustProxy, sv_TrustedProxyCIDRs = trustedProxyCIDRs, sv_ProxyTimeout = proxyTimeout\<rparr>)))"

definition Load_Database :: "envconfig \<Rightarrow> environ \<Rightarrow> gerror + DatabaseConfig" where
  "Load_Database ec environ =
     result_bind (env_field ec env_string environ (required_field ''DATABASE_HOST'')) (\<lambda>host.
     result_bind (env_field ec env_int environ (default_field ''DATABASE_PORT'' ''5432'')) (\<lambda>port.
     result_bind (env_field ec env_string environ (required_field ''DATABASE_USER'')) (\<lambda>user.
     result_bind (env_field ec env_string environ (plain_field ''DATABASE_PASSWORD'')) (\<lambda>password.
     result_bind (env_field ec env_string environ (required_field ''DATABASE_DBNAME'')) (\<lambda>dbname.
     result_bind (env_field ec env_string environ (default_field ''DATABASE_SSLMODE'' ''require'')) (\<lambda>sslmode.
     Inr \<lparr>db_Host = host, db_Port = port, db_User = user, db_Password = password, db_DBName = dbname, db_SSLMode = sslmode\<rparr>))))))"

definition Load_Redis :: "envconfig \<Rightarrow> environ \<Rightarrow> gerror + RedisConfig" where
  "Load_Redis ec environ =
     result_bind (env_field ec env_string environ (required_field ''REDIS_HOST'')) (\<lambda>host.
     result_bind (env_field ec env_int environ (default_field ''REDIS_PORT'' ''6379'')) (\<lambda>port.
     result_bind (env_field ec env_string environ (plain_field ''REDIS_PASSWORD'')) (\<lambda>password.
     result_bind (env_field ec env_int environ (default_field ''REDIS_DB'' ''0'')) (\<lambda>db.
     Inr \<lparr>rc_Host = host, rc_Port = port, rc_Password = password, rc_DB = db\<rparr>))))"

definition Load_S3 :: "envconfig \<Rightarrow> environ \<Rightarrow> gerror + S3Config" where
  "Load_S3 ec environ =
     result_bind (env_field ec env_string environ (required_field ''S3_ENDPOINT'')) (\<lambda>endpoint.
     result_bind (env_field ec env_string environ (required_field ''S3_ACCESSKEYID'')) (\<lambda>accessKeyID.
     result_bind (env_field ec env_string environ (required_field ''S3_SECRETACCESSKEY'')) (\<lambda>secretAccessKey.
     result_bind (env_field ec env_string environ (required_field ''S3_BUCKETNAME'')) (\<lambda>bucketName.
     result_bind (env_field ec env_string environ (required_field ''S3_REGION'')) (\<lambda>region.
     Inr \<lparr>sc_Endpoint = endpoint, sc_AccessKeyID = accessKeyID, sc_SecretAccessKey = secretAccessKey,
       sc_BucketName = bucketName, sc_Region = region\<rparr>)))))"

definition Load_OIDC :: "envconfig \<Rightarrow> environ \<Rightarrow> gerror + GitHubOIDCConfig" where
  "Load_OIDC ec environ =
     result_bind (env_field ec env_bool environ (default_field ''OIDC_GITHUB_ENABLED'' ''true'')) (\<lambda>enabled.
     result_bind (env_field ec env_string environ (plain_field ''OIDC_GITHUB_AUDIENCE'')) (\<lambda>audience.
     result_bind (env_field ec env_string environ (plain_field ''OIDC_GITHUB_JWKSURL'')) (\<lambda>jwksURL.
     Inr \<lparr>oc_Enabled = enabled, oc_Audience = audience, oc_JWKSURL = jwksURL\<rparr>)))"

definition Load_OAuth :: "envconfig \<Rightarrow> environ \<Rightarrow> gerror + GitHubOAuthConfig" where
  "Load_OAuth ec environ =
     result_bind (env_field ec env_bool environ (default_field ''OAUTH_GITHUB_ENABLED'' ''false'')) (\<lambda>enabled.
     result_bind (env_field ec env_string environ (plain_field ''GITHUB_OAUTH_CLIENT_ID'')) (\<lambda>clientID.
     result_bind (env_field ec env_string environ (plain_field ''GITHUB_OAUTH_CLIENT_SECRET'')) (\<lambda>clientSecret.
     result_bind (env_field ec env_strings environ (plain_field ''OAUTH_GITHUB_ALLOWED_HOSTS'')) (\<lambda>allowedHosts.
     result_bind (env_field ec env_strings environ (plain_field ''OAUTH_GITHUB_ALLOWED_REDIRECT_URIS'')) (\<lambda>allowedRedirectURIs.
     Inr \<lparr>oa_Enabled = enabled, oa_ClientID = clientID, oa_ClientSecret = clientSecret,
       oa_AllowedHosts = allowedHosts, oa_AllowedRedirectURIs = allowedRedirectURIs\<rparr>)))))"

definition Load :: "envconfig \<Rightarrow> environ \<Rightarrow> gerror + Config" where
  "Load ec environ =
     result_bind (Load_Server ec environ) (\<lambda>server. result_bind (Load_Database ec environ) (\<lambda>database.
     result_bind (Load_Redis ec environ) (\<lambda>redis. result_bind (Load_S3 ec environ) (\<lambda>s3.
     result_bind (Load_OIDC ec environ) (\<lambda>oidc. result_bind (Load_OAuth ec environ) (\<lambda>oauth.
     Inr \<lparr>cf_Server = server, cf_Database = database, cf_Redis = redis, cf_S3 = s3, cf_OIDC = oidc, cf_OAuth = oauth\<rparr>))))))"

lemmas Load_defs = Load_def Load_Server_def Load_Database_def Load_Redis_def Load_S3_def Load_OIDC_def Load_OAuth_def

section \<open>What the manual says\<close>

definition documented_decoder :: "(string \<Rightarrow> gerror + 'a) \<Rightarrow> 'a \<Rightarrow> 'a env_decoder \<Rightarrow> bool" where
  "documented_decoder parse zero dec \<longleftrightarrow>
     (\<forall>s tag. dec (Some s) tag = parse s) \<and>
     (\<forall>tag d. tag_default tag = Some d \<longrightarrow> dec None tag = parse d) \<and>
     (\<forall>tag. tag_default tag = None \<longrightarrow> tag_required tag \<longrightarrow> (\<exists>err. dec None tag = Inl err)) \<and>
     (\<forall>tag. tag_default tag = None \<longrightarrow> \<not> tag_required tag \<longrightarrow> dec None tag = Inr zero)"

definition documented_envconfig :: "envconfig \<Rightarrow> bool" where
  "documented_envconfig ec \<longleftrightarrow> documented_decoder Inr [] (env_string ec) \<and>
     (\<exists>parse. documented_decoder parse False (env_bool ec) \<and> parse ''true'' = Inr True \<and> parse ''false'' = Inr False) \<and>
     (\<exists>parse. documented_decoder parse 0 (env_int ec) \<and> parse ''5432'' = Inr 5432 \<and> parse ''6379'' = Inr 6379 \<and> parse ''0'' = Inr 0) \<and>
     (\<exists>parse. documented_decoder parse 0 (env_duration ec) \<and> parse ''10m'' = Inr (10 * Minute)) \<and>
     (\<exists>parse. documented_decoder parse [] (env_strings ec))"

text \<open>The library first looks for the name of the enclosing field in front of a tag; none of these longer
  names is set.\<close>

definition unprefixed :: "envconfig \<Rightarrow> environ \<Rightarrow> bool" where
  "unprefixed ec environ \<longleftrightarrow> env_var ec environ = environ"

definition required_names :: "string list" where
  "required_names = [''DATABASE_HOST'', ''DATABASE_USER'', ''DATABASE_DBNAME'', ''REDIS_HOST'', ''S3_ENDPOINT'',
     ''S3_ACCESSKEYID'', ''S3_SECRETACCESSKEY'', ''S3_BUCKETNAME'', ''S3_REGION'']"

section \<open>What loading promises\<close>

lemma env_string_field:
  assumes "documented_envconfig ec" and "unprefixed ec environ"
  shows "env_field ec env_string environ (required_field name) = Inr v \<longleftrightarrow> environ name = Some v"
    and "env_field ec env_string environ (plain_field name) = Inr (case environ name of None \<Rightarrow> [] | Some s \<Rightarrow> s)"
    and "env_field ec env_string environ (default_field name d) = Inr (case environ name of None \<Rightarrow> d | Some s \<Rightarrow> s)"
proof -
  note var = assms(2) [unfolded unprefixed_def]
  from assms have dec: "documented_decoder Inr [] (env_string ec)" by (simp add: documented_envconfig_def)
  show "env_field ec env_string environ (required_field name) = Inr v \<longleftrightarrow> environ name = Some v"
    using dec var by (cases "environ name") (auto simp: documented_decoder_def env_field_def required_field_def
        dest!: spec [of _ "\<lparr>tag_envconfig = name, tag_default = None, tag_required = True\<rparr>"])
  show "env_field ec env_string environ (plain_field name) = Inr (case environ name of None \<Rightarrow> [] | Some s \<Rightarrow> s)"
    using dec var by (auto simp: documented_decoder_def env_field_def plain_field_def split: option.split)
  show "env_field ec env_string environ (default_field name d) = Inr (case environ name of None \<Rightarrow> d | Some s \<Rightarrow> s)"
    using dec var by (auto simp: documented_decoder_def env_field_def default_field_def split: option.split)
qed

lemma env_default_fields:
  assumes "documented_envconfig ec" and "unprefixed ec environ"
  shows "environ name = None \<Longrightarrow> env_field ec env_bool environ (default_field name ''false'') = Inr False"
    and "environ name = None \<Longrightarrow> env_field ec env_bool environ (default_field name ''true'') = Inr True"
    and "environ name = None \<Longrightarrow> env_field ec env_int environ (default_field name ''5432'') = Inr 5432"
    and "environ name = None \<Longrightarrow> env_field ec env_int environ (default_field name ''6379'') = Inr 6379"
    and "environ name = None \<Longrightarrow> env_field ec env_int environ (default_field name ''0'') = Inr 0"
    and "environ name = None \<Longrightarrow> env_field ec env_duration environ (default_field name ''10m'') = Inr (10 * Minute)"
    and "environ name = None \<Longrightarrow> env_field ec env_strings environ (plain_field name) = Inr []"
  using assms by (auto simp: unprefixed_def documented_envconfig_def documented_decoder_def env_field_def plain_field_def default_field_def)

text \<open>The program starts only with every required variable set, and takes it as it is.\<close>

lemma Load_required:
  assumes "documented_envconfig ec" and "unprefixed ec environ" and "Load ec environ = Inr cfg"
  shows "environ ''DATABASE_HOST'' = Some (db_Host (cf_Database cfg)) \<and> environ ''DATABASE_USER'' = Some (db_User (cf_Database cfg)) \<and>
    environ ''DATABASE_DBNAME'' = Some (db_DBName (cf_Database cfg)) \<and> environ ''REDIS_HOST'' = Some (rc_Host (cf_Redis cfg)) \<and>
    environ ''S3_ENDPOINT'' = Some (sc_Endpoint (cf_S3 cfg)) \<and> environ ''S3_ACCESSKEYID'' = Some (sc_AccessKeyID (cf_S3 cfg)) \<and>
    environ ''S3_SECRETACCESSKEY'' = Some (sc_SecretAccessKey (cf_S3 cfg)) \<and>
    environ ''S3_BUCKETNAME'' = Some (sc_BucketName (cf_S3 cfg)) \<and> environ ''S3_REGION'' = Some (sc_Region (cf_S3 cfg))"
  using assms(3) by (auto simp: Load_defs env_string_field [OF assms(1,2)])

lemma Load_missing:
  assumes "documented_envconfig ec" and "unprefixed ec environ" and "name \<in> set required_names" and "environ name = None"
  shows "\<exists>err. Load ec environ = Inl err"
  proof (cases "Load ec environ")
  case (Inr cfg)
  from Load_required [OF assms(1,2) Inr] assms(3,4) show ?thesis by (auto simp: required_names_def)
qed simp

text \<open>Only the required variables are set: the defaults of the tags.\<close>

definition default_config :: "environ \<Rightarrow> Config" where
  "default_config environ = (let value = \<lambda>name. (case environ name of None \<Rightarrow> [] | Some s \<Rightarrow> s) in
     \<lparr>cf_Server = \<lparr>sv_TrustProxy = False, sv_TrustedProxyCIDRs = [], sv_ProxyTimeout = 10 * Minute\<rparr>,
      cf_Database = \<lparr>db_Host = value ''DATABASE_HOST'', db_Port = 5432, db_User = value ''DATABASE_USER'', db_Password = [],
        db_DBName = value ''DATABASE_DBNAME'', db_SSLMode = ''require''\<rparr>,
      cf_Redis = \<lparr>rc_Host = value ''REDIS_HOST'', rc_Port = 6379, rc_Password = [], rc_DB = 0\<rparr>,
      cf_S3 = \<lparr>sc_Endpoint = value ''S3_ENDPOINT'', sc_AccessKeyID = value ''S3_ACCESSKEYID'',
        sc_SecretAccessKey = value ''S3_SECRETACCESSKEY'', sc_BucketName = value ''S3_BUCKETNAME'', sc_Region = value ''S3_REGION''\<rparr>,
      cf_OIDC = \<lparr>oc_Enabled = True, oc_Audience = [], oc_JWKSURL = []\<rparr>,
      cf_OAuth = \<lparr>oa_Enabled = False, oa_ClientID = [], oa_ClientSecret = [], oa_AllowedHosts = [], oa_AllowedRedirectURIs = []\<rparr>\<rparr>)"

lemma env_required:
  assumes "documented_envconfig ec" and "unprefixed ec environ" and "environ name \<noteq> None"
  shows "env_field ec env_string environ (required_field name) = Inr (case environ name of None \<Rightarrow> [] | Some s \<Rightarrow> s)"
  using assms(3) env_string_field(1) [OF assms(1,2)] by auto

lemma Load_defaults:
  assumes "documented_envconfig ec" and "unprefixed ec environ" and "dom environ = set required_names"
  shows "Load ec environ = Inr (default_config environ)"
proof -
  have none: "environ name = None" if "name \<notin> set required_names" for name using that assms(3) by blast
  have some: "environ name \<noteq> None" if "name \<in> set required_names" for name using that assms(3) by blast
  show ?thesis
    by (simp add: Load_defs env_required [OF assms(1,2) some] env_string_field(2,3) [OF assms(1,2)]
        env_default_fields [OF assms(1,2)] none required_names_def default_config_def Let_def)
qed

end
