(* ===== verification/Server.thy ===== *)
theory Server
  imports Settings
begin

text \<open>
  The life of the process, \<^verbatim>\<open>main\<close> and the end of \<^verbatim>\<open>run\<close> in \<^verbatim>\<open>cmd/cargohold/main.go\<close>: the goroutine that
  serves and reports its error through a channel, the signal that asks to stop, the \<^verbatim>\<open>select\<close> that waits
  for either, and the bounded shutdown.  When the serving call returns and with what, when a signal
  arrives, and what the shutdown answers within its deadline is left open: these are events.
\<close>

section \<open>The HTTP server\<close>

definition defaultPort :: string where "defaultPort = ''8080''"
definition readTimeout :: duration where "readTimeout = 30 * Second"
definition writeTimeout :: duration where "writeTimeout = 30 * Second"
definition shutdownTimeout :: duration where "shutdownTimeout = 10 * Second"
definition idleTimeout :: duration where "idleTimeout = 120 * Second"

record http_Server =
  hs_Addr :: string
  hs_ReadTimeout :: duration
  hs_WriteTimeout :: duration
  hs_IdleTimeout :: duration

definition run_server :: "environ \<Rightarrow> http_Server" where
  "run_server environ =
     (let port = (case environ ''PORT'' of None \<Rightarrow> [] | Some s \<Rightarrow> s);
          port = (if port = [] then defaultPort else port)
      in \<lparr>hs_Addr = '':'' @ port, hs_ReadTimeout = readTimeout, hs_WriteTimeout = writeTimeout, hs_IdleTimeout = idleTimeout\<rparr>)"

section \<open>The process\<close>

text \<open>
  \<open>Starting\<close> is the main goroutine between the \<^verbatim>\<open>go\<close> statement and \<^verbatim>\<open>signal.Notify\<close>: a signal still has its
  default action, which ends the process.  \<open>Stopping\<close> counts the time since the shutdown began.
\<close>

datatype phase = Starting | Selecting | Stopping duration | Returned "gerror option" | Killed

text \<open>The serving goroutine: not yet scheduled, in \<^verbatim>\<open>StartServer\<close>, about to send its error, about to close the
  channel, gone.\<close>

datatype serving = Entering | Serving | Reporting gerror | Closing | Gone

text \<open>\<^verbatim>\<open>errChan\<close> and \<^verbatim>\<open>quit\<close> both have room for one value.\<close>

record process =
  pr_phase :: phase
  pr_serving :: serving
  pr_errChan :: "gerror list"
  pr_closed :: bool
  pr_quit :: bool
  pr_log :: "string list"

datatype server_event =
    Notify
  | Signal
  | Enter
  | ServerReturned "gerror option"
  | Report
  | CloseChan
  | SelectQuit
  | SelectErr
  | Pass duration
  | ShutdownReturned "gerror option"

text \<open>\<^verbatim>\<open>http.ErrServerClosed\<close>.\<close>

definition ErrServerClosed :: gerror where "ErrServerClosed = Extern (OtherExtern ''http: Server closed'')"

definition log_line :: "string \<Rightarrow> process \<Rightarrow> process" where
  "log_line l p = p\<lparr>pr_log := pr_log p @ [l]\<rparr>"

text \<open>\<^verbatim>\<open>run\<close> returns; \<^verbatim>\<open>main\<close> logs an error.\<close>

definition return_from :: "gerror option \<Rightarrow> process \<Rightarrow> process" where
  "return_from r p = (let p = p\<lparr>pr_phase := Returned r\<rparr> in
     if r = None then p else log_line ''application failed'' p)"

definition begin_shutdown :: "process \<Rightarrow> process" where
  "begin_shutdown p = log_line ''shutting down server'' (p\<lparr>pr_phase := Stopping 0\<rparr>)"

text \<open>One event, where it can happen.  The goroutine may still run while \<^verbatim>\<open>main\<close> returns, but not in a killed
  process.\<close>

inductive process_step :: "process \<Rightarrow> server_event \<Rightarrow> process \<Rightarrow> bool" where
  notify: "pr_phase p = Starting \<Longrightarrow> process_step p Notify (p\<lparr>pr_phase := Selecting\<rparr>)"
| killed: "pr_phase p = Starting \<Longrightarrow> process_step p Signal (p\<lparr>pr_phase := Killed\<rparr>)"
| signal: "pr_phase p = Selecting \<or> pr_phase p = Stopping t \<Longrightarrow> process_step p Signal (p\<lparr>pr_quit := True\<rparr>)"
| enter: "pr_phase p \<noteq> Killed \<Longrightarrow> pr_serving p = Entering \<Longrightarrow> process_step p Enter (log_line ''starting server'' (p\<lparr>pr_serving := Serving\<rparr>))"
| failed: "pr_phase p \<noteq> Killed \<Longrightarrow> pr_serving p = Serving \<Longrightarrow> \<not> errors_Is err ErrServerClosed \<Longrightarrow>
    process_step p (ServerReturned (Some err)) (p\<lparr>pr_serving := Reporting err\<rparr>)"
| ended: "pr_phase p \<noteq> Killed \<Longrightarrow> pr_serving p = Serving \<Longrightarrow> (\<forall>err. r = Some err \<longrightarrow> errors_Is err ErrServerClosed) \<Longrightarrow>
    process_step p (ServerReturned r) (p\<lparr>pr_serving := Closing\<rparr>)"
| report: "pr_phase p \<noteq> Killed \<Longrightarrow> pr_serving p = Reporting err \<Longrightarrow> length (pr_errChan p) < 1 \<Longrightarrow>
    process_step p Report (p\<lparr>pr_errChan := pr_errChan p @ [err], pr_serving := Closing\<rparr>)"
| close: "pr_phase p \<noteq> Killed \<Longrightarrow> pr_serving p = Closing \<Longrightarrow> process_step p CloseChan (p\<lparr>pr_closed := True, pr_serving := Gone\<rparr>)"
| quit: "pr_phase p = Selecting \<Longrightarrow> pr_quit p \<Longrightarrow>
    process_step p SelectQuit (begin_shutdown (log_line ''received shutdown signal'' (p\<lparr>pr_quit := False\<rparr>)))"
| reported: "pr_phase p = Selecting \<Longrightarrow> pr_errChan p = err # errs \<Longrightarrow>
    process_step p SelectErr (return_from (Some err) (p\<lparr>pr_errChan := errs\<rparr>))"
| drained: "pr_phase p = Selecting \<Longrightarrow> pr_errChan p = [] \<Longrightarrow> pr_closed p \<Longrightarrow> process_step p SelectErr (begin_shutdown p)"
| pass: "pr_phase p = Stopping t \<Longrightarrow> 0 < d \<Longrightarrow> t + d \<le> shutdownTimeout \<Longrightarrow>
    process_step p (Pass d) (p\<lparr>pr_phase := Stopping (t + d)\<rparr>)"
| shut_failed: "pr_phase p = Stopping t \<Longrightarrow> process_step p (ShutdownReturned (Some err)) (return_from (Some err) p)"
| shut: "pr_phase p = Stopping t \<Longrightarrow>
    process_step p (ShutdownReturned None) (return_from None (log_line ''server stopped gracefully'' p))"

inductive_cases process_stepE: "process_step p e q"

inductive process_run :: "process \<Rightarrow> server_event list \<Rightarrow> process \<Rightarrow> bool" for p where
  at_first: "process_run p [] p"
| then_step: "process_run p es q \<Longrightarrow> process_step q e q' \<Longrightarrow> process_run p (es @ [e]) q'"

text \<open>The process after the \<^verbatim>\<open>go\<close> statement, or after the start has failed; \<^verbatim>\<open>main\<close> turns what \<^verbatim>\<open>run\<close> returns
  into the exit code.\<close>

definition launch :: "gerror + 'a \<Rightarrow> process" where
  "launch started = (let p = \<lparr>pr_phase = Starting, pr_serving = Entering, pr_errChan = [], pr_closed = False, pr_quit = False, pr_log = []\<rparr> in
     case started of Inl err \<Rightarrow> return_from (Some err) (p\<lparr>pr_serving := Gone\<rparr>) | Inr a \<Rightarrow> p)"

definition run_start :: "runtime \<Rightarrow> envconfig \<Rightarrow> environ \<Rightarrow> (program \<times> ip_extractor) io" where
  "run_start rt ec environ = (case Load ec environ of Inl err \<Rightarrow> lift_result (Inl err) | Inr cfg \<Rightarrow> run_program rt cfg)"

definition exit_code :: "gerror option \<Rightarrow> nat" where
  "exit_code r = (case r of None \<Rightarrow> 0 | Some err \<Rightarrow> 1)"

section \<open>What the process promises\<close>

lemmas process_defs = log_line_def return_from_def begin_shutdown_def Let_def

text \<open>What the serving goroutine has reported, and that the channel always has room for it.\<close>

definition channel_ok :: "server_event list \<Rightarrow> process \<Rightarrow> bool" where
  "channel_ok es p \<longleftrightarrow>
     (pr_closed p \<longleftrightarrow> pr_serving p = Gone) \<and>
     (pr_serving p \<in> {Entering, Serving} \<or> (\<exists>err. pr_serving p = Reporting err) \<longrightarrow> pr_errChan p = []) \<and>
     length (pr_errChan p) \<le> 1 \<and>
     (\<forall>err. pr_serving p = Reporting err \<or> err \<in> set (pr_errChan p) \<longrightarrow>
        ServerReturned (Some err) \<in> set es \<and> \<not> errors_Is err ErrServerClosed)"

lemma channel_ok_step:
  assumes step: "process_step p e q" and ok: "channel_ok es p"
  shows "channel_ok (es @ [e]) q"
  using step
proof cases
  case (report err)
  with ok have "pr_errChan p = []" by (simp add: channel_ok_def)
  with report ok show ?thesis by (simp add: channel_ok_def)
next
  case (reported err errs)
  with ok have "errs = []" by (simp add: channel_ok_def)
  with reported ok show ?thesis by (auto simp: channel_ok_def process_defs)
qed (use ok in \<open>simp_all add: channel_ok_def process_defs\<close>)

lemma channel_ok_run: "process_run (launch (Inr x)) es p \<Longrightarrow> channel_ok es p"
proof (induction rule: process_run.induct)
  case at_first
  show ?case by (simp add: launch_def channel_ok_def Let_def)
next
  case (then_step es q e q')
  show ?case by (rule channel_ok_step [OF then_step.hyps(2) then_step.IH])
qed

text \<open>What the result and the log say of the past.\<close>

definition history_ok :: "server_event list \<Rightarrow> process \<Rightarrow> bool" where
  "history_ok es p \<longleftrightarrow>
     (pr_phase p = Returned None \<longrightarrow> ShutdownReturned None \<in> set es) \<and>
     (\<forall>err. pr_phase p = Returned (Some err) \<longrightarrow>
        ServerReturned (Some err) \<in> set es \<and> \<not> errors_Is err ErrServerClosed \<or> ShutdownReturned (Some err) \<in> set es) \<and>
     (''server stopped gracefully'' \<in> set (pr_log p) \<longleftrightarrow> pr_phase p = Returned None) \<and>
     (''application failed'' \<in> set (pr_log p) \<longleftrightarrow> (\<exists>err. pr_phase p = Returned (Some err))) \<and>
     (pr_quit p \<or> ''received shutdown signal'' \<in> set (pr_log p) \<longrightarrow> Signal \<in> set es)"

lemma history_ok_step:
  assumes step: "process_step p e q" and ch: "channel_ok es p" and ok: "history_ok es p"
  shows "history_ok (es @ [e]) q"
  using step
proof cases
  case (reported err errs)
  with ch have "ServerReturned (Some err) \<in> set es" "\<not> errors_Is err ErrServerClosed" by (simp_all add: channel_ok_def)
  with reported ok show ?thesis by (simp add: history_ok_def process_defs)
next
  case (signal t)
  with ok show ?thesis by (elim disjE) (simp_all add: history_ok_def)
next
  case (failed err)
  with ok show ?thesis unfolding history_ok_def by simp blast
next
  case (ended r)
  with ok show ?thesis unfolding history_ok_def by simp blast
qed (use ok in \<open>simp_all add: history_ok_def process_defs\<close>)

lemma history_ok_run: "process_run (launch (Inr x)) es p \<Longrightarrow> history_ok es p"
proof (induction rule: process_run.induct)
  case at_first
  show ?case by (simp add: launch_def history_ok_def Let_def)
next
  case (then_step es q e q')
  show ?case by (rule history_ok_step [OF then_step.hyps(2) channel_ok_run [OF then_step.hyps(1)] then_step.IH])
qed

text \<open>The time a run lets pass is the time of the shutdown.\<close>

fun passed :: "server_event list \<Rightarrow> duration" where
  "passed [] = 0"
| "passed (Pass d # es) = d + passed es"
| "passed (e # es) = passed es"

lemma passed_append [simp]: "passed (es @ fs) = passed es + passed fs"
  by (induction es rule: passed.induct) simp_all

definition time_ok :: "server_event list \<Rightarrow> process \<Rightarrow> bool" where
  "time_ok es p \<longleftrightarrow> 0 \<le> passed es \<and> passed es \<le> shutdownTimeout \<and>
     (pr_phase p = Starting \<or> pr_phase p = Selecting \<longrightarrow> passed es = 0) \<and> (\<forall>t. pr_phase p = Stopping t \<longrightarrow> passed es = t)"

lemma time_ok_step:
  assumes step: "process_step p e q" and ok: "time_ok es p"
  shows "time_ok (es @ [e]) q"
  using step
proof cases
  case (signal t)
  with ok show ?thesis by (elim disjE) (simp_all add: time_ok_def)
qed (use ok in \<open>simp_all add: time_ok_def process_defs\<close>)

lemma time_ok_run: "process_run (launch (Inr x)) es p \<Longrightarrow> time_ok es p"
proof (induction rule: process_run.induct)
  case at_first
  show ?case by (simp add: launch_def time_ok_def Let_def shutdownTimeout_def Second_def)
next
  case (then_step es q e q')
  show ?case by (rule time_ok_step [OF then_step.hyps(2) then_step.IH])
qed

text \<open>The steps left to the two goroutines; a signal and the clock are not steps of theirs.\<close>

fun phase_left :: "phase \<Rightarrow> nat" where
  "phase_left Starting = 3" | "phase_left Selecting = 2" | "phase_left (Stopping t) = 1"
| "phase_left (Returned r) = 0" | "phase_left Killed = 0"

fun serving_left :: "serving \<Rightarrow> nat" where
  "serving_left Entering = 4" | "serving_left Serving = 3" | "serving_left (Reporting err) = 2"
| "serving_left Closing = 1" | "serving_left Gone = 0"

fun own :: "server_event \<Rightarrow> bool" where
  "own Signal = False" | "own (Pass d) = False" | "own e = True"

lemma left_step:
  assumes "process_step p e q"
  shows "phase_left (pr_phase q) + serving_left (pr_serving q) + (if own e then 1 else 0) \<le>
    phase_left (pr_phase p) + serving_left (pr_serving p)"
  using assms by cases (simp_all add: process_defs)

lemma left_run: "process_run (launch (Inr x)) es p \<Longrightarrow>
    phase_left (pr_phase p) + serving_left (pr_serving p) + length (filter own es) \<le> 7"
proof (induction rule: process_run.induct)
  case at_first
  show ?case by (simp add: launch_def Let_def)
next
  case (then_step es q e q')
  from left_step [OF then_step.hyps(2)] then_step.IH show ?case by (simp split: if_splits)
qed

definition stopped :: "process \<Rightarrow> bool" where
  "stopped p \<longleftrightarrow> pr_phase p = Killed \<or> (\<exists>r. pr_phase p = Returned r)"

definition waiting :: "process \<Rightarrow> bool" where
  "waiting p \<longleftrightarrow> pr_phase p = Selecting \<and> \<not> pr_quit p \<and> pr_errChan p = [] \<and> pr_serving p = Serving"

text \<open>Neither goroutine is ever stuck: the channel has room, and \<^verbatim>\<open>select\<close> sees what there is.\<close>

lemma process_moves:
  assumes ch: "channel_ok es p"
  shows "stopped p \<or> waiting p \<or> (\<exists>e q. own e \<and> (\<forall>r. e \<noteq> ServerReturned r) \<and> process_step p e q)"
proof (cases "pr_phase p")
  case Starting
  from process_step.notify [OF this] show ?thesis by (intro disjI2) (use own.simps in blast)
next
  case Selecting
  show ?thesis
  proof (cases "pr_quit p")
    case True
    from process_step.quit [OF Selecting this] show ?thesis by (intro disjI2) (use own.simps in blast)
  next
    case False
    show ?thesis
    proof (cases "pr_errChan p")
      case (Cons err errs)
      from process_step.reported [OF Selecting this] show ?thesis by (intro disjI2) (use own.simps in blast)
    next
      case Nil
      show ?thesis
      proof (cases "pr_serving p")
        case Entering
        from process_step.enter [OF _ this] show ?thesis by (intro disjI2) (use own.simps Selecting in force)
      next
        case (Reporting err)
        with process_step.report [OF _ this] Nil show ?thesis by (intro disjI2) (use own.simps Selecting in force)
      next
        case Closing
        from process_step.close [OF _ this] show ?thesis by (intro disjI2) (use own.simps Selecting in force)
      next
        case Gone
        with ch have "pr_closed p" by (simp add: channel_ok_def)
        from process_step.drained [OF Selecting Nil this] show ?thesis by (intro disjI2) (use own.simps in blast)
      qed (simp add: waiting_def Selecting False Nil)
    qed
  qed
next
  case (Stopping t)
  from process_step.shut [OF this] show ?thesis by (intro disjI2) (use own.simps in blast)
qed (simp_all add: stopped_def)

lemma process_exit:
  assumes "process_run (launch (Inr x)) es p"
  shows "\<forall>r. pr_phase p = Returned r \<longrightarrow>
    (exit_code r = 0 \<longleftrightarrow> ''server stopped gracefully'' \<in> set (pr_log p)) \<and>
    (exit_code r = 0 \<longleftrightarrow> ''application failed'' \<notin> set (pr_log p)) \<and>
    (exit_code r = 0 \<longrightarrow> ShutdownReturned None \<in> set es) \<and>
    (\<forall>err. r = Some err \<longrightarrow> ServerReturned (Some err) \<in> set es \<and> \<not> errors_Is err ErrServerClosed \<or>
       ShutdownReturned (Some err) \<in> set es)"
proof -
  have "(exit_code r = 0 \<longleftrightarrow> r = None)" for r by (simp add: exit_code_def split: option.split)
  with history_ok_run [OF assms, unfolded history_ok_def] show ?thesis by auto
qed

end
