(* ===== verification/Keygen.thy ===== *)
theory Keygen
  imports Github
begin

text \<open>
  The test key generator, \<^verbatim>\<open>cmd/generate-test-keys/main.go\<close>: it writes an RSA key and the key set that the
  end-to-end tests serve to the verifier of \<^verbatim>\<open>internal/infrastructure/oidc\<close>.  Generating the key and its PKCS #1
  bytes are arguments.  The disk keeps a content and a mode under each name, and each call to it may fail
  before or after it has begun to write.
\<close>

section \<open>Base64 and big-endian bytes\<close>

fun big_Bytes :: "nat \<Rightarrow> string" where
  "big_Bytes n = (if n = 0 then [] else big_Bytes (n div 256) @ [char_of (n mod 256)])"

declare big_Bytes.simps [simp del]

lemma big_Int_Bytes [simp]: "big_Int (big_Bytes n) = n"
proof (induction n rule: big_Bytes.induct)
  case (1 n)
  show ?case
  proof (cases "n = 0")
    case False
    with 1 have "big_Int (big_Bytes (n div 256)) = n div 256" by simp
    then show ?thesis using False by (subst big_Bytes.simps) (simp add: big_Int_def)
  qed (simp add: big_Bytes.simps big_Int_def)
qed

definition symbol :: "nat \<Rightarrow> char" where "symbol i = url_alphabet ! i"

fun RawURLEncoding_EncodeToString :: "string \<Rightarrow> string" where
  "RawURLEncoding_EncodeToString [] = []"
| "RawURLEncoding_EncodeToString [a] =
     (let x = of_char a in [symbol (x div 4), symbol (16 * (x mod 4))])"
| "RawURLEncoding_EncodeToString [a, b] =
     (let x = of_char a; y = of_char b in
      [symbol (x div 4), symbol (16 * (x mod 4) + y div 16), symbol (4 * (y mod 16))])"
| "RawURLEncoding_EncodeToString (a # b # c # rest) =
     (let x = of_char a; y = of_char b; z = of_char c in
      [symbol (x div 4), symbol (16 * (x mod 4) + y div 16), symbol (4 * (y mod 16) + z div 64), symbol (z mod 64)]
        @ RawURLEncoding_EncodeToString rest)"

lemma index_of_nth: "distinct xs \<Longrightarrow> i < length xs \<Longrightarrow> index_of (xs ! i) xs = Some i"
  by (induction xs arbitrary: i) (auto simp: nth_Cons' in_set_conv_nth)

lemma url_alphabet_props: "distinct url_alphabet" "length url_alphabet = 64" "CHR 0x0A \<notin> set url_alphabet" "CHR 0x0D \<notin> set url_alphabet"
  by (simp_all add: url_alphabet_def)

lemma index_of_symbol [simp]: "i < 64 \<Longrightarrow> index_of (symbol i) url_alphabet = Some i"
  by (simp add: symbol_def index_of_nth url_alphabet_props)

lemma symbol_kept: "i < 64 \<Longrightarrow> symbol i \<noteq> CHR 0x0A \<and> symbol i \<noteq> CHR 0x0D"
  using nth_mem [of i url_alphabet] url_alphabet_props unfolding symbol_def by metis

text \<open>The six-bit digits of three bytes, and the bytes of the digits.\<close>

lemma digits:
  fixes x y z :: nat
  assumes "x < 256" "y < 256" "z < 256"
  shows "x div 4 < 64" "16 * (x mod 4) + y div 16 < 64" "4 * (y mod 16) + z div 64 < 64" "z mod 64 < 64"
    "4 * (x div 4) + (16 * (x mod 4) + y div 16) div 16 = x"
    "16 * ((16 * (x mod 4) + y div 16) mod 16) + (4 * (y mod 16) + z div 64) div 4 = y"
    "64 * ((4 * (y mod 16) + z div 64) mod 4) + z mod 64 = z"
proof -
  show "x div 4 < 64" "16 * (x mod 4) + y div 16 < 64" "4 * (y mod 16) + z div 64 < 64" "z mod 64 < 64"
    using assms by linarith+
  have "y div 16 < 16" "z div 64 < 4" using assms by linarith+
  then have "(16 * (x mod 4) + y div 16) div 16 = x mod 4" "(16 * (x mod 4) + y div 16) mod 16 = y div 16"
    "(4 * (y mod 16) + z div 64) div 4 = y mod 16" "(4 * (y mod 16) + z div 64) mod 4 = z div 64" by simp_all
  then show "4 * (x div 4) + (16 * (x mod 4) + y div 16) div 16 = x"
    "16 * ((16 * (x mod 4) + y div 16) mod 16) + (4 * (y mod 16) + z div 64) div 4 = y"
    "64 * ((4 * (y mod 16) + z div 64) mod 4) + z mod 64 = z" by simp_all
qed

lemma three_bytes_back:
  "three_bytes (of_char a div 4) (16 * (of_char a mod 4) + of_char b div 16) (4 * (of_char b mod 16) + of_char c div 64) (of_char c mod 64) = [a, b, c]"
  using digits [OF char_range [of a] char_range [of b] char_range [of c]] by (simp add: three_bytes_def)

lemma base64_back: "base64_groups url_alphabet False (RawURLEncoding_EncodeToString bytes) = Some bytes"
proof (induction bytes rule: RawURLEncoding_EncodeToString.induct)
  case (2 a)
  show ?case using digits [OF char_range [of a], where y = 0 and z = 0] by (simp add: Let_def three_bytes_def)
next
  case (3 a b)
  show ?case using digits [OF char_range [of a] char_range [of b], where z = 0] by (simp add: Let_def three_bytes_def)
next
  case (4 a b c rest)
  then show ?case using digits [OF char_range [of a] char_range [of b] char_range [of c]] three_bytes_back [of a b c] by (simp add: Let_def)
qed simp

lemma skip_newlines_encoded: "skip_newlines (RawURLEncoding_EncodeToString bytes) = RawURLEncoding_EncodeToString bytes"
proof (induction bytes rule: RawURLEncoding_EncodeToString.induct)
  case (2 a)
  show ?case using digits [OF char_range [of a], where y = 0 and z = 0] by (simp add: Let_def skip_newlines_def symbol_kept)
next
  case (3 a b)
  show ?case using digits [OF char_range [of a] char_range [of b], where z = 0] by (simp add: Let_def skip_newlines_def symbol_kept)
next
  case (4 a b c rest)
  then show ?case using digits [OF char_range [of a] char_range [of b] char_range [of c]] by (simp add: Let_def skip_newlines_def symbol_kept)
qed (simp add: skip_newlines_def)

lemma RawURLEncoding_roundtrip: "RawURLEncoding_DecodeString (RawURLEncoding_EncodeToString bytes) = Some bytes"
  by (simp add: RawURLEncoding_DecodeString_def skip_newlines_encoded base64_back)

section \<open>The key set\<close>

record gen_JWK =
  gk_Kty :: string
  gk_Use :: string
  gk_Kid :: string
  gk_Alg :: string
  gk_N :: string
  gk_E :: string

record gen_JWKS =
  gs_Keys :: "gen_JWK list"

definition gen_JWK_json :: "gen_JWK \<Rightarrow> json" where
  "gen_JWK_json k = JObject [(''kty'', JString (gk_Kty k)), (''use'', JString (gk_Use k)), (''kid'', JString (gk_Kid k)),
     (''alg'', JString (gk_Alg k)), (''n'', JString (gk_N k)), (''e'', JString (gk_E k))]"

definition gen_JWKS_json :: "gen_JWKS \<Rightarrow> json" where
  "gen_JWKS_json s = JObject [(''keys'', JArray (map gen_JWK_json (gs_Keys s)))]"

definition test_jwks :: "RSAPublicKey \<Rightarrow> gen_JWKS" where
  "test_jwks publicKey =
     (let n = RawURLEncoding_EncodeToString (big_Bytes (pk_N publicKey));
          e = RawURLEncoding_EncodeToString (big_Bytes (nat \<bar>pk_E publicKey\<bar>))
      in \<lparr>gs_Keys = [\<lparr>gk_Kty = ''RSA'', gk_Use = ''sig'', gk_Kid = ''test-key-id'', gk_Alg = ''RS256'', gk_N = n, gk_E = e\<rparr>]\<rparr>)"

text \<open>The verifier reads the key set; it does not know the field \<^verbatim>\<open>alg\<close>.\<close>

lemma decode_gen_JWK:
  "decode_JWK (gen_JWK_json k) = Some \<lparr>jk_Kid = gk_Kid k, jk_Kty = gk_Kty k, jk_Use = gk_Use k, jk_N = gk_N k, jk_E = gk_E k\<rparr>"
proof -
  have tags: "field_for JWK_tags ''kid'' = Some (into_string (\<lambda>v s. s\<lparr>jk_Kid := v\<rparr>))"
    "field_for JWK_tags ''kty'' = Some (into_string (\<lambda>v s. s\<lparr>jk_Kty := v\<rparr>))"
    "field_for JWK_tags ''use'' = Some (into_string (\<lambda>v s. s\<lparr>jk_Use := v\<rparr>))"
    "field_for JWK_tags ''n'' = Some (into_string (\<lambda>v s. s\<lparr>jk_N := v\<rparr>))"
    "field_for JWK_tags ''e'' = Some (into_string (\<lambda>v s. s\<lparr>jk_E := v\<rparr>))"
    "field_for JWK_tags ''alg'' = None"
    by (simp_all add: field_for_def JWK_tags_def strings_EqualFold_def strings_ToLower_def ascii_lower_def)
  show ?thesis by (simp add: decode_JWK_def gen_JWK_json_def decode_struct_def tags into_string_def)
qed

lemma test_jwks_verifies:
  assumes "0 \<le> pk_E key" and "pk_E key < 2 ^ 63"
  shows "\<exists>s. decode_JWKSet (gen_JWKS_json (test_jwks key)) = Some s \<and> findPublicKey s ''test-key-id'' = Inr key"
proof -
  have "decode_JWKSet (gen_JWKS_json (test_jwks key)) = Some \<lparr>js_Keys = [\<lparr>jk_Kid = ''test-key-id'', jk_Kty = ''RSA'', jk_Use = ''sig'',
      jk_N = RawURLEncoding_EncodeToString (big_Bytes (pk_N key)), jk_E = RawURLEncoding_EncodeToString (big_Bytes (nat (pk_E key)))\<rparr>]\<rparr>"
    using assms(1) by (simp add: decode_JWKSet_def gen_JWKS_json_def test_jwks_def Let_def decode_struct_def field_for_def into_array_def decode_gen_JWK)
  then show ?thesis using assms
    by (cases key) (simp add: findPublicKey_def parseRSAPublicKey_def RawURLEncoding_roundtrip Let_def int64_range_def)
qed

section \<open>The disk\<close>

text \<open>A file that was opened for writing and not written to its end is \<open>Partial\<close>.\<close>

datatype content = PEM_block string string | JSON_text json | Partial

text \<open>The fate of a call.  Writing a file is two calls, opening with truncation and writing.\<close>

datatype disk_fault = Works | Fails

record disk =
  dk_files :: "string \<Rightarrow> (content \<times> nat) option"
  dk_faults :: "disk_fault list"

definition next_fault :: "(disk, disk_fault) state" where
  "next_fault = State (\<lambda>d. case dk_faults d of [] \<Rightarrow> (Works, d) | f # fs \<Rightarrow> (f, d\<lparr>dk_faults := fs\<rparr>))"

text \<open>A new file gets the mode asked for, an old one keeps its own.\<close>

definition put_file :: "string \<Rightarrow> nat \<Rightarrow> content \<Rightarrow> (disk, unit) state" where
  "put_file path perm c = State (\<lambda>d. ((), d\<lparr>dk_files := (dk_files d)(path \<mapsto>
     (c, case dk_files d path of None \<Rightarrow> perm | Some (old, mode) \<Rightarrow> mode))\<rparr>))"

definition os_Stat :: "string \<Rightarrow> (disk, gerror + unit) state" where
  "os_Stat path = do {
     f \<leftarrow> next_fault;
     State (\<lambda>d. (if f = Works \<and> dk_files d path \<noteq> None then Inr () else Inl (Plain ''stat''), d))
   }"

definition os_MkdirAll :: "(disk, gerror + unit) state" where
  "os_MkdirAll = do {
     f \<leftarrow> next_fault;
     lift_result (if f = Works then Inr () else Inl (Plain ''mkdir''))
   }"

definition os_OpenFile :: "string \<Rightarrow> nat \<Rightarrow> (disk, gerror + unit) state" where
  "os_OpenFile path perm = do {
     f \<leftarrow> next_fault;
     if f = Works then do { put_file path perm Partial; lift_result (Inr ()) }
     else lift_result (Inl (Plain ''open''))
   }"

definition write_all :: "string \<Rightarrow> nat \<Rightarrow> content \<Rightarrow> (disk, gerror + unit) state" where
  "write_all path perm c = do {
     f \<leftarrow> next_fault;
     if f = Works then do { put_file path perm c; lift_result (Inr ()) }
     else lift_result (Inl (Plain ''write''))
   }"

text \<open>\<^verbatim>\<open>os.WriteFile\<close> opens with truncation, then writes.\<close>

definition os_WriteFile :: "string \<Rightarrow> content \<Rightarrow> nat \<Rightarrow> (disk, gerror + unit) state" where
  "os_WriteFile path c perm = try_bind (os_OpenFile path perm) (\<lambda>u. write_all path perm c)"

section \<open>The generator\<close>

record RSAPrivateKey =
  rk_PublicKey :: RSAPublicKey
  rk_PKCS1 :: string

definition privateKeyPath :: string where "privateKeyPath = ''e2e/testdata/test_private_key.pem''"
definition jwksPath :: string where "jwksPath = ''e2e/testdata/jwks.json''"

definition fileExists :: "string \<Rightarrow> (disk, bool) state" where
  "fileExists path = do { r \<leftarrow> os_Stat path; State_Monad.return (r = Inr ()) }"

text \<open>The modes \<^verbatim>\<open>0600\<close> and \<^verbatim>\<open>0644\<close> are octal.\<close>

definition savePrivateKey :: "RSAPrivateKey \<Rightarrow> string \<Rightarrow> (disk, gerror + unit) state" where
  "savePrivateKey privateKey path =
     (let privateKeyPEM = PEM_block ''RSA PRIVATE KEY'' (rk_PKCS1 privateKey) in
      try_bind (os_OpenFile path 384) (\<lambda>file. write_all path 384 privateKeyPEM))"

definition saveJWKS :: "RSAPublicKey \<Rightarrow> string \<Rightarrow> (disk, gerror + unit) state" where
  "saveJWKS publicKey path = os_WriteFile path (JSON_text (gen_JWKS_json (test_jwks publicKey))) 420"

text \<open>\<^verbatim>\<open>main\<close>, with the exit code as its result; \<open>generate\<close> is what it does when a file is missing.\<close>

definition generate :: "gerror + RSAPrivateKey \<Rightarrow> (disk, nat) state" where
  "generate rsa_GenerateKey = do {
     m \<leftarrow> os_MkdirAll;
     case m of Inl err \<Rightarrow> State_Monad.return 1
     | Inr u \<Rightarrow> (case rsa_GenerateKey of Inl err \<Rightarrow> State_Monad.return 1
       | Inr privateKey \<Rightarrow> do {
           s \<leftarrow> savePrivateKey privateKey privateKeyPath;
           case s of Inl err \<Rightarrow> State_Monad.return 1
           | Inr u \<Rightarrow> do {
               j \<leftarrow> saveJWKS (rk_PublicKey privateKey) jwksPath;
               State_Monad.return (case j of Inl err \<Rightarrow> 1 | Inr u \<Rightarrow> 0)
             }
         })
   }"

definition keygen_main :: "gerror + RSAPrivateKey \<Rightarrow> (disk, nat) state" where
  "keygen_main rsa_GenerateKey = do {
     a \<leftarrow> fileExists privateKeyPath;
     b \<leftarrow> (if a then fileExists jwksPath else State_Monad.return False);
     if a \<and> b then State_Monad.return 0 else generate rsa_GenerateKey
   }"

section \<open>What the generator promises\<close>

lemma next_fault_run: "run_state next_fault d = (f, d') \<Longrightarrow> dk_files d' = dk_files d"
  by (auto simp: next_fault_def split: list.splits)

lemma os_Stat_run:
  assumes "run_state (os_Stat path) d = (r, d')"
  shows "dk_files d' = dk_files d \<and> (r = Inr () \<longrightarrow> dk_files d path \<noteq> None)"
  using assms by (cases "run_state next_fault d") (auto simp: os_Stat_def dest: next_fault_run split: if_splits)

lemma fileExists_run:
  assumes "run_state (fileExists path) d = (b, d')"
  shows "dk_files d' = dk_files d \<and> (b \<longrightarrow> dk_files d path \<noteq> None)"
  using assms os_Stat_run by (cases "run_state (os_Stat path) d") (auto simp: fileExists_def)

definition kept_mode :: "disk \<Rightarrow> string \<Rightarrow> nat \<Rightarrow> nat" where
  "kept_mode d path perm = (case dk_files d path of None \<Rightarrow> perm | Some (old, mode) \<Rightarrow> mode)"

lemma write_file_run:
  assumes "run_state (try_bind (os_OpenFile path perm) (\<lambda>u. write_all path perm c)) d = (Inr (), d')"
  shows "dk_files d' = (dk_files d)(path \<mapsto> (c, kept_mode d path perm))"
proof -
  obtain f d1 where f: "run_state next_fault d = (f, d1)" by fastforce
  with assms have "f = Works" by (auto simp: run_try_bind os_OpenFile_def split: if_splits)
  obtain g d3 where g: "run_state next_fault (snd (run_state (put_file path perm Partial) d1)) = (g, d3)" by fastforce
  with assms f \<open>f = Works\<close> have "g = Works" "d' = snd (run_state (put_file path perm c) d3)"
    by (auto simp: run_try_bind os_OpenFile_def write_all_def put_file_def split: if_splits)
  with next_fault_run [OF f] next_fault_run [OF g] show ?thesis
    by (simp add: put_file_def kept_mode_def split: option.split)
qed

lemma generate_run:
  assumes run: "run_state (generate rsa_GenerateKey) d = (0, d')"
  obtains privateKey where "rsa_GenerateKey = Inr privateKey" "dk_files d' = (dk_files d)
      (privateKeyPath \<mapsto> (PEM_block ''RSA PRIVATE KEY'' (rk_PKCS1 privateKey), kept_mode d privateKeyPath 384),
       jwksPath \<mapsto> (JSON_text (gen_JWKS_json (test_jwks (rk_PublicKey privateKey))), kept_mode d jwksPath 420))"
proof -
  obtain m d3 where m: "run_state os_MkdirAll d = (m, d3)" by fastforce
  have d3: "dk_files d3 = dk_files d" using m next_fault_run by (cases "run_state next_fault d") (auto simp: os_MkdirAll_def)
  from run m obtain privateKey where k: "rsa_GenerateKey = Inr privateKey" "m = Inr ()"
    by (cases m; cases rsa_GenerateKey) (auto simp: generate_def)
  obtain s d4 where s: "run_state (savePrivateKey privateKey privateKeyPath) d3 = (s, d4)" by fastforce
  with run m k have s0: "s = Inr ()" by (cases s) (auto simp: generate_def)
  obtain j d5 where j: "run_state (saveJWKS (rk_PublicKey privateKey) jwksPath) d4 = (j, d5)" by fastforce
  with run m k s s0 have j0: "j = Inr ()" "d5 = d'" by (cases j; simp add: generate_def)+
  note first = write_file_run [OF s [unfolded s0 savePrivateKey_def Let_def]]
    and second = write_file_run [OF j [unfolded j0 saveJWKS_def os_WriteFile_def]]
  have "kept_mode d3 privateKeyPath 384 = kept_mode d privateKeyPath 384" "kept_mode d4 jwksPath 420 = kept_mode d jwksPath 420"
    using d3 first by (simp_all add: kept_mode_def privateKeyPath_def jwksPath_def)
  with that k(1) first second d3 show thesis by simp
qed

lemma keygen_run:
  assumes "run_state (keygen_main rsa_GenerateKey) d = (0, d')"
  shows "dk_files d' = dk_files d \<and> dk_files d privateKeyPath \<noteq> None \<and> dk_files d jwksPath \<noteq> None \<or>
    (\<exists>privateKey. rsa_GenerateKey = Inr privateKey \<and> dk_files d' = (dk_files d)
      (privateKeyPath \<mapsto> (PEM_block ''RSA PRIVATE KEY'' (rk_PKCS1 privateKey), kept_mode d privateKeyPath 384),
       jwksPath \<mapsto> (JSON_text (gen_JWKS_json (test_jwks (rk_PublicKey privateKey))), kept_mode d jwksPath 420)))"
proof -
  let ?second = "\<lambda>a. if a then fileExists jwksPath else State_Monad.return False"
  obtain a d1 where a: "run_state (fileExists privateKeyPath) d = (a, d1)" by fastforce
  obtain b d2 where b: "run_state (?second a) d1 = (b, d2)" by fastforce
  have d2: "dk_files d2 = dk_files d" "a \<and> b \<longrightarrow> dk_files d privateKeyPath \<noteq> None \<and> dk_files d jwksPath \<noteq> None"
    using fileExists_run [OF a] fileExists_run [of jwksPath d1 b d2] b by (auto split: if_splits)
  have run: "run_state (if a \<and> b then State_Monad.return 0 else generate rsa_GenerateKey) d2 = (0, d')"
    using assms a b by (simp add: keygen_main_def)
  show ?thesis
  proof (cases "a \<and> b")
    case True
    with run d2 show ?thesis by simp
  next
    case False
    with run have "run_state (generate rsa_GenerateKey) d2 = (0, d')" by (simp only: if_False)
    then show ?thesis by (rule generate_run) (auto simp: d2(1) kept_mode_def)
  qed
qed

text \<open>A run that fails while it writes the key set leaves both files, and no later run repairs them.\<close>

lemma half_written_keys:
  "\<exists>d'. run_state (keygen_main (Inr privateKey)) \<lparr>dk_files = (\<lambda>path. None), dk_faults = replicate 5 Works @ [Fails]\<rparr> = (1, d') \<and>
     map_option fst (dk_files d' jwksPath) = Some Partial \<and>
     (\<forall>rsa_GenerateKey. run_state (keygen_main rsa_GenerateKey) (d'\<lparr>dk_faults := []\<rparr>) = (0, d'\<lparr>dk_faults := []\<rparr>))"
  by (simp add: keygen_main_def generate_def fileExists_def os_Stat_def os_MkdirAll_def savePrivateKey_def saveJWKS_def os_WriteFile_def
      os_OpenFile_def write_all_def put_file_def next_fault_def run_try_bind Let_def eval_nat_numeral privateKeyPath_def jwksPath_def)

end
