(* ===== verification/Samples.thy ===== *)
theory Samples
  imports Callbacks Allow_Turns Server Keygen
begin

text \<open>
  Concrete deployments, requests and remote parties, on which the properties of the root theory are
  applied: a program started with sign-in switched off, its worlds before and after the first upload, a
  GitHub that answers every call, overlapping requests, and the environment and key of a start.
\<close>

section \<open>A sample deployment\<close>

text \<open>Concrete values the properties are applied to.\<close>

definition sample_oid :: string where
  "sample_oid = replicate 64 (CHR ''a'')"

definition sample_repo :: RepositoryIdentifier where
  "sample_repo = \<lparr>ri_owner = ''octo'', ri_name = ''assets''\<rparr>"

definition sample_uuid :: "nat \<Rightarrow> string" where
  "sample_uuid n = CHR ''u'' # FormatInt (int n)"

definition sample_config :: Config where
  "sample_config = \<lparr>cf_Server = \<lparr>sv_TrustProxy = False, sv_TrustedProxyCIDRs = [], sv_ProxyTimeout = 10 * Minute\<rparr>,
     cf_Database = \<lparr>db_Host = ''db'', db_Port = 5432, db_User = ''u'', db_Password = ''p'', db_DBName = ''d'',
       db_SSLMode = ''require''\<rparr>,
     cf_Redis = \<lparr>rc_Host = ''redis'', rc_Port = 6379, rc_Password = [], rc_DB = 0\<rparr>,
     cf_S3 = \<lparr>sc_Endpoint = [], sc_AccessKeyID = ''a'', sc_SecretAccessKey = ''s'', sc_BucketName = ''b'',
       sc_Region = ''r''\<rparr>,
     cf_OIDC = \<lparr>oc_Enabled = False, oc_Audience = [], oc_JWKSURL = []\<rparr>,
     cf_OAuth = \<lparr>oa_Enabled = False, oa_ClientID = [], oa_ClientSecret = [], oa_AllowedHosts = [],
       oa_AllowedRedirectURIs = []\<rparr>\<rparr>"

definition sample_runtime :: runtime where
  "sample_runtime = \<lparr>rt_files = \<lparr>os_ReadFile = (\<lambda>f. Inl (Plain ''no such file'')), AppendCertsFromPEM = (\<lambda>s. False)\<rparr>,
     rt_url_Parse = (\<lambda>u. None), rt_ParseCIDR = (\<lambda>s. False),
     rt_http = (\<lambda>req w. Inl (Plain ''unreachable'')), rt_jwt = (\<lambda>s kf. lift_result (Inl (Plain ''malformed''))), rt_error_text = (\<lambda>e. ''failed'')\<rparr>"

definition sample_program :: program where
  "sample_program = \<lparr>pg_auth = program_auth (rt_http sample_runtime) (rt_jwt sample_runtime) None, pg_oauth = None,
     pg_login = \<lparr>cfg_TrustProxy = False, cfg_AllowedHosts = []\<rparr>, pg_error_text = (\<lambda>e. ''failed'')\<rparr>"

abbreviation sample_world :: world where
  "sample_world \<equiv> initial_world 0 sample_uuid []"

lemma sample_oid_ok [simp]: "oidPattern sample_oid"
  by (simp add: oidPattern_def sample_oid_def hex_chars_def list_all_iff)

lemma sample_repo_ok [simp]: "valid_repository sample_repo" "length (FullName sample_repo) \<le> 255"
    "NewRepositoryIdentifier ''octo/assets'' = Inr sample_repo"
proof -
  show v: "valid_repository sample_repo" by (simp add: valid_repository_def sample_repo_def)
  show "length (FullName sample_repo) \<le> 255" by (simp add: FullName_def sample_repo_def)
  show "NewRepositoryIdentifier ''octo/assets'' = Inr sample_repo"
    unfolding NewRepositoryIdentifier_Inr using v by (simp add: FullName_def sample_repo_def)
qed

lemma initial_world_faults [simp]: "w_faults (initial_world now uuid faults) = faults"
  by (simp add: initial_world_def)

lemma initial_world_storage: "w_storage (initial_world now uuid faults) = (\<lambda>k. None)"
  by (simp add: initial_world_def)

lemma sample_jwt [simp]: "jwt_library (rt_jwt sample_runtime) (\<lambda>s key t. True)"
  by (simp add: jwt_library_def sample_runtime_def)

lemma sample_error_text [simp]: "rt_error_text sample_runtime = (\<lambda>e. ''failed'')"
  by (simp add: sample_runtime_def)

lemma sample_starts:
  "run_state (run_program sample_runtime sample_config) sample_world = (Inr (sample_program, ExtractIPDirect), sample_world)"
  by (simp add: run_program_def run_postgres_def run_redis_def run_oauth_def Let_def sample_config_def
      NewPostgresConnection_def postgres_tls_def pgxpool_NewWithConfig_def db_ping_def NewRedisConnection_def
      RedisClient_Ping_def run_external_ok initial_world_def program_oidc_def buildIPExtractor_def sample_program_def)

lemma sample_wired [simp]: "wired (rt_http sample_runtime) (rt_jwt sample_runtime) sample_program"
  using run_program_run [OF sample_starts] by simp

lemma sample_reaches: "reaches sample_program w [Tick 1, Outage []] (w\<lparr>w_now := w_now w + 1, w_faults := []\<rparr>)"
  using reaches.more [OF reaches.more [OF reaches.start [of sample_program w], of "Tick 1" "w\<lparr>w_now := w_now w + 1\<rparr>"],
      of "Outage []" "w\<lparr>w_now := w_now w + 1, w_faults := []\<rparr>"] by simp

text \<open>A world in which the sample object, of three bytes, is registered for the sample repository.\<close>

lemma sample_row:
  obtains w d where "w_faults w = []" "consistent w" "backed w" "owner_of w (OID sample_oid) = Some sample_repo"
    "stored w (OID sample_oid) = Some d" "Size_Int64 (lo_size d) = 3" "w_storage w = (\<lambda>k. None)" "\<not> lo_uploaded d"
proof -
  let ?obj = "\<lparr>ro_oid = sample_oid, ro_size = 3\<rparr>"
  have "w_faults sample_world = []" by simp
  then obtain b w d where run: "run_state (uc_upload program_batch [] [] [] (first_upload sample_repo ?obj) []) sample_world = (Inr b, w)"
    and w: "w_faults w = []" "owner_of w (OID sample_oid) = Some sample_repo"
      "stored w (OID sample_oid) = Some d" "Size_Int64 (lo_size d) = 3"
    by (rule batch_available [where obj = ?obj and ri = sample_repo and baseURL = "[]" and ow = "[]" and re = "[]" and ah = "[]",
          OF _ initial_world_sound]) auto
  from run have "run_state (HandleBatchRequest program_batch [] [] [] (first_upload sample_repo ?obj) []) sample_world = (Inr b, w)"
    by (simp add: HandleBatchRequest_def first_upload_def)
  from batch_request_run [OF initial_world_sound _ sample_repo_ok(1) this]
  have "sound_world w" "upload_effect GenerateStorageKey ''sha256'' sample_repo sample_world w" "w_storage w = w_storage sample_world"
    by (simp_all add: first_upload_def upload_effect_def)
  with upload_effect_consistent [of sample_repo sample_world w] upload_effect_backed initial_world_consistent
  have c: "consistent w" "backed w" "w_storage w = (\<lambda>k. None)" by (auto simp: consistent_def initial_world_storage)
  then have "\<not> lo_uploaded d" using w(3) by (auto simp: backed_def)
  with w c that show thesis by blast
qed

lemma sample_registered:
  obtains w d where "w_faults w = []" "consistent w" "backed w" "owner_of w (OID sample_oid) = Some sample_repo"
    "stored w (OID sample_oid) = Some d" "Size_Int64 (lo_size d) = 3"
  by (rule sample_row)

lemma sample_announced:
  obtains w d where "w_faults w = []" "sound_world w" "stored w (OID sample_oid) = Some d"
    "w_storage w (GetStorageKey d) = None"
  by (rule sample_row) (auto simp: consistent_def)

text \<open>The metadata entry of the announced object is evicted.\<close>

lemma sample_uncached:
  obtains w d where "w_faults w = []" "consistent w" "owner_of w (OID sample_oid) = Some sample_repo"
    "stored w (OID sample_oid) = Some d" "Size_Int64 (lo_size d) = 3" "\<not> lo_uploaded d" "cache_hit w (OID sample_oid) = None"
proof -
  obtain w d where w: "w_faults w = []" "consistent w" "backed w" "owner_of w (OID sample_oid) = Some sample_repo"
    "stored w (OID sample_oid) = Some d" "Size_Int64 (lo_size d) = 3" "w_storage w = (\<lambda>k. None)" "\<not> lo_uploaded d"
    by (rule sample_row)
  let ?w = "w\<lparr>w_redis := (w_redis w)(MetadataKey sample_oid := None)\<rparr>"
  have "reaches sample_program w ([] @ [Evict (MetadataKey sample_oid)]) ?w" by (rule reaches.more [OF reaches.start]) simp
  from reaches_consistent [OF sample_jwt sample_wired this w(2)] have "consistent ?w" .
  moreover have "stored ?w = stored w" "owner_of ?w = owner_of w" by (simp_all add: stored_def owner_of_def fun_eq_iff)
  moreover have "cache_hit ?w (OID sample_oid) = None"
    by (simp add: cache_hit_def redis_peek_def redis_read_def redis_live_def)
  ultimately show thesis using that [of ?w d] w by simp
qed

text \<open>The same world after the content, three bytes, was sent through the proxy.\<close>

lemma sample_uploaded:
  obtains w d where "w_faults w = []" "consistent w" "backed w" "owner_of w (OID sample_oid) = Some sample_repo"
    "stored w (OID sample_oid) = Some d" "lo_uploaded d" "w_storage w (GetStorageKey d) = Some ''abc''"
    "Size_Int64 (lo_size d) = 3" "fresh w (OID sample_oid)"
proof -
  obtain w d where w: "w_faults w = []" "consistent w" "backed w" "owner_of w (OID sample_oid) = Some sample_repo"
    "stored w (OID sample_oid) = Some d" "Size_Int64 (lo_size d) = 3" by (rule sample_registered)
  then have s: "sound_world w" by (simp add: consistent_def)
  obtain w' where run: "run_state (program_upload ''octo'' ''assets'' (OID sample_oid) ''abc'') w = (Inr (), w')"
    and w': "w_faults w' = []" "fresh w' (OID sample_oid)"
    by (rule upload_available [OF w(1) s w(5), of "''octo''" "''assets''" sample_repo "''abc''"])
      (use w(4,6) in \<open>simp_all add: may_access_def\<close>)
  from transfers.ProxyUpload_run [of w "''octo''" "''assets''" "OID sample_oid" "''abc''" "Inr ()" w'] s run
  have u: "sound_world w'" "put_effect (OID sample_oid) ''abc'' w w'"
    "\<exists>d. stored w' (OID sample_oid) = Some d \<and> lo_uploaded d \<and> w_storage w' (GetStorageKey d) = Some ''abc'' \<and>
       3 = Size_Int64 (lo_size d)"
    by (simp_all add: sound_world_def program_upload_def pg_authorization_def)
  have "owner_of w' = owner_of w" using u(2) by (simp add: put_effect_def)
  moreover have "backed w'" by (rule put_effect_backed [OF u(2) w(3)])
  moreover have "consistent w'" using put_effect_consistent [OF u(2)] w(2) u(1) by (simp add: consistent_def)
  ultimately show thesis using that w(4) w' u(3) by metis
qed

text \<open>A world with the sample object, kept as a name for the witnesses.\<close>

lemma sample_stored_witness:
  "\<exists>w d. consistent w \<and> w_faults w = [] \<and> owner_of w (OID sample_oid) = Some sample_repo \<and>
     stored w (OID sample_oid) = Some d \<and> Size_Int64 (lo_size d) = 3"
  using sample_registered by metis

definition sample_request :: request where
  "sample_request = \<lparr>rq_path = ''/octo/assets/info/lfs/objects/'' @ sample_oid, rq_host = ''lfs.example'', rq_tls = False,
     rq_header = (\<lambda>k. []), rq_param = (\<lambda>k. if k = ''owner'' then ''octo'' else if k = ''repo'' then ''assets''
       else if k = ''oid'' then sample_oid else []),
     rq_query = (\<lambda>k. []), rq_cookie = (\<lambda>k. None),
     rq_body = \<lparr>bd_bytes = ''abc'', bd_fails = False, bd_json = (\<lambda>n. None), bd_first = None\<rparr>\<rparr>"

definition sample_allowed :: AllowedRepository where
  "sample_allowed = \<lparr>ar_identifier = sample_repo\<rparr>"

section \<open>A GitHub that answers\<close>

definition sample_body :: "json \<Rightarrow> body" where
  "sample_body j = \<lparr>bd_bytes = ''{}'', bd_fails = False, bd_json = (\<lambda>n. Some j), bd_first = Some j\<rparr>"

definition sample_http :: http_client where
  "sample_http req w = Inr \<lparr>hs_StatusCode = 200, hs_Body = sample_body (
     if hq_Method req = ''POST'' then JObject [(''access_token'', JString ''gho'')]
     else JObject [(''id'', JInt 42), (''name'', JString ''Mona''), (''permissions'', JObject [(''pull'', JBool True)]),
       (''keys'', JArray [JWK_json \<lparr>jk_Kid = ''k1'', jk_Kty = ''RSA'', jk_Use = ''sig'', jk_N = ''AQAB'', jk_E = ''AQAB''\<rparr>])])\<rparr>"

definition sample_token :: jwt_Token where
  "sample_token = \<lparr>jt_MethodRSA = True, jt_kid = Some (JString ''k1''), jt_Valid = True, jt_Claims = Some
     [(''iss'', JString GitHubIssuer), (''aud'', JString ''cargohold''), (''sub'', JString ''s''),
      (''repository'', JString ''octo/assets''), (''ref'', JString ''main''), (''actor'', JString ''mona'')]\<rparr>"

definition sample_parse :: jwt_parser where
  "sample_parse s kf = do {
     k \<leftarrow> kf sample_token;
     case k of Inl err \<Rightarrow> lift_result (Inl err) | Inr key \<Rightarrow> lift_result (Inr sample_token)
   }"

definition sample_verifies :: "string \<Rightarrow> RSAPublicKey \<Rightarrow> jwt_Token \<Rightarrow> bool" where
  "sample_verifies s key t \<longleftrightarrow> t = sample_token"

lemma sample_parse_library: "jwt_library sample_parse sample_verifies"
  unfolding jwt_library_def
proof (intro allI impI conjI)
  fix s kf w r w'
  assume run: "run_state (sample_parse s kf) w = (r, w')"
  obtain k v where k: "run_state (kf sample_token) w = (k, v)" by fastforce
  with run have w': "w' = v" by (cases k) (auto simp: sample_parse_def)
  with k show "w' = w \<or> (\<exists>t0 q. run_state (kf t0) w = (q, w'))" by blast
  fix t
  assume t: "r = Inr t"
  with run k obtain key where "k = Inr key" "t = sample_token" by (cases k) (auto simp: sample_parse_def)
  with k w' show "\<exists>t0 key. run_state (kf t0) w = (Inr key, w') \<and> jt_MethodRSA t0 = jt_MethodRSA t \<and>
      jt_kid t0 = jt_kid t \<and> sample_verifies s key t" by (auto simp: sample_verifies_def)
qed

definition sample_oidc :: GitHubOIDCProvider where
  "sample_oidc = \<lparr>op_cacheClient = redis_jwks_cache, op_jwksURL = GitHubJWKSURL, op_issuer = GitHubIssuer,
     op_audience = ''cargohold''\<rparr>"

text \<open>The sample deployment with the sample repository on the allowlist.\<close>

abbreviation listed_world :: world where
  "listed_world \<equiv> sample_world\<lparr>w_allowlist :=
     [\<lparr>al_ID = 1, al_Repository = AllowedRepository_String sample_allowed, al_CreatedAt = 0\<rparr>]\<rparr>"

lemma sample_request_ok: "http_NewRequest ''GET'' GitHubJWKSURL [] =
   Inr \<lparr>hq_Method = ''GET'', hq_URL = GitHubJWKSURL, hq_Header = [], hq_Body = []\<rparr>"
  by (simp add: http_NewRequest_def GitHubJWKSURL_def request_url_ok_def)

lemma sample_key: "parseRSAPublicKey \<lparr>jk_Kid = ''k1'', jk_Kty = ''RSA'', jk_Use = ''sig'', jk_N = ''AQAB'', jk_E = ''AQAB''\<rparr> =
   Inr \<lparr>pk_N = 65537, pk_E = 65537\<rparr>"
proof -
  have "RawURLEncoding_DecodeString ''AQAB'' = Some [CHR 0x01, CHR 0x00, CHR 0x01]" by code_simp
  moreover have "big_Int [CHR 0x01, CHR 0x00, CHR 0x01] = 65537" by (simp add: big_Int_def of_char_def)
  ultimately show ?thesis by (simp add: parseRSAPublicKey_def int64_range_def)
qed

lemma listed_world_fresh: "allow_entries_fresh listed_world"
  by (simp add: allow_entries_fresh_def initial_world_def)

lemma listed_world_removed:
  obtains w1 where "run_state (allowlist_Remove cached_allowlist (Some sample_allowed)) listed_world = (Inr (), w1)"
proof -
  have "\<exists>w1. run_state (allowlist_Remove cached_allowlist (Some sample_allowed)) listed_world = (Inr (), w1)"
    by (simp add: cached_allowlist_def NewCachingRepositoryAllowlist_def NewCachingRepositoryAllowlistWithTTL_def
        caching_Remove_def getCacheKey_def redis_AllowlistCacheClient_def RedisClient_Delete_def
        NewRepositoryAllowlistRepository_def pg_Remove_def RepositoryAllowlistDAO_Delete_def
        sql_delete_allowlist_def redis_cmd_del_def run_external_ok initial_world_def)
  with that show thesis by blast
qed

lemma sample_keys: "\<exists>w'. run_state (GetPublicKey sample_http redis_jwks_cache GitHubJWKSURL ''k1'' ''github'') listed_world =
   (Inr \<lparr>pk_N = 65537, pk_E = 65537\<rparr>, w') \<and> w_faults w' = [] \<and> w_allowlist w' = w_allowlist listed_world \<and>
   redis_live w' (allow_key sample_allowed) = None"
proof -
  have dec: "decode_JWKSet (JObject [(''id'', JInt 42), (''name'', JString ''Mona''), (''permissions'', JObject [(''pull'', JBool True)]),
       (''keys'', JArray [JWK_json k])]) = Some \<lparr>js_Keys = [k]\<rparr>" for k
    by (simp add: decode_JWKSet_def decode_struct_def field_for_def into_array_def JWK_roundtrip
        strings_EqualFold_def strings_ToLower_def ascii_lower_def)
  show ?thesis
    by (simp add: GetPublicKey_def Let_def redis_jwks_cache_def redis_CacheClient_def RedisClient_GetJSON_def
        redis_cmd_get_def redis_live_def run_external_ok initial_world_def fetchJWKSet_def sample_request_ok
        httpClient_Do_def sample_http_def sample_body_def read_limited_def Unmarshal_body_def dec RedisClient_SetJSON_def
        redis_cmd_set_def findPublicKey_def sample_key maxJWKSBodySize_def allow_key_def)
qed

text \<open>The sample token signs in for the sample repository.\<close>

lemma sample_signs_in:
  "\<exists>u w'. run_state (AuthenticateGitHubOIDC (program_auth sample_http sample_parse (Some sample_oidc)) ''t'') listed_world =
     (Inr u, w')"
proof -
  from sample_keys obtain w1 where
    key: "run_state (GetPublicKey sample_http redis_jwks_cache GitHubJWKSURL ''k1'' ''github'') listed_world =
      (Inr \<lparr>pk_N = 65537, pk_E = 65537\<rparr>, w1)"
    and w1: "w_faults w1 = []" "w_allowlist w1 = w_allowlist listed_world" "redis_live w1 (allow_key sample_allowed) = None" by blast
  have "run_state (verification_key sample_http redis_jwks_cache GitHubJWKSURL ''github'' sample_token) listed_world =
      (Inr \<lparr>pk_N = 65537, pk_E = 65537\<rparr>, w1)"
    using key by (simp add: verification_key_def sample_token_def)
  then have "run_state (VerifyIDToken sample_http sample_parse (Some sample_oidc) ''t'') listed_world =
      (Inr (Some \<lparr>gh_sub = ''s'', gh_repository = ''octo/assets'', gh_ref = ''main'', gh_actor = ''mona''\<rparr>), w1)"
    by (simp add: VerifyIDToken_def VerifyJWT_def sample_parse_def sample_oidc_def)
      (simp add: sample_token_def validateIssuer_def validateAudience_def claim_string_def NewGitHubUserInfo_def)
  moreover have "\<exists>w2. run_state (allowlist_IsAllowed cached_allowlist (Some sample_allowed)) w1 = (Inr True, w2)"
    using w1 by (simp add: cached_allowlist_def NewCachingRepositoryAllowlist_def NewCachingRepositoryAllowlistWithTTL_def
        caching_IsAllowed_def getCacheKey_def checkCache_def setCache_def redis_AllowlistCacheClient_def
        RedisClient_Get_def RedisClient_Set_def redis_cmd_get_def redis_cmd_set_def run_external_ok allow_key_def
        NewRepositoryAllowlistRepository_def pg_IsAllowed_def RepositoryAllowlistDAO_Exists_def sql_allowlist_exists_def)
  ultimately show ?thesis
    by (auto simp: AuthenticateGitHubOIDC_def program_auth_def NewAuthUseCase_def GitHubOIDC_Authenticate_def Let_def
        oidc_interface_def NewAllowedRepositoryFromString_def sample_allowed_def ToUserInfo_def NewUserInfo_def)
qed

section \<open>A sign-in under way\<close>

definition sample_provider :: GitHubOAuthProvider where
  "sample_provider = \<lparr>gp_tokenExchanger = \<lparr>te_clientID = ''id'', te_clientSecret = ''secret'', te_tokenEndpoint = GitHubOAuthTokenURL\<rparr>,
     gp_userInfoEndpoint = GitHubAPIUserURL, gp_apiEndpoint = GitHubAPIBaseURL\<rparr>"

definition sample_signin :: GitHubOAuthUseCase where
  "sample_signin = \<lparr>ou_oauthProvider = github_oauth sample_http sample_provider, ou_sessionStore = NewSessionStore,
     ou_stateStore = NewOIDCStateStore, ou_allowedRedirectURIs = \<lparr>au_uris = [''https://lfs.example/auth'']\<rparr>\<rparr>"

lemma sample_signin_github [simp]: "github_signin sample_http sample_signin"
  by (auto simp: github_signin_def sample_signin_def)

text \<open>The sample deployment with a pending state \<^verbatim>\<open>s\<close> for the sample repository.\<close>

abbreviation pending_world :: world where
  "pending_world \<equiv> sample_world\<lparr>w_redis := (\<lambda>k. None)(OIDCStateKey ''s'' \<mapsto> (RDoc (oauthStateDTO_json
     \<lparr>sd_Repository = ''octo/assets'', sd_RedirectURI = ''https://lfs.example/auth'', sd_Shell = ''bash''\<rparr>), None))\<rparr>"

lemma sample_github_answers:
  assumes "w_faults w = []"
  shows "run_state (oauth_ExchangeCode (github_oauth sample_http sample_provider) code) w =
      (Inr \<lparr>ot_AccessToken = ''gho'', ot_TokenType = [], ot_Scope = []\<rparr>, w\<lparr>w_calls := Suc (w_calls w)\<rparr>)" (is ?exchange)
    and "run_state (oauth_GetUserInfo (github_oauth sample_http sample_provider)
        (Some \<lparr>ot_AccessToken = ''gho'', ot_TokenType = [], ot_Scope = []\<rparr>)) w =
      (Inr \<lparr>gu_ID = 42, gu_Login = [], gu_Name = ''Mona''\<rparr>, w\<lparr>w_calls := Suc (w_calls w)\<rparr>)" (is ?user)
    and "run_state (oauth_GetRepositoryPermissions (github_oauth sample_http sample_provider)
        (Some \<lparr>ot_AccessToken = ''gho'', ot_TokenType = [], ot_Scope = []\<rparr>) (Some sample_repo)) w =
      (Inr (NewRepositoryPermissions False False True False False), w\<lparr>w_calls := Suc (w_calls w)\<rparr>)" (is ?permissions)
proof -
  note unf = github_oauth_def NewGitHubOAuthProviderAdapter_def provider_internal_def sample_provider_def
    adapter_ExchangeCode_def adapter_GetUserInfo_def adapter_GetRepositoryPermissions_def internal_token_def
    exchanger_ExchangeCode_def provider_GetUserInfo_def checker_GetRepositoryPermissions_def api_request_def
    get_redirectURI_def httpClient_Do_def run_external_ok Let_def read_limited_def ReadAll_def Unmarshal_body_def
    sample_http_def sample_body_def set_header_def maxResponseSize_def
  note dec = decode_struct_def field_for_def strings_EqualFold_def strings_ToLower_def ascii_lower_def
    into_string_def into_int64_def into_bool_def into_array_def
  have req: "request_url_ok GitHubOAuthTokenURL" "request_url_ok GitHubAPIUserURL"
      "request_url_ok (repository_url GitHubAPIBaseURL sample_repo)"
    by (simp_all add: request_url_ok_def GitHubOAuthTokenURL_def GitHubAPIUserURL_def GitHubAPIBaseURL_def
        repository_url_def sample_repo_def)
  show ?exchange using assms by (simp add: unf http_NewRequest_def req decode_tokenResponse_def) (simp add: dec)
  show ?user using assms by (simp add: unf http_NewRequest_def req decode_userResponse_def) (simp add: dec int64_range_def)
  show ?permissions using assms
    by (simp add: unf http_NewRequest_def req decode_repositoryResponse_def permission_tags_def) (simp add: dec NewRepositoryPermissions_def)
qed

lemma sample_callback_in:
  assumes calm: "w_faults w = []" and entry: "w_redis w (OIDCStateKey ''s'') = Some (RDoc (oauthStateDTO_json
     \<lparr>sd_Repository = ''octo/assets'', sd_RedirectURI = ''https://lfs.example/auth'', sd_Shell = ''bash''\<rparr>), None)"
  shows "\<exists>sid w'. run_state (HandleCallback sample_signin ''c'' ''s'') w = (Inr (sid, ShellTypeBash), w')"
proof -
  let ?w1 = "w\<lparr>w_redis := (w_redis w)(OIDCStateKey ''s'' := None)\<rparr>"
  let ?usr = "SetPermissions (Some (NewRepositoryPermissions False False True False False))
    \<lparr>ui_sub = FormatInt 42, ui_email = [], ui_name = ''Mona'', ui_provider = ProviderTypeGitHub,
     ui_repository = Some sample_repo, ui_ref = [], ui_permissions = None\<rparr>"
  have take: "run_state (GetAndDeleteState ''s'') w =
      (Inr \<lparr>os_repository = ''octo/assets'', os_redirectURI = ''https://lfs.example/auth'', os_shell = ShellTypeBash\<rparr>, ?w1)"
    by (simp add: calm entry GetAndDeleteState_def Let_def RedisClient_GetDelJSON_def redis_cmd_getdel_def run_external_ok redis_live_def
        json_Unmarshal_def redis_doc_def oauthStateDTO_roundtrip NewOAuthState_def ParseShellType_def ShellTypeBash_def)
  have redirect: "run_state (oauth_SetRedirectURI (github_oauth sample_http sample_provider) uri) w =
      ((), w\<lparr>w_redirectURI := strings_TrimSpace uri\<rparr>)" for uri w
    by (simp add: github_oauth_def NewGitHubOAuthProviderAdapter_def provider_internal_def set_redirectURI_def)
  have create: "\<exists>sid v. run_state (SessionStore_CreateSession (Some ?usr) uc_SessionTTL) w = (Inr sid, v)" if "w_faults w = []" for w
    using UserInfo_Serialize_Some [of ?usr] that
    by (auto simp: SessionStore_CreateSession_def RedisClient_SetSession_def Let_def RedisClient_Set_def redis_cmd_set_def
        run_external_ok run_try_bind)
  have can: "CanDownload (NewRepositoryPermissions False False True False False)"
    by (simp add: CanDownload_def NewRepositoryPermissions_def)
  obtain sid v where new: "run_state (SessionStore_CreateSession (Some ?usr) uc_SessionTTL)
      (?w1\<lparr>w_redirectURI := strings_TrimSpace ''https://lfs.example/auth'',
         w_calls := Suc (Suc (Suc (w_calls w)))\<rparr>) = (Inr sid, v)"
    using create calm by fastforce
  show ?thesis
    using new by (simp add: calm HandleCallback_def sample_signin_def NewOIDCStateStore_def NewSessionStore_def take redirect
        sample_github_answers can NewUserInfo_def)
qed

lemma sample_callback:
  "\<exists>sid w'. run_state (HandleCallback sample_signin ''c'' ''s'') pending_world = (Inr (sid, ShellTypeBash), w')"
  by (rule sample_callback_in) simp_all

text \<open>The same state where it is the one UUID drawn, and a schedule in which its callback gets in.\<close>

abbreviation drawn_world :: world where
  "drawn_world \<equiv> pending_world\<lparr>w_uuid := (\<lambda>n. CHR ''s'' # replicate n CHR ''x''), w_uuid_next := 1\<rparr>"

lemma drawn_ids: "inj (w_uuid drawn_world)" "w_uuid drawn_world 0 = ''s''"
proof -
  show "inj (w_uuid drawn_world)" by (rule injI) (simp add: replicate_eq_replicate)
qed simp

lemma sample_visits:
  "\<exists>sid us v. interleaved (range (visiting sample_signin)) env [] drawn_world us v \<and> length us = 2 \<and>
     us ! 0 = Done (Come_back ''c'' ''s'', Let_in (Inr (sid, ShellTypeBash)))"
proof -
  let ?q = "Come_back ''c'' ''s''" and ?q' = "Come_back ''d'' ''s''"
  obtain sid w' where run: "run_state (HandleCallback sample_signin ''c'' ''s'') drawn_world = (Inr (sid, ShellTypeBash), w')"
    using sample_callback_in [of drawn_world] by (auto simp: initial_world_def)
  have "interleaved (range (visiting sample_signin)) env [] drawn_world [visiting sample_signin ?q, visiting sample_signin ?q'] drawn_world"
    by (rule interleaved_arrived) auto
  from interleaved_rest [OF this, of 0 "(?q, Let_in (Inr (sid, ShellTypeBash)))" w'] run
  show ?thesis by (fastforce simp: run_visiting)
qed

text \<open>The program with both ways of signing in.\<close>

definition signin_program :: program where
  "signin_program = \<lparr>pg_auth = program_auth sample_http sample_parse (Some sample_oidc), pg_oauth = Some sample_signin,
     pg_login = \<lparr>cfg_TrustProxy = False, cfg_AllowedHosts = []\<rparr>, pg_error_text = (\<lambda>e. ''failed'')\<rparr>"

lemma signin_wired [simp]: "wired sample_http sample_parse signin_program"
  by (auto simp: wired_def signin_program_def sample_oidc_def intro!: exI [of _ "Some sample_oidc"])

section \<open>A batch request over HTTP\<close>

definition sample_user :: UserInfo where
  "sample_user = \<lparr>ui_sub = ''42'', ui_email = [], ui_name = [], ui_provider = ProviderTypeGitHub, ui_repository = Some sample_repo,
     ui_ref = [], ui_permissions = Some (NewRepositoryPermissions True True True True True)\<rparr>"

definition sample_document :: json where
  "sample_document = JObject [(''operation'', JString ''upload''), (''transfers'', JArray [JString ''basic'']),
     (''objects'', JArray [JObject [(''oid'', JString sample_oid), (''size'', JInt 3)]]), (''hash_algo'', JString ''sha256'')]"

text \<open>The client, or a proxy nobody trusts, says it came over \<^verbatim>\<open>ftp\<close>.\<close>

definition sample_batch :: request where
  "sample_batch = sample_request\<lparr>rq_header := (\<lambda>k. if k = ''X-Forwarded-Proto'' then ''ftp'' else GitLFSContentType),
     rq_body := sample_body sample_document\<rparr>"

definition sample_dto :: BatchRequestDTO where
  "sample_dto = \<lparr>bd_Operation = ''upload'', bd_Objects = [\<lparr>rd_OID = sample_oid, rd_Size = 3\<rparr>], bd_Transfers = [''basic''],
     bd_Ref = None, bd_HashAlgo = ''sha256''\<rparr>"

lemma sample_document_decoded: "decode_BatchRequestDTO sample_document = Some sample_dto"
  by (simp add: sample_document_def sample_dto_def decode_BatchRequestDTO_def decode_struct_def BatchRequestDTO_tags_def
      RequestObjectDTO_tags_def field_for_def into_defs decode_string_def int64_range_def)

lemma sample_batch_answered:
  obtains resp w' where "run_state (BatchHandler_Handle (HandleBatchRequest program_batch) sample_batch (Some sample_user)) sample_world =
      (Replied resp None, w')" "hp_status resp = 200"
proof -
  let ?obj = "\<lparr>ro_oid = sample_oid, ro_size = 3\<rparr>"
  have v: "ValidateLFSHeaders sample_batch = None" unfolding sample_batch_def by code_simp
  have ri: "ExtractRepositoryIdentifier sample_batch = Inr sample_repo"
    by (simp add: sample_batch_def ExtractRepositoryIdentifier_def sample_request_def)
  have req: "ToBatchRequest (Some sample_repo) sample_dto = Inr (first_upload sample_repo ?obj)"
    by (simp add: sample_dto_def ToBatchRequest_def ParseOperation_def NewBatchRequest_def NewRequestObject_def first_upload_def
        OperationUpload_def OperationDownload_def)
  have perm: "checkPermissions (Some sample_user) ''upload'' = None"
    by (simp add: sample_user_def checkPermissions_def CanUpload_def NewRepositoryPermissions_def)
  have none: "stored sample_world (OID (ro_oid ?obj)) = None" by simp
  obtain b w' where "run_state (uc_upload program_batch (getBaseURL sample_batch) (ri_owner sample_repo) (ri_name sample_repo)
      (first_upload sample_repo ?obj) GitLFSContentType) sample_world = (Inr b, w')"
    using batch_available [OF _ initial_world_sound none, of sample_repo "getBaseURL sample_batch" "ri_owner sample_repo"
        "ri_name sample_repo" GitLFSContentType]
    by (metis initial_world_faults sample_oid_ok sample_repo_ok(1,2) RequestObject.select_convs order.refl zero_le_numeral)
  moreover have "br_operation (first_upload sample_repo ?obj) \<noteq> OperationDownload" by (simp add: first_upload_def)
  ultimately have "run_state (HandleBatchRequest program_batch (getBaseURL sample_batch) (ri_owner sample_repo) (ri_name sample_repo)
      (first_upload sample_repo ?obj) GitLFSContentType) sample_world = (Inr b, w')" by (simp add: HandleBatchRequest_def)
  then have "run_state (BatchHandler_Handle (HandleBatchRequest program_batch) sample_batch (Some sample_user)) sample_world = (Replied
      (c_JSON (header_put ''Content-Type'' GitLFSContentType []) 200 (BatchResponse_json b)) None, w')"
    using v ri req perm sample_document_decoded
    by (simp add: BatchHandler_Handle_def sample_batch_def sample_body_def read_limited_def maxBodySize_def)
      (simp add: sample_dto_def)
  then show ?thesis by (rule that) (simp add: c_JSON_def)
qed

section \<open>Overlapping requests\<close>

text \<open>Two announcements of the sample object, of which the sample repository's is overtaken.\<close>

abbreviation other_repo :: RepositoryIdentifier where
  "other_repo \<equiv> \<lparr>ri_owner = ''mallory'', ri_name = ''x''\<rparr>"

abbreviation sample_object :: RequestObject where
  "sample_object \<equiv> \<lparr>ro_oid = sample_oid, ro_size = 3\<rparr>"

abbreviation sample_send :: transfer where
  "sample_send \<equiv> Send ''octo'' ''assets'' (OID sample_oid) ''abc''"

abbreviation sample_pool :: "(world, transfer \<times> answer) task list" where
  "sample_pool \<equiv> [in_flight (announce sample_repo sample_object), in_flight sample_send, in_flight (announce other_repo sample_object)]"

lemma other_repo_ok [simp]: "valid_repository other_repo" "length (FullName other_repo) \<le> 255"
  by (auto simp: valid_repository_def FullName_def)

lemma sample_pool_requests: "set sample_pool \<subseteq> requests False"
  using other_repo_ok sample_repo_ok(1) by (auto simp: requests_def announce_def first_upload_def)

lemma sample_schedule:
  obtains us v where "interleaved {} (meanwhile sample_program) sample_pool sample_world us v"
    "Done (sample_send, Sent (Inr ())) \<in> set us" "length us = 3" "owner_of v (OID sample_oid) = Some sample_repo"
proof -
  have start: "consistent sample_world" "w_faults sample_world = []" by simp_all
  then have "sound_world sample_world" by (simp add: consistent_def)
  from overtaken [OF start(2) this _ sample_oid_ok sample_repo_ok(1,2) other_repo_ok, of "meanwhile sample_program" "''abc''"]
  obtain us v where us: "interleaved {} (meanwhile sample_program) sample_pool sample_world us v"
    "us ! 1 = Done (sample_send, Sent (Inr ()))" "owner_of v (OID sample_oid) = Some sample_repo"
    by (auto simp: sample_repo_def)
  have len: "length us = 3" using interleaved_length [OF us(1)] by simp
  then have "Done (sample_send, Sent (Inr ())) \<in> set us" using us(2) nth_mem [of 1 us] by simp
  then show thesis using that us(1,3) len by blast
qed

lemma sample_ids: "w_uuid sample_world (w_uuid_next sample_world) \<noteq> w_uuid sample_world (Suc (w_uuid_next sample_world))"
  by (simp add: initial_world_def sample_uuid_def FormatInt_def nat_digits.simps)

section \<open>An environment and a key\<close>

definition sample_decoder :: "(string \<Rightarrow> gerror + 'a) \<Rightarrow> 'a \<Rightarrow> 'a env_decoder" where
  "sample_decoder parse zero v tag = (case v of Some s \<Rightarrow> parse s
     | None \<Rightarrow> (case tag_default tag of Some d \<Rightarrow> parse d
        | None \<Rightarrow> if tag_required tag then Inl (Plain ''missing value'') else Inr zero))"

definition sample_table :: "(string \<times> 'a) list \<Rightarrow> string \<Rightarrow> gerror + 'a" where
  "sample_table tab s = (case map_of tab s of None \<Rightarrow> Inl (Plain ''syntax'') | Some v \<Rightarrow> Inr v)"

definition sample_envconfig :: envconfig where
  "sample_envconfig = \<lparr>env_var = (\<lambda>environ. environ), env_string = sample_decoder Inr [],
     env_bool = sample_decoder (sample_table [(''true'', True), (''false'', False)]) False,
     env_int = sample_decoder (sample_table [(''5432'', 5432), (''6379'', 6379), (''0'', 0)]) 0,
     env_duration = sample_decoder (sample_table [(''10m'', 10 * Minute)]) 0,
     env_strings = sample_decoder (\<lambda>s. Inr [s]) []\<rparr>"

definition sample_environ :: environ where
  "sample_environ = map_of (map (\<lambda>name. (name, ''x'')) required_names)"

lemma sample_envconfig_ok [simp]: "documented_envconfig sample_envconfig" "unprefixed sample_envconfig environ"
proof -
  have dec: "documented_decoder parse zero (sample_decoder parse zero)" for parse :: "string \<Rightarrow> gerror + 'a" and zero
    by (simp add: documented_decoder_def sample_decoder_def)
  show "documented_envconfig sample_envconfig"
    unfolding documented_envconfig_def sample_envconfig_def envconfig.select_convs
    by (intro conjI exI) (rule dec, (rule dec | simp add: sample_table_def)+)
  show "unprefixed sample_envconfig environ" by (simp add: unprefixed_def sample_envconfig_def)
qed

lemma sample_environ_dom: "dom sample_environ = set required_names"
  by (simp add: sample_environ_def dom_map_of_conv_image_fst image_image)

definition sample_pair :: RSAPrivateKey where
  "sample_pair = \<lparr>rk_PublicKey = \<lparr>pk_N = 3233, pk_E = 65537\<rparr>, rk_PKCS1 = ''der''\<rparr>"

abbreviation empty_disk :: disk where
  "empty_disk \<equiv> \<lparr>dk_files = (\<lambda>path. None), dk_faults = []\<rparr>"

lemma sample_keygen:
  "run_state (keygen_main (Inr sample_pair)) empty_disk = (0, \<lparr>dk_files = (\<lambda>path. None)
     (privateKeyPath \<mapsto> (PEM_block ''RSA PRIVATE KEY'' ''der'', 384),
      jwksPath \<mapsto> (JSON_text (gen_JWKS_json (test_jwks (rk_PublicKey sample_pair))), 420)), dk_faults = []\<rparr>)"
  by (simp add: keygen_main_def generate_def fileExists_def os_Stat_def os_MkdirAll_def savePrivateKey_def saveJWKS_def os_WriteFile_def
      os_OpenFile_def write_all_def put_file_def next_fault_def run_try_bind Let_def privateKeyPath_def jwksPath_def sample_pair_def)

end
