(* ===== verification/Answers.thy ===== *)
theory Answers
  imports Wiring
begin

text \<open>
  What reaches the client, for every request and in every state: the status codes of each route, and the
  batch answer as a document its reader can decode.
\<close>

section \<open>Statuses\<close>

fun statuses :: "route \<Rightarrow> nat set" where
  "statuses Batch = {200, 400, 401, 403, 413, 422, 500}"
| "statuses Verify = {200, 400, 401, 403, 404, 422, 500}"
| "statuses Upload = {200, 400, 401, 403, 404, 422, 500, 502, 504}"
| "statuses Download = {200, 400, 401, 403, 404, 422, 500, 502, 504}"
| "statuses Login = {302, 400, 404, 500}"
| "statuses Callback = {302, 400, 401, 403, 404, 500}"
| "statuses SessionPage = {200, 400}"
| "statuses Healthz = {200}"
| "statuses Readyz = {200, 503}"

lemma hp_status_simps [simp]:
  "hp_status (c_JSON h code j) = code" "hp_status (c_Redirect cs url) = 302"
  by (simp_all add: c_JSON_def c_Redirect_def)

lemma error_status_NewAppError [simp]: "error_status (NewAppError code m e) = (code, m)"
  by (simp add: NewAppError_def)

lemma checkPermissions_status: "checkPermissions u oper = Some err \<Longrightarrow> fst (error_status err) = 403"
  by (auto simp: checkPermissions_def split: option.splits if_splits)

text \<open>What holds of every result of a computation, whatever the state.\<close>

definition results :: "('a \<Rightarrow> bool) \<Rightarrow> ('s, 'a) state \<Rightarrow> bool" where
  "results P m \<longleftrightarrow> (\<forall>s. P (fst (run_state m s)))"

lemma resultsD: "results P m \<Longrightarrow> run_state m s = (r, s') \<Longrightarrow> P r"
  by (metis results_def fst_conv)

lemma results_return [simp]: "results P (State_Monad.return x) = P x"
  by (simp add: results_def)

lemma results_lift_result [simp]: "results P (lift_result y) = P y"
  by (simp add: lift_result_def)

lemma results_bind [intro!]: "(\<And>x. results P (f x)) \<Longrightarrow> results P (State_Monad.bind m f)"
  by (simp add: results_def split_beta)

lemma results_bind_of:
  assumes "results Q m" and "\<And>x. Q x \<Longrightarrow> results P (f x)"
  shows "results P (State_Monad.bind m f)"
  using assms by (simp add: results_def split_beta)

abbreviation answers :: "request \<Rightarrow> nat set \<Rightarrow> (world, reply) state \<Rightarrow> bool" where
  "answers c S \<equiv> results (\<lambda>r. hp_status (final_response c r) \<in> S)"

lemma batch_statuses: "answers c {200, 400, 403, 413, 422, 500} (BatchHandler_Handle uc c u)"
  by (auto simp: BatchHandler_Handle_def handleUseCaseError_def Let_def checkPermissions_status split: option.split sum.split)

lemma verify_statuses: "answers c {200, 400, 404, 422, 500} (VerifyHandler verify c u)"
  by (auto simp: VerifyHandler_def split: option.split sum.split)

lemma upload_statuses: "answers c {200, 403, 404, 422, 500, 502, 504} (HandleUpload up c u)"
  by (auto simp: HandleUpload_def handleProxyError_def Let_def split: sum.split)

lemma download_statuses: "answers c {200, 403, 404, 422, 500, 502, 504} (HandleDownload down c u)"
  by (auto simp: HandleDownload_def handleProxyError_def Let_def split: sum.split)

lemma login_statuses: "answers c {302, 400, 500} (GitHubLoginHandler uc cfg c u)"
  by (auto simp: GitHubLoginHandler_def Let_def split: sum.split)

lemma callback_statuses: "answers c {302, 400, 401, 403, 500} (GitHubCallbackHandler uc c u)"
  by (auto simp: GitHubCallbackHandler_def handleCallbackError_def Let_def split: sum.split)

lemma page_statuses: "answers c {200, 400} (SessionDisplayHandler c u)"
  by (auto simp: SessionDisplayHandler_def Let_def)

lemma probe_statuses:
  "answers c {200} (HealthHandler c u)" "answers c {200, 503} (ReadyzHandler_Handle f d c u)"
  by (auto simp: HealthHandler_def ReadyzHandler_Handle_def split: option.split)

text \<open>Behind the authentication dispatcher, its refusals come on top.\<close>

lemma dispatched_statuses:
  assumes "\<And>u. answers c S (h c u)"
  shows "answers c (S \<union> {400, 401, 403, 500}) (AuthDispatcher uc h c)"
  unfolding results_def
proof
  fix w
  obtain r w' where run: "run_state (AuthDispatcher uc h c) w = (r, w')" by fastforce
  have "dispatched (\<lambda>_ _. True) uc h c w r w'"
    by (rule AuthDispatcher_run [OF _ _ _ _ run]) (auto simp: transp_def reflp_def frames_def)
  then have "hp_status (final_response c r) \<in> S \<union> {400, 401, 403, 500}" unfolding dispatched_def
    using refusal_status [of r c] resultsD [OF assms] by blast
  with run show "hp_status (final_response c (fst (run_state (AuthDispatcher uc h c) w))) \<in> S \<union> {400, 401, 403, 500}" by simp
qed

lemma serve_statuses: "answers c (statuses route) (serve p route c)"
proof (cases route)
  case Batch
  have "answers c ({200, 400, 403, 413, 422, 500} \<union> {400, 401, 403, 500}) (serve p Batch c)"
    unfolding serve.simps by (rule dispatched_statuses) (rule batch_statuses)
  with Batch show ?thesis by (simp add: insert_commute)
next
  case Verify
  have "answers c ({200, 400, 404, 422, 500} \<union> {400, 401, 403, 500}) (serve p Verify c)"
    unfolding serve.simps by (rule dispatched_statuses) (rule verify_statuses)
  with Verify show ?thesis by (simp add: insert_commute)
next
  case Upload
  have "answers c ({200, 403, 404, 422, 500, 502, 504} \<union> {400, 401, 403, 500}) (serve p Upload c)"
    unfolding serve.simps by (rule dispatched_statuses) (rule upload_statuses)
  with Upload show ?thesis by (simp add: insert_commute)
next
  case Download
  have "answers c ({200, 403, 404, 422, 500, 502, 504} \<union> {400, 401, 403, 500}) (serve p Download c)"
    unfolding serve.simps by (rule dispatched_statuses) (rule download_statuses)
  with Download show ?thesis by (simp add: insert_commute)
next
  case Login
  then show ?thesis using login_statuses [of c] by (auto simp: results_def split: option.split)
next
  case Callback
  then show ?thesis using callback_statuses [of c] by (auto simp: results_def split: option.split)
qed (use page_statuses probe_statuses in auto)

section \<open>The batch answer as a document\<close>

lemma wf_object_failure [simp]:
  "int64_range (Size_Int64 sz) \<Longrightarrow> int64_range code \<Longrightarrow> wf_response_object (object_failure oid sz code m)"
  by (simp add: wf_response_object_def object_failure_def NewResponseObject_def NewObjectError_def)

lemma wf_auth_header [simp]: "wf_header (auth_header ah)"
  by (simp add: wf_header_def auth_header_def header_put_def)

lemma wf_link [simp]: "wf_action (NewAction href (auth_header ah) (PresignedURLTTL div Second))"
  by (simp add: wf_action_def NewAction_def PresignedURLTTL_def Minute_def Second_def int64_range_def)

lemma wf_actions_simps [simp]:
  "wf_actions (NewActions (Some a) None) = wf_action a" "wf_actions (NewActions None (Some a)) = wf_action a"
  by (auto simp: wf_actions_def NewActions_def)

lemma wf_NewResponseObject [simp]:
  "wf_response_object (NewResponseObject oid n b None None) = int64_range n"
  "wf_response_object (NewResponseObject oid n b (Some a) None) \<longleftrightarrow> int64_range n \<and> wf_actions a"
  by (auto simp: wf_response_object_def NewResponseObject_def)

lemma int64_codes [simp]:
  "int64_range 400" "int64_range 404" "int64_range 409" "int64_range 500"
  by (simp_all add: int64_range_def)

lemma upload_object_wf:
  "int64_range (Size_Int64 sz) \<Longrightarrow> results wf_response_object (HandleUploadObject repo g kg base ow re oid sz hash ah)"
  by (auto simp: HandleUploadObject_def upload_response_def Let_def split: sum.split)

lemma download_object_wf:
  "int64_range (Size_Int64 sz) \<Longrightarrow> results wf_response_object (HandleDownloadObject repo g base ow re oid sz ah)"
  by (auto simp: HandleDownloadObject_def Let_def split: sum.split)

text \<open>What holds of each response object a batch loop makes.\<close>

definition each :: "(ResponseObject \<Rightarrow> bool) \<Rightarrow> gerror + ResponseObject list \<Rightarrow> bool" where
  "each P r \<longleftrightarrow> (\<forall>rs. r = Inr rs \<longrightarrow> (\<forall>resp \<in> set rs. P resp))"

lemma each_simps [simp]: "each P (Inl e)" "each P (Inr rs) = (\<forall>resp \<in> set rs. P resp)"
  by (simp_all add: each_def)

lemma upload_batch_each:
  assumes "\<forall>obj \<in> set objs. S (ro_size obj)"
    and turn: "\<And>oid sz. S (Size_Int64 sz) \<Longrightarrow> oidPattern (OID_String oid) \<Longrightarrow> results P (turn_handler base ow re oid sz hash ah)"
  shows "results (each P) (batch_upload_objects turn_handler auth prepo base ow re ori hash ah objs)"
  using assms(1)
proof (induction objs)
  case (Cons obj objs)
  then have rest: "results (each P) (batch_upload_objects turn_handler auth prepo base ow re ori hash ah objs)" by simp
  have size: "NewSize (ro_size obj) = Inr sz \<Longrightarrow> S (Size_Int64 sz)" for sz
    using Cons.prems by (auto simp: NewSize_Inr)
  have oid: "NewOID (ro_oid obj) = Inr oid \<Longrightarrow> oidPattern (OID_String oid)" for oid by (auto simp: NewOID_Inr)
  note step = results_bind_of [OF turn [OF size oid]] results_bind_of [OF rest] results_bind
  show ?case unfolding batch_upload_objects.simps
    by (rule step | assumption | simp split: sum.split | intro conjI allI impI)+
qed simp

lemma download_batch_each:
  assumes "\<forall>obj \<in> set objs. S (ro_size obj)"
    and turn: "\<And>oid sz. S (Size_Int64 sz) \<Longrightarrow> oidPattern (OID_String oid) \<Longrightarrow> results P (turn_handler base ow re oid sz ah)"
  shows "results (each P) (batch_download_objects turn_handler auth base ow re ori ah objs)"
  using assms(1)
proof (induction objs)
  case (Cons obj objs)
  then have rest: "results (each P) (batch_download_objects turn_handler auth base ow re ori ah objs)" by simp
  have size: "NewSize (ro_size obj) = Inr sz \<Longrightarrow> S (Size_Int64 sz)" for sz
    using Cons.prems by (auto simp: NewSize_Inr)
  have oid: "NewOID (ro_oid obj) = Inr oid \<Longrightarrow> oidPattern (OID_String oid)" for oid by (auto simp: NewOID_Inr)
  note step = results_bind_of [OF turn [OF size oid]] results_bind_of [OF rest] results_bind
  show ?case unfolding batch_download_objects.simps
    by (rule step | assumption | simp split: sum.split | intro conjI allI impI)+
qed simp

lemma batch_each:
  assumes "\<forall>obj \<in> set (br_objects req). S (ro_size obj)"
    and up: "\<And>oid sz hash. S (Size_Int64 sz) \<Longrightarrow> oidPattern (OID_String oid) \<Longrightarrow> results P
      (HandleUploadObject cached_repository NewProxyActionURLGenerator GenerateStorageKey base ow re oid sz hash ah)"
    and down: "\<And>oid sz. S (Size_Int64 sz) \<Longrightarrow> oidPattern (OID_String oid) \<Longrightarrow> results P
      (HandleDownloadObject cached_repository NewProxyActionURLGenerator base ow re oid sz ah)"
    and run: "run_state (HandleBatchRequest program_batch base ow re req ah) w = (Inr b, w')"
  shows "\<forall>resp \<in> set (bs_objects b). P resp"
proof -
  let ?ok = "\<lambda>r. \<forall>b. r = Inr b \<longrightarrow> (\<forall>resp \<in> set (bs_objects b). P resp)"
  have "results ?ok (uc_upload program_batch base ow re req ah)"
  proof -
    note step = results_bind_of [OF upload_batch_each [where S = S and turn_handler = "HandleUploadObject cached_repository
        NewProxyActionURLGenerator GenerateStorageKey", OF assms(1) up]]
    show ?thesis by (rule step | assumption | simp add: program_batch_def NewBatchUseCase_def HandleBatchUpload_def Let_def
        NewBatchResponse_def split: option.split sum.split | intro conjI allI impI)+
  qed
  moreover have "results ?ok (uc_download program_batch base ow re req ah)"
  proof -
    note step = results_bind_of [OF download_batch_each [where S = S and turn_handler = "HandleDownloadObject cached_repository
        NewProxyActionURLGenerator", OF assms(1) down]]
    show ?thesis by (rule step | assumption | simp add: program_batch_def NewBatchUseCase_def HandleBatchDownload_def Let_def
        NewBatchResponse_def split: option.split sum.split | intro conjI allI impI)+
  qed
  ultimately have "results ?ok (HandleBatchRequest program_batch base ow re req ah)"
    by (simp add: HandleBatchRequest_def)
  from resultsD [OF this run] show ?thesis by simp
qed

text \<open>Whatever the program answers to a batch whose sizes are 64-bit integers decodes to that answer.\<close>

lemma batch_answer_wf:
  assumes "\<forall>obj \<in> set (br_objects req). int64_range (ro_size obj)"
    and "run_state (HandleBatchRequest program_batch base ow re req ah) w = (Inr b, w')"
  shows "decode_BatchResponse (BatchResponse_json b) = Some b"
  using batch_each [where S = int64_range and P = wf_response_object, OF assms(1) upload_object_wf download_object_wf assms(2)] by (simp add: BatchResponse_decoded)

text \<open>Every link of an answer is the proxy URL of its object.\<close>

definition links_to :: "string \<Rightarrow> string \<Rightarrow> string \<Rightarrow> ResponseObject \<Rightarrow> bool" where
  "links_to base ow re resp \<longleftrightarrow> (\<forall>a u. rs_actions resp = Some a \<longrightarrow> as_upload a = Some u \<or> as_download a = Some u \<longrightarrow>
     ac_href u = generateURL base ow re (rs_oid resp))"

lemma links_to_simps [simp]:
  "links_to base ow re (object_failure oid sz code m)"
  "links_to base ow re (NewResponseObject (OID_String oid) n b None None)"
  "links_to base ow re (NewResponseObject (OID_String oid) n b (Some (NewActions (Some (NewAction url h t)) None)) None) \<longleftrightarrow>
     url = generateURL base ow re (OID_String oid)"
  "links_to base ow re (NewResponseObject (OID_String oid) n b (Some (NewActions None (Some (NewAction url h t)))) None) \<longleftrightarrow>
     url = generateURL base ow re (OID_String oid)"
  by (auto simp: links_to_def object_failure_def NewResponseObject_def NewActions_def NewAction_def)

lemma upload_object_links:
  "results (links_to base ow re) (HandleUploadObject repo NewProxyActionURLGenerator kg base ow re oid sz hash ah)"
  by (auto simp: HandleUploadObject_def upload_response_def Let_def NewProxyActionURLGenerator_def GenerateUploadURL_def
      split: sum.split)

lemma download_object_links:
  "results (links_to base ow re) (HandleDownloadObject repo NewProxyActionURLGenerator base ow re oid sz ah)"
  by (auto simp: HandleDownloadObject_def Let_def NewProxyActionURLGenerator_def GenerateDownloadURL_def split: sum.split)

lemma batch_answer_links:
  assumes "run_state (HandleBatchRequest program_batch base ow re req ah) w = (Inr b, w')"
  shows "\<forall>resp \<in> set (bs_objects b). links_to base ow re resp"
  by (rule batch_each [where S = "\<lambda>n. True", OF _ upload_object_links download_object_links assms]) simp

text \<open>Every entry of an answer names a valid object identifier.\<close>

lemma upload_object_oid:
  "oidPattern (OID_String oid) \<Longrightarrow> results (\<lambda>resp. oidPattern (rs_oid resp)) (HandleUploadObject repo g kg base ow re oid sz hash ah)"
  by (auto simp: HandleUploadObject_def upload_response_def object_failure_def NewResponseObject_def Let_def split: sum.split)

lemma download_object_oid:
  "oidPattern (OID_String oid) \<Longrightarrow> results (\<lambda>resp. oidPattern (rs_oid resp)) (HandleDownloadObject repo g base ow re oid sz ah)"
  by (auto simp: HandleDownloadObject_def object_failure_def NewResponseObject_def Let_def split: sum.split)

lemma batch_answer_oids:
  assumes "run_state (HandleBatchRequest program_batch base ow re req ah) w = (Inr b, w')" and "resp \<in> set (bs_objects b)"
  shows "oidPattern (rs_oid resp)"
  using batch_each [where S = "\<lambda>n. True" and P = "\<lambda>resp. oidPattern (rs_oid resp)", OF _ upload_object_oid download_object_oid assms(1)]
    assms(2) by simp

text \<open>The two URL parameters are the two parts of the identifier they were read as.\<close>

lemma extracted_parts:
  assumes "a @ CHR ''/'' # b = ri_owner ri @ CHR ''/'' # ri_name ri" and "valid_repository ri"
  shows "ri_owner ri = a \<and> ri_name ri = b"
proof -
  have "CHR ''/'' \<notin> set (ri_owner ri)" "CHR ''/'' \<notin> set (ri_name ri)"
    using assms(2) by (simp_all add: valid_repository_def)
  from append_Cons_eq_iff [OF this, of a b] assms(1) show ?thesis by metis
qed

lemma extracted_repository:
  assumes "ExtractRepositoryIdentifier c = Inr ri"
  shows "ri_owner ri = rq_param c ''owner'' \<and> ri_name ri = rq_param c ''repo''"
proof -
  have "rq_param c ''owner'' @ ''/'' @ rq_param c ''repo'' = ri_owner ri @ ''/'' @ ri_name ri" and "valid_repository ri"
    using assms by (simp_all add: ExtractRepositoryIdentifier_def Let_def NewRepositoryIdentifier_Inr FullName_def)
  then show ?thesis by (intro extracted_parts) simp_all
qed

section \<open>Decoded sizes\<close>

text \<open>A property that every field's reader keeps holds of what a document decodes to.\<close>

lemma field_for_cases:
  assumes "field_for tags k = Some f"
  obtains t where "(t, f) \<in> set tags"
proof (cases "map_of tags k")
  case (Some g)
  with assms that show ?thesis by (auto simp: field_for_def dest: map_of_SomeD)
next
  case None
  with assms obtain t where "List.find (\<lambda>(t, f). strings_EqualFold t k) tags = Some (t, f)"
    by (auto simp: field_for_def)
  then have "(t, f) \<in> set tags" by (metis find_Some_iff nth_mem)
  then show ?thesis by (rule that)
qed

lemma decode_members_keeps:
  assumes "decode_members tags ms s = Some t" and "P s"
    and kept: "\<And>k f j a b. (k, f) \<in> set tags \<Longrightarrow> P a \<Longrightarrow> f j a = Some b \<Longrightarrow> P b"
  shows "P t"
  using assms(1,2)
proof (induction ms arbitrary: s)
  case (Cons m ms)
  obtain k v where m: "m = (k, v)" by (cases m)
  show ?case
  proof (cases "field_for tags k")
    case None
    with Cons m show ?thesis by simp
  next
    case (Some f)
    with Cons.prems m obtain a where "f v s = Some a" "decode_members tags ms a = Some t" by (auto split: option.splits)
    moreover obtain j where "(j, f) \<in> set tags" using Some by (rule field_for_cases)
    ultimately show ?thesis using Cons.IH Cons.prems(2) kept by blast
  qed
qed simp

lemma decode_list_keeps:
  assumes "decode_list d js = Some as" and "\<And>j a. d j = Some a \<Longrightarrow> P a"
  shows "\<forall>a \<in> set as. P a"
  using assms(1) by (induction js arbitrary: as) (auto split: option.splits dest: assms(2))

lemma decoded_object_size:
  assumes "decode_struct RequestObjectDTO_tags \<lparr>rd_OID = [], rd_Size = 0\<rparr> j = Some obj"
  shows "int64_range (rd_Size obj)"
proof (cases j)
  case (JObject ms)
  with assms have "decode_members RequestObjectDTO_tags ms \<lparr>rd_OID = [], rd_Size = 0\<rparr> = Some obj"
    by (simp add: decode_struct_def)
  then show ?thesis
    by (rule decode_members_keeps) (auto simp: RequestObjectDTO_tags_def into_defs int64_range_def split: json.splits if_splits)
qed (use assms in \<open>auto simp: decode_struct_def int64_range_def\<close>)

lemma decoded_batch_sizes:
  assumes "decode_BatchRequestDTO j = Some d"
  shows "\<forall>obj \<in> set (bd_Objects d). int64_range (rd_Size obj)"
proof (cases j)
  case (JObject ms)
  let ?zero = "\<lparr>bd_Operation = [], bd_Objects = [], bd_Transfers = [], bd_Ref = None, bd_HashAlgo = []\<rparr>"
  from JObject assms have "decode_members BatchRequestDTO_tags ms ?zero = Some d"
    by (simp add: decode_BatchRequestDTO_def decode_struct_def)
  then show ?thesis
  proof (rule decode_members_keeps [where P = "\<lambda>d. \<forall>obj \<in> set (bd_Objects d). int64_range (rd_Size obj)"])
    fix k f j a b
    assume "(k, f) \<in> set BatchRequestDTO_tags" "\<forall>obj \<in> set (bd_Objects a). int64_range (rd_Size obj)" "f j a = Some b"
    then show "\<forall>obj \<in> set (bd_Objects b). int64_range (rd_Size obj)"
      by (auto simp: BatchRequestDTO_tags_def into_defs split: json.splits
          dest!: decode_list_keeps [OF _ decoded_object_size])
  qed simp
qed (use assms in \<open>auto simp: decode_BatchRequestDTO_def decode_struct_def\<close>)

text \<open>A batch that is answered with 200 was decoded from the body, and its answer can be read back.\<close>

lemma batch_handler_answer:
  assumes "run_state (BatchHandler_Handle (HandleBatchRequest program_batch) c u) w = (Replied resp e, w')"
    and "hp_status resp = 200"
  obtains repoID body doc dto req b where "ExtractRepositoryIdentifier c = Inr repoID"
    "read_limited (maxBodySize + 1) (rq_body c) = Some body" "length body \<le> maxBodySize"
    "bd_json (rq_body c) (length body) = Some doc" "decode_BatchRequestDTO doc = Some dto"
    "ToBatchRequest (Some repoID) dto = Inr req" "checkPermissions u (bd_Operation dto) = None"
    "run_state (HandleBatchRequest program_batch (getBaseURL c) (ri_owner repoID) (ri_name repoID) req
       (rq_header c ''Authorization'')) w = (Inr b, w')"
    "hp_content resp = JSONContent (BatchResponse_json b)" "decode_BatchResponse (BatchResponse_json b) = Some b"
proof -
  obtain repoID body doc dto req where c: "ExtractRepositoryIdentifier c = Inr repoID"
    "read_limited (maxBodySize + 1) (rq_body c) = Some body" "length body \<le> maxBodySize"
    "bd_json (rq_body c) (length body) = Some doc" "decode_BatchRequestDTO doc = Some dto"
    "ToBatchRequest (Some repoID) dto = Inr req" "checkPermissions u (bd_Operation dto) = None"
    and v: "ValidateLFSHeaders c = None"
    using assms by (auto simp: BatchHandler_Handle_def Let_def bind_eq_Some_conv split: option.splits sum.splits if_splits)
  obtain r v where r: "run_state (HandleBatchRequest program_batch (getBaseURL c) (ri_owner repoID) (ri_name repoID) req
       (rq_header c ''Authorization'')) w = (r, v)" by fastforce
  with c v assms obtain b where b: "r = Inr b" "v = w'" "hp_content resp = JSONContent (BatchResponse_json b)"
    by (auto simp: BatchHandler_Handle_def Let_def c_JSON_def split: sum.splits)
  have "map ro_size (br_objects req) = map rd_Size (bd_Objects dto)" using ToBatchRequest_Inr [OF c(6)] by simp
  then have "ro_size ` set (br_objects req) = rd_Size ` set (bd_Objects dto)" by (metis set_map)
  with decoded_batch_sizes [OF c(5)] have "\<forall>obj \<in> set (br_objects req). int64_range (ro_size obj)"
    by (metis (no_types, lifting) image_iff)
  with r b have "decode_BatchResponse (BatchResponse_json b) = Some b" using batch_answer_wf by blast
  with that c r b show ?thesis by simp
qed

end
