(* ===== verification/Routing.thy ===== *)
theory Routing
  imports Program
begin

text \<open>
  The routes of \<^verbatim>\<open>cmd/cargohold/main.go\<close> as the table it registers, and the way of a URL the program hands
  out back to its handler.  Finding the route of a path is echo's, and an argument here.
\<close>

section \<open>The table\<close>

definition lfs_group :: string where "lfs_group = ''/:owner/:repo/info/lfs''"
definition auth_group :: string where "auth_group = ''/auth/github''"

definition registered_routes :: "bool \<Rightarrow> (string \<times> string \<times> route) list" where
  "registered_routes oauth =
     [(''GET'', ''/healthz'', Healthz),
      (''GET'', ''/readyz'', Readyz),
      (''POST'', lfs_group @ ''/objects/batch'', Batch),
      (''POST'', lfs_group @ ''/objects/verify'', Verify),
      (''PUT'', lfs_group @ ''/objects/:oid'', Upload),
      (''GET'', lfs_group @ ''/objects/:oid'', Download)] @
     (if oauth then
       [(''GET'', auth_group @ ''/login'', Login),
        (''GET'', auth_group @ ''/callback'', Callback)]
      else []) @
     [(''GET'', ''/auth/session'', SessionPage)]"

section \<open>Patterns\<close>

text \<open>A segment of a pattern is a literal or, after a colon, the name of a parameter.\<close>

definition is_param :: "string \<Rightarrow> bool" where
  "is_param seg \<longleftrightarrow> prefix '':'' seg"

definition path_segments :: "string \<Rightarrow> string list" where
  "path_segments path = strings_Split path (CHR ''/'')"

definition pattern_params :: "string \<Rightarrow> string list" where
  "pattern_params pattern = map tl (filter is_param (path_segments pattern))"

definition fill_pattern :: "(string \<Rightarrow> string) \<Rightarrow> string \<Rightarrow> string" where
  "fill_pattern vals pattern =
     strings_Join (map (\<lambda>seg. if is_param seg then vals (tl seg) else seg) (path_segments pattern)) ''/''"

definition pattern_matches :: "string \<Rightarrow> string \<Rightarrow> bool" where
  "pattern_matches pattern path =
     list_all2 (\<lambda>seg part. if is_param seg then part \<noteq> [] else part = seg) (path_segments pattern) (path_segments path)"

text \<open>A value that is one segment of a path and needs no escaping in a URL.\<close>

definition plain_segment :: "string \<Rightarrow> bool" where
  "plain_segment s \<longleftrightarrow> s \<noteq> [] \<and> list_all unreserved s"

text \<open>
  What echo documents: a path that fits the pattern of a route, and of no other route with the verb,
  goes to this route, with the segments at the colons as the parameters.
\<close>

type_synonym router = "(string \<times> string \<times> route) list \<Rightarrow> string \<Rightarrow> string \<Rightarrow> (route \<times> (string \<Rightarrow> string)) option"

definition documented_router :: "router \<Rightarrow> bool" where
  "documented_router router \<longleftrightarrow> (\<forall>table verb pattern rt vals. (verb, pattern, rt) \<in> set table \<longrightarrow>
     (\<forall>name \<in> set (pattern_params pattern). plain_segment (vals name)) \<longrightarrow>
     (\<forall>row \<in> set table. fst row = verb \<longrightarrow> pattern_matches (fst (snd row)) (fill_pattern vals pattern) \<longrightarrow>
        row = (verb, pattern, rt)) \<longrightarrow>
     (\<exists>ps. router table verb (fill_pattern vals pattern) = Some (rt, ps) \<and>
        (\<forall>name \<in> set (pattern_params pattern). ps name = vals name)))"

lemma documented_routerD:
  assumes "documented_router router" and "(verb, pattern, rt) \<in> set table"
    and "\<And>name. name \<in> set (pattern_params pattern) \<Longrightarrow> plain_segment (vals name)"
    and "\<And>row. row \<in> set table \<Longrightarrow> fst row = verb \<Longrightarrow> pattern_matches (fst (snd row)) (fill_pattern vals pattern) \<Longrightarrow>
      row = (verb, pattern, rt)"
  obtains ps where "router table verb (fill_pattern vals pattern) = Some (rt, ps)"
    "\<And>name. name \<in> set (pattern_params pattern) \<Longrightarrow> ps name = vals name"
  using assms unfolding documented_router_def by blast

text \<open>The path a client asks for: what stands between the authority and the query or fragment.\<close>

fun after_scheme :: "string \<Rightarrow> string" where
  "after_scheme [] = []"
| "after_scheme (c # cs) = (if prefix ''://'' (c # cs) then drop 3 (c # cs) else after_scheme cs)"

definition url_path :: "string \<Rightarrow> string" where
  "url_path url = takeWhile (\<lambda>c. c \<noteq> CHR ''?'' \<and> c \<noteq> CHR ''#'')
     (dropWhile (\<lambda>c. c \<notin> set ''/?#'') (after_scheme url))"

section \<open>Links lead back\<close>

lemma reserved: "c \<in> set ''/?#:%'' \<Longrightarrow> \<not> unreserved c"
  by (simp only: list.set insert_iff empty_iff, elim disjE) (simp_all add: unreserved_def)

lemma plain_chars: "plain_segment s \<Longrightarrow> c \<in> set ''/?#:%'' \<Longrightarrow> c \<notin> set s"
  using reserved unfolding plain_segment_def list_all_iff by blast

lemma split_path:
  "CHR ''/'' \<notin> set s \<Longrightarrow> path_segments (CHR ''/'' # s) = [[], s]"
  "CHR ''/'' \<notin> set s \<Longrightarrow> path_segments (s @ CHR ''/'' # rest) = s # path_segments rest"
  "path_segments (CHR ''/'' # rest) = [] # path_segments rest"
  by (simp_all add: path_segments_def strings_Split_no_sep strings_Split_append_sep)

lemma hex_unreserved: "list_all unreserved hex_chars"
  by code_simp

lemma hex_plain: "oidPattern oid \<Longrightarrow> plain_segment oid"
  using hex_unreserved by (auto simp: oidPattern_def plain_segment_def list_all_iff)

text \<open>The base of a link: a scheme and a host, without a path.\<close>

definition base_of :: "string \<Rightarrow> string \<Rightarrow> string" where
  "base_of scheme host = scheme @ ''://'' @ host"

lemma after_scheme_base: "CHR '':'' \<notin> set scheme \<Longrightarrow> after_scheme (scheme @ ''://'' @ rest) = rest"
  by (induction scheme) auto

lemma url_path_rest:
  assumes "CHR '':'' \<notin> set scheme" and "set host \<inter> set ''/?#'' = {}"
  shows "url_path (base_of scheme host @ CHR ''/'' # path) = CHR ''/'' # takeWhile (\<lambda>c. c \<noteq> CHR ''?'' \<and> c \<noteq> CHR ''#'') path"
proof -
  have "dropWhile (\<lambda>c. c \<notin> set ''/?#'') (host @ CHR ''/'' # path) = CHR ''/'' # path"
    using assms(2) by (subst dropWhile_append2) auto
  then show ?thesis
    using after_scheme_base [OF assms(1), of "host @ CHR ''/'' # path"] by (simp add: url_path_def base_of_def)
qed

lemma plain_kept: "plain_segment s \<Longrightarrow> takeWhile (\<lambda>c. c \<noteq> CHR ''?'' \<and> c \<noteq> CHR ''#'') (s @ rest) =
    s @ takeWhile (\<lambda>c. c \<noteq> CHR ''?'' \<and> c \<noteq> CHR ''#'') rest"
  using plain_chars [of s "CHR ''?''"] plain_chars [of s "CHR ''#''"] by (subst takeWhile_append2) auto

text \<open>The four patterns of the group, and what fills them.\<close>

definition repo_vals :: "string \<Rightarrow> string \<Rightarrow> string \<Rightarrow> string \<Rightarrow> string" where
  "repo_vals owner repo oid name = (if name = ''owner'' then owner else if name = ''repo'' then repo else oid)"

lemma lfs_segments:
  "path_segments (lfs_group @ ''/objects/:oid'') = [[], '':owner'', '':repo'', ''info'', ''lfs'', ''objects'', '':oid'']"
  "path_segments (lfs_group @ ''/objects/batch'') = [[], '':owner'', '':repo'', ''info'', ''lfs'', ''objects'', ''batch'']"
  "path_segments (lfs_group @ ''/objects/verify'') = [[], '':owner'', '':repo'', ''info'', ''lfs'', ''objects'', ''verify'']"
  by (simp_all add: path_segments_def lfs_group_def)

lemma other_segments:
  "path_segments ''/healthz'' = [[], ''healthz'']" "path_segments ''/readyz'' = [[], ''readyz'']"
  "path_segments (auth_group @ ''/login'') = [[], ''auth'', ''github'', ''login'']"
  "path_segments (auth_group @ ''/callback'') = [[], ''auth'', ''github'', ''callback'']"
  "path_segments ''/auth/session'' = [[], ''auth'', ''session'']"
  by (simp_all add: path_segments_def auth_group_def)

definition object_path :: "string \<Rightarrow> string \<Rightarrow> string \<Rightarrow> string" where
  "object_path owner repo leaf = CHR ''/'' # owner @ ''/'' @ repo @ ''/info/lfs/objects/'' @ leaf"

lemma object_path_segments:
  assumes "plain_segment owner" "plain_segment repo" "plain_segment leaf"
  shows "path_segments (object_path owner repo leaf) =
    [[], owner, repo, ''info'', ''lfs'', ''objects'', leaf]"
proof -
  have "path_segments leaf = [leaf]" using plain_chars [OF assms(3)] by (simp add: path_segments_def strings_Split_no_sep)
  moreover have "path_segments (''info/lfs/objects/'' @ leaf) = ''info'' # ''lfs'' # ''objects'' # path_segments leaf"
    using split_path(2) [of "''info''" "''lfs/objects/'' @ leaf"] split_path(2) [of "''lfs''" "''objects/'' @ leaf"]
      split_path(2) [of "''objects''" leaf] by simp
  ultimately show ?thesis
    using split_path(2) [OF plain_chars [OF assms(1)], of "repo @ ''/info/lfs/objects/'' @ leaf"]
      split_path(2) [OF plain_chars [OF assms(2)], of "''info/lfs/objects/'' @ leaf"]
    by (simp add: object_path_def split_path(3))
qed

lemma routes_for:
  "filter (\<lambda>row. fst row = ''PUT'') (registered_routes oauth) = [(''PUT'', lfs_group @ ''/objects/:oid'', Upload)]"
  "filter (\<lambda>row. fst row = ''GET'') (registered_routes oauth) = [(''GET'', ''/healthz'', Healthz), (''GET'', ''/readyz'', Readyz),
     (''GET'', lfs_group @ ''/objects/:oid'', Download)] @
     (if oauth then [(''GET'', auth_group @ ''/login'', Login), (''GET'', auth_group @ ''/callback'', Callback)] else []) @
     [(''GET'', ''/auth/session'', SessionPage)]"
  by (simp_all add: registered_routes_def)

lemma object_route:
  assumes router: "documented_router router" and names: "plain_segment owner" "plain_segment repo" "plain_segment oid"
    and row: "(verb, rt) \<in> {(''PUT'', Upload), (''GET'', Download)}"
  shows "\<exists>ps. router (registered_routes oauth) verb (object_path owner repo oid) = Some (rt, ps) \<and>
    ps ''owner'' = owner \<and> ps ''repo'' = repo \<and> ps ''oid'' = oid"
proof -
  let ?pattern = "lfs_group @ ''/objects/:oid''" and ?vals = "repo_vals owner repo oid"
  let ?path = "object_path owner repo oid"
  have params: "pattern_params ?pattern = [''owner'', ''repo'', ''oid'']"
    by (simp add: pattern_params_def lfs_segments is_param_def)
  have path: "fill_pattern ?vals ?pattern = ?path"
    by (simp add: object_path_def fill_pattern_def lfs_segments is_param_def repo_vals_def)
  have row_in: "(verb, ?pattern, rt) \<in> set (registered_routes oauth)" using row by (auto simp: registered_routes_def)
  have plain: "plain_segment (?vals name)" for name using names by (simp add: repo_vals_def)
  have alone: "row' = (verb, ?pattern, rt)"
    if r: "row' \<in> set (registered_routes oauth)" "fst row' = verb" "pattern_matches (fst (snd row')) (fill_pattern ?vals ?pattern)" for row'
  proof -
    note segs = object_path_segments [OF names]
    have "\<not> pattern_matches ''/healthz'' ?path" "\<not> pattern_matches ''/readyz'' ?path" "\<not> pattern_matches ''/auth/session'' ?path"
      "\<not> pattern_matches (auth_group @ ''/login'') ?path" "\<not> pattern_matches (auth_group @ ''/callback'') ?path"
      by (simp_all add: pattern_matches_def other_segments segs)
    moreover have "row' \<in> set (filter (\<lambda>row. fst row = verb) (registered_routes oauth))" using r(1,2) by simp
    moreover have "verb = ''PUT'' \<and> rt = Upload \<or> verb = ''GET'' \<and> rt = Download" using row by auto
    ultimately show ?thesis using r(3) unfolding path by (elim disjE conjE) (auto simp: routes_for simp del: filter.simps split: if_splits)
  qed
  show ?thesis
  proof (rule documented_routerD [OF router row_in plain alone])
    fix ps assume "router (registered_routes oauth) verb (fill_pattern ?vals ?pattern) = Some (rt, ps)"
      and "\<And>name. name \<in> set (pattern_params ?pattern) \<Longrightarrow> ps name = ?vals name"
    then show ?thesis unfolding path params by (intro exI [of _ ps]) (simp add: repo_vals_def)
  qed
qed

text \<open>So a link to an object, followed, is a request for that object at its handler.\<close>

lemma base_kept:
  assumes "set host \<inter> set ''/?#'' = {}" "host \<noteq> []"
  shows "strings_TrimSuffix (base_of scheme host) ''/'' = base_of scheme host"
proof -
  have "last host \<in> set host" using assms(2) by simp
  with assms(1) have "last host \<noteq> CHR ''/''" by auto
  then have "last (base_of scheme host) \<noteq> CHR ''/''" using assms(2) by (simp add: base_of_def)
  then have "\<not> suffix ''/'' (base_of scheme host)" by (metis last_snoc suffix_def)
  then show ?thesis by (simp add: strings_TrimSuffix_def)
qed

lemma link_path:
  assumes "plain_segment owner" "plain_segment repo" "plain_segment oid"
    and "CHR '':'' \<notin> set scheme" and "set host \<inter> set ''/?#'' = {}" "host \<noteq> []"
  shows "url_path (generateURL (base_of scheme host) owner repo oid) = object_path owner repo oid"
proof -
  note base = base_kept [OF assms(5,6)]
  have "takeWhile (\<lambda>c. c \<noteq> CHR ''?'' \<and> c \<noteq> CHR ''#'') oid = oid" using plain_kept [OF assms(3), of "[]"] by simp
  then show ?thesis using url_path_rest [OF assms(4,5), of "owner @ ''/'' @ repo @ ''/info/lfs/objects/'' @ oid"]
    by (simp add: generateURL_def base object_path_def plain_kept assms(1,2))
qed

lemma link_route:
  assumes "documented_router router" and "plain_segment owner" "plain_segment repo" "oidPattern oid"
    and "CHR '':'' \<notin> set scheme" and "set host \<inter> set ''/?#'' = {}" "host \<noteq> []"
    and "(verb, rt) \<in> {(''PUT'', Upload), (''GET'', Download)}"
  shows "\<exists>ps. router (registered_routes oauth) verb (url_path (generateURL (base_of scheme host) owner repo oid)) = Some (rt, ps) \<and>
    ps ''owner'' = owner \<and> ps ''repo'' = repo \<and> ps ''oid'' = oid"
  unfolding link_path [OF assms(2,3) hex_plain [OF assms(4)] assms(5-7)]
  by (rule object_route [OF assms(1-3) hex_plain [OF assms(4)] assms(8)])

text \<open>A name with a question mark is cut off there.\<close>

lemma link_cut:
  assumes "plain_segment owner" "plain_segment repo" and "CHR '':'' \<notin> set scheme" and "set host \<inter> set ''/?#'' = {}" "host \<noteq> []"
  shows "url_path (generateURL (base_of scheme host) owner (repo @ ''?'' @ rest) oid) = ''/'' @ owner @ ''/'' @ repo"
proof -
  note base = base_kept [OF assms(4,5)]
  show ?thesis
    using url_path_rest [OF assms(3,4), of "owner @ ''/'' @ repo @ ''?'' @ rest @ ''/info/lfs/objects/'' @ oid"]
    by (simp add: generateURL_def base plain_kept assms(1,2))
qed

section \<open>A router\<close>

text \<open>The first row that fits, as one function with the documented behaviour.\<close>

definition path_bindings :: "string \<Rightarrow> string \<Rightarrow> (string \<times> string) list" where
  "path_bindings pattern path = map (\<lambda>(seg, part). (tl seg, part))
     (filter (\<lambda>(seg, part). is_param seg) (zip (path_segments pattern) (path_segments path)))"

definition table_router :: router where
  "table_router table verb path =
     (case List.find (\<lambda>(m, pattern, rt). m = verb \<and> pattern_matches pattern path) table of
        None \<Rightarrow> None
      | Some (m, pattern, rt) \<Rightarrow> Some (rt, \<lambda>name. case map_of (path_bindings pattern path) name of None \<Rightarrow> [] | Some v \<Rightarrow> v))"

lemma Split_Join:
  "segs \<noteq> [] \<Longrightarrow> (\<And>s. s \<in> set segs \<Longrightarrow> c \<notin> set s) \<Longrightarrow> strings_Split (strings_Join segs [c]) c = segs"
  by (induction segs "[c]" rule: strings_Join.induct) (simp_all add: strings_Split_no_sep strings_Split_append_sep)

lemma filled_segments:
  assumes "\<And>name. name \<in> set (pattern_params pattern) \<Longrightarrow> plain_segment (vals name)"
  shows "path_segments (fill_pattern vals pattern) =
    map (\<lambda>seg. if is_param seg then vals (tl seg) else seg) (path_segments pattern)"
  unfolding fill_pattern_def path_segments_def
proof (rule Split_Join)
  fix s assume "s \<in> set (map (\<lambda>seg. if is_param seg then vals (tl seg) else seg) (strings_Split pattern CHR ''/''))"
  then obtain seg where seg: "seg \<in> set (path_segments pattern)" "s = (if is_param seg then vals (tl seg) else seg)"
    by (auto simp: path_segments_def)
  show "CHR ''/'' \<notin> set s"
  proof (cases "is_param seg")
    case True
    with seg(1) have "tl seg \<in> set (pattern_params pattern)" by (auto simp: pattern_params_def)
    from plain_chars [OF assms [OF this]] show ?thesis using True seg(2) by simp
  next
    case False
    with seg strings_Split_parts show ?thesis by (auto simp: path_segments_def)
  qed
qed simp

lemma documented_table_router: "documented_router table_router"
  unfolding documented_router_def
proof (intro allI impI)
  fix table :: "(string \<times> string \<times> route) list" and verb pattern rt vals
  assume row: "(verb, pattern, rt) \<in> set table"
    and plain: "\<forall>name \<in> set (pattern_params pattern). plain_segment (vals name)"
    and alone: "\<forall>row \<in> set table. fst row = verb \<longrightarrow> pattern_matches (fst (snd row)) (fill_pattern vals pattern) \<longrightarrow> row = (verb, pattern, rt)"
  let ?path = "fill_pattern vals pattern" and ?P = "\<lambda>(m, pat, rt). m = verb \<and> pattern_matches pat (fill_pattern vals pattern)"
  from plain have segs: "path_segments ?path = map (\<lambda>seg. if is_param seg then vals (tl seg) else seg) (path_segments pattern)"
    using filled_segments by blast
  have fits: "pattern_matches pattern ?path" unfolding pattern_matches_def segs list.rel_map
    using plain by (auto simp: list.rel_refl_strong pattern_params_def plain_segment_def intro!: list.rel_refl_strong)
  have found: "List.find ?P table = Some (verb, pattern, rt)"
  proof (cases "List.find ?P table")
    case None
    with row fits show ?thesis by (auto simp: find_None_iff)
  next
    case (Some r)
    then have "r \<in> set table" "?P r" unfolding find_Some_iff by (metis nth_mem)+
    with alone Some show ?thesis by (cases r) auto
  qed
  have zip: "filter (\<lambda>(seg, part). is_param seg) (zip xs (map g xs)) = map (\<lambda>seg. (seg, g seg)) (filter is_param xs)" for g xs
    by (induction xs) simp_all
  have "path_bindings pattern ?path = map (\<lambda>seg. (tl seg, vals (tl seg))) (filter is_param (path_segments pattern))"
    unfolding path_bindings_def segs zip by (simp add: comp_def)
  then have bind: "map_of (path_bindings pattern ?path) name = Some (vals name)" if "name \<in> set (pattern_params pattern)" for name
    using that map_of_map_restrict [of vals "pattern_params pattern"] by (simp add: pattern_params_def comp_def)
  let ?ps = "\<lambda>name. case map_of (path_bindings pattern ?path) name of None \<Rightarrow> [] | Some v \<Rightarrow> v"
  have "table_router table verb ?path = Some (rt, ?ps)" unfolding table_router_def found by simp
  moreover have "?ps name = vals name" if "name \<in> set (pattern_params pattern)" for name
    using bind [OF that] by simp
  ultimately show "\<exists>ps. table_router table verb ?path = Some (rt, ps) \<and> (\<forall>name \<in> set (pattern_params pattern). ps name = vals name)"
    by blast
qed

end
