(* ===== verification/Logging.thy ===== *)
theory Logging
  imports Net
begin

text \<open>
  What reaches the log: \<^verbatim>\<open>logging/masking.go\<close>, which blanks attributes by their key, and
  \<^verbatim>\<open>middleware/log_masking.go\<close>, which blanks query parameters of the logged URI.  Parsing a URI into
  its query and the rest is an argument; the query itself is parsed and written here.
\<close>

section \<open>Attributes\<close>

text \<open>A \<^verbatim>\<open>slog.Attr\<close>: a key with a printed value, or a group.\<close>

datatype log_attr = Leaf string string | Group string "log_attr list"

definition defaultSensitiveKeys :: "string list" where
  "defaultSensitiveKeys = [''token'', ''id_token'', ''idtoken'', ''access_token'', ''refresh_token'', ''authorization'',
     ''session_id'', ''sessionid'', ''oauth_state'', ''oidc_state'', ''password'', ''secret'', ''client_secret'',
     ''clientsecret'', ''secret_access_key'', ''secretaccesskey'', ''access_key_id'', ''accesskeyid'', ''api_key'',
     ''apikey'', ''credential'', ''private_key'', ''email'', ''oidc_subject'']"

definition NewSensitiveMasker :: "string list \<Rightarrow> string set" where
  "NewSensitiveMasker keys = set keys"

fun MaskAttrs :: "string set \<Rightarrow> log_attr \<Rightarrow> log_attr" where
  "MaskAttrs sensitiveKeys (Group key attrs) = Group key (map (MaskAttrs sensitiveKeys) attrs)"
| "MaskAttrs sensitiveKeys (Leaf a_key val) =
     (let key = strings_ToLower a_key in
      if key \<in> sensitiveKeys then Leaf a_key ''[REDACTED]''
      else if \<exists>sensitiveKey \<in> sensitiveKeys. strings_Contains key sensitiveKey then Leaf a_key ''[REDACTED]''
      else Leaf a_key val)"

definition MaskSensitiveAttrs :: "log_attr \<Rightarrow> log_attr" where
  "MaskSensitiveAttrs a = MaskAttrs (NewSensitiveMasker defaultSensitiveKeys) a"

text \<open>The leaves of an attribute, and the rule for one of them.\<close>

fun leaves :: "log_attr \<Rightarrow> (string \<times> string) list" where
  "leaves (Group key attrs) = concat (map leaves attrs)"
| "leaves (Leaf key val) = [(key, val)]"

definition is_secret :: "string \<Rightarrow> bool" where
  "is_secret key \<longleftrightarrow> list_ex (strings_Contains (strings_ToLower key)) defaultSensitiveKeys"

lemma strings_Contains_self [simp]: "strings_Contains s s"
  by (simp add: strings_Contains_def)

lemma mask_leaves:
  "leaves (MaskSensitiveAttrs a) = map (\<lambda>(key, val). (key, if is_secret key then ''[REDACTED]'' else val)) (leaves a)"
proof -
  have "leaves (MaskAttrs (set defaultSensitiveKeys) a) =
      map (\<lambda>(key, val). (key, if is_secret key then ''[REDACTED]'' else val)) (leaves a)"
  proof (induction a rule: leaves.induct)
    case (1 key attrs)
    then show ?case by (simp add: map_concat comp_def cong: map_cong)
  next
    case (2 key val)
    have "strings_ToLower key \<in> set defaultSensitiveKeys \<Longrightarrow> is_secret key"
      unfolding is_secret_def list_ex_iff using strings_Contains_self by blast
    then show ?case by (auto simp: Let_def is_secret_def list_ex_iff)
  qed
  then show ?thesis by (simp add: MaskSensitiveAttrs_def NewSensitiveMasker_def)
qed

section \<open>Query strings\<close>

definition unhex :: "char \<Rightarrow> nat" where
  "unhex c = (let n = of_char c in if n \<le> 57 then n - 48 else if n \<le> 70 then n - 55 else n - 87)"

fun QueryUnescape :: "string \<Rightarrow> string option" where
  "QueryUnescape [] = Some []"
| "QueryUnescape (c # cs) =
     (if c = CHR ''%'' then (case cs of
        a # b # rest \<Rightarrow>
          if is_hex_digit a \<and> is_hex_digit b
          then map_option ((#) (char_of (16 * unhex a + unhex b))) (QueryUnescape rest) else None
      | _ \<Rightarrow> None)
      else map_option ((#) (if c = CHR ''+'' then CHR '' '' else c)) (QueryUnescape cs))"

text \<open>\<^verbatim>\<open>url.ParseQuery\<close>, with the pairs in order; a malformed pair is dropped.\<close>

definition parse_pair :: "string \<Rightarrow> (string \<times> string) list" where
  "parse_pair s =
     (if CHR '';'' \<in> set s \<or> s = [] then []
      else let (k, v) = (case strings_SplitN2 s (CHR ''='') of [k, v] \<Rightarrow> (k, v) | _ \<Rightarrow> (s, []))
        in (case (QueryUnescape k, QueryUnescape v) of (Some k', Some v') \<Rightarrow> [(k', v')] | _ \<Rightarrow> []))"

definition parse_query :: "string \<Rightarrow> (string \<times> string) list" where
  "parse_query s = concat (map parse_pair (strings_Split s (CHR ''&'')))"

section \<open>URIs\<close>

record parsed_url =
  pu_RawQuery :: string
  pu_with_query :: "string \<Rightarrow> string"

definition sensitiveParams :: "string list" where
  "sensitiveParams = [''session_id'', ''code'', ''state'']"

definition maskValue :: string where "maskValue = ''***''"

definition query_values :: "(string \<times> string) list \<Rightarrow> string \<Rightarrow> string list" where
  "query_values query key = map snd (filter (\<lambda>p. fst p = key) query)"

definition masked_query :: "(string \<times> string) list \<Rightarrow> string" where
  "masked_query query = (let keys = sort (remdups (map fst query)) in
     strings_Join (concat (map (\<lambda>key.
       if key \<in> set sensitiveParams then [QueryEscape key @ ''='' @ maskValue]
       else map (\<lambda>v. QueryEscape key @ ''='' @ QueryEscape v) (query_values query key)) keys)) ''&'')"

definition MaskSensitiveParams :: "(string \<Rightarrow> parsed_url option) \<Rightarrow> string \<Rightarrow> string" where
  "MaskSensitiveParams url_Parse uri =
     (if uri = [] then []
      else case url_Parse uri of
        None \<Rightarrow> uri
      | Some parsedURL \<Rightarrow> (let query = parse_query (pu_RawQuery parsedURL) in
          if query = [] then uri else pu_with_query parsedURL (masked_query query)))"

section \<open>The masked query, read back\<close>

lemma hex_digit_hex:
  assumes "n < 16"
  shows "is_hex_digit (hex_digit n) \<and> unhex (hex_digit n) = n"
proof -
  have "list_all (\<lambda>n. is_hex_digit (hex_digit n) \<and> unhex (hex_digit n) = n) [0..<16]" by code_simp
  with assms show ?thesis by (simp add: list_all_iff)
qed

lemma QueryUnescape_Escape: "QueryUnescape (QueryEscape s) = Some s"
proof (induction s)
  case (Cons c s)
  have hex: "of_char c div 16 < (16 :: nat)" "of_char c mod 16 < (16 :: nat)"
    using char_range [of c] by (simp_all add: div_less_iff_less_mult)
  have "unreserved c \<Longrightarrow> c \<noteq> CHR ''%'' \<and> c \<noteq> CHR ''+''" by (auto simp: unreserved_def)
  with Cons hex_digit_hex [OF hex(1)] hex_digit_hex [OF hex(2)] show ?case
    by (auto simp: QueryEscape_def escape_char_def)
qed (simp add: QueryEscape_def)

lemma hex_digit_plain: "n < 16 \<Longrightarrow> hex_digit n \<notin> set ''&;=''"
proof -
  assume "n < 16"
  moreover have "list_all (\<lambda>n. hex_digit n \<notin> set ''&;='') [0..<16]" by code_simp
  ultimately show "hex_digit n \<notin> set ''&;=''" unfolding list_all_iff by simp
qed

lemma unreserved_plain: "unreserved c \<Longrightarrow> c \<notin> set ''&;=''"
  by (auto simp: unreserved_def)

lemma escape_chars:
  assumes "x \<in> set (QueryEscape s)"
  shows "x \<notin> set ''&;=''"
proof -
  from assms obtain c where x: "x \<in> set (escape_char c)" unfolding QueryEscape_def by auto
  have "of_char c div 16 < (16 :: nat)" "of_char c mod 16 < (16 :: nat)"
    using char_range [of c] by (simp_all add: div_less_iff_less_mult)
  then have h: "hex_digit (of_char c div 16) \<notin> set ''&;=''" "hex_digit (of_char c mod 16) \<notin> set ''&;=''"
    using hex_digit_plain by blast+
  have "x = c \<and> unreserved c \<or> x = CHR ''+'' \<or> x = CHR ''%'' \<or> x = hex_digit (of_char c div 16) \<or> x = hex_digit (of_char c mod 16)"
    using x by (auto simp: escape_char_def split: if_splits)
  then show ?thesis using h unreserved_plain by (elim disjE conjE) simp_all
qed

lemma concat_map_concat: "concat (map f (concat (map g xs))) = concat (map (\<lambda>x. concat (map f (g x))) xs)"
  by (induction xs) simp_all

lemma strings_Split_Join:
  assumes "\<forall>p \<in> set ps. c \<notin> set p" and "ps \<noteq> []"
  shows "strings_Split (strings_Join ps [c]) c = ps"
  using assms by (induction ps "[c]" rule: strings_Join.induct) (simp_all add: strings_Split_no_sep strings_Split_append_sep)

lemma parse_pair_written:
  assumes "QueryUnescape v = Some v'" and "set v \<inter> set '';'' = {}"
  shows "parse_pair (QueryEscape k @ ''='' @ v) = [(k, v')]"
proof -
  have "CHR ''='' \<notin> set (QueryEscape k)" "CHR '';'' \<notin> set (QueryEscape k)" using escape_chars [of _ k] by auto
  with assms show ?thesis
    by (simp add: parse_pair_def strings_SplitN2_first [simplified] QueryUnescape_Escape)
qed

text \<open>What a reader of the masked query finds: each key of the query, with its values or with the
  mask.\<close>

lemma masked_query_parsed:
  "parse_query (masked_query query) = concat (map (\<lambda>key.
     if key \<in> set sensitiveParams then [(key, maskValue)] else map (Pair key) (query_values query key))
     (sort (remdups (map fst query))))"
proof -
  let ?keys = "sort (remdups (map fst query))"
  let ?part = "\<lambda>key. if key \<in> set sensitiveParams then [QueryEscape key @ ''='' @ maskValue]
       else map (\<lambda>v. QueryEscape key @ ''='' @ QueryEscape v) (query_values query key)"
  have no_sep: "\<forall>p \<in> set (concat (map ?part ks)). CHR ''&'' \<notin> set p" for ks
    using escape_chars by (fastforce simp: maskValue_def split: if_splits)
  have part: "concat (map parse_pair (?part key)) =
      (if key \<in> set sensitiveParams then [(key, maskValue)] else map (Pair key) (query_values query key))" for key
  proof (cases "key \<in> set sensitiveParams")
    case True
    have "parse_pair (QueryEscape key @ ''='' @ maskValue) = [(key, maskValue)]"
      by (rule parse_pair_written) (simp_all add: maskValue_def)
    with True show ?thesis by simp
  next
    case False
    have "parse_pair (QueryEscape key @ ''='' @ QueryEscape v) = [(key, v)]" for v
      using escape_chars [of _ v] by (intro parse_pair_written) (auto simp: QueryUnescape_Escape)
    then have "concat (map parse_pair (map (\<lambda>v. QueryEscape key @ ''='' @ QueryEscape v) vs)) = map (Pair key) vs" for vs
      by (induction vs) simp_all
    with False show ?thesis by simp
  qed
  have "parse_query (strings_Join ps ''&'') = concat (map parse_pair ps)"
    if "\<forall>p \<in> set ps. CHR ''&'' \<notin> set p" for ps
    using that strings_Split_Join [of ps "CHR ''&''"] by (cases ps) (simp_all add: parse_query_def parse_pair_def)
  from this [OF no_sep [of ?keys]] have
    "parse_query (masked_query query) = concat (map parse_pair (concat (map ?part ?keys)))"
    unfolding masked_query_def Let_def .
  also have "\<dots> = concat (map (\<lambda>key. concat (map parse_pair (?part key))) ?keys)"
    by (rule concat_map_concat)
  finally show ?thesis unfolding part .
qed

lemma masked_query_hides:
  "(key, v) \<in> set (parse_query (masked_query query)) \<Longrightarrow> key \<in> set sensitiveParams \<Longrightarrow> v = maskValue"
  by (auto simp: masked_query_parsed split: if_splits)

text \<open>Parameter by parameter.\<close>

lemma query_values_concat:
  assumes "distinct keys" and own: "\<And>k p. p \<in> set (f k) \<Longrightarrow> fst p = k"
  shows "query_values (concat (map f keys)) key = (if key \<in> set keys then map snd (f key) else [])"
  using assms(1)
proof (induction keys)
  case (Cons k keys)
  have "filter (\<lambda>p. fst p = key) (f k) = (if key = k then f k else [])"
    using own by (auto simp: filter_id_conv filter_empty_conv)
  with Cons show ?case by (auto simp: query_values_def)
qed (simp add: query_values_def)

lemma query_values_present: "query_values query key = [] \<longleftrightarrow> key \<notin> fst ` set query"
  by (force simp: query_values_def filter_empty_conv)

lemma masked_query_values:
  "query_values (parse_query (masked_query query)) key =
     (if key \<in> set sensitiveParams then (if query_values query key = [] then [] else [maskValue]) else query_values query key)"
  unfolding masked_query_parsed
  by (subst query_values_concat) (auto simp: query_values_present [THEN iffD2] query_values_present comp_def split: if_splits)

section \<open>The request log\<close>

text \<open>\<^verbatim>\<open>LogValuesFunc\<close> of \<^verbatim>\<open>run\<close>: one record for each request, an error record when the handler returned an
  error.  A duration is logged as its nanoseconds.\<close>

datatype log_level = LevelInfo | LevelError

record RequestLoggerValues =
  lv_Method :: string
  lv_URI :: string
  lv_Status :: int
  lv_Latency :: int
  lv_Error :: "string option"

definition LogValuesFunc :: "(string \<Rightarrow> parsed_url option) \<Rightarrow> RequestLoggerValues \<Rightarrow> log_level \<times> string \<times> log_attr list" where
  "LogValuesFunc url_Parse v =
     (let attrs = [Leaf ''method'' (lv_Method v), Leaf ''uri'' (MaskSensitiveParams url_Parse (lv_URI v)),
        Leaf ''status'' (FormatInt (lv_Status v)), Leaf ''latency'' (FormatInt (lv_Latency v))] in
      case lv_Error v of
        Some err \<Rightarrow> (LevelError, ''REQUEST'', attrs @ [Leaf ''error'' err])
      | None \<Rightarrow> (LevelInfo, ''REQUEST'', attrs))"

text \<open>The masker of attributes leaves the record as it is, so the URI is all there is to mask.\<close>

lemma mask_leaf: "\<not> is_secret k \<Longrightarrow> MaskSensitiveAttrs (Leaf k x) = Leaf k x"
  using mask_leaves [of "Leaf k x"] by (simp add: MaskSensitiveAttrs_def Let_def split: if_splits)

lemma request_log_uri:
  assumes "LogValuesFunc url_Parse v = (level, msg, attrs)"
  shows "map MaskSensitiveAttrs attrs = attrs \<and>
    map snd (filter (\<lambda>p. fst p = ''uri'') (concat (map leaves attrs))) = [MaskSensitiveParams url_Parse (lv_URI v)] \<and>
    (level = LevelError \<longleftrightarrow> lv_Error v \<noteq> None)"
proof -
  have "\<not> is_secret ''method''" "\<not> is_secret ''uri''" "\<not> is_secret ''status''" "\<not> is_secret ''latency''" "\<not> is_secret ''error''"
    by (simp_all add: is_secret_def defaultSensitiveKeys_def strings_Contains_def strings_ToLower_def ascii_lower_def
        sublist_Cons_right)
  then have plain: "MaskSensitiveAttrs (Leaf ''method'' x) = Leaf ''method'' x" "MaskSensitiveAttrs (Leaf ''uri'' x) = Leaf ''uri'' x"
    "MaskSensitiveAttrs (Leaf ''status'' x) = Leaf ''status'' x" "MaskSensitiveAttrs (Leaf ''latency'' x) = Leaf ''latency'' x"
    "MaskSensitiveAttrs (Leaf ''error'' x) = Leaf ''error'' x" for x
    by (simp_all add: mask_leaf)
  show ?thesis using assms by (cases "lv_Error v") (auto simp: LogValuesFunc_def plain)
qed

lemma logged_uri:
  "map snd (filter (\<lambda>p. fst p = ''uri'') (concat (map (\<lambda>a. leaves (MaskSensitiveAttrs a)) (snd (snd (LogValuesFunc url_Parse v)))))) =
     [MaskSensitiveParams url_Parse (lv_URI v)]"
proof -
  obtain level msg attrs where log: "LogValuesFunc url_Parse v = (level, msg, attrs)" by (cases "LogValuesFunc url_Parse v")
  from request_log_uri [OF log] have same: "map MaskSensitiveAttrs attrs = attrs" by blast
  have "map (\<lambda>a. leaves (MaskSensitiveAttrs a)) attrs = map leaves (map MaskSensitiveAttrs attrs)" by simp
  also have "\<dots> = map leaves attrs" by (simp only: same)
  finally have masked: "map (\<lambda>a. leaves (MaskSensitiveAttrs a)) attrs = map leaves attrs" .
  show ?thesis unfolding log snd_conv masked using request_log_uri [OF log] by blast
qed

end
