(* ===== verification/Transactions.thy ===== *)
theory Transactions
  imports Access
begin

text \<open>
  \<^verbatim>\<open>postgres/transaction.go\<close>: a function run between the begin and the end of a transaction.  The
  driver's transaction is an argument, so that the state it works on is any state; a panic of the
  function is an error value that unwinds after the rollback.
\<close>

record 's pgx_Tx =
  tx_Begin :: "('s, gerror + unit) state"
  tx_Commit :: "('s, gerror + unit) state"
  tx_Rollback :: "('s, gerror + unit) state"

definition TransactionManager_BeginTx :: "'s pgx_Tx \<Rightarrow> ('s, gerror + unit) state" where
  "TransactionManager_BeginTx tx = do {
     r \<leftarrow> tx_Begin tx;
     case r of Inl err \<Rightarrow> lift_result (Inl (Wrap err)) | Inr u \<Rightarrow> lift_result (Inr ())
   }"

definition WithTransaction :: "'s pgx_Tx \<Rightarrow> ('s, gerror + unit) state \<Rightarrow> ('s, gerror + unit) state" where
  "WithTransaction tx fn = do {
     b \<leftarrow> TransactionManager_BeginTx tx;
     case b of
       Inl err \<Rightarrow> lift_result (Inl err)
     | Inr u \<Rightarrow> do {
         r \<leftarrow> fn;
         case r of
           Inl err \<Rightarrow> do {
             rb \<leftarrow> tx_Rollback tx;
             if is_panic err then lift_result (Inl err)
             else (case rb of
               Inl rbErr \<Rightarrow> lift_result (Inl (Wrap rbErr))
             | Inr u \<Rightarrow> lift_result (Inl err))
           }
         | Inr u \<Rightarrow> do {
             c \<leftarrow> tx_Commit tx;
             case c of Inl err \<Rightarrow> lift_result (Inl (Wrap err)) | Inr u \<Rightarrow> lift_result (Inr ())
           }
       }
   }"

datatype isolation = DefaultIsolation | ReadCommitted | RepeatableRead | Serializable

definition DefaultTxOptions :: isolation where "DefaultTxOptions = DefaultIsolation"
definition ReadCommittedTxOptions :: isolation where "ReadCommittedTxOptions = ReadCommitted"
definition RepeatableReadTxOptions :: isolation where "RepeatableReadTxOptions = RepeatableRead"
definition SerializableTxOptions :: isolation where "SerializableTxOptions = Serializable"

text \<open>A transaction that began ends by exactly one of commit and rollback, the last thing that
  happens, and success means that the function and the commit both succeeded.\<close>

lemma WithTransaction_run:
  assumes "run_state (WithTransaction tx fn) w = (r, w')"
  shows "(\<exists>e. run_state (tx_Begin tx) w = (Inl e, w') \<and> r = Inl (Wrap e)) \<or>
    (\<exists>v1 v2 q. run_state (tx_Begin tx) w = (Inr (), v1) \<and> run_state fn v1 = (q, v2) \<and>
       (\<exists>z. q = Inr () \<and> run_state (tx_Commit tx) v2 = (z, w') \<and> (r = Inr () \<longleftrightarrow> z = Inr ()) \<or>
        (\<exists>e. q = Inl e) \<and> run_state (tx_Rollback tx) v2 = (z, w') \<and> (\<exists>e. r = Inl e) \<and>
          (\<forall>e. q = Inl e \<longrightarrow> is_panic e \<or> z = Inr () \<longrightarrow> r = Inl e)))"
proof (cases "run_state (tx_Begin tx) w")
  case (Pair b v1)
  show ?thesis
  proof (cases b)
    case (Inl e)
    with assms Pair show ?thesis by (auto simp: WithTransaction_def TransactionManager_BeginTx_def)
  next
    case (Inr u)
    then have b: "run_state (tx_Begin tx) w = (Inr (), v1)" using Pair by (cases u) simp
    obtain q v2 where q: "run_state fn v1 = (q, v2)" by fastforce
    show ?thesis
    proof (cases q)
      case (Inl e)
      obtain z v3 where z: "run_state (tx_Rollback tx) v2 = (z, v3)" by fastforce
      have "w' = v3 \<and> r = (if is_panic e then Inl e else case z of Inl f \<Rightarrow> Inl (Wrap f) | Inr u \<Rightarrow> Inl e)"
        using assms b q Inl z by (auto simp: WithTransaction_def TransactionManager_BeginTx_def split: sum.splits if_splits)
      then show ?thesis using b q Inl z
        by - (rule disjI2, rule exI [of _ v1], rule exI [of _ v2], rule exI [of _ q], auto split: sum.splits)
    next
      case u: (Inr u)
      obtain z v3 where z: "run_state (tx_Commit tx) v2 = (z, v3)" by fastforce
      have "w' = v3 \<and> (r = Inr () \<longleftrightarrow> z = Inr ())"
        using assms b q u z by (auto simp: WithTransaction_def TransactionManager_BeginTx_def split: sum.splits)
      then show ?thesis using b q u z
        by - (rule disjI2, rule exI [of _ v1], rule exI [of _ v2], rule exI [of _ q], auto)
    qed
  qed
qed

end
