(* ===== verification/Nonces.thy ===== *)
theory Nonces
  imports Keygen
begin

text \<open>
  \<^verbatim>\<open>internal/infrastructure/oidc/oauth2_helpers.go\<close>: random states in padded base64.  Nothing calls it, as sign-ins
  use UUIDs; the random source is an argument.
\<close>

section \<open>Padded base64\<close>

definition padding :: "string \<Rightarrow> string" where
  "padding s = replicate ((4 - length s mod 4) mod 4) (CHR ''='')"

definition URLEncoding_EncodeToString :: "string \<Rightarrow> string" where
  "URLEncoding_EncodeToString bytes = (let s = RawURLEncoding_EncodeToString bytes in s @ padding s)"

definition URLEncoding_DecodeString :: "string \<Rightarrow> string option" where
  "URLEncoding_DecodeString s = base64_groups url_alphabet True (skip_newlines s)"

lemma padding_Cons4: "padding (a # b # c # d # s) = padding s"
  by (simp add: padding_def)

lemma symbol_not_padding: "i < 64 \<Longrightarrow> symbol i \<noteq> CHR ''=''"
proof -
  assume i: "i < 64"
  have "CHR ''='' \<notin> set url_alphabet" by (simp add: url_alphabet_def)
  with i nth_mem [of i url_alphabet] show ?thesis unfolding symbol_def by (metis url_alphabet_props(2))
qed

lemma padded_back: "base64_groups url_alphabet True (URLEncoding_EncodeToString bytes) = Some bytes"
  unfolding URLEncoding_EncodeToString_def Let_def
proof (induction bytes rule: RawURLEncoding_EncodeToString.induct)
  case (2 a)
  show ?case using digits [OF char_range [of a], where y = 0 and z = 0] by (simp add: Let_def padding_def numeral_2_eq_2 three_bytes_def)
next
  case (3 a b)
  show ?case using digits [OF char_range [of a] char_range [of b], where z = 0]
    by (simp add: Let_def padding_def three_bytes_def symbol_not_padding)
next
  case (4 a b c rest)
  then show ?case using digits [OF char_range [of a] char_range [of b] char_range [of c]] three_bytes_back [of a b c]
    by (simp add: Let_def padding_Cons4 symbol_not_padding)
qed (simp add: padding_def)

lemma URLEncoding_roundtrip: "URLEncoding_DecodeString (URLEncoding_EncodeToString bytes) = Some bytes"
proof -
  have "skip_newlines (URLEncoding_EncodeToString bytes) = URLEncoding_EncodeToString bytes"
    using skip_newlines_encoded [of bytes]
    by (simp add: URLEncoding_EncodeToString_def Let_def skip_newlines_def padding_def)
  then show ?thesis by (simp add: URLEncoding_DecodeString_def padded_back)
qed

lemma raw_length: "length (RawURLEncoding_EncodeToString bytes) = (4 * length bytes + 2) div 3"
  by (induction bytes rule: RawURLEncoding_EncodeToString.induct) (simp_all add: Let_def)

section \<open>States\<close>

definition GenerateState :: "(nat \<Rightarrow> gerror + string) \<Rightarrow> gerror + string" where
  "GenerateState rand_Read = (case rand_Read 32 of
     Inl err \<Rightarrow> Inl (Wrap err)
   | Inr b \<Rightarrow> Inr (URLEncoding_EncodeToString b))"

text \<open>A state has 44 characters and carries all 32 bytes: two states are equal only for the same bytes.\<close>

lemma GenerateState_faithful:
  assumes "GenerateState rand_Read = Inr st" and "\<And>b. rand_Read 32 = Inr b \<Longrightarrow> length b = 32"
  shows "length st = 44 \<and> (\<exists>b. rand_Read 32 = Inr b \<and> URLEncoding_DecodeString st = Some b)"
proof -
  obtain b where b: "rand_Read 32 = Inr b" "st = URLEncoding_EncodeToString b"
    using assms(1) by (auto simp: GenerateState_def split: sum.splits)
  have "length st = 44" using assms(2) [OF b(1)] b(2) by (simp add: URLEncoding_EncodeToString_def Let_def padding_def raw_length)
  with b URLEncoding_roundtrip show ?thesis by blast
qed

lemma GenerateState_distinct:
  assumes "GenerateState rand_Read = Inr st" and "GenerateState rand_Read' = Inr st"
  shows "rand_Read 32 = rand_Read' 32"
proof -
  obtain b b' where b: "rand_Read 32 = Inr b" "rand_Read' 32 = Inr b'" "URLEncoding_EncodeToString b = URLEncoding_EncodeToString b'"
    using assms by (auto simp: GenerateState_def split: sum.splits)
  then have "Some b = Some b'" using URLEncoding_roundtrip by metis
  with b show ?thesis by simp
qed

end
