(* ===== verification/Spec2Isabelle.thy ===== *)
theory Spec2Isabelle
  imports Samples Callbacks Allow_Turns Answers Routing Logging Transactions Server Nonces
begin

text \<open>
  Cargohold is a Git LFS server: clients announce large objects in batches, send and fetch their contents
  through it, and sign in with a session or with a token of GitHub Actions.  It keeps metadata, owners and
  an allowlist of repositories in Postgres, sessions and cached values in Redis, and contents in an
  S3 bucket.  This development models the Go program under \<^verbatim>\<open>src/internal\<close> and
  \<^verbatim>\<open>src/cmd\<close>; this root theory states its properties, C1 to C40, over the definitions
  of the other theories.

  \<^bold>\<open>Conventions.\<close>  The state is the record \<open>world\<close> of theory World: the three tables, the keyspace, the
  bucket, the clock, the generator of identifiers, the redirect URI the token exchanger shares between
  requests, a counter of HTTP calls, and a schedule of failures.  A Go function of several results
  \<^verbatim>\<open>(T, error)\<close> that talks to the outside is \<open>'a io\<close>, a state transformer to \<open>gerror + 'a\<close>; one that does
  not is a HOL function into the sum.  Every call to a dependency takes one entry off the schedule:
  \<open>NoFault\<close>, \<open>Lost\<close> (it fails and has no effect) or \<open>Unacked\<close> (it takes effect and is reported as
  failed), so a theorem that does not restrict \<open>w_faults\<close> holds for every combination of failures.  An
  error is a value of \<open>gerror\<close> (theory Errors), wrapped as the source wraps it, with \<open>errors_Is\<close> and
  \<open>errors_As\<close>; a panic is such a value, which handlers pass on to the recovery middleware.  An interface
  value is a record of its methods; a pointer that may be nil is an option, and a nil pointer inside an
  interface value is a record whose method panics.  Strings are lists of bytes; case folding is that of
  ASCII.  There are two ways to run the program.  In theory Lifecycle (\<open>happens\<close> and \<open>reaches\<close>) requests are
  handled one at a time: a run is a list of events, and between two requests time may pass, cache entries
  may be evicted, allowlist entries may come and go and the failure schedule may change.  In theory
  Interleaving the requests that touch objects overlap: each is cut into turns, one for every call to
  Postgres, Redis or the bucket, the turns of all requests in flight are made in any order, and between two
  turns anything of the first kind may happen, authentication and the other requests included.

  \<^bold>\<open>The layers,\<close> from the bottom:
  \<^item> Prelude: the state monad with results, \<open>keeps\<close> and \<open>frames\<close>, strings of the Go library.  Messages: the
    texts of answers.  Json: documents and \<^verbatim>\<open>encoding/json\<close> for structs.  Net: escaping, queries, media types.
  \<^item> Errors, Domain: \<^verbatim>\<open>domain/\<close>; the value constructors, entities and sentinel errors, each constructor
    with the exact set of inputs it accepts.
  \<^item> World, Ports: the state, and the repository and store interfaces with their contracts as locales
    (\<open>lfs_object_repository\<close>, \<open>access_policy_repository\<close>, \<open>object_storage\<close>, \<open>cache_client\<close>, \<open>session_store\<close>,
    \<open>oauth_state_store\<close>); clients are proved inside the locales.
  \<^item> Postgres, Redis_Client, Sessions, Storage: \<^verbatim>\<open>infrastructure/postgres\<close>, \<^verbatim>\<open>redis\<close>, \<^verbatim>\<open>s3\<close>, \<^verbatim>\<open>url\<close>; each SQL
    statement and Redis command is one operation on the world, and each provider is an interpretation
    of its contract.  Caching: \<^verbatim>\<open>infrastructure/caching_*.go\<close>; the metadata cache over any repository and any
    cache client is again a repository (locale \<open>cached_objects\<close>), interpreted on the program's own.
  \<^item> Authorization, Batch_Api, Batch, Content_Transfer, Allowlist, Signin, Health: \<^verbatim>\<open>usecase/\<close>.
  \<^item> Github, Oauth: \<^verbatim>\<open>infrastructure/oidc\<close>; token verification, key sets, the code exchange, GitHub's API.
  \<^item> Http, Handlers, Access: \<^verbatim>\<open>handler/\<close>; requests, answers, the error handler, the endpoints, the
    authentication dispatcher, login, callback and the session page.
  \<^item> Program, Wiring: \<^verbatim>\<open>cmd/cargohold/main.go\<close> and \<^verbatim>\<open>internal/config\<close>; \<open>run_program\<close> builds the program from a
    configuration, \<open>serve\<close> is its routing table.
  \<^item> Settings, Server: the rest of these two.  \<open>Load\<close> reads the configuration from the environment by the struct
    tags; \<open>process_step\<close> is the life of the process, the serving goroutine, its error channel, the signal, the
    \<^verbatim>\<open>select\<close> and the shutdown, as a step relation.  Routing: the routes as the table that is registered, and the
    way of a URL the program hands out back to its handler.
  \<^item> Tasks, Turns, Concurrency, Interleaving: a request as the calls it has left to make, the use cases on objects
    cut into such turns (\<open>run_transfer_turns\<close>: alone they are the use cases), what every single call keeps whatever
    the others do, and the pool of all requests.  Races: three schedules in which requests get in each other's way.
  \<^item> Exclusion, Single_Use, Callbacks, Allow_Turns: a contract of turns under which at most one task of a pool wins (locale
    \<open>single_winner\<close>) and what late arrivals cannot get, how often a sign-in state can be used, the two halves of a sign-in as
    turns that meet the contract, and the lookup of the allowlist in turns.
  \<^item> Keygen: \<^verbatim>\<open>cmd/generate-test-keys\<close>, the key set it writes and the disk it writes to.  Nonces: the random states of
    \<^verbatim>\<open>oidc/oauth2_helpers.go\<close>, which nothing calls.
  \<^item> Logging, Transactions: \<^verbatim>\<open>logging/masking.go\<close>, \<^verbatim>\<open>middleware/log_masking.go\<close> and the request log of \<^verbatim>\<open>main.go\<close>;
    \<^verbatim>\<open>postgres/transaction.go\<close> (which nothing calls).

  \<^bold>\<open>The argument.\<close>  Lifecycle defines what a request, a run and a consistent world are, and the depot: an
  abstract store of objects with owner, size, uploaded flag and content, whose steps are the promise of an
  LFS server.  Every request of the program is one step of the depot, done in the name of a user who has
  signed in (C3, C5), from which C1, C2 and C4 follow by induction on runs.  C6 is what of this survives when
  requests overlap, by an invariant (\<open>held\<close>) and a relation that only grows (\<open>grown\<close>) proved call by call; C7
  ties the turns to the code and bounds every schedule; C8, C9 and C25 are what does not survive: which of two
  repositories owns a new object, whether a lookup sees an upload that was acknowledged, and which redirect URI
  a sign-in carries.  C10 to C14 say what each operation on objects does, in every world and for all failures;
  C15 says that without failures they succeed (theory Availability).  C16 to C18 are about ownership and values.
  C19 and C20 are about the caches: the second, with C27, needs a fact about every request the program can
  serve, which the locale \<open>request_frame\<close> of theory Frames proves once for any relation the primitive operations
  keep; theories Freshness and Single_Use interpret it.  C21 to C28 are about signing in, C29 to C32 about
  requests, answers and links (theories Answers, Routing), C33 to C35 about keys and sessions, C36 to C38 about the start, the end
  and the database, C39 and C40 about readiness and logs.  The theorems between them without a number show where
  the program promises less than it seems to.  Where a property has hypotheses it is followed by a witness that
  applies it to the concrete values of theory Samples.

  \<^bold>\<open>Parameters and hypotheses.\<close>  Code that is not in the repository is an argument: the HTTP client
  (\<open>http_Do\<close>), the reader of environment variables (of which \<open>documented_envconfig\<close> asks what its manual says of
  the tags \<^verbatim>\<open>default\<close> and \<^verbatim>\<open>required\<close>), the JWT library (\<open>jwt_Parse\<close>, of which \<open>jwt_library\<close> asks that a token it accepts was
  checked with the key its callback returned, and that it touches nothing else), URL and network prefix
  parsing, files and PEM blocks, the driver's transaction, and the router (of which \<open>documented_router\<close> asks that a
  path that fits one pattern alone goes to its handler).  \<open>wired\<close> says that a program's parts are those
  \<open>run_program\<close> puts together, and is proved of every program it builds (\<open>run_program_run\<close>).

  \<^bold>\<open>Bounds.\<close>  Nothing here needs fuel.  A request in a pool makes at most \<open>cost q\<close> calls, eight for each object of
  a batch and for an upload, five for a download, seven for a verification, counted over all its branches, and a sign-in or
  a callback at most six; the
  process makes at most seven steps.  All loops of the program run over finite lists and are structural
  recursions, and the parser of media types has a termination proof, as each parameter it reads shortens
  the rest.  Sizes are 64-bit where they are read from JSON (\<open>int64_range\<close>), the port and the size of the
  connection pool are words of 16 and 32 bits, and the exponent of a key is below \<open>2 ^ 63\<close>.

  \<^bold>\<open>Not modelled.\<close>  What a connection does below a request: HTTP framing, keep-alive, and the moment at which the
  timeouts of the server or of a proxied transfer cut a request (the timeouts themselves are in Server and
  Settings).  When requests on objects overlap, authentication, sign-in and the allowlist are single steps between their turns,
  and when sign-ins or lookups of the allowlist overlap (Callbacks, Allow_Turns) all other requests are; two of the
  statements of one SQL call do not overlap, as the database serializes them.  The deferred closing of the pool
  and of the Redis connection, the set-up of the logger, the end-to-end
  helpers and tests, signatures of presigned URLs, which no endpoint hands out, and the text of errors, an argument
  where the readiness answer and the log show it.  Getters, and constructors that only store their arguments, are
  the record fields and records themselves.
\<close>

section \<open>The running program\<close>

text \<open>C1. However the program is configured, once it has started on an empty deployment every world
  it can reach is consistent: the rows are well formed, the metadata cache is never ahead of the
  table, every object is stored under its generated key, and the bucket holds only contents of
  known objects, each of the announced size.  Outages, evictions and allowlist changes may happen
  at any point.\<close>

theorem program_stays_consistent:
  assumes "jwt_library (rt_jwt rt) verifies"
    and "run_state (run_program rt cfg) (initial_world now uuid faults) = (Inr (p, ip), w0)"
    and "reaches p w0 es w"
  shows "consistent w"
  using reaches_consistent [OF assms(1) _ assms(3)] run_program_run [OF assms(2)] quiet_consistent by auto

theorem program_stays_consistent_witness:
  "consistent (sample_world\<lparr>w_now := w_now sample_world + 5\<rparr>)"
proof (rule program_stays_consistent [OF sample_jwt sample_starts])
  show "reaches sample_program sample_world ([] @ [Tick 5]) (sample_world\<lparr>w_now := w_now sample_world + 5\<rparr>)"
    by (rule reaches.more [OF reaches.start]) simp
qed

text \<open>C2. As long as nobody calls the verify endpoint, content backs every object that is reported as
  uploaded: from a consistent world where that holds, as a fresh deployment is, every world the
  program can reach has, under the key of each uploaded object, a content of exactly the announced
  size.\<close>

theorem uploaded_means_content:
  assumes "jwt_library jwt_Parse verifies" and "wired http_Do jwt_Parse p"
    and "consistent w" and "backed w"
    and "reaches p w es w'" and "\<forall>e \<in> set es. \<not> confirms e"
    and "stored w' oid = Some d" and "lo_uploaded d"
  shows "\<exists>body. w_storage w' (GetStorageKey d) = Some body \<and> int (length body) = Size_Int64 (lo_size d)"
proof -
  have "consistent w'" "backed w'"
    using reaches_consistent [OF assms(1,2,5,3)] reaches_backed [OF assms(1,2,5,3,4,6)] by auto
  then have k: "keyed w'" "filed w'" "backed w'" by (simp_all add: consistent_def)
  then obtain body where body: "w_storage w' (GetStorageKey d) = Some body"
    using assms(7,8) unfolding backed_def by blast
  with k(2) obtain o' d' where "stored w' o' = Some d'" "GetStorageKey d' = GetStorageKey d"
    "int (length body) = Size_Int64 (lo_size d')" unfolding filed_def by metis
  moreover from this keyed_inj [OF k(1) _ assms(7)] assms(7) have "d' = d" by auto
  ultimately show ?thesis using body by auto
qed

theorem uploaded_means_content_witness:
  "\<exists>w d. stored w (OID sample_oid) = Some d \<and> lo_uploaded d \<and>
     (\<exists>body. w_storage w (GetStorageKey d) = Some body \<and> int (length body) = Size_Int64 (lo_size d))"
proof -
  obtain w d where w: "consistent w" "backed w" "stored w (OID sample_oid) = Some d" "lo_uploaded d"
    by (rule sample_uploaded)
  then have "stored (w\<lparr>w_now := w_now w + 1, w_faults := []\<rparr>) (OID sample_oid) = Some d" by (simp add: stored_def)
  from uploaded_means_content [OF sample_jwt sample_wired w(1,2) sample_reaches _ this w(4)] w(3,4)
  show ?thesis by (auto simp: confirms_def)
qed

text \<open>C3. The program refines the depot: every run of it, seen through depot_of, is a run of the
  specification, one act per event.\<close>

theorem program_refines_depot:
  assumes "jwt_library jwt_Parse verifies" and "wired http_Do jwt_Parse p" and "consistent w"
    and "reaches p w es w'"
  shows "\<exists>as. length as = length es \<and> depot_run (depot_of w) as (depot_of w')"
  using reaches_depot_run [OF assms(1,2,4,3)] .

theorem program_refines_depot_witness:
  "\<exists>as. length as = 2 \<and>
     depot_run (depot_of sample_world) as (depot_of (sample_world\<lparr>w_now := w_now sample_world + 1, w_faults := []\<rparr>))"
  using program_refines_depot [OF sample_jwt sample_wired initial_world_consistent [of 0 sample_uuid "[]"] sample_reaches]
  by (simp add: numeral_2_eq_2)

text \<open>C4. Nothing is taken back: along every run an owned object keeps its owner, a registered object
  its size, an uploaded object its flag, and content once present stays present.\<close>

theorem nothing_taken_back:
  assumes "jwt_library jwt_Parse verifies" and "wired http_Do jwt_Parse p" and "consistent w"
    and "reaches p w es w'"
  shows "(owner_of w oid = Some ri \<longrightarrow> owner_of w' oid = Some ri) \<and>
    (\<forall>d. stored w oid = Some d \<longrightarrow> (\<exists>d'. stored w' oid = Some d' \<and> lo_size d' = lo_size d \<and>
       (lo_uploaded d \<longrightarrow> lo_uploaded d') \<and>
       (w_storage w (GetStorageKey d) \<noteq> None \<longrightarrow> w_storage w' (GetStorageKey d') \<noteq> None)))"
proof -
  from reaches_depot_run [OF assms(1,2,4,3)] have e: "extends (depot_of w) (depot_of w')"
    using depot_run_extends by blast
  have "owner_of w oid = Some ri \<longrightarrow> owner_of w' oid = Some ri"
    using e unfolding extends_def map_le_def by (auto simp: dom_def)
  moreover have "\<exists>d'. stored w' oid = Some d' \<and> lo_size d' = lo_size d \<and> (lo_uploaded d \<longrightarrow> lo_uploaded d') \<and>
       (w_storage w (GetStorageKey d) \<noteq> None \<longrightarrow> w_storage w' (GetStorageKey d') \<noteq> None)" if d: "stored w oid = Some d" for d
  proof -
    from e d have "dp_size (depot_of w') oid = dp_size (depot_of w) oid" unfolding extends_def map_le_def
      by (metis depot_of_simps(2) domI option.simps(9))
    with d obtain d' where d': "stored w' oid = Some d'" "Size_Int64 (lo_size d') = Size_Int64 (lo_size d)"
      by (auto simp: map_option_case split: option.splits)
    then have "lo_size d' = lo_size d" by (cases "lo_size d"; cases "lo_size d'") simp
    moreover have "lo_uploaded d \<longrightarrow> lo_uploaded d'"
      using e d d'(1) unfolding extends_def by (metis depot_of_simps(4) option.inject subsetD)
    moreover have "oid \<in> dom (dp_body (depot_of w)) \<longrightarrow> oid \<in> dom (dp_body (depot_of w'))"
      using e unfolding extends_def by blast
    ultimately show ?thesis using d d'(1) by (auto simp: dom_def)
  qed
  ultimately show ?thesis by blast
qed

theorem nothing_taken_back_witness:
  "\<exists>w. owner_of w (OID sample_oid) = Some sample_repo \<and>
     owner_of (w\<lparr>w_now := w_now w + 1, w_faults := []\<rparr>) (OID sample_oid) = Some sample_repo"
proof -
  from sample_stored_witness obtain w where w: "consistent w" "owner_of w (OID sample_oid) = Some sample_repo" by blast
  from nothing_taken_back [OF sample_jwt sample_wired w(1) sample_reaches] w(2) show ?thesis by blast
qed



section \<open>Requests at the same time\<close>

text \<open>C6. Requests may overlap: whatever batches, transfers and verifications arrive at a consistent world,
  in whatever order their calls to Postgres, Redis and the bucket are made, and whatever else happens
  between two calls, the world stays consistent, every owner there was stays, nothing that was known is
  forgotten, and every answer given is true of the world: announced objects are known and owned, sent
  contents are there under an object reported as uploaded, fetched contents have the size of an uploaded
  object.  Without verify requests among them, content still backs every object reported as uploaded.\<close>

theorem served_at_once:
  assumes "wired http_Do jwt_Parse p" and "interleaved (requests b) (meanwhile p) [] w us v"
    and "consistent w" and "b \<Longrightarrow> backed w"
  shows "consistent v \<and> (b \<longrightarrow> backed v) \<and> owner_of w \<subseteq>\<^sub>m owner_of v \<and> grown w v \<and>
    (\<forall>q a. Done (q, a) \<in> set us \<longrightarrow> truth q a v)"
  using served_together [OF assms] unfolding held_def by blast

theorem served_at_once_witness:
  "\<exists>us v. interleaved (requests False) (meanwhile sample_program) [] sample_world us v \<and> consistent v \<and> Done (sample_send, Sent (Inr ())) \<in> set us \<and> owner_of v (OID sample_oid) = Some sample_repo \<and>
     put_truth (OID sample_oid) ''abc'' (Inr ()) v"
proof -
  obtain us v where us: "interleaved {} (meanwhile sample_program) sample_pool sample_world us v"
    "Done (sample_send, Sent (Inr ())) \<in> set us" "length us = 3" "owner_of v (OID sample_oid) = Some sample_repo"
    by (rule sample_schedule)
  note run = interleaved_from_start [OF us(1) sample_pool_requests]
  from served_at_once [OF sample_wired run]
  have "consistent v \<and> (\<forall>q a. Done (q, a) \<in> set us \<longrightarrow> truth q a v)" by auto
  with us(2) have "consistent v" "put_truth (OID sample_oid) ''abc'' (Inr ()) v" by fastforce+
  then show ?thesis using run us(2,4) by blast
qed

text \<open>C7. A request is cut into turns without changing what it does: alone, its turns are the use case of
  the program.  And every schedule comes to an end: a pool of requests makes at most eight calls for each
  object of a batch, eight for an upload, five for a download and seven for a verification, whatever
  happens to the world between them, and as long as an answer is missing some request can go on.\<close>

theorem schedules_end:
  "run_task (transfer_turns q) = serve_transfer q \<and>
   (after_turns (map in_flight qs) n us \<longrightarrow> n \<le> sum_list (map cost qs) \<and>
      (list_all finished us \<or> (\<forall>w. \<exists>us' w'. turn us w us' w')))"
proof (intro conjI impI run_transfer_turns)
  assume "after_turns (map in_flight qs) n us"
  from after_turns_bound [OF pool_calls this] show "n \<le> sum_list (map cost qs)" .
  show "list_all finished us \<or> (\<forall>w. \<exists>us' w'. turn us w us' w')"
    by (cases "list_all finished us") (simp_all add: turn_or_finished)
qed

theorem schedules_end_witness:
  "\<exists>us. after_turns (map in_flight [sample_send, Fetch ''octo'' ''assets'' (OID sample_oid)]) 1 us \<and> 1 \<le> (13 :: nat)"
proof -
  let ?ts = "map in_flight [sample_send, Fetch ''octo'' ''assets'' (OID sample_oid)]"
  have "list_all finished ?ts \<or> (\<forall>w. \<exists>us' w'. turn ?ts w us' w')"
    using schedules_end [of sample_send "[sample_send, Fetch ''octo'' ''assets'' (OID sample_oid)]" 0 ?ts] after_turns.no_turn by blast
  moreover have "\<not> list_all finished ?ts"
    by (simp add: in_flight_def proxy_upload_turns_def and_then_bind and_then_def sample_repo_def [symmetric])
  ultimately obtain us v where "turn ?ts sample_world us v" by blast
  then have t: "after_turns ?ts 1 us" using after_turns.one_more [OF after_turns.no_turn] by fastforce
  then have "1 \<le> sum_list (map cost [sample_send, Fetch ''octo'' ''assets'' (OID sample_oid)])" using schedules_end by blast
  with t show ?thesis by auto
qed

text \<open>C8. What overlapping requests cost: the check of an owner and the claim are two calls.  Two repositories
  announce the same new object, and the one checked first claims last: by then the other has been told the
  object is its own and has uploaded it, and both have been answered without an error.\<close>

theorem claims_overtake:
  assumes "w_faults w = []" and "sound_world w" and "stored w (OID oid) = None" and "oidPattern oid"
    and "valid_repository ra" and "length (FullName ra) \<le> 255" and "valid_repository rb" and "length (FullName rb) \<le> 255"
  shows "\<exists>us v us' v' b b'. let obj = \<lparr>ro_oid = oid, ro_size = int (length (body :: string))\<rparr>;
        send = Send (ri_owner ra) (ri_name ra) (OID oid) body in
    interleaved {} env [in_flight (announce ra obj), in_flight send, in_flight (announce rb obj)] w us v \<and>
    us ! 0 = Done (announce ra obj, Announced (Inr b)) \<and> us ! 1 = Done (send, Sent (Inr ())) \<and>
    owner_of v (OID oid) = Some ra \<and>
    interleaved {} env us v us' v' \<and> us' ! 2 = Done (announce rb obj, Announced (Inr b')) \<and>
    (\<forall>resp \<in> set (bs_objects b'). rs_error resp = None) \<and> owner_of v' (OID oid) = Some rb"
  unfolding Let_def by (rule overtaken [OF assms])

theorem claims_overtake_witness:
  "\<exists>us us' v v'. interleaved {} (meanwhile sample_program) sample_pool sample_world us v \<and>
     owner_of v (OID sample_oid) = Some sample_repo \<and>
     interleaved {} (meanwhile sample_program) us v us' v' \<and> owner_of v' (OID sample_oid) = Some other_repo"
proof -
  have start: "w_faults sample_world = []" "sound_world sample_world" "stored sample_world (OID sample_oid) = None" by simp_all
  from claims_overtake [OF start sample_oid_ok sample_repo_ok(1,2) other_repo_ok, of "''abc''" "meanwhile sample_program"]
  show ?thesis by (auto simp: Let_def sample_repo_def)
qed

text \<open>C9. A lookup that is overtaken hides an upload.  A download that reads the row of an announced object just
  before its upload, and writes what it read to the metadata cache just after, leaves an entry behind the
  table: the upload has been acknowledged and the content is in the bucket, and every later download, until
  the entry expires, is refused as not uploaded.\<close>

theorem overtaken_lookup_hides_upload:
  assumes "w_faults w = []" and "sound_world w" and "stored w oid = Some d" and "\<not> lo_uploaded d"
    and "valid_repository ri" and "owner_of w oid = Some ri" and "cache_hit w oid = None"
    and "int (length (body :: string)) = Size_Int64 (lo_size d)" and "int64_range (Size_Int64 (lo_size d))"
  shows "\<exists>us v v'. let send = Send (ri_owner ri) (ri_name ri) oid body in
    interleaved {} env [in_flight send, in_flight (fetch ri oid)] w us v \<and>
    us ! 0 = Done (send, Sent (Inr ())) \<and> list_all finished us \<and>
    (\<exists>d'. stored v oid = Some d' \<and> lo_uploaded d' \<and> w_storage v (GetStorageKey d') = Some body) \<and>
    run_state (program_download (ri_owner ri) (ri_name ri) oid) v = (Inl (Usecase UErrNotUploaded), v')"
  unfolding Let_def by (rule overtaken_lookup [OF assms])

theorem overtaken_lookup_hides_upload_witness:
  "\<exists>v v' d. stored v (OID sample_oid) = Some d \<and> lo_uploaded d \<and> w_storage v (GetStorageKey d) = Some ''abc'' \<and>
     run_state (program_download ''octo'' ''assets'' (OID sample_oid)) v = (Inl (Usecase UErrNotUploaded), v')"
proof -
  obtain w d where w: "w_faults w = []" "consistent w" "owner_of w (OID sample_oid) = Some sample_repo"
    "stored w (OID sample_oid) = Some d" "Size_Int64 (lo_size d) = 3" "\<not> lo_uploaded d" "cache_hit w (OID sample_oid) = None"
    by (rule sample_uncached)
  from overtaken_lookup_hides_upload [OF w(1) _ w(4,6) sample_repo_ok(1) w(3,7), of "''abc''" "meanwhile sample_program"] w(2,5)
  show ?thesis by (auto simp: Let_def consistent_def int64_range_def sample_repo_def)
qed

section \<open>The use cases\<close>

text \<open>C10. An upload batch in the name of a repository takes over no object of another repository,
  adds metadata only for objects not known before (not uploaded, under the generated key) and moves
  no content.  When it succeeds, it answers the requested objects in order, every object was owned by
  the repository or by nobody, and an object answered without an error is now the repository's and is
  either uploaded with that size or given exactly one upload link.\<close>

theorem batch_upload_effect:
  assumes "sound_world w" and "br_repository req = Some ri" and "valid_repository ri"
    and "run_state (uc_upload program_batch baseURL ow re req ah) w = (r, w')"
  shows "sound_world w' \<and>
    (\<forall>oid. owner_of w' oid = owner_of w oid \<or> owner_of w oid = None \<and> owner_of w' oid = Some ri) \<and>
    (\<forall>oid. stored w' oid = stored w oid \<or> stored w oid = None \<and>
       (\<exists>d. stored w' oid = Some d \<and> \<not> lo_uploaded d \<and> GenerateStorageKey (OID_String oid) ''sha256'' = Inr (GetStorageKey d))) \<and>
    w_storage w' = w_storage w \<and>
    (\<forall>b. r = Inr b \<longrightarrow> map rs_oid (bs_objects b) = map ro_oid (br_objects req) \<and>
       map rs_size (bs_objects b) = map ro_size (br_objects req) \<and>
       (\<forall>obj \<in> set (br_objects req). owner_of w (OID (ro_oid obj)) \<in> {None, Some ri}) \<and>
       (\<forall>resp \<in> set (bs_objects b). rs_error resp = None \<longrightarrow> owner_of w' (OID (rs_oid resp)) = Some ri \<and>
          (\<exists>d. stored w' (OID (rs_oid resp)) = Some d \<and> upload_answer resp d)))"
  using service.HandleBatchUpload_run [of w req ri NewProxyActionURLGenerator GenerateStorageKey baseURL ow re ah r w'] assms
  by (simp add: sound_world_def program_batch_def NewBatchUseCase_def pg_authorization_def upload_effect_def upload_granted_def)

theorem batch_upload_effect_witness:
  "\<exists>r w'. run_state (uc_upload program_batch [] [] [] (first_upload sample_repo \<lparr>ro_oid = sample_oid, ro_size = 3\<rparr>) [])
     sample_world = (r, w') \<and> w_storage w' = w_storage sample_world"
proof -
  have br: "br_repository (first_upload sample_repo \<lparr>ro_oid = sample_oid, ro_size = 3\<rparr>) = Some sample_repo"
    by (simp add: first_upload_def)
  obtain r w' where run: "run_state (uc_upload program_batch [] [] [] (first_upload sample_repo
      \<lparr>ro_oid = sample_oid, ro_size = 3\<rparr>) []) sample_world = (r, w')" by fastforce
  from batch_upload_effect [OF initial_world_sound br sample_repo_ok(1) run] run show ?thesis by blast
qed

text \<open>C11. A download batch changes nothing in the tables and the bucket; when it succeeds, every
  requested object belongs to the repository of the request, and an object answered without an error
  is uploaded and comes with one link, the proxy URL of its own identifier.\<close>

theorem batch_download_answer:
  assumes "sound_world w" and "run_state (uc_download program_batch baseURL ow re req ah) w = (r, w')"
  shows "sound_world w' \<and> stored w' = stored w \<and> owner_of w' = owner_of w \<and> w_storage w' = w_storage w \<and>
    (\<forall>b. r = Inr b \<longrightarrow> map rs_oid (bs_objects b) = map ro_oid (br_objects req) \<and>
       map rs_size (bs_objects b) = map ro_size (br_objects req) \<and>
       (\<forall>resp \<in> set (bs_objects b). br_repository req \<noteq> None \<and> owner_of w (OID (rs_oid resp)) = br_repository req \<and>
          (rs_error resp = None \<longrightarrow> (\<exists>d a u. stored w (OID (rs_oid resp)) = Some d \<and> lo_uploaded d \<and>
             rs_actions resp = Some a \<and> as_upload a = None \<and> as_download a = Some u \<and>
             ac_href u = GenerateDownloadURL baseURL ow re (rs_oid resp)))))"
  using service.HandleBatchDownload_run [of w NewProxyActionURLGenerator baseURL ow re req ah r w'] assms
  by (auto simp: sound_world_def program_batch_def NewBatchUseCase_def pg_authorization_def NewProxyActionURLGenerator_def)

theorem batch_download_answer_witness:
  "\<exists>r w'. run_state (uc_download program_batch [] [] [] (first_upload sample_repo \<lparr>ro_oid = sample_oid, ro_size = 3\<rparr>) [])
     sample_world = (r, w') \<and> stored w' = stored sample_world"
proof -
  obtain r w' where run: "run_state (uc_download program_batch [] [] [] (first_upload sample_repo
      \<lparr>ro_oid = sample_oid, ro_size = 3\<rparr>) []) sample_world = (r, w')" by fastforce
  from batch_download_answer [OF initial_world_sound run] run show ?thesis by blast
qed

text \<open>C12. A proxied upload puts content only under the key of the object it names, only of the
  object's size, and only for a repository that owns the object or may claim it; other entries and
  all owners stay.  When it reports success the object is uploaded and its content is the body.\<close>

theorem proxy_upload_effect:
  assumes "sound_world w" and "run_state (program_upload ow re oid body) w = (r, w')"
  shows "sound_world w' \<and> owner_of w' = owner_of w \<and> (\<forall>k. k \<noteq> oid \<longrightarrow> stored w' k = stored w k) \<and>
    (w_storage w' = w_storage w \<or> (\<exists>d. stored w oid = Some d \<and> int (length body) = Size_Int64 (lo_size d) \<and>
       w_storage w' = (w_storage w)(GetStorageKey d \<mapsto> body))) \<and>
    (w_storage w' \<noteq> w_storage w \<or> stored w' \<noteq> stored w \<or> r = Inr () \<longrightarrow>
       (\<exists>ri. NewRepositoryIdentifier (ow @ ''/'' @ re) = Inr ri \<and> owner_of w oid \<in> {None, Some ri})) \<and>
    (r = Inr () \<longrightarrow> (\<exists>d. stored w' oid = Some d \<and> lo_uploaded d \<and>
       w_storage w' (GetStorageKey d) = Some body \<and> int (length body) = Size_Int64 (lo_size d)))"
proof -
  have acc: "may_access w OperationUpload ri oid \<Longrightarrow> owner_of w oid \<in> {None, Some ri}" for ri
    by (auto simp: may_access_def)
  from transfers.ProxyUpload_run [of w ow re oid body r w'] assms
  have u: "sound_world w'" "put_effect oid body w w'"
    "w_storage w' \<noteq> w_storage w \<or> stored w' \<noteq> stored w \<or> r = Inr () \<longrightarrow>
       (\<exists>ri. NewRepositoryIdentifier (ow @ ''/'' @ re) = Inr ri \<and> may_access w OperationUpload ri oid)"
    "r = Inr () \<longrightarrow> (\<exists>d. stored w' oid = Some d \<and> lo_uploaded d \<and>
       w_storage w' (GetStorageKey d) = Some body \<and> int (length body) = Size_Int64 (lo_size d))"
    by (simp_all add: sound_world_def program_upload_def pg_authorization_def)
  moreover from u(2) have "owner_of w' = owner_of w" by (simp add: put_effect_def)
  moreover from u(2) have "\<forall>k. k \<noteq> oid \<longrightarrow> stored w' k = stored w k" by (auto simp: put_effect_def marked_def)
  moreover from u(2) have "w_storage w' = w_storage w \<or> (\<exists>d. stored w oid = Some d \<and>
      int (length body) = Size_Int64 (lo_size d) \<and> w_storage w' = (w_storage w)(GetStorageKey d \<mapsto> body))"
    unfolding put_effect_def by blast
  ultimately show ?thesis using acc by blast
qed

theorem proxy_upload_effect_witness:
  "\<exists>w r w'. run_state (program_upload ''octo'' ''assets'' (OID sample_oid) ''abc'') w = (r, w') \<and> r = Inr () \<and>
     (\<exists>d. stored w' (OID sample_oid) = Some d \<and> w_storage w' (GetStorageKey d) = Some ''abc'')"
proof -
  from sample_stored_witness obtain w d where w: "consistent w" "w_faults w = []"
    "owner_of w (OID sample_oid) = Some sample_repo" "stored w (OID sample_oid) = Some d" "Size_Int64 (lo_size d) = 3" by blast
  then have s: "sound_world w" by (simp add: consistent_def)
  obtain w' where run: "run_state (program_upload ''octo'' ''assets'' (OID sample_oid) ''abc'') w = (Inr (), w')"
    by (rule upload_available [OF w(2) s w(4), of "''octo''" "''assets''" sample_repo "''abc''"])
      (use w(3,5) in \<open>simp_all add: may_access_def\<close>)
  from proxy_upload_effect [OF s run] run show ?thesis by blast
qed

text \<open>C13. A proxied download changes nothing, and what it delivers is the content under the key of
  an uploaded object, with the object's size, to the repository that owns it.\<close>

theorem proxy_download_content:
  assumes "sound_world w" and "run_state (program_download ow re oid) w = (r, w')"
  shows "sound_world w' \<and> stored w' = stored w \<and> owner_of w' = owner_of w \<and> w_storage w' = w_storage w \<and>
    (\<forall>body n. r = Inr (body, n) \<longrightarrow> (\<exists>ri d. NewRepositoryIdentifier (ow @ ''/'' @ re) = Inr ri \<and>
       owner_of w oid = Some ri \<and> stored w oid = Some d \<and> lo_uploaded d \<and> n = Size_Int64 (lo_size d) \<and>
       w_storage w (GetStorageKey d) = Some body))"
  using transfers.ProxyDownload_run [of w ow re oid r w'] assms
  by (simp add: sound_world_def program_download_def pg_authorization_def)

theorem proxy_download_content_witness:
  "\<exists>r w'. run_state (program_download ''octo'' ''assets'' (OID sample_oid)) sample_world = (r, w') \<and>
     stored w' = stored sample_world"
proof -
  obtain r w' where run: "run_state (program_download ''octo'' ''assets'' (OID sample_oid)) sample_world = (r, w')" by fastforce
  from proxy_download_content [OF initial_world_sound run] run show ?thesis by blast
qed

text \<open>C14. Verification changes nothing but the uploaded flag of the object it names, and only if the
  announced size is the registered one; it reports success exactly then, with the object reported as
  uploaded.\<close>

theorem verify_effect:
  assumes "sound_world w" and "run_state (program_verify oid sz) w = (r, w')"
  shows "sound_world w' \<and> owner_of w' = owner_of w \<and> w_storage w' = w_storage w \<and>
    (stored w' = stored w \<or> (\<exists>d d'. stored w (OID oid) = Some d \<and> Size_Int64 (lo_size d) = sz \<and> same_object d' d \<and>
       lo_uploaded d' \<and> stored w' = (stored w)(OID oid \<mapsto> d'))) \<and>
    (r = Inr () \<longrightarrow> oidPattern oid \<and> (\<exists>d. stored w' (OID oid) = Some d \<and> lo_uploaded d \<and> Size_Int64 (lo_size d) = sz))"
  using transfers.VerifyUpload_run [of w oid sz r w'] assms
  by (auto simp: sound_world_def program_verify_def marked_def)

theorem verify_effect_witness:
  "\<exists>w r w'. run_state (program_verify sample_oid 3) w = (r, w') \<and> r = Inr () \<and>
     (\<exists>d. stored w' (OID sample_oid) = Some d \<and> lo_uploaded d)"
proof -
  from sample_stored_witness obtain w d where w: "consistent w" "w_faults w = []"
    "stored w (OID sample_oid) = Some d" "Size_Int64 (lo_size d) = 3" by blast
  then have s: "sound_world w" by (simp add: consistent_def)
  from verify_available [OF w(2) s w(3,4)] obtain w' where run: "run_state (program_verify sample_oid 3) w = (Inr (), w')" .
  from verify_effect [OF s run] run show ?thesis by blast
qed

section \<open>Progress\<close>

text \<open>C15. An object makes the round trip: when nothing fails, a repository that asks to upload an
  object nobody knows gets one upload link, the body sent through the proxy is accepted, and the
  download through the proxy delivers that body, of its length.\<close>

theorem object_round_trip:
  assumes "w_faults w = []" and "sound_world w" and "stored w (OID oid) = None" and "oidPattern oid"
    and "valid_repository ri" and "length (FullName ri) \<le> 255"
  shows "\<exists>b w1 w2 w3. run_state (uc_upload program_batch baseURL (ri_owner ri) (ri_name ri)
      (first_upload ri \<lparr>ro_oid = oid, ro_size = int (length body)\<rparr>) ah) w = (Inr b, w1) \<and>
    (\<exists>resp a u. bs_objects b = [resp] \<and> rs_actions resp = Some a \<and> as_upload a = Some u \<and>
       ac_href u = GenerateUploadURL baseURL (ri_owner ri) (ri_name ri) oid) \<and>
    run_state (program_upload (ri_owner ri) (ri_name ri) (OID oid) body) w1 = (Inr (), w2) \<and>
    run_state (program_download (ri_owner ri) (ri_name ri) (OID oid)) w2 = (Inr (body, int (length body)), w3)"
proof -
  let ?obj = "\<lparr>ro_oid = oid, ro_size = int (length body)\<rparr>"
  have ri: "NewRepositoryIdentifier (ri_owner ri @ ''/'' @ ri_name ri) = Inr ri"
    using NewRepositoryIdentifier_FullName [OF assms(5)] by (simp add: FullName_def)
  obtain b w1 d where batch: "run_state (uc_upload program_batch baseURL (ri_owner ri) (ri_name ri) (first_upload ri ?obj) ah) w = (Inr b, w1)"
    and w1: "w_faults w1 = []" "sound_world w1" "owner_of w1 (OID oid) = Some ri" "stored w1 (OID oid) = Some d"
      "Size_Int64 (lo_size d) = int (length body)"
    and link: "\<exists>resp a u. bs_objects b = [resp] \<and> rs_actions resp = Some a \<and> as_upload a = Some u \<and>
       ac_href u = GenerateUploadURL baseURL (ri_owner ri) (ri_name ri) oid"
    by (rule batch_available [where obj = ?obj and w = w and ri = ri and ow = "ri_owner ri" and re = "ri_name ri"
        and baseURL = baseURL and ah = ah]) (use assms in auto)
  obtain w2 where up: "run_state (program_upload (ri_owner ri) (ri_name ri) (OID oid) body) w1 = (Inr (), w2)"
    and w2: "w_faults w2 = []" "fresh w2 (OID oid)"
    by (rule upload_available [OF w1(1,2,4) ri]) (simp_all add: may_access_def w1)
  from transfers.ProxyUpload_run [of w1 "ri_owner ri" "ri_name ri" "OID oid" body "Inr ()" w2] up w1(2)
  obtain d' where u: "sound_world w2" "put_effect (OID oid) body w1 w2" "stored w2 (OID oid) = Some d'" "lo_uploaded d'"
    "w_storage w2 (GetStorageKey d') = Some body" "int (length body) = Size_Int64 (lo_size d')"
    by (auto simp: sound_world_def program_upload_def pg_authorization_def)
  have "owner_of w2 (OID oid) = Some ri" using u(2) w1(3) by (simp add: put_effect_def)
  then obtain w3 where "run_state (program_download (ri_owner ri) (ri_name ri) (OID oid)) w2 =
      (Inr (body, Size_Int64 (lo_size d')), w3)"
    by (rule download_available [OF w2(1) u(1,3,4) w2(2) ri _ u(5)])
  then show ?thesis using batch link up u(6) by auto
qed

theorem object_round_trip_witness:
  "\<exists>w2 w3. run_state (program_download ''octo'' ''assets'' (OID sample_oid)) w2 = (Inr (''abc'', 3), w3)"
proof -
  have "w_faults sample_world = []" by simp
  from object_round_trip [OF this initial_world_sound _ _ sample_repo_ok(1,2), of sample_oid "[]" "''abc''" "[]"]
  show ?thesis by (auto simp: sample_repo_def)
qed

section \<open>Who may touch an object\<close>

text \<open>C16. The authorization service decides the rule: it lets an operation through only if the
  repository owns the object, or, for an upload, if nobody does; it denies only what the rule
  denies; and when the policy store answers it does not fail otherwise.\<close>

theorem authorization_decides_rule:
  assumes "wf_policies w" and "run_state (Authorize NewAccessPolicyRepository oper (Some ri) oid) w = (r, w')"
  shows "(\<forall>res. r = Inr res \<longrightarrow> may_access w oper ri oid \<and> auth_Allowed res \<and> (auth_IsNewObject res \<longleftrightarrow> owner_of w oid = None)) \<and>
    (r = Inl (Domain ErrAuthorizationDenied) \<longrightarrow> \<not> may_access w oper ri oid) \<and>
    (w_faults w = [] \<longrightarrow> (may_access w oper ri oid \<longleftrightarrow> (\<exists>res. r = Inr res)))"
proof (intro conjI)
  show s: "\<forall>res. r = Inr res \<longrightarrow> may_access w oper ri oid \<and> auth_Allowed res \<and> (auth_IsNewObject res \<longleftrightarrow> owner_of w oid = None)"
    using pg_policies.Authorize_sound [OF assms(1)] assms(2) by blast
  show "r = Inl (Domain ErrAuthorizationDenied) \<longrightarrow> \<not> may_access w oper ri oid"
    using pg_policies.Authorize_denied [OF assms(1) _ pg_policy_honest [OF assms(1)]] assms(2) by blast
  have "\<exists>res. r = Inr res" if "w_faults w = []" "may_access w oper ri oid"
  proof -
    from check_calm [OF that(1) assms(1) that(2)] obtain res where
      "run_state (CheckAuthorization pg_authorization oper (Some ri) oid) w = (Inr res, w)" by blast
    with pg_policies.CheckAuthorization_run [of oper "Some ri" oid w "Inr res" w] assms(2)
    show ?thesis by (auto simp: pg_authorization_def)
  qed
  with s show "w_faults w = [] \<longrightarrow> (may_access w oper ri oid \<longleftrightarrow> (\<exists>res. r = Inr res))" by blast
qed

theorem authorization_decides_rule_witness:
  "\<exists>res w'. run_state (Authorize NewAccessPolicyRepository OperationUpload (Some sample_repo) (OID sample_oid)) sample_world = (Inr res, w')"
proof -
  obtain r w' where run: "run_state (Authorize NewAccessPolicyRepository OperationUpload (Some sample_repo) (OID sample_oid)) sample_world = (r, w')"
    by fastforce
  have "wf_policies sample_world" using initial_world_sound [of 0 sample_uuid "[]"] by (simp add: sound_world_def)
  from authorization_decides_rule [OF this run] show ?thesis
    using run by (auto simp: may_access_def)
qed

text \<open>A claim is not checked when it is written: the policy a batch upload saves for a new object
  replaces the owner, so a claim decided before another repository's claim and written after it takes
  the object over.\<close>

theorem late_claim_takes_over:
  assumes "w_faults w = []" and "sound_world w" and "stored w (OID oid) = Some d" and "owner_of w (OID oid) = Some other"
    and "valid_repository ri" and "length (FullName ri) \<le> 255"
  shows "\<exists>w'. run_state (createAccessPolicy NewAccessPolicyRepository (OID oid) (Some ri)) w = (Inr (), w') \<and>
    owner_of w' = (owner_of w)(OID oid \<mapsto> ri)"
proof -
  have good: "coherent_world w" "wf_policies w" using assms(2) by (simp_all add: sound_world_def)
  have oid: "oidPattern oid" using metadata.stored_wf [OF good(1) assms(3)] by (simp add: wf_object_def)
  have "w_objects w oid \<noteq> None" using assms(3) by (auto simp: stored_def)
  with oid obtain w' where run: "run_state (createAccessPolicy NewAccessPolicyRepository (OID oid) (Some ri)) w = (Inr (), w')"
    using policy_save_calm [OF assms(1) _ _ assms(6), of "OID oid"] by auto
  with service.create_policy [OF good assms(5) _ run] oid show ?thesis by auto
qed

theorem late_claim_takes_over_witness:
  "\<exists>w w' ri. owner_of w (OID sample_oid) = Some sample_repo \<and> owner_of w' (OID sample_oid) = Some ri \<and> ri \<noteq> sample_repo \<and>
     run_state (createAccessPolicy NewAccessPolicyRepository (OID sample_oid) (Some ri)) w = (Inr (), w')"
proof -
  let ?ri = "\<lparr>ri_owner = ''mallory'', ri_name = ''x''\<rparr>"
  from sample_stored_witness obtain w d where w: "consistent w" "w_faults w = []"
    "owner_of w (OID sample_oid) = Some sample_repo" "stored w (OID sample_oid) = Some d" by blast
  then have s: "sound_world w" by (simp add: consistent_def)
  have ri: "valid_repository ?ri" "length (FullName ?ri) \<le> 255" "?ri \<noteq> sample_repo"
    by (simp_all add: valid_repository_def FullName_def sample_repo_def)
  from late_claim_takes_over [OF w(2) s w(4,3) ri(1,2)] obtain w' where
    "run_state (createAccessPolicy NewAccessPolicyRepository (OID sample_oid) (Some ?ri)) w = (Inr (), w')"
    "owner_of w' (OID sample_oid) = Some ?ri" by auto
  with w(3) ri(3) show ?thesis by blast
qed

text \<open>Verification asks only the metadata: for an object whose content never arrived, a verify
  request that repeats the announced size succeeds, and reports the object as uploaded without
  content.\<close>

theorem verify_marks_without_content:
  assumes "w_faults w = []" and "sound_world w" and "stored w (OID oid) = Some d" and "w_storage w (GetStorageKey d) = None"
  shows "\<exists>w' d'. run_state (program_verify oid (Size_Int64 (lo_size d))) w = (Inr (), w') \<and>
    stored w' (OID oid) = Some d' \<and> lo_uploaded d' \<and> w_storage w' (GetStorageKey d') = None"
proof -
  from verify_available [OF assms(1-3) refl] obtain w' where
    run: "run_state (program_verify oid (Size_Int64 (lo_size d))) w = (Inr (), w')" "w_storage w' = w_storage w" .
  from transfers.VerifyUpload_run [of w oid "Size_Int64 (lo_size d)" "Inr ()" w'] run(1) assms(2)
  obtain d' where d': "stored w' (OID oid) = Some d'" "lo_uploaded d'" and "stored w' = stored w \<or> marked (OID oid) w w'"
    by (auto simp: sound_world_def program_verify_def)
  then have "GetStorageKey d' = GetStorageKey d"
    using assms(3) by (auto simp: marked_def same_object_def getter_simps)
  with run d' assms(4) show ?thesis by auto
qed

theorem verify_marks_without_content_witness:
  "\<exists>w' d'. stored w' (OID sample_oid) = Some d' \<and> lo_uploaded d' \<and> w_storage w' (GetStorageKey d') = None"
proof -
  obtain w d where w: "w_faults w = []" "sound_world w" "stored w (OID sample_oid) = Some d"
      "w_storage w (GetStorageKey d) = None"
    by (rule sample_announced)
  from verify_marks_without_content [OF w] show ?thesis by blast
qed



text \<open>C18. What the program reads back of an object is always a valid value: from a consistent world, as a
  fresh deployment is, in every world the program can reach a lookup that finds something yields the object asked for, with a well-formed identifier, a size that
  is not negative, SHA-256 as its hash algorithm, and the storage key its identifier generates.\<close>

theorem lookups_well_typed:
  assumes "jwt_library jwt_Parse verifies" and "wired http_Do jwt_Parse p"
    and "consistent w0" and "reaches p w0 es w" and "run_state (repo_FindByOID cached_repository oid) w = (Inr obj, w')"
  shows "lo_oid obj = oid \<and> oidPattern (OID_String oid) \<and> 0 \<le> Size_Int64 (lo_size obj) \<and>
    lo_hashAlgo obj = HashAlgorithm ''sha256'' \<and> GenerateStorageKey (OID_String oid) ''sha256'' = Inr (GetStorageKey obj)"
proof -
  have "consistent w" by (rule reaches_consistent [OF assms(1,2,4,3)])
  then have good: "coherent_world w" and key: "keyed w" by (simp_all add: consistent_def sound_world_def)
  from metadata.find_sound [OF good assms(5)] obtain d where d: "stored w oid = Some d" "same_object obj d" "lo_oid obj = oid"
    unfolding behind_def by auto
  with metadata.stored_wf [OF good d(1)] key show ?thesis
    by (auto simp: keyed_def wf_object_def same_object_def getter_simps)
qed

theorem lookups_well_typed_witness:
  "\<exists>w obj w'. run_state (repo_FindByOID cached_repository (OID sample_oid)) w = (Inr obj, w') \<and>
     GenerateStorageKey sample_oid ''sha256'' = Inr (GetStorageKey obj)"
proof -
  obtain w d where w: "w_faults w = []" "consistent w" "stored w (OID sample_oid) = Some d" by (rule sample_registered)
  let ?w = "w\<lparr>w_now := w_now w + 1, w_faults := []\<rparr>"
  have c: "consistent ?w" by (rule reaches_consistent [OF sample_jwt sample_wired sample_reaches w(2)])
  then have good: "coherent_world ?w" by (simp add: consistent_def sound_world_def)
  have "stored ?w (OID sample_oid) = Some d" using w(3) by (simp add: stored_def)
  then obtain obj w' where find: "run_state (repo_FindByOID cached_repository (OID sample_oid)) ?w = (Inr obj, w')"
    by (rule cached_find_uploaded [OF _ good, rotated]) auto
  from lookups_well_typed [OF sample_jwt sample_wired w(2) sample_reaches find] find show ?thesis by auto
qed

section \<open>Caches\<close>

text \<open>C19. The cache in front of the metadata table is transparent: a lookup changes neither the table
  nor the cache's agreement with it, what it finds is the stored object (at most behind it in the
  uploaded flag), it reports nothing as missing that is stored, and without failures it finds
  exactly the stored objects.\<close>

theorem cached_lookup_agrees:
  assumes "coherent_world w" and "run_state (repo_FindByOID cached_repository oid) w = (r, w')"
  shows "coherent_world w' \<and> stored w' = stored w \<and>
    (\<forall>obj. r = Inr obj \<longrightarrow> (\<exists>d. stored w oid = Some d \<and> same_object obj d \<and> (lo_uploaded obj \<longrightarrow> lo_uploaded d))) \<and>
    (\<forall>e. r = Inl e \<longrightarrow> errors_Is e (Domain ErrNotFound) \<longrightarrow> stored w oid = None) \<and>
    (w_faults w = [] \<longrightarrow> (stored w oid = None \<longleftrightarrow> r = Inl (Domain ErrNotFound)))"
proof -
  have "r = Inl (Domain ErrNotFound)" if "w_faults w = []" "stored w oid = None"
    using cached_find_calm [OF that(1), of oid] metadata.good_wf [OF assms(1)] cache_hit_stored [OF assms(1) that(2)] that(2) assms(2)
    by simp
  moreover have "\<exists>obj. r = Inr obj" if "w_faults w = []" "stored w oid = Some d" for d
    using cached_find_uploaded [OF that(1) assms(1) that(2)] assms(2) by fastforce
  moreover have "\<exists>d. stored w oid = Some d \<and> same_object obj d \<and> (lo_uploaded obj \<longrightarrow> lo_uploaded d)" if "r = Inr obj" for obj
    using metadata.find_sound [OF assms(1)] assms(2) that unfolding behind_def by blast
  moreover have "stored w oid = None" if "r = Inl e" "errors_Is e (Domain ErrNotFound)" for e
    using metadata.find_missing [OF assms(1)] assms(2) that by blast
  ultimately show ?thesis using metadata.find_state [OF assms] by (cases "stored w oid") auto
qed

theorem cached_lookup_agrees_witness:
  "\<exists>w obj w'. run_state (repo_FindByOID cached_repository (OID sample_oid)) w = (Inr obj, w') \<and>
     (\<exists>d. stored w (OID sample_oid) = Some d \<and> same_object obj d)"
proof -
  obtain w d where w: "w_faults w = []" "consistent w" "stored w (OID sample_oid) = Some d" by (rule sample_registered)
  then have good: "coherent_world w" by (simp add: consistent_def sound_world_def)
  obtain obj w' where run: "run_state (repo_FindByOID cached_repository (OID sample_oid)) w = (Inr obj, w')"
    by (rule cached_find_uploaded [OF w(1) good w(3)])
  from cached_lookup_agrees [OF good run] run show ?thesis by blast
qed

text \<open>C20. Taking a repository off the allowlist takes effect, also when lookups overlap.  A lookup is cut into its
  calls, three at most, and alone is the lookup of the program.  After a removal, and with lookups that begin after it, whatever
  the order of their calls and whatever requests, failures and evictions happen between them, short of putting
  the repository back: no lookup that begins once the time to live of a cached answer has passed lets it in.\<close>

theorem removal_outlasts_lookups:
  assumes "jwt_library jwt_Parse verifies" and "wired http_Do jwt_Parse p" and "allow_entries_fresh w"
    and "run_state (allowlist_Remove cached_allowlist (Some ar)) w = (Inr (), w1)"
    and "set ts \<subseteq> range asking"
    and "interleaved (range asking) (\<lambda>x y. \<exists>e. happens p x e y \<and> \<not> readmits ar e) ts w1 us v"
    and "w_now w1 + repositoryCacheTTL \<le> w_now v"
    and "interleaved (range asking) (\<lambda>x y. \<exists>e. happens p x e y \<and> \<not> readmits ar e) us v us' v'"
    and "length us \<le> i" "i < length us'" "us' ! i = Done (ar, r)"
  shows "run_task (allowed_turns ar) = allowlist_IsAllowed cached_allowlist (Some ar) \<and> at_most (asking ar) 3 \<and> r \<noteq> Inr True"
  using stays_refused [OF assms(1,2) _ removed_settled [OF assms(3,4)] assms(5-11)] run_allowed_turns asking_calls by simp

theorem removal_outlasts_lookups_witness:
  "\<exists>w us v r. interleaved (range asking) (\<lambda>x y. \<exists>e. happens sample_program x e y \<and> \<not> readmits sample_allowed e) [] w us v \<and>
     us = [Done (sample_allowed, r)] \<and> r \<noteq> Inr True"
proof -
  let ?env = "\<lambda>x y. \<exists>e. happens sample_program x e y \<and> \<not> readmits sample_allowed e"
  obtain w1 where rem: "run_state (allowlist_Remove cached_allowlist (Some sample_allowed)) listed_world = (Inr (), w1)"
    by (rule listed_world_removed)
  let ?w2 = "w1\<lparr>w_now := w_now w1 + repositoryCacheTTL\<rparr>"
  have "?env w1 ?w2" by (rule exI [of _ "Tick repositoryCacheTTL"]) (simp add: readmits_def less_imp_le)
  with interleaved.still have before: "interleaved (range asking) ?env [] w1 [] ?w2" by (rule interleaved.moves)
  obtain r w3 where "run_state (run_task (asking sample_allowed)) ?w2 = ((sample_allowed, r), w3)" by (rule asking_answers)
  with interleaved_rest [OF interleaved.arrives [OF interleaved.still rangeI], of 0 "[]" asking sample_allowed]
  have after: "interleaved (range asking) ?env [] ?w2 [Done (sample_allowed, r)] w3" by simp
  from removal_outlasts_lookups [OF sample_jwt sample_wired listed_world_fresh rem _ before _ after, of 0 r]
  have "r \<noteq> Inr True" by simp
  with after show ?thesis by blast
qed

text \<open>A lookup that has read the table before the removal is not covered: it writes its answer to the cache after
  it, and the repository is let in for another time to live, although the removal succeeded.\<close>

theorem lookup_overtaken_by_removal:
  assumes "w_faults w = []" and "listed w ar" and "redis_live w (allow_key ar) = None"
  shows "\<exists>v. interleaved {} (\<lambda>x y. run_state (allowlist_Remove cached_allowlist (Some ar)) x = (Inr (), y)) [asking ar] w
      [Done (ar, Inr True)] v \<and> \<not> listed v ar \<and> w_now v = w_now w \<and>
    (\<forall>d. 0 \<le> d \<and> d < repositoryCacheTTL \<longrightarrow>
       fst (run_state (allowlist_IsAllowed cached_allowlist (Some ar)) (v\<lparr>w_now := w_now v + d\<rparr>)) = Inr True)"
  by (rule overtaken_check [OF assms])

theorem lookup_overtaken_by_removal_witness:
  "\<exists>v. \<not> listed v sample_allowed \<and> fst (run_state (allowlist_IsAllowed cached_allowlist (Some sample_allowed)) v) = Inr True"
proof -
  have "w_faults listed_world = []" "listed listed_world sample_allowed" "redis_live listed_world (allow_key sample_allowed) = None"
    by (simp_all add: listed_def redis_live_def initial_world_def)
  from lookup_overtaken_by_removal [OF this] obtain v where v: "\<not> listed v sample_allowed"
    "\<forall>d. 0 \<le> d \<and> d < repositoryCacheTTL \<longrightarrow>
       fst (run_state (allowlist_IsAllowed cached_allowlist (Some sample_allowed)) (v\<lparr>w_now := w_now v + d\<rparr>)) = Inr True" by blast
  from v(2) [rule_format, of 0] have "fst (run_state (allowlist_IsAllowed cached_allowlist (Some sample_allowed)) v) = Inr True"
    by (simp add: repositoryCacheTTL_def Minute_def Second_def)
  with v(1) show ?thesis by blast
qed

text \<open>The same for requests one at a time, as a run of the program.\<close>

theorem removal_takes_effect:
  assumes "jwt_library jwt_Parse verifies" and "wired http_Do jwt_Parse p" and "allow_entries_fresh w"
    and "run_state (allowlist_Remove cached_allowlist (Some ar)) w = (Inr (), w1)"
    and "reaches p w1 es w2" and "\<forall>e \<in> set es. \<not> readmits ar e"
    and "w_now w1 + repositoryCacheTTL \<le> w_now w2"
    and "run_state (allowlist_IsAllowed cached_allowlist (Some ar)) w2 = (r, w3)"
  shows "r \<noteq> Inr True"
  using settled_refused [OF reaches_settled [OF assms(1,2,5) removed_settled [OF assms(3,4)] assms(6)] assms(7,8)] .

theorem removal_takes_effect_witness:
  "\<exists>w r w'. run_state (allowlist_IsAllowed cached_allowlist (Some sample_allowed)) w = (r, w') \<and> r \<noteq> Inr True"
proof -
  obtain w1 where rem: "run_state (allowlist_Remove cached_allowlist (Some sample_allowed)) listed_world = (Inr (), w1)"
    by (rule listed_world_removed)
  let ?w2 = "w1\<lparr>w_now := w_now w1 + repositoryCacheTTL\<rparr>"
  have run: "reaches sample_program w1 ([] @ [Tick repositoryCacheTTL]) ?w2"
    by (rule reaches.more [OF reaches.start]) (simp add: less_imp_le)
  obtain r w3 where ask: "run_state (allowlist_IsAllowed cached_allowlist (Some sample_allowed)) ?w2 = (r, w3)" by fastforce
  have "r \<noteq> Inr True"
    by (rule removal_takes_effect [OF sample_jwt sample_wired listed_world_fresh rem run _ _ ask]) (simp_all add: readmits_def)
  with ask show ?thesis by blast
qed

section \<open>Signing in\<close>

text \<open>C21. A GitHub Actions token that signs in carries the evidence: a valid signature under an RSA key
  of the issuer's key set, the issuer and the audience; and the user acts for the repository the
  token names, which the allowlist, or an answer it gave within the last minutes, vouches for.\<close>

theorem token_sign_in_sound:
  assumes "jwt_library jwt_Parse verifies" and "op_cacheClient prov = redis_jwks_cache"
    and "run_state (AuthenticateGitHubOIDC (program_auth http_Do jwt_Parse (Some prov)) tok) w = (Inr u, w')"
  shows "\<exists>claims ri. evidence http_Do verifies w prov tok claims \<and>
    claim_string claims ''sub'' = Some (ui_sub u) \<and> ui_sub u \<noteq> [] \<and>
    claim_string claims ''repository'' = Some (FullName ri) \<and> ui_repository u = Some ri \<and>
    (vouched w \<lparr>ar_identifier = ri\<rparr> \<or> listed w \<lparr>ar_identifier = ri\<rparr>) \<and>
    ui_permissions u = Some (NewRepositoryPermissions True True True True True)"
proof -
  have "run_state (GitHubOIDC_Authenticate (oidc_interface http_Do jwt_Parse (Some prov)) cached_allowlist tok) w = (Inr u, w')"
    using assms(3) by (simp add: AuthenticateGitHubOIDC_def program_auth_def NewAuthUseCase_def)
  from allowlist.GitHubOIDC_sound [OF this] obtain g w1 ri where
    g: "run_state (VerifyIDToken http_Do jwt_Parse (Some prov) tok) w = (Inr (Some g), w1)"
    and u: "NewRepositoryIdentifier (gh_repository g) = Inr ri" "ui_sub u = gh_sub g" "ui_sub u \<noteq> []"
      "ui_repository u = Some ri" "ui_permissions u = Some (NewRepositoryPermissions True True True True True)"
    and v: "vouched w1 \<lparr>ar_identifier = ri\<rparr> \<or> listed w1 \<lparr>ar_identifier = ri\<rparr>"
    by (auto simp: oidc_interface_def)
  have "refreshed w w1" using framesD [OF freshness.frame_VerifyIDToken [OF assms(1)] g] assms(2) by simp
  then have "vouched w \<lparr>ar_identifier = ri\<rparr> \<or> listed w \<lparr>ar_identifier = ri\<rparr>" using v by (rule refreshed_trusted)
  moreover from VerifyIDToken_run [OF assms(1,2) g] obtain claims where "evidence http_Do verifies w prov tok claims"
    "claim_string claims ''sub'' = Some (gh_sub g)" "claim_string claims ''repository'' = Some (gh_repository g)" by auto
  moreover have "gh_repository g = FullName ri" using u(1) by (simp add: NewRepositoryIdentifier_Inr)
  ultimately show ?thesis using u by auto
qed

theorem token_sign_in_sound_witness:
  "\<exists>(u :: UserInfo) claims. evidence sample_http sample_verifies listed_world sample_oidc ''t'' claims \<and>
     claim_string claims ''sub'' = Some (ui_sub u)"
proof -
  obtain u w' where run: "run_state (AuthenticateGitHubOIDC (program_auth sample_http sample_parse (Some sample_oidc)) ''t'')
      listed_world = (Inr u, w')" using sample_signs_in by blast
  have "op_cacheClient sample_oidc = redis_jwks_cache" by (simp add: sample_oidc_def)
  from token_sign_in_sound [OF sample_parse_library this run] show ?thesis by blast
qed

text \<open>C22. With OIDC switched off, a request with a bearer token is not turned away: the nil provider
  sits in a non-nil interface, and every protected route panics (a reply with status 500) instead of
  answering 401, which an authentication without a provider would give.\<close>

theorem bearer_without_oidc_panics:
  assumes "run_state (run_program rt cfg) w0 = (Inr (p, ip), w1)" and "\<not> oc_Enabled (cf_OIDC cfg)"
    and "program_handler route = Some h" and "prefix ''Bearer '' (rq_header c ''Authorization'')"
  shows "run_state (serve p route c) w = (Failed (Panic ''nil pointer dereference''), w) \<and>
    hp_status (final_response c (Failed (Panic ''nil pointer dereference''))) = 500 \<and>
    (\<exists>resp. run_state (AuthDispatcher (NewAuthUseCase None (Some cached_allowlist) SessionStore_GetSession) h c) w =
       (Replied resp None, w) \<and> hp_status resp = 401)"
proof -
  from assms(1,2) have "pg_auth p = program_auth (rt_http rt) (rt_jwt rt) None"
    by (auto simp: program_oidc_def elim!: run_program_parts)
  then have "run_state (serve p route c) w = (Failed (Panic ''nil pointer dereference''), w)"
    using assms(4) by (simp add: serve_handler [OF assms(3)] AuthDispatcher_def Let_def AuthenticateGitHubOIDC_def
        program_auth_def NewAuthUseCase_def GitHubOIDC_Authenticate_def oidc_interface_def VerifyIDToken_def)
  moreover have "\<exists>resp. run_state (AuthDispatcher (NewAuthUseCase None (Some cached_allowlist) SessionStore_GetSession) h c) w =
       (Replied resp None, w) \<and> hp_status resp = 401"
    using assms(4) by (simp add: AuthDispatcher_def Let_def AuthenticateGitHubOIDC_def NewAuthUseCase_def)
  ultimately show ?thesis by simp
qed

theorem bearer_without_oidc_panics_witness:
  "\<exists>c. run_state (serve sample_program Download c) sample_world = (Failed (Panic ''nil pointer dereference''), sample_world)"
proof -
  let ?c = "sample_request\<lparr>rq_header := (\<lambda>k. ''Bearer t'')\<rparr>"
  have "\<not> oc_Enabled (cf_OIDC sample_config)" by (simp add: sample_config_def)
  moreover have "program_handler Download = Some (HandleDownload program_download)" by (simp add: program_handler_def)
  moreover have "prefix ''Bearer '' (rq_header ?c ''Authorization'')" by simp
  ultimately show ?thesis using bearer_without_oidc_panics [OF sample_starts, of Download _ ?c sample_world] by blast
qed

text \<open>C23. A protected route either turns the request away, with 400, 401, 403 or 500 and without touching
  an object, or runs its handler for a user who has signed in and whose repository the URL names.\<close>

theorem protected_routes_dispatch:
  assumes "jwt_library jwt_Parse verifies" and "wired http_Do jwt_Parse p"
    and "program_handler route = Some h" and "run_state (serve p route c) w = (r, w')"
  shows "hp_status (final_response c r) \<in> {400, 401, 403, 500} \<and> auth_frame w w' \<or>
    (\<exists>u w1. signed_in (pg_auth p) c w u w1 \<and> admits c u \<and> auth_frame w w1 \<and> run_state (h c (Some u)) w1 = (r, w'))"
proof -
  have "run_state (AuthDispatcher (pg_auth p) h c) w = (r, w')" using assms(4) by (simp add: serve_handler [OF assms(3)])
  from wired_dispatched [OF assms(1,2) this] show ?thesis unfolding dispatched_def using refusal_status by blast
qed

theorem protected_routes_dispatch_witness:
  "\<exists>r w'. run_state (serve sample_program Download sample_request) sample_world = (r, w') \<and>
     (hp_status (final_response sample_request r) \<in> {400, 401, 403, 500} \<and> auth_frame sample_world w' \<or>
      (\<exists>u w1. signed_in (pg_auth sample_program) sample_request sample_world u w1 \<and> admits sample_request u \<and>
         auth_frame sample_world w1 \<and>
         run_state (HandleDownload program_download sample_request (Some u)) w1 = (r, w')))"
proof -
  obtain r w' where run: "run_state (serve sample_program Download sample_request) sample_world = (r, w')" by fastforce
  have route: "program_handler Download = Some (HandleDownload program_download)" by (simp add: program_handler_def)
  show ?thesis by (intro exI conjI, rule run, rule protected_routes_dispatch [OF sample_jwt sample_wired route run])
qed

text \<open>C24. A sign-in starts only for a redirect URI of the configured list, and then leaves behind, under
  the state it hands out, exactly what the callback will need; it touches no object.\<close>

theorem sign_in_starts:
  assumes "run_state (run_oauth http_Do url_Parse cfg) w0 = (Inr (Some uc), w1)"
    and "shell \<in> {ShellTypeBash, ShellTypeZsh, ShellTypePowerShell}"
    and "run_state (StartAuthentication uc orepo uri shell) w = (r, w')"
  shows "w_objects w' = w_objects w \<and> w_policies w' = w_policies w \<and> w_storage w' = w_storage w \<and>
    (\<forall>url. r = Inr url \<longrightarrow> uri \<in> set (oa_AllowedRedirectURIs cfg) \<and>
       (\<exists>ri. orepo = Some ri \<and> redis_pending w' (w_uuid w (w_uuid_next w)) = Some (NewOAuthState (FullName ri) uri shell)))"
proof -
  from run_oauth_signin [OF assms(1)] obtain gp where
    st: "ou_oauthProvider uc = github_oauth http_Do gp" "ou_stateStore uc = NewOIDCStateStore"
    and uris: "\<And>u. AllowedRedirectURIs_Contains (ou_allowedRedirectURIs uc) u \<Longrightarrow> u \<in> set (oa_AllowedRedirectURIs cfg)"
    by (auto simp: github_signin_def)
  note result = signin.StartAuthentication_run [OF st assms(3,2)]
  show ?thesis by (intro conjI allI impI; use result uris in fastforce)
qed

theorem sign_in_starts_witness:
  "\<exists>uc r w'. run_state (StartAuthentication uc (Some sample_repo) ''https://lfs.example/auth'' ShellTypeBash) sample_world = (r, w') \<and>
     w_storage w' = w_storage sample_world"
proof -
  let ?cfg = "\<lparr>oa_Enabled = True, oa_ClientID = ''id'', oa_ClientSecret = ''secret'', oa_AllowedHosts = [],
    oa_AllowedRedirectURIs = [''https://lfs.example/auth'']\<rparr>"
  have "\<exists>uc w1. run_state (run_oauth sample_http (\<lambda>u. Some (''https'', ''lfs.example'')) ?cfg) sample_world = (Inr (Some uc), w1)"
    by (simp add: run_oauth_def NewGitHubOAuthProvider_def NewGitHubTokenExchanger_def strings_TrimSpace_def is_space_def Let_def
        set_redirectURI_def NewAllowedRedirectURIs_def NewGitHubOAuthUseCase_def)
  then obtain uc w1 where uc: "run_state (run_oauth sample_http (\<lambda>u. Some (''https'', ''lfs.example'')) ?cfg) sample_world =
      (Inr (Some uc), w1)" by blast
  obtain r w' where run: "run_state (StartAuthentication uc (Some sample_repo) ''https://lfs.example/auth'' ShellTypeBash) sample_world = (r, w')"
    by fastforce
  have "w_storage w' = w_storage sample_world" by (rule sign_in_starts [OF uc _ run, THEN conjunct2, THEN conjunct2, THEN conjunct1]) simp
  with run show ?thesis by (intro exI conjI)
qed

text \<open>C25. Sign-ins share the redirect URI: it is a field of the one token exchanger.  Of two sign-ins that overlap
  the first can be sent to GitHub with the redirect URI of the second, while the state it waits under still
  names its own.\<close>

theorem sign_ins_cross:
  assumes "ou_oauthProvider u = github_oauth http_Do gp" and "ou_stateStore u = NewOIDCStateStore"
    and "uri\<^sub>a \<noteq> []" and "AllowedRedirectURIs_Contains (ou_allowedRedirectURIs u) uri\<^sub>a"
    and "wf_oauth_state (NewOAuthState (FullName ra) uri\<^sub>a sa)"
    and "uri\<^sub>b \<noteq> []" and "AllowedRedirectURIs_Contains (ou_allowedRedirectURIs u) uri\<^sub>b"
    and "wf_oauth_state (NewOAuthState (FullName rb) uri\<^sub>b sb)"
    and "w_faults w = []" and "w_uuid w (w_uuid_next w) \<noteq> w_uuid w (Suc (w_uuid_next w))"
  shows "run_task (start_turns u (Some ra) uri\<^sub>a sa) = StartAuthentication u (Some ra) uri\<^sub>a sa \<and>
    (\<exists>st st' v. interleaved {} env [start_turns u (Some ra) uri\<^sub>a sa, start_turns u (Some rb) uri\<^sub>b sb] w
      [Done (Inr (authorization_URL gp uri\<^sub>b st)), Done (Inr (authorization_URL gp uri\<^sub>b st'))] v \<and>
    redis_pending v st = Some (NewOAuthState (FullName ra) uri\<^sub>a sa))"
  using run_start_turns crossed_sign_ins [OF assms(1-8) assms(9,10)] by blast

theorem sign_ins_cross_witness:
  "\<exists>st v us. interleaved {} (\<lambda>w w'. w' = w)
      [start_turns (sample_signin\<lparr>ou_allowedRedirectURIs := \<lparr>au_uris = [''https://a'', ''https://b'']\<rparr>\<rparr>) (Some sample_repo) ''https://a'' ShellTypeBash,
       start_turns (sample_signin\<lparr>ou_allowedRedirectURIs := \<lparr>au_uris = [''https://a'', ''https://b'']\<rparr>\<rparr>) (Some other_repo) ''https://b'' ShellTypeBash]
      sample_world (Done (Inr (authorization_URL sample_provider ''https://b'' st)) # us) v \<and>
     redis_pending v st = Some (NewOAuthState (FullName sample_repo) ''https://a'' ShellTypeBash)"
proof -
  let ?u = "sample_signin\<lparr>ou_allowedRedirectURIs := \<lparr>au_uris = [''https://a'', ''https://b'']\<rparr>\<rparr>"
  have u: "ou_oauthProvider ?u = github_oauth sample_http sample_provider" "ou_stateStore ?u = NewOIDCStateStore"
    by (simp_all add: sample_signin_def)
  have uris: "AllowedRedirectURIs_Contains (ou_allowedRedirectURIs ?u) ''https://a''"
    "AllowedRedirectURIs_Contains (ou_allowedRedirectURIs ?u) ''https://b''" by (simp_all add: AllowedRedirectURIs_Contains_def)
  have wf: "wf_oauth_state (NewOAuthState s uri ShellTypeBash)" for s uri by (simp add: wf_oauth_state_def NewOAuthState_def)
  from sign_ins_cross [OF u _ uris(1) wf _ uris(2) wf _ sample_ids, where ra = sample_repo and rb = other_repo and env = "\<lambda>w w'. w' = w"] show ?thesis by auto
qed



text \<open>C27. A state is worth one callback, however sign-ins overlap.  Sign-ins and callbacks are cut into their calls to
  Redis and GitHub, at most six each, and alone are the use cases; their calls are made in any order, and between two of them
  the program may serve any request and time may pass.  Then of all callbacks with one state at most one
  is let in, and the state is gone from then on.\<close>

theorem state_taken_once:
  assumes "jwt_library jwt_Parse verifies" and "wired http_Do jwt_Parse p" and "pg_oauth p = Some uc"
    and "interleaved (range (visiting uc)) (\<lambda>x y. \<exists>e. happens p x e y) [] w us v"
    and "inj (w_uuid w)" and "redis_pending w st = None \<or> (\<exists>n < w_uuid_next w. w_uuid w n = st)"
    and "i < length us" "us ! i = Done (Come_back code st, Let_in (Inr x))"
  shows "(\<forall>q. run_task (visit_turns uc q) = serve_visit uc q \<and> at_most (visiting uc q) 6) \<and>
    redis_pending v st = None \<and>
    (\<forall>j code' y. j < length us \<and> us ! j = Done (Come_back code' st, Let_in (Inr y)) \<longrightarrow> j = i)"
proof -
  have g: "github_signin http_Do uc" using assms(2,3) by (simp add: wired_def)
  have w: "issued st w" using assms(5,6) by (auto simp: issued_def)
  have env: "state_once st y z" if "\<exists>e. happens p y e z" for y z using that happens_once [OF assms(1,2)] by blast
  note one = one_let_in [OF g assms(4) env w assms(7,8)]
  then show ?thesis using run_visit_turns visit_calls assms(7,8) by blast
qed

theorem state_taken_once_witness:
  "\<exists>sid us v. interleaved (range (visiting sample_signin)) (\<lambda>x y. \<exists>e. happens signin_program x e y) [] drawn_world us v \<and>
     us ! 0 = Done (Come_back ''c'' ''s'', Let_in (Inr (sid, ShellTypeBash))) \<and> length us = 2 \<and>
     redis_pending v ''s'' = None \<and> (\<forall>code' y. us ! 1 \<noteq> Done (Come_back code' ''s'', Let_in (Inr y)))"
proof -
  obtain sid us v where run: "interleaved (range (visiting sample_signin)) (\<lambda>x y. \<exists>e. happens signin_program x e y) [] drawn_world us v"
    and us: "length us = 2" "us ! 0 = Done (Come_back ''c'' ''s'', Let_in (Inr (sid, ShellTypeBash)))"
    using sample_visits by blast
  have oauth: "pg_oauth signin_program = Some sample_signin" by (simp add: signin_program_def)
  have drawn: "\<exists>n < w_uuid_next drawn_world. w_uuid drawn_world n = ''s''" using drawn_ids(2) by (intro exI [of _ 0]) simp
  have first: "0 < length us" using us(1) by simp
  note once = state_taken_once [OF sample_parse_library signin_wired oauth run drawn_ids(1) disjI2 [OF drawn] first us(2)]
  have "us ! 1 \<noteq> Done (Come_back code' ''s'', Let_in (Inr y))" for code' y
  proof
    assume "us ! 1 = Done (Come_back code' ''s'', Let_in (Inr y))"
    with once us(1) show False by (metis one_less_numeral_iff semiring_norm(76) zero_neq_one)
  qed
  then have "\<forall>code' y. us ! 1 \<noteq> Done (Come_back code' ''s'', Let_in (Inr y))" by blast
  with run us once [THEN conjunct2, THEN conjunct1] show ?thesis by (intro exI conjI)
qed

text \<open>The same for requests one at a time: on every run after a callback has used a state, as long as no later
  UUID repeats it, a second callback with it fails.\<close>

theorem state_used_once:
  assumes "jwt_library jwt_Parse verifies" and "wired http_Do jwt_Parse p" and "pg_oauth p = Some uc"
    and "run_state (HandleCallback uc code st) w = (Inr x, w1)" and "\<forall>n \<ge> w_uuid_next w1. w_uuid w1 n \<noteq> st"
    and "reaches p w1 es w2" and "run_state (HandleCallback uc code' st) w2 = (r, w3)"
  shows "\<exists>err. r = Inl err"
proof (rule ccontr)
  assume "\<nexists>err. r = Inl err"
  then obtain sid shell where r: "r = Inr (sid, shell)" by (cases r) auto
  from assms(2,3) have g: "github_signin http_Do uc" by (simp add: wired_def)
  then obtain gp where
    st: "ou_oauthProvider uc = github_oauth http_Do gp" "ou_stateStore uc = NewOIDCStateStore" "ou_sessionStore uc = NewSessionStore"
    by (auto simp: github_signin_def)
  obtain s1 sh1 where x: "x = (s1, sh1)" by (cases x)
  from signin.HandleCallback_run [OF st assms(4) [unfolded x]] assms(5) have "spent st w1" by (auto simp: spent_def)
  with reaches_spent [OF assms(1,2,6)] have "redis_pending w2 st = None" by (simp add: spent_def)
  with signin.HandleCallback_run [OF st assms(7) [unfolded r]] show False by auto
qed

theorem state_used_once_witness:
  "\<exists>w2 r w3 err. run_state (HandleCallback sample_signin ''d'' ''s'') w2 = (r, w3) \<and> r = Inl err"
proof -
  obtain sid w1 where run: "run_state (HandleCallback sample_signin ''c'' ''s'') pending_world = (Inr (sid, ShellTypeBash), w1)"
    using sample_callback by blast
  have uuid: "w_uuid w1 = sample_uuid"
    using framesD [OF states_once.frame_callback [OF sample_signin_github] run, of "''s''"]
    by (simp add: single_use_def initial_world_def)
  have "\<forall>n \<ge> w_uuid_next w1. w_uuid w1 n \<noteq> ''s''" by (simp add: uuid sample_uuid_def)
  moreover obtain r w3 where "run_state (HandleCallback sample_signin ''d'' ''s'') w1 = (r, w3)" by fastforce
  moreover have "pg_oauth signin_program = Some sample_signin" by (simp add: signin_program_def)
  ultimately show ?thesis
    using state_used_once [OF sample_parse_library signin_wired _ run _ reaches.start] by metis
qed



section \<open>Requests and answers\<close>



text \<open>C30. A batch answered with 200 is a document its reader decodes, with one entry for each object of
  the request, in order, repeating its identifier and its size.\<close>

theorem batch_answer_decodes:
  assumes "sound_world w" and "hp_status resp = 200"
    and "run_state (BatchHandler_Handle (HandleBatchRequest program_batch) c u) w = (Replied resp e, w')"
  shows "\<exists>body doc dto j b. read_limited (maxBodySize + 1) (rq_body c) = Some body \<and> length body \<le> maxBodySize \<and>
    bd_json (rq_body c) (length body) = Some doc \<and> decode_BatchRequestDTO doc = Some dto \<and>
    hp_content resp = JSONContent j \<and> decode_BatchResponse j = Some b \<and>
    map rs_oid (bs_objects b) = map rd_OID (bd_Objects dto) \<and> map rs_size (bs_objects b) = map rd_Size (bd_Objects dto)"
proof -
  obtain repoID body doc dto req b where c: "ExtractRepositoryIdentifier c = Inr repoID"
    "read_limited (maxBodySize + 1) (rq_body c) = Some body" "length body \<le> maxBodySize"
    "bd_json (rq_body c) (length body) = Some doc" "decode_BatchRequestDTO doc = Some dto"
    "ToBatchRequest (Some repoID) dto = Inr req"
    and run: "run_state (HandleBatchRequest program_batch (getBaseURL c) (ri_owner repoID) (ri_name repoID) req
       (rq_header c ''Authorization'')) w = (Inr b, w')"
    and b: "hp_content resp = JSONContent (BatchResponse_json b)" "decode_BatchResponse (BatchResponse_json b) = Some b"
    by (rule batch_handler_answer [OF assms(3,2)])
  note req = ToBatchRequest_Inr [OF c(6)]
  have ri: "valid_repository repoID" using c(1) by (simp add: ExtractRepositoryIdentifier_def NewRepositoryIdentifier_Inr Let_def)
  have good: "coherent_world w" "wf_policies w" using assms(1) by (simp_all add: sound_world_def)
  have "map rs_oid (bs_objects b) = map ro_oid (br_objects req) \<and> map rs_size (bs_objects b) = map ro_size (br_objects req)"
  proof (cases "br_operation req = OperationDownload")
    case True
    with run have "run_state (uc_download program_batch (getBaseURL c) (ri_owner repoID) (ri_name repoID) req
       (rq_header c ''Authorization'')) w = (Inr b, w')" by (simp add: HandleBatchRequest_def)
    with service.HandleBatchDownload_run [OF good] show ?thesis
      by (simp add: program_batch_def NewBatchUseCase_def pg_authorization_def)
  next
    case False
    with run have "run_state (uc_upload program_batch (getBaseURL c) (ri_owner repoID) (ri_name repoID) req
       (rq_header c ''Authorization'')) w = (Inr b, w')" by (simp add: HandleBatchRequest_def)
    moreover have "br_repository req = Some repoID" using req by simp
    note up = service.HandleBatchUpload_run [OF good this ri]
    ultimately show ?thesis using up [of NewProxyActionURLGenerator GenerateStorageKey]
      by (simp add: program_batch_def NewBatchUseCase_def pg_authorization_def)
  qed
  with c b req show ?thesis
    by (intro exI [of _ body] exI [of _ doc] exI [of _ dto] exI [of _ "BatchResponse_json b"] exI [of _ b]) simp
qed

theorem batch_answer_decodes_witness:
  "\<exists>resp w' j b. run_state (BatchHandler_Handle (HandleBatchRequest program_batch) sample_batch (Some sample_user)) sample_world =
     (Replied resp None, w') \<and> hp_content resp = JSONContent j \<and> decode_BatchResponse j = Some b \<and> map rs_size (bs_objects b) = [3]"
proof -
  obtain resp w' where run: "run_state (BatchHandler_Handle (HandleBatchRequest program_batch) sample_batch (Some sample_user))
      sample_world = (Replied resp None, w')" and ok: "hp_status resp = 200" by (rule sample_batch_answered)
  from batch_answer_decodes [OF initial_world_sound ok run] obtain body doc dto j b where
    r: "bd_json (rq_body sample_batch) (length (body :: string)) = Some doc" "decode_BatchRequestDTO doc = Some dto"
      "hp_content resp = JSONContent j" "decode_BatchResponse j = Some b"
      "map rs_size (bs_objects b) = map rd_Size (bd_Objects dto)" by blast
  from r(1,2) sample_document_decoded have "dto = sample_dto" by (simp add: sample_batch_def sample_body_def)
  with r(5) have sizes: "map rs_size (bs_objects b) = [3]" by (simp add: sample_dto_def)
  show ?thesis by (intro exI conjI) (rule run r(3,4) sizes)+
qed

text \<open>The links of a batch answer repeat whatever scheme the request's X-Forwarded-Proto header
  names, whether or not a proxy is trusted, while the sign-in redirect of a program that trusts no proxy
  ignores that header.\<close>

theorem links_follow_forwarded_proto:
  assumes "rq_header c ''X-Forwarded-Proto'' = proto" and "proto \<noteq> []" and "hp_status resp = 200"
    and "run_state (BatchHandler_Handle (HandleBatchRequest program_batch) c u) w = (Replied resp e, w')"
  shows "(\<exists>j b. hp_content resp = JSONContent j \<and> decode_BatchResponse j = Some b \<and>
      (\<forall>answered \<in> set (bs_objects b). \<forall>a l. rs_actions answered = Some a \<longrightarrow> as_upload a = Some l \<or> as_download a = Some l \<longrightarrow>
         ac_href l = generateURL (proto @ ''://'' @ rq_host c) (rq_param c ''owner'') (rq_param c ''repo'') (rs_oid answered))) \<and>
    ResolveScheme c False = (if rq_tls c then ''https'' else ''http'')"
proof -
  obtain ri req b where ri: "ExtractRepositoryIdentifier c = Inr ri"
    and run: "run_state (HandleBatchRequest program_batch (getBaseURL c) (ri_owner ri) (ri_name ri) req
       (rq_header c ''Authorization'')) w = (Inr b, w')"
    and b: "hp_content resp = JSONContent (BatchResponse_json b)" "decode_BatchResponse (BatchResponse_json b) = Some b"
    by (rule batch_handler_answer [OF assms(4,3)])
  have base: "getBaseURL c = proto @ ''://'' @ rq_host c" using assms(1,2) by (simp add: getBaseURL_def Let_def)
  from extracted_repository [OF ri] batch_answer_links [OF run] b base show ?thesis
    by (intro conjI exI [of _ "BatchResponse_json b"] exI [of _ b]) (auto simp: links_to_def ResolveScheme_def)
qed

theorem links_follow_forwarded_proto_witness:
  "\<exists>resp w' j b. run_state (BatchHandler_Handle (HandleBatchRequest program_batch) sample_batch (Some sample_user)) sample_world =
     (Replied resp None, w') \<and> hp_content resp = JSONContent j \<and> decode_BatchResponse j = Some b \<and>
     ResolveScheme sample_batch False = ''http''"
proof -
  obtain resp w' where run: "run_state (BatchHandler_Handle (HandleBatchRequest program_batch) sample_batch (Some sample_user))
      sample_world = (Replied resp None, w')" and ok: "hp_status resp = 200" by (rule sample_batch_answered)
  have "rq_header sample_batch ''X-Forwarded-Proto'' = ''ftp''" by (simp add: sample_batch_def)
  note links = links_follow_forwarded_proto [OF this _ ok run]
  have "\<not> rq_tls sample_batch" by (simp add: sample_batch_def sample_request_def)
  with links have scheme: "ResolveScheme sample_batch False = ''http''" by simp
  obtain j b where b: "hp_content resp = JSONContent j" "decode_BatchResponse j = Some b" using links by blast
  show ?thesis by (intro exI conjI) (rule run b scheme)+
qed

text \<open>C31. The links of a batch answer lead back to the program.  For an owner and a repository that need no escaping,
  asking for the path of an upload link with PUT, or of a download link with GET, is, for any router that keeps
  to its documentation, a request to the upload or the download handler with the parameters of the same owner, repository
  and object.  Names are put into a link as they are: in a link for a name with a question mark the path ends there.\<close>

theorem links_lead_back:
  assumes "documented_router router"
    and "run_state (BatchHandler_Handle (HandleBatchRequest program_batch) c u) w = (Replied resp e, w')" and "hp_status resp = 200"
    and "plain_segment (rq_param c ''owner'')" and "plain_segment (rq_param c ''repo'')"
    and "CHR '':'' \<notin> set (rq_header c ''X-Forwarded-Proto'')" and "rq_host c \<noteq> []" and "set (rq_host c) \<inter> set ''/?#'' = {}"
  shows "(\<exists>j b. hp_content resp = JSONContent j \<and> decode_BatchResponse j = Some b \<and>
      (\<forall>answered \<in> set (bs_objects b). \<forall>a l. rs_actions answered = Some a \<longrightarrow>
         (\<forall>(link, method, rt) \<in> {(as_upload a, ''PUT'', Upload), (as_download a, ''GET'', Download)}. link = Some l \<longrightarrow>
            (\<exists>ps. router (registered_routes oauth) method (url_path (ac_href l)) = Some (rt, ps) \<and>
               ps ''owner'' = rq_param c ''owner'' \<and> ps ''repo'' = rq_param c ''repo'' \<and> ps ''oid'' = rs_oid answered)))) \<and>
    url_path (generateURL (getBaseURL c) (rq_param c ''owner'') (rq_param c ''repo'' @ ''?'' @ rest) oid) =
      ''/'' @ rq_param c ''owner'' @ ''/'' @ rq_param c ''repo''"
proof -
  obtain ri req b where ri: "ExtractRepositoryIdentifier c = Inr ri"
    and run: "run_state (HandleBatchRequest program_batch (getBaseURL c) (ri_owner ri) (ri_name ri) req
       (rq_header c ''Authorization'')) w = (Inr b, w')"
    and b: "hp_content resp = JSONContent (BatchResponse_json b)" "decode_BatchResponse (BatchResponse_json b) = Some b"
    by (rule batch_handler_answer [OF assms(2,3)])
  have parts: "ri_owner ri = rq_param c ''owner'' \<and> ri_name ri = rq_param c ''repo''" by (rule extracted_repository [OF ri])
  obtain scheme where base: "getBaseURL c = base_of scheme (rq_host c)" and scheme: "CHR '':'' \<notin> set scheme"
    using assms(6) that [of "if rq_header c ''X-Forwarded-Proto'' \<noteq> [] then rq_header c ''X-Forwarded-Proto'' else if rq_tls c then ''https'' else ''http''"]
    by (simp add: getBaseURL_def base_of_def Let_def split: if_splits)
  note route = link_route [OF assms(1,4,5) batch_answer_oids [OF run] scheme assms(8,7), folded base]
  have "\<forall>answered \<in> set (bs_objects b). \<forall>a l. rs_actions answered = Some a \<longrightarrow>
    (\<forall>(link, method, rt) \<in> {(as_upload a, ''PUT'', Upload), (as_download a, ''GET'', Download)}. link = Some l \<longrightarrow>
       (\<exists>ps. router (registered_routes oauth) method (url_path (ac_href l)) = Some (rt, ps) \<and>
          ps ''owner'' = rq_param c ''owner'' \<and> ps ''repo'' = rq_param c ''repo'' \<and> ps ''oid'' = rs_oid answered))"
    using batch_answer_links [OF run] parts route by (auto simp: links_to_def)
  with b link_cut [OF assms(4,5) scheme assms(8,7), folded base] show ?thesis by blast
qed

theorem links_lead_back_witness:
  "\<exists>j b. decode_BatchResponse j = Some b \<and> (\<forall>answered \<in> set (bs_objects b). \<forall>a l. rs_actions answered = Some a \<longrightarrow>
     as_upload a = Some l \<longrightarrow> (\<exists>ps. table_router (registered_routes True) ''PUT'' (url_path (ac_href l)) = Some (Upload, ps) \<and>
       ps ''oid'' = rs_oid answered)) \<and>
     url_path (generateURL (getBaseURL sample_batch) ''octo'' ''assets?x'' sample_oid) = ''/octo/assets''"
proof -
  obtain resp w' where run: "run_state (BatchHandler_Handle (HandleBatchRequest program_batch) sample_batch (Some sample_user))
      sample_world = (Replied resp None, w')" and ok: "hp_status resp = 200" by (rule sample_batch_answered)
  have c: "plain_segment (rq_param sample_batch ''owner'')" "plain_segment (rq_param sample_batch ''repo'')"
    "CHR '':'' \<notin> set (rq_header sample_batch ''X-Forwarded-Proto'')" "rq_host sample_batch \<noteq> []"
    "set (rq_host sample_batch) \<inter> set ''/?#'' = {}"
    by code_simp+
  have names: "rq_param sample_batch ''owner'' = ''octo''" "rq_param sample_batch ''repo'' = ''assets''" by code_simp+
  note links = links_lead_back [OF documented_table_router run ok c, where oauth = True and rest = "''x''" and oid = sample_oid, unfolded names]
  from links have "url_path (generateURL (getBaseURL sample_batch) ''octo'' ''assets?x'' sample_oid) = ''/octo/assets''" by simp
  moreover obtain j b where b: "decode_BatchResponse j = Some b"
    and each: "answered \<in> set (bs_objects b) \<Longrightarrow> rs_actions answered = Some a \<Longrightarrow> as_upload a = Some l \<Longrightarrow>
      \<exists>ps. table_router (registered_routes True) ''PUT'' (url_path (ac_href l)) = Some (Upload, ps) \<and> ps ''oid'' = rs_oid answered"
    for answered a l using links by simp metis
  ultimately show ?thesis using each by (intro exI [of _ j] exI [of _ b] conjI b ballI allI impI)
qed

text \<open>C32. The storage key of an object is a path of five parts, none of which leaves its directory, that
  ends in the object's identifier; no other identifier or hash algorithm has that key.\<close>

theorem storage_key_path:
  assumes "GenerateStorageKey oid h = Inr k"
  shows "strings_Split k (CHR ''/'') = [''objects'', h, take 2 oid, take 2 (drop 2 oid), oid] \<and>
    (\<forall>part \<in> set (strings_Split k (CHR ''/'')). part \<noteq> [] \<and> \<not> strings_Contains part ''..'') \<and>
    (\<forall>oid' h'. GenerateStorageKey oid' h' = Inr k \<longrightarrow> oid' = oid \<and> h' = h)"
proof -
  note split = GenerateStorageKey_components [OF assms]
  have ok: "hashAlgoPattern h" "\<not> strings_Contains h ''..''" "4 \<le> length oid" "list_all (\<lambda>c. c \<in> set hex_chars) oid"
    using assms by (auto simp: GenerateStorageKey_Inr)
  have "\<not> strings_Contains s ''..''" if "list_all (\<lambda>c. c \<in> set hex_chars) s" for s
  proof -
    have "CHR ''.'' \<notin> set hex_chars" by (simp add: hex_chars_def)
    then have "CHR ''.'' \<notin> set s" using that unfolding list_all_iff by blast
    with set_mono_sublist [of "''..''" s] show ?thesis by (auto simp: strings_Contains_def)
  qed
  moreover have "list_all (\<lambda>c. c \<in> set hex_chars) (take 2 oid)" "list_all (\<lambda>c. c \<in> set hex_chars) (take 2 (drop 2 oid))"
    using ok(4) by (auto simp: list_all_iff dest: in_set_takeD in_set_dropD)
  moreover have "h \<noteq> []" using ok(1) by (auto simp: hashAlgoPattern_def)
  moreover have "take 2 oid \<noteq> []" "take 2 (drop 2 oid) \<noteq> []" "oid \<noteq> []" using ok(3) by auto
  moreover have "\<not> strings_Contains ''objects'' ''..''" by code_simp
  moreover have "oid' = oid \<and> h' = h" if "GenerateStorageKey oid' h' = Inr k" for oid' h'
    using GenerateStorageKey_components [OF that] split by simp
  ultimately show ?thesis using ok unfolding split by (intro conjI) simp_all
qed

theorem storage_key_path_witness:
  "\<exists>k. GenerateStorageKey sample_oid ''sha256'' = Inr k \<and>
     strings_Split k (CHR ''/'') = [''objects'', ''sha256'', take 2 sample_oid, take 2 (drop 2 sample_oid), sample_oid]"
  using storage_key_path [OF GenerateStorageKey_sha256 [OF sample_oid_ok]] GenerateStorageKey_sha256 [OF sample_oid_ok] by blast

text \<open>An object may have no content: a batch request accepts size 0, but the verify endpoint refuses
  every verify request of that size, with 400 and without asking the use case.\<close>

theorem empty_object_never_verified:
  assumes "br_operation req = OperationUpload" and "br_objects req = [\<lparr>ro_oid = oid, ro_size = 0\<rparr>]" and "oidPattern oid"
    and "br_hashAlgo req = []"
    and "bd_first (rq_body c) = Some (JObject [(''oid'', JString oid), (''size'', JInt 0)])"
    and "run_state (VerifyHandler verify c u) w = (r, w')"
  shows "BatchRequest_Validate req = None \<and> hp_status (final_response c r) = 400 \<and> w' = w"
proof -
  have "decode_struct VerifyRequest_tags \<lparr>vr_OID = [], vr_Size = 0\<rparr> (JObject [(''oid'', JString oid), (''size'', JInt 0)]) =
      Some \<lparr>vr_OID = oid, vr_Size = 0\<rparr>"
    by (simp add: decode_struct_def VerifyRequest_tags_def field_for_def into_defs int64_range_def)
  moreover have "VerifyRequest_Validate \<lparr>vr_OID = oid, vr_Size = 0\<rparr> \<noteq> None"
    using VerifyRequest_Validate_None [of "\<lparr>vr_OID = oid, vr_Size = 0\<rparr>"] by simp
  moreover have "BatchRequest_Validate req = None" using assms(1-4) by (simp add: BatchRequest_Validate_None)
  ultimately show ?thesis using assms(5,6)
    by (auto simp: VerifyHandler_def split: option.splits sum.splits)
qed

theorem empty_object_never_verified_witness:
  "\<exists>r w' c. run_state (VerifyHandler program_verify c None) sample_world = (r, w') \<and>
     hp_status (final_response c r) = 400 \<and> w' = sample_world"
proof -
  let ?req = "(first_upload sample_repo \<lparr>ro_oid = sample_oid, ro_size = 0\<rparr>)\<lparr>br_hashAlgo := []\<rparr>"
  let ?c = "sample_request\<lparr>rq_body := sample_body (JObject [(''oid'', JString sample_oid), (''size'', JInt 0)])\<rparr>"
  have req: "br_operation ?req = OperationUpload" "br_objects ?req = [\<lparr>ro_oid = sample_oid, ro_size = 0\<rparr>]" "br_hashAlgo ?req = []"
    by (simp_all add: first_upload_def)
  have c: "bd_first (rq_body ?c) = Some (JObject [(''oid'', JString sample_oid), (''size'', JInt 0)])" by (simp add: sample_body_def)
  obtain r w' where run: "run_state (VerifyHandler program_verify ?c None) sample_world = (r, w')" by fastforce
  from empty_object_never_verified [OF req(1,2) sample_oid_ok req(3) c run] run show ?thesis by blast
qed

text \<open>The session page is made of its two halves with the escaped command between them, so a request
  cannot add markup to it; but the command itself is not protected: a host that carries a line break
  ends the here-document, and the line after it becomes a command of the shell the page tells the user
  to paste into.\<close>

theorem session_page_text:
  assumes "rq_query c ''session_id'' = sid" and "sid \<noteq> []" and "rq_query c ''host'' = ''h'' @ nl @ ''EOF'' @ nl @ cmd"
    and "nl = [CHR 0x0A]" and "CHR 0x0A \<notin> set cmd" and "CHR 0x0A \<notin> set sid" and "rq_query c ''shell'' = ''bash''"
  shows "\<exists>script. run_state (SessionDisplayHandler c None) w = (Replied
      \<lparr>hp_status = 200, hp_headers = header_put ''Content-Type'' ''text/html; charset=UTF-8'' [], hp_cookies = [],
       hp_content = HTMLContent (page_head @ html_EscapeString script @ page_tail)\<rparr> None, w) \<and>
    set (html_EscapeString script) \<inter> {CHR ''<'', CHR ''>'', CHR 0x22, CHR 0x27} = {} \<and>
    strings_Split script (CHR 0x0A) = [''git credential approve <<EOF'', ''protocol=https'', ''host=h'', ''EOF'', cmd,
      ''username=x-session'', ''password='' @ sid, ''EOF'']"
proof -
  let ?cmd = "NewCredentialCommand ShellTypeBash (rq_query c ''host'') sid"
  let ?lines = "[''git credential approve <<EOF'', ''protocol=https'', ''host=h'', ''EOF'', cmd, ''username=x-session'',
    ''password='' @ sid, ''EOF'']"
  have host: "rq_query c ''host'' = ''h'' @ nl @ ''EOF'' @ nl @ cmd" by (rule assms(3))
  have "?cmd = strings_Join ?lines [CHR 0x0A]"
    unfolding host assms(4) by (simp add: NewCredentialCommand_def credential_lines_def ShellTypeBash_def ShellTypePowerShell_def)
  then have "strings_Split ?cmd (CHR 0x0A) = ?lines"
    using strings_Split_Join [of ?lines "CHR 0x0A"] assms(5,6) by simp
  moreover have "set (html_EscapeString ?cmd) \<inter> {CHR ''<'', CHR ''>'', CHR 0x22, CHR 0x27} = {}"
    using html_EscapeString_safe [of ?cmd] by blast
  moreover have "run_state (SessionDisplayHandler c None) w = (Replied
      \<lparr>hp_status = 200, hp_headers = header_put ''Content-Type'' ''text/html; charset=UTF-8'' [], hp_cookies = [],
       hp_content = HTMLContent (page_head @ html_EscapeString ?cmd @ page_tail)\<rparr> None, w)"
    using assms(1,2,3,7) by (simp add: SessionDisplayHandler_def ParseShellType_def ShellTypeBash_def generateSessionDisplayHTML_def)
  ultimately show ?thesis by blast
qed

theorem session_page_text_witness:
  "\<exists>c script. strings_Split script (CHR 0x0A) ! 4 = ''reboot'' \<and>
     fst (run_state (SessionDisplayHandler c None) sample_world) = Replied
       \<lparr>hp_status = 200, hp_headers = header_put ''Content-Type'' ''text/html; charset=UTF-8'' [], hp_cookies = [],
        hp_content = HTMLContent (page_head @ html_EscapeString script @ page_tail)\<rparr> None"
proof -
  define c :: request where "c = sample_request\<lparr>rq_query := (\<lambda>k. if k = ''session_id'' then ''u1'' else if k = ''host''
    then ''h'' @ [CHR 0x0A] @ ''EOF'' @ [CHR 0x0A] @ ''reboot'' else ''bash'')\<rparr>"
  have c: "rq_query c ''session_id'' = ''u1''" "rq_query c ''host'' = ''h'' @ [CHR 0x0A] @ ''EOF'' @ [CHR 0x0A] @ ''reboot''"
    "rq_query c ''shell'' = ''bash''" by (simp_all add: c_def)
  obtain script where r: "run_state (SessionDisplayHandler c None) sample_world = (Replied
      \<lparr>hp_status = 200, hp_headers = header_put ''Content-Type'' ''text/html; charset=UTF-8'' [], hp_cookies = [],
       hp_content = HTMLContent (page_head @ html_EscapeString script @ page_tail)\<rparr> None, sample_world)"
    and lines: "strings_Split script (CHR 0x0A) = [''git credential approve <<EOF'', ''protocol=https'', ''host=h'', ''EOF'',
      ''reboot'', ''username=x-session'', ''password='' @ ''u1'', ''EOF'']"
    using session_page_text [OF c(1) _ c(2) refl _ _ c(3), of sample_world] by auto
  have "strings_Split script (CHR 0x0A) ! 4 = ''reboot''" unfolding lines by simp
  with r show ?thesis by (intro exI [of _ c] exI [of _ script]) simp
qed

section \<open>Keys, sessions and start-up\<close>

text \<open>C33. The key a token is checked with is the first RSA key of the set with the token's key id, or a
  reason why there is none; its exponent fits 63 bits, and a key set survives being cached as JSON.\<close>

theorem key_lookup:
  "findPublicKey s kid = (case List.find (\<lambda>k. jk_Kid k = kid \<and> jk_Kty k = ''RSA'') (js_Keys s) of
       None \<Rightarrow> Inl (Wrap (Oidc OErrKeyIDNotFound)) | Some k \<Rightarrow> parseRSAPublicKey k) \<and>
     (\<forall>key. findPublicKey s kid = Inr key \<longrightarrow> 0 \<le> pk_E key \<and> pk_E key < 2 ^ 63) \<and>
     decode_JWKSet (JWKSet_json s) = Some s"
proof -
  have "find_jwk ks kid = (case List.find (\<lambda>k. jk_Kid k = kid \<and> jk_Kty k = ''RSA'') ks of
       None \<Rightarrow> Inl (Wrap (Oidc OErrKeyIDNotFound)) | Some k \<Rightarrow> parseRSAPublicKey k)" for ks
    by (induction ks) auto
  moreover have "0 \<le> pk_E key \<and> pk_E key < 2 ^ 63" if "findPublicKey s kid = Inr key" for key
    using findPublicKey_Inr [OF that] parseRSAPublicKey_range by blast
  ultimately show ?thesis using JWKSet_roundtrip by (auto simp: findPublicKey_def)
qed

theorem key_lookup_witness:
  "\<exists>s key. findPublicKey s ''k1'' = Inr key \<and> pk_E key = 65537 \<and> pk_E key < 2 ^ 63"
proof -
  let ?s = "\<lparr>js_Keys = [\<lparr>jk_Kid = ''k1'', jk_Kty = ''RSA'', jk_Use = ''sig'', jk_N = ''AQAB'', jk_E = ''AQAB''\<rparr>]\<rparr>"
  have found: "findPublicKey ?s ''k1'' = Inr \<lparr>pk_N = 65537, pk_E = 65537\<rparr>"
    by (simp add: key_lookup [THEN conjunct1] sample_key)
  moreover have "pk_E \<lparr>pk_N = 65537, pk_E = 65537\<rparr> < 2 ^ 63"
    using key_lookup [of ?s "''k1''", THEN conjunct2, THEN conjunct1] found by blast
  ultimately show ?thesis by (intro exI [of _ ?s] exI [of _ "\<lparr>pk_N = 65537, pk_E = 65537\<rparr>"]) simp
qed

text \<open>C34. The key set that the test key generator writes is one the verifier takes its key from: when the generator
  exits with 0, either both files were there and stay, or the private key of a new pair is in the one file,
  readable for its owner only if the file is new, and reading the other as a key set and looking up the test
  key gives the public key of the same pair.\<close>

theorem test_keys_verify:
  assumes "run_state (keygen_main rsa_GenerateKey) d = (0, d')"
    and "\<And>k. rsa_GenerateKey = Inr k \<Longrightarrow> 0 \<le> pk_E (rk_PublicKey k) \<and> pk_E (rk_PublicKey k) < 2 ^ 63"
  shows "dk_files d' = dk_files d \<and> dk_files d privateKeyPath \<noteq> None \<and> dk_files d jwksPath \<noteq> None \<or>
    (\<exists>k j s mode mode'. rsa_GenerateKey = Inr k \<and>
       dk_files d' privateKeyPath = Some (PEM_block ''RSA PRIVATE KEY'' (rk_PKCS1 k), mode) \<and>
       (dk_files d privateKeyPath = None \<longrightarrow> mode = 384) \<and>
       dk_files d' jwksPath = Some (JSON_text j, mode') \<and> decode_JWKSet j = Some s \<and>
       findPublicKey s ''test-key-id'' = Inr (rk_PublicKey k))"
  using keygen_run [OF assms(1)]
proof (elim disjE)
  assume "\<exists>k. rsa_GenerateKey = Inr k \<and> dk_files d' = (dk_files d)
      (privateKeyPath \<mapsto> (PEM_block ''RSA PRIVATE KEY'' (rk_PKCS1 k), kept_mode d privateKeyPath 384),
       jwksPath \<mapsto> (JSON_text (gen_JWKS_json (test_jwks (rk_PublicKey k))), kept_mode d jwksPath 420))"
  then obtain k where k: "rsa_GenerateKey = Inr k" and files: "dk_files d' = (dk_files d)
      (privateKeyPath \<mapsto> (PEM_block ''RSA PRIVATE KEY'' (rk_PKCS1 k), kept_mode d privateKeyPath 384),
       jwksPath \<mapsto> (JSON_text (gen_JWKS_json (test_jwks (rk_PublicKey k))), kept_mode d jwksPath 420))" by blast
  from test_jwks_verifies [of "rk_PublicKey k"] assms(2) [OF k] obtain s where
    "decode_JWKSet (gen_JWKS_json (test_jwks (rk_PublicKey k))) = Some s" "findPublicKey s ''test-key-id'' = Inr (rk_PublicKey k)" by blast
  then show ?thesis using k files
    by (intro disjI2 exI conjI) (auto simp: kept_mode_def privateKeyPath_def jwksPath_def)
qed simp

theorem test_keys_verify_witness:
  "\<exists>d' j s mode'. run_state (keygen_main (Inr sample_pair)) empty_disk = (0, d') \<and>
     dk_files d' privateKeyPath = Some (PEM_block ''RSA PRIVATE KEY'' (rk_PKCS1 sample_pair), 384) \<and>
     dk_files d' jwksPath = Some (JSON_text j, mode') \<and>
     decode_JWKSet j = Some s \<and> findPublicKey s ''test-key-id'' = Inr (rk_PublicKey sample_pair)"
proof -
  have "0 \<le> pk_E (rk_PublicKey k) \<and> pk_E (rk_PublicKey k) < 2 ^ 63" if "(Inr sample_pair :: gerror + RSAPrivateKey) = Inr k" for k
    using that by (auto simp: sample_pair_def)
  from test_keys_verify [OF sample_keygen this] show ?thesis using sample_keygen by fastforce
qed

text \<open>C35. What a session stores of a user comes back: every field, and the right to upload or download
  exactly as before, although permissions that grant nothing come back as none.\<close>

theorem session_keeps_rights:
  assumes "wf_user u" and "UserInfo_Serialize (Some u) = Inr data"
  shows "\<exists>v. UserInfo_Deserialize data = Inr v \<and> v\<lparr>ui_permissions := ui_permissions u\<rparr> = u \<and>
    (\<forall>oper \<in> {''upload'', ''download''}. checkPermissions (Some v) oper = checkPermissions (Some u) oper) \<and>
    (\<forall>p. ui_permissions u = Some p \<longrightarrow> grants_something p \<longrightarrow> v = u)"
proof -
  have "CanUpload p \<Longrightarrow> grants_something p" "CanDownload p \<Longrightarrow> grants_something p" for p
    by (auto dest: CanUpload_CanDownload grants_something_CanDownload)
  then have "checkPermissions (Some (session_view u)) oper = checkPermissions (Some u) oper"
    if "oper \<in> {''upload'', ''download''}" for oper
    using that by (auto simp: checkPermissions_def session_view_def split: option.splits)
  moreover have "(session_view u)\<lparr>ui_permissions := ui_permissions u\<rparr> = u" by (simp add: session_view_def)
  moreover have "session_view u = u" if "ui_permissions u = Some p" "grants_something p" for p
    using that by (simp add: session_view_def)
  ultimately show ?thesis using UserInfo_roundtrip [OF assms] by blast
qed

theorem session_keeps_rights_witness:
  "\<exists>u v data. UserInfo_Serialize (Some u) = Inr data \<and> UserInfo_Deserialize data = Inr v \<and> ui_permissions u \<noteq> ui_permissions v \<and>
     checkPermissions (Some v) ''download'' = checkPermissions (Some u) ''download''"
proof -
  define u :: UserInfo where "u = \<lparr>ui_sub = ''42'', ui_email = [], ui_name = [], ui_provider = ProviderTypeGitHub,
    ui_repository = Some sample_repo, ui_ref = [], ui_permissions = Some (NewRepositoryPermissions False False False False False)\<rparr>"
  have u: "wf_user u" by (simp add: wf_user_def u_def)
  obtain data where data: "UserInfo_Serialize (Some u) = Inr data" using UserInfo_Serialize_Some by blast
  have "session_view u \<noteq> u" by (simp add: session_view_def u_def grants_something_def NewRepositoryPermissions_def)
  then have "ui_permissions (session_view u) \<noteq> ui_permissions u" by (auto simp: session_view_def)
  moreover from session_keeps_rights [OF u data] UserInfo_roundtrip [OF u data]
  have "checkPermissions (Some (session_view u)) ''download'' = checkPermissions (Some u) ''download''" by auto
  ultimately show ?thesis using data UserInfo_roundtrip [OF u data]
    by (intro exI [of _ u] exI [of _ "session_view u"] exI [of _ data]) auto
qed

text \<open>C36. The program starts with what its environment says.  A missing required variable ends it before it has
  touched anything, with exit code 1; with only the required ones set it runs on the defaults, among them
  server timeouts of 30 seconds, which end a transfer long before the proxy timeout of ten minutes does; and
  the required values are taken as they are.\<close>

theorem settings_loaded:
  assumes "documented_envconfig ec" and "unprefixed ec environ"
  shows "(\<forall>name \<in> set required_names. environ name = None \<longrightarrow>
       (\<exists>err. run_state (run_start rt ec environ) w = (Inl err, w) \<and>
          launch (fst (run_state (run_start rt ec environ) w)) =
            \<lparr>pr_phase = Returned (Some err), pr_serving = Gone, pr_errChan = [], pr_closed = False, pr_quit = False,
              pr_log = [''application failed'']\<rparr>)) \<and>
    (dom environ = set required_names \<longrightarrow> Load ec environ = Inr (default_config environ) \<and>
       hs_Addr (run_server environ) = '':8080'' \<and>
       hs_ReadTimeout (run_server environ) < sv_ProxyTimeout (cf_Server (default_config environ)) \<and>
       hs_WriteTimeout (run_server environ) < sv_ProxyTimeout (cf_Server (default_config environ))) \<and>
    (\<forall>cfg. Load ec environ = Inr cfg \<longrightarrow> environ ''DATABASE_HOST'' = Some (db_Host (cf_Database cfg)) \<and>
       environ ''S3_BUCKETNAME'' = Some (sc_BucketName (cf_S3 cfg)) \<and> environ ''REDIS_HOST'' = Some (rc_Host (cf_Redis cfg)))"
proof (intro conjI ballI allI impI)
  fix name assume "name \<in> set required_names" "environ name = None"
  from Load_missing [OF assms this] obtain err where "Load ec environ = Inl err" by blast
  then show "\<exists>err. run_state (run_start rt ec environ) w = (Inl err, w) \<and>
      launch (fst (run_state (run_start rt ec environ) w)) = \<lparr>pr_phase = Returned (Some err), pr_serving = Gone, pr_errChan = [],
        pr_closed = False, pr_quit = False, pr_log = [''application failed'']\<rparr>"
    by (intro exI [of _ err]) (simp add: run_start_def launch_def process_defs)
next
  assume d: "dom environ = set required_names"
  from Load_defaults [OF assms d] show "Load ec environ = Inr (default_config environ)" .
  have "''PORT'' \<notin> set required_names" by (simp add: required_names_def)
  then have "environ ''PORT'' = None" using d by blast
  then show "hs_Addr (run_server environ) = '':8080''" by (simp add: run_server_def defaultPort_def)
  show "hs_ReadTimeout (run_server environ) < sv_ProxyTimeout (cf_Server (default_config environ))"
    "hs_WriteTimeout (run_server environ) < sv_ProxyTimeout (cf_Server (default_config environ))"
    by (simp_all add: run_server_def default_config_def Let_def readTimeout_def writeTimeout_def Minute_def Second_def)
next
  fix cfg assume "Load ec environ = Inr cfg"
  from Load_required [OF assms this] show "environ ''DATABASE_HOST'' = Some (db_Host (cf_Database cfg))"
    "environ ''S3_BUCKETNAME'' = Some (sc_BucketName (cf_S3 cfg))" "environ ''REDIS_HOST'' = Some (rc_Host (cf_Redis cfg))" by blast+
qed

theorem settings_loaded_witness:
  "Load sample_envconfig sample_environ = Inr (default_config sample_environ) \<and>
   (\<exists>err. run_state (run_start sample_runtime sample_envconfig (\<lambda>name. None)) sample_world = (Inl err, sample_world))"
proof
  show "Load sample_envconfig sample_environ = Inr (default_config sample_environ)"
    using settings_loaded [OF sample_envconfig_ok, of sample_environ] sample_environ_dom by blast
  have "''S3_REGION'' \<in> set required_names" by (simp add: required_names_def)
  then show "\<exists>err. run_state (run_start sample_runtime sample_envconfig (\<lambda>name. None)) sample_world = (Inl err, sample_world)"
    using settings_loaded [OF sample_envconfig_ok, of "\<lambda>name. None"] by blast
qed



text \<open>The two TLS modes that check the server's certificate can be configured but never start: no
  setting names the file of the certificate authority, so its empty name is read, and the program gives
  up before it has called anything.\<close>

theorem verify_modes_never_start:
  assumes "db_SSLMode (cf_Database cfg) \<in> {''verify-ca'', ''verify-full''}" and "os_ReadFile (rt_files rt) [] = Inl e"
  shows "\<exists>err. run_state (run_program rt cfg) w = (Inl err, w)"
  using run_program_verify_mode [OF assms] .

theorem verify_modes_never_start_witness:
  "\<exists>cfg err. run_state (run_program sample_runtime cfg) sample_world = (Inl err, sample_world)"
proof -
  let ?cfg = "sample_config\<lparr>cf_Database := (cf_Database sample_config)\<lparr>db_SSLMode := ''verify-full''\<rparr>\<rparr>"
  have "db_SSLMode (cf_Database ?cfg) \<in> {''verify-ca'', ''verify-full''}"
    and "os_ReadFile (rt_files sample_runtime) [] = Inl (Plain ''no such file'')" by (simp_all add: sample_runtime_def)
  from verify_modes_never_start [OF this] show ?thesis by blast
qed



text \<open>A transaction that began ends by exactly one of commit and rollback, as the last thing that
  happens: by the commit exactly when the function succeeded; and success means that both the
  function and the commit did.\<close>

theorem transaction_ends_once:
  assumes "run_state (WithTransaction tx fn) w = (r, w')"
  shows "(\<exists>e. run_state (tx_Begin tx) w = (Inl e, w') \<and> r = Inl (Wrap e)) \<or>
    (\<exists>v1 v2 q. run_state (tx_Begin tx) w = (Inr (), v1) \<and> run_state fn v1 = (q, v2) \<and>
       (\<exists>z. q = Inr () \<and> run_state (tx_Commit tx) v2 = (z, w') \<and> (r = Inr () \<longleftrightarrow> z = Inr ()) \<or>
        (\<exists>e. q = Inl e) \<and> run_state (tx_Rollback tx) v2 = (z, w') \<and> (\<exists>e. r = Inl e) \<and>
          (\<forall>e. q = Inl e \<longrightarrow> is_panic e \<or> z = Inr () \<longrightarrow> r = Inl e)))"
  using WithTransaction_run [OF assms] .

theorem transaction_ends_once_witness:
  "\<exists>tx fn. run_state (WithTransaction tx fn) [] = (Inl (Plain ''no''), [''begin'', ''insert'', ''rollback''])"
proof -
  define say :: "string \<Rightarrow> (string list, gerror + unit) state" where "say s = State (\<lambda>l. (Inr (), l @ [s]))" for s
  define fn :: "(string list, gerror + unit) state" where "fn = State (\<lambda>l. (Inl (Plain ''no''), l @ [''insert'']))"
  let ?tx = "\<lparr>tx_Begin = say ''begin'', tx_Commit = say ''commit'', tx_Rollback = say ''rollback''\<rparr>"
  obtain r l where run: "run_state (WithTransaction ?tx fn) [] = (r, l)" by fastforce
  from transaction_ends_once [OF run] have "r = Inl (Plain ''no'') \<and> l = [''begin'', ''insert'', ''rollback'']"
    by (auto simp: say_def fn_def)
  with run show ?thesis by blast
qed

section \<open>Readiness and logs\<close>

text \<open>C39. The readiness probe asks every dependency, in order, and says ready exactly when none of its
  three calls fails; its answer lists them all.\<close>

theorem readiness_answer:
  assumes "run_state (serve p Readyz c) w = (r, w')"
  shows "\<exists>resp results. r = Replied resp None \<and>
    hp_status resp = (if list_ex call_failed (take 3 (w_faults w)) then 503 else 200) \<and>
    hp_content resp = JSONContent (JObject [(''details'', JArray (convertResultsToMap (pg_error_text p) results)),
      (''status'', JString (if list_ex call_failed (take 3 (w_faults w)) then ''not ready'' else ''ready''))]) \<and>
    map hr_Name results = [''postgres'', ''redis'', ''s3''] \<and>
    list_all hr_Healthy results = (\<not> list_ex call_failed (take 3 (w_faults w)))"
proof -
  obtain results err v where d: "run_state (ExecuteDetails program_checkers) w = ((results, err), v)" by (metis surj_pair)
  then have rc: "run_state (run_checkers program_checkers) w = (results, v)"
    by (cases "run_state (run_checkers program_checkers) w") (simp add: ExecuteDetails_def)
  have "length program_checkers = 3" by (simp add: program_checkers_def)
  with run_checkers_calls [OF ballI [OF program_checkers_one_call] rc]
  have healthy: "list_all hr_Healthy results \<longleftrightarrow> \<not> list_ex call_failed (take 3 (w_faults w))" by simp
  have names: "map hr_Name results = [''postgres'', ''redis'', ''s3'']"
    using ExecuteDetails_run [OF d] by (simp add: program_checkers_def NewPostgresHealthChecker_def
        NewRedisHealthChecker_def NewS3HealthChecker_def)
  let ?down = "list_ex call_failed (take 3 (w_faults w))"
  have "err = None \<longleftrightarrow> \<not> ?down"
    using ExecuteDetails_run [OF d] healthy by simp
  with assms d have "r = Replied (c_JSON [] (if ?down then 503 else 200) (JObject [(''details'', JArray (convertResultsToMap (pg_error_text p) results)),
      (''status'', JString (if ?down then ''not ready'' else ''ready''))])) None"
    by (auto simp: ReadyzHandler_Handle_def program_readiness_def split: option.splits)
  then show ?thesis using names healthy by (intro exI conjI) (assumption | simp add: c_JSON_def)+
qed

theorem readiness_answer_witness:
  "\<exists>resp w'. run_state (serve sample_program Readyz sample_request) (sample_world\<lparr>w_faults := [Lost Timeout]\<rparr>) =
     (Replied resp None, w') \<and> hp_status resp = 503"
proof -
  let ?w = "sample_world\<lparr>w_faults := [Lost Timeout]\<rparr>"
  obtain r w' where run: "run_state (serve sample_program Readyz sample_request) ?w = (r, w')" by fastforce
  from readiness_answer [OF run] obtain resp where "r = Replied resp None"
    "hp_status resp = (if list_ex call_failed (take 3 (w_faults ?w)) then 503 else 200)" by blast
  with run show ?thesis by (intro exI [of _ resp] exI [of _ w']) simp
qed

text \<open>Whatever attribute a log record carries, however deep its groups, the values under sensitive
  keys are blanked, and every key and all other values stay.\<close>

theorem logged_attributes_masked:
  "leaves (MaskSensitiveAttrs a) = map (\<lambda>(key, val). (key, if is_secret key then ''[REDACTED]'' else val)) (leaves a)"
  by (rule mask_leaves)

text \<open>C40. Nothing secret reaches the log through an attribute or a query.  Of an attribute, however deep its
  groups, the values under sensitive keys are blanked and everything else stays.  The record of a request
  shows its URI only through MaskSensitiveParams: one that parses and has a query is logged with the mask in
  place of every sensitive parameter and the values of every other parameter unchanged, for a URL library that
  writes a query back as it is given.\<close>

theorem log_masked:
  assumes "url_Parse (lv_URI r) = Some u" and "lv_URI r \<noteq> []" and "parse_query (pu_RawQuery u) = query" and "query \<noteq> []"
    and "url_Parse (pu_with_query u (masked_query query)) = Some v" and "pu_RawQuery v = masked_query query"
  shows "leaves (MaskSensitiveAttrs a) = map (\<lambda>(k, val). (k, if is_secret k then ''[REDACTED]'' else val)) (leaves a) \<and>
    (\<exists>uri. map snd (filter (\<lambda>p. fst p = ''uri'') (concat (map (\<lambda>a. leaves (MaskSensitiveAttrs a))
        (snd (snd (LogValuesFunc url_Parse r)))))) = [uri] \<and> url_Parse uri = Some v) \<and>
    query_values (parse_query (pu_RawQuery v)) key =
      (if key \<in> set sensitiveParams then (if query_values query key = [] then [] else [maskValue]) else query_values query key)"
  using assms masked_query_values [of query key] mask_leaves [of a] logged_uri [of url_Parse r]
  by (simp add: MaskSensitiveParams_def)

theorem log_masked_witness:
  "\<exists>url_Parse uri v. map snd (filter (\<lambda>p. fst p = ''uri'') (concat (map (\<lambda>a. leaves (MaskSensitiveAttrs a)) (snd (snd
       (LogValuesFunc url_Parse \<lparr>lv_Method = ''GET'', lv_URI = ''code=s3cret'', lv_Status = 302, lv_Latency = 7, lv_Error = None\<rparr>)))))) = [uri] \<and>
     url_Parse uri = Some v \<and> query_values (parse_query (pu_RawQuery v)) ''code'' = [maskValue] \<and>
     leaves (MaskSensitiveAttrs (Group ''auth'' [Leaf ''token'' ''s3cret''])) = [(''token'', ''[REDACTED]'')]"
proof -
  let ?a = "Group ''auth'' [Leaf ''token'' ''s3cret'']"
  let ?r = "\<lparr>lv_Method = ''GET'', lv_URI = ''code=s3cret'', lv_Status = 302, lv_Latency = 7, lv_Error = None\<rparr>"
  define url_Parse where "url_Parse s = Some \<lparr>pu_RawQuery = s, pu_with_query = (\<lambda>q. q)\<rparr>" for s :: string
  have query: "parse_query ''code=s3cret'' = [(''code'', ''s3cret'')]" by code_simp
  have secret: "is_secret ''token''" by code_simp
  let ?v = "\<lparr>pu_RawQuery = masked_query [(''code'', ''s3cret'')], pu_with_query = (\<lambda>q. q)\<rparr>"
  have all: "leaves (MaskSensitiveAttrs ?a) = map (\<lambda>(k, val). (k, if is_secret k then ''[REDACTED]'' else val)) (leaves ?a) \<and>
    (\<exists>uri. map snd (filter (\<lambda>p. fst p = ''uri'') (concat (map (\<lambda>a. leaves (MaskSensitiveAttrs a))
        (snd (snd (LogValuesFunc url_Parse ?r)))))) = [uri] \<and> url_Parse uri = Some ?v) \<and>
    query_values (parse_query (pu_RawQuery ?v)) ''code'' = (if ''code'' \<in> set sensitiveParams then
      (if query_values [(''code'', ''s3cret'')] ''code'' = [] then [] else [maskValue]) else query_values [(''code'', ''s3cret'')] ''code'')"
    by (rule log_masked [of url_Parse ?r "\<lparr>pu_RawQuery = ''code=s3cret'', pu_with_query = (\<lambda>q. q)\<rparr>" "[(''code'', ''s3cret'')]" ?v ?a "''code''"])
      (simp_all add: url_Parse_def query)
  from all [THEN conjunct2, THEN conjunct1] obtain uri where "map snd (filter (\<lambda>p. fst p = ''uri'') (concat (map
      (\<lambda>a. leaves (MaskSensitiveAttrs a)) (snd (snd (LogValuesFunc url_Parse ?r)))))) = [uri]" "url_Parse uri = Some ?v"
    by (elim exE conjE) (rule that)
  moreover have "query_values (parse_query (pu_RawQuery ?v)) ''code'' = [maskValue]"
    using all [THEN conjunct2, THEN conjunct2] by (simp add: query_values_def sensitiveParams_def)
  moreover have "leaves (MaskSensitiveAttrs ?a) = [(''token'', ''[REDACTED]'')]" using all [THEN conjunct1] secret by simp
  ultimately show ?thesis by (intro exI conjI)
qed

end
